(* ===== verification/Prelude.thy ===== *)
theory Prelude
  imports Main "HOL-Library.Char_ord" "HOL-Library.List_Lexorder"
begin

text \<open>
  Shared vocabulary of the development.  Strings are character lists; \<open>join\<close>, \<open>str_includes\<close> and
  \<open>starts_with\<close> are JavaScript's \<open>Array.prototype.join\<close>, \<open>String.prototype.str_includes\<close> and
  \<open>startsWith\<close>; an object literal is an association list in insertion order.  \<open>qcount\<close> counts the
  \<open>?\<close> placeholders of a SQL text, and the locale \<open>sql_emitter\<close> is the contract every SQL producer of
  the program obeys: it only appends to the parameter array, its text does not depend on what is
  already in that array, and it writes as many placeholders as it appends values.
\<close>

section \<open>Collections of facts\<close>

named_theorems arity_simps \<open>placeholder counts of the texts the producers write\<close>
named_theorems emit_simps \<open>producers in append-only normal form\<close>

section \<open>Strings\<close>

type_synonym formatter = "string \<Rightarrow> string \<Rightarrow> string"

fun join :: "string \<Rightarrow> string list \<Rightarrow> string" where
  "join sep [] = []"
| "join sep [x] = x"
| "join sep (x # y # ys) = x @ sep @ join sep (y # ys)"

fun starts_with :: "string \<Rightarrow> string \<Rightarrow> bool" where
  "starts_with [] s = True"
| "starts_with (p # ps) [] = False"
| "starts_with (p # ps) (c # cs) = (p = c \<and> starts_with ps cs)"

fun str_includes :: "string \<Rightarrow> string \<Rightarrow> bool" where
  "str_includes [] p = (p = [])"
| "str_includes (c # cs) p = (starts_with p (c # cs) \<or> str_includes cs p)"

text \<open>A single-quoted SQL literal (\<open>0x27\<close> is the quote, \<open>0x22\<close> the double quote, \<open>0x5C\<close> the backslash).\<close>

definition squoted :: "string \<Rightarrow> string" where
  "squoted s = CHR 0x27 # s @ [CHR 0x27]"

text \<open>\<open>s.replace(c, r)\<close> with a one-character pattern: the first occurrence only.\<close>

fun replace_first :: "char \<Rightarrow> string \<Rightarrow> string \<Rightarrow> string" where
  "replace_first c r [] = []"
| "replace_first c r (x # xs) = (if x = c then r @ xs else x # replace_first c r xs)"

text \<open>\<open>s.split(c)\<close> with a one-character separator: never empty.\<close>

fun split_on :: "char \<Rightarrow> string \<Rightarrow> string list" where
  "split_on c [] = [[]]"
| "split_on c (x # xs) =
     (if x = c then [] # split_on c xs
      else (case split_on c xs of [] \<Rightarrow> [[x]] | y # ys \<Rightarrow> (x # y) # ys))"

lemma split_on_nonempty [simp]: "split_on c s \<noteq> []"
  by (induction s) (auto split: list.splits)

lemma starts_with_prefix: "starts_with p s \<longleftrightarrow> (\<exists>r. s = p @ r)"
  by (induction p s rule: starts_with.induct) auto

lemma str_includes_sublist: "str_includes s p \<longleftrightarrow> (\<exists>a b. s = a @ p @ b)"
proof (induction s)
  case Nil
  then show ?case by auto
next
  case (Cons c cs)
  show ?case
  proof
    assume "str_includes (c # cs) p"
    then consider r where "c # cs = p @ r" | a b where "cs = a @ p @ b"
      using Cons.IH by (auto simp: starts_with_prefix)
    then show "\<exists>a b. c # cs = a @ p @ b"
      by cases (metis append_Nil, metis append_Cons)
  next
    assume "\<exists>a b. c # cs = a @ p @ b"
    then obtain a b where ab: "c # cs = a @ p @ b" by blast
    show "str_includes (c # cs) p"
    proof (cases a)
      case Nil
      with ab have "starts_with p (c # cs)" by (simp add: starts_with_prefix)
      then show ?thesis by simp
    next
      case (Cons x xs)
      with ab Cons.IH show ?thesis by auto
    qed
  qed
qed

lemma str_includes_append1: "str_includes s p \<Longrightarrow> str_includes (s @ t) p"
  unfolding str_includes_sublist by (metis append.assoc)

lemma str_includes_append2: "str_includes t p \<Longrightarrow> str_includes (s @ t) p"
  unfolding str_includes_sublist by (metis append.assoc)

section \<open>Decimal rendering of integers\<close>

definition digit :: "nat \<Rightarrow> char" where
  "digit n = char_of (48 + n)"

fun show_nat :: "nat \<Rightarrow> string" where
  "show_nat n = (if n < 10 then [digit n] else show_nat (n div 10) @ [digit (n mod 10)])"

declare show_nat.simps [simp del]

definition show_int :: "int \<Rightarrow> string" where
  "show_int i = (if i < 0 then CHR ''-'' # show_nat (nat (- i)) else show_nat (nat i))"

lemma digit_simps:
  "digit 0 = CHR ''0''" "digit 1 = CHR ''1''" "digit (Suc 0) = CHR ''1''" "digit 2 = CHR ''2''" "digit (Suc (Suc 0)) = CHR ''2''"
  "digit 3 = CHR ''3''" "digit 4 = CHR ''4''" "digit 5 = CHR ''5''" "digit 6 = CHR ''6''"
  "digit 7 = CHR ''7''" "digit 8 = CHR ''8''" "digit 9 = CHR ''9''"
  by code_simp+

lemma digit_inj: "a < 10 \<Longrightarrow> b < 10 \<Longrightarrow> digit a = digit b \<Longrightarrow> a = b"
  by (drule arg_cong [where f = "of_char :: char \<Rightarrow> nat"]) (simp add: digit_def)

lemma digit_code: "a < 10 \<Longrightarrow> of_char (digit a) = (48 + a :: nat)"
  by (simp add: digit_def)

definition is_digit :: "char \<Rightarrow> bool" where
  "is_digit c \<longleftrightarrow> 48 \<le> (of_char c :: nat) \<and> of_char c \<le> (57 :: nat)"

lemma is_digit_digit: "a < 10 \<Longrightarrow> is_digit (digit a)"
  by (simp add: is_digit_def digit_code)

lemma show_nat_digits: "\<forall>c \<in> set (show_nat n). is_digit c"
proof (induction n rule: show_nat.induct)
  case (1 n)
  then show ?case by (subst show_nat.simps) (auto simp: is_digit_digit)
qed

lemma show_nat_nonempty [simp]: "show_nat n \<noteq> []"
  by (subst show_nat.simps) simp

lemma show_nat_nonempty' [simp]: "[] \<noteq> show_nat n"
  using show_nat_nonempty [of n] by metis

lemma show_nat_inj: "show_nat a = show_nat b \<Longrightarrow> a = b"
proof (induction a arbitrary: b rule: show_nat.induct)
  case (1 a)
  show ?case
  proof (cases "a < 10")
    case True
    with "1.prems" have "b < 10"
      by (subst (asm) (1 2) show_nat.simps) (auto split: if_splits)
    with True "1.prems" show ?thesis
      by (subst (asm) (1 2) show_nat.simps) (simp add: digit_inj)
  next
    case False
    with "1.prems" have b: "\<not> b < 10"
      by (subst (asm) (1 2) show_nat.simps) (auto split: if_splits)
    have "show_nat a = show_nat (a div 10) @ [digit (a mod 10)]"
      and "show_nat b = show_nat (b div 10) @ [digit (b mod 10)]"
      using False b by (auto simp: show_nat.simps [of a] show_nat.simps [of b])
    with "1.prems" have "show_nat (a div 10) = show_nat (b div 10)"
      and "digit (a mod 10) = digit (b mod 10)"
      by simp_all
    with "1.IH" [OF False] have "a div 10 = b div 10" and "a mod 10 = b mod 10"
      by (auto intro: digit_inj)
    then show ?thesis by (metis div_mult_mod_eq)
  qed
qed

lemma minus_not_digit: "\<not> is_digit (CHR ''-'')"
  by (simp add: is_digit_def)

lemma show_int_inj: "show_int a = show_int b \<Longrightarrow> a = b"
proof -
  assume eq: "show_int a = show_int b"
  have hd_show: "is_digit (hd (show_nat n))" for n
    using show_nat_digits [of n] by (simp add: hd_in_set)
  show "a = b"
    using eq hd_show [of "nat a"] hd_show [of "nat b"] minus_not_digit
    by (auto simp: show_int_def dest!: show_nat_inj split: if_splits)
      (metis list.sel(1))+
qed

section \<open>Errors\<close>

text \<open>
  The errors the modelled code throws, one constructor per throw site; a throwing function returns
  \<open>Inl\<close> of one of them.
\<close>

datatype scp_error =
    PlaceholderMismatch nat nat string
  | LockConflict
  | RequiresConditions string
  | EmptyKeyColumns
  | UnknownDialect string
  | UndeclaredKeyType string string
  | InvalidRelation string string
  | LimitNotInteger string string
  | LimitExceeded int nat string "string option" "string option"
  | MissingPort string
  | MalformedPort string
  | UnsupportedIsolation string
  | UnknownConnection string
  | TxConnectionMismatch string string
  | NoRegistry string
  | EmptyRegistry
  | UnknownSqlType string
  | UndeclaredTable string
  | UndeclaredColumn string string
  | BadCell string
  | WildcardProjection string string
  | InvalidWrite string
  | UnrecoverableWrite string
  | OtherError string

definition bind_r :: "scp_error + 'a \<Rightarrow> ('a \<Rightarrow> scp_error + 'b) \<Rightarrow> scp_error + 'b" where
  "bind_r m f = (case m of Inl e \<Rightarrow> Inl e | Inr x \<Rightarrow> f x)"

lemma bind_r_simps [simp]: "bind_r (Inl e) f = Inl e" "bind_r (Inr x) f = f x"
  by (simp_all add: bind_r_def)

lemma bind_r_Inr_iff: "bind_r m f = Inr y \<longleftrightarrow> (\<exists>x. m = Inr x \<and> f x = Inr y)"
  by (cases m) simp_all

fun map_r :: "('a \<Rightarrow> scp_error + 'b) \<Rightarrow> 'a list \<Rightarrow> scp_error + 'b list" where
  "map_r f [] = Inr []"
| "map_r f (x # xs) = bind_r (f x) (\<lambda>y. bind_r (map_r f xs) (\<lambda>ys. Inr (y # ys)))"

lemma map_r_Inr_length: "map_r f xs = Inr ys \<Longrightarrow> length ys = length xs"
  by (induction xs arbitrary: ys) (auto simp: bind_r_Inr_iff)

lemma map_r_nth: "map_r f xs = Inr ys \<Longrightarrow> k < length xs \<Longrightarrow> f (xs ! k) = Inr (ys ! k)"
proof (induction xs arbitrary: ys k)
  case (Cons x xs)
  then show ?case by (cases k) (auto simp: bind_r_Inr_iff)
qed simp

lemma map_r_cong [fundef_cong]: "xs = ys \<Longrightarrow> (\<And>x. x \<in> set ys \<Longrightarrow> f x = g x) \<Longrightarrow> map_r f xs = map_r g ys"
  by (induction xs arbitrary: ys) auto

lemma map_r_all: "map_r f xs = Inr ys \<Longrightarrow> \<forall>x \<in> set xs. \<forall>y. f x = Inr y \<longrightarrow> P y \<Longrightarrow> \<forall>y \<in> set ys. P y"
  by (induction xs arbitrary: ys) (auto simp: bind_r_Inr_iff)

lemma map_r_Inr: "\<forall>x \<in> set xs. f x = Inr (g x) \<Longrightarrow> map_r f xs = Inr (map g xs)"
  by (induction xs) auto

section \<open>Placeholders\<close>

definition qcount :: "string \<Rightarrow> nat" where
  "qcount s = length (filter (\<lambda>c. c = CHR ''?'') s)"

lemma qcount_Nil [simp]: "qcount [] = 0"
  by (simp add: qcount_def)

lemma qcount_Cons [simp]: "qcount (c # s) = (if c = CHR ''?'' then Suc (qcount s) else qcount s)"
  by (simp add: qcount_def)

lemma qcount_append [simp]: "qcount (s @ t) = qcount s + qcount t"
  by (simp add: qcount_def)

lemma qcount_0_iff: "qcount s = 0 \<longleftrightarrow> CHR ''?'' \<notin> set s"
  by (auto simp: qcount_def filter_empty_conv)

lemma qcount_show_nat [simp]: "qcount (show_nat n) = 0"
  using show_nat_digits [of n] by (auto simp: qcount_0_iff is_digit_def)

lemma qcount_show_int [simp]: "qcount (show_int i) = 0"
  by (simp add: show_int_def)

lemma qcount_join:
  "qcount sep = 0 \<Longrightarrow> qcount (join sep xs) = sum_list (map qcount xs)"
  by (induction sep xs rule: join.induct) auto

lemma length_split_on: "length (split_on (CHR ''?'') s) = Suc (qcount s)"
  by (induction s) (auto split: list.splits)

lemma join_Cons: "join sep (x # xs) = x @ (if xs = [] then [] else sep @ join sep xs)"
  by (cases xs) auto

lemma join_split_on: "join [c] (split_on c s) = s"
  by (induction s) (auto simp: join_Cons split: list.splits if_splits)

lemma join_eq_Nil: "sep \<noteq> [] \<Longrightarrow> join sep xs = [] \<longleftrightarrow> xs = [] \<or> xs = [[]]"
  by (induction sep xs rule: join.induct) auto

lemma join_map_cong: "(\<And>x. x \<in> set xs \<Longrightarrow> f x = g x) \<Longrightarrow> join s (map f xs) = join s (map g xs)"
  by (metis map_cong)

lemma set_join: "set (join sep xs) \<subseteq> set sep \<union> (\<Union>x \<in> set xs. set x)"
  by (induction sep xs rule: join.induct) auto

lemma qcount_squoted [simp]: "qcount (squoted s) = qcount s"
  by (simp add: squoted_def)

lemma sum_list_qcount_0: "\<forall>x \<in> set xs. qcount x = 0 \<Longrightarrow> sum_list (map qcount xs) = 0"
  by (induction xs) auto

lemma qcount_join_names:
  "qcount sep = 0 \<Longrightarrow> \<forall>x \<in> set xs. qcount x = 0 \<Longrightarrow> qcount (join sep xs) = 0"
  by (simp add: qcount_join sum_list_qcount_0)

text \<open>A formatter (\<open>SqlCastFormatter\<close>) that keeps the placeholder it is given.\<close>

definition keeps_placeholder :: "formatter \<Rightarrow> bool" where
  "keeps_placeholder f \<longleftrightarrow> (\<forall>p t. qcount t = 0 \<longrightarrow> qcount (f p t) = qcount p)"

section \<open>Objects as association lists\<close>

text \<open>
  \<open>obj_set\<close> is the assignment \<open>o[k] = v\<close> (and a later key of a spread): an existing key keeps its
  position, a new key goes to the end, which is the order \<open>Object.entries\<close> reports for keys that are
  not array indices.
\<close>

fun obj_set :: "(string \<times> 'v) list \<Rightarrow> string \<Rightarrow> 'v \<Rightarrow> (string \<times> 'v) list" where
  "obj_set [] k v = [(k, v)]"
| "obj_set ((k', v') # ob) k v = (if k' = k then (k, v) # ob else (k', v') # obj_set ob k v)"

definition obj_spread :: "(string \<times> 'v) list \<Rightarrow> (string \<times> 'v) list \<Rightarrow> (string \<times> 'v) list" where
  "obj_spread o1 o2 = fold (\<lambda>(k, v) ob. obj_set ob k v) o2 o1"

lemma map_of_obj_set: "map_of (obj_set o1 k v) = (map_of o1)(k \<mapsto> v)"
  by (induction o1 k v rule: obj_set.induct) auto

lemma set_obj_set: "set (obj_set o1 k v) \<subseteq> insert (k, v) (set o1)"
  by (induction o1 k v rule: obj_set.induct) auto

lemma fst_obj_set: "fst ` set (obj_set o1 k v) = insert k (fst ` set o1)"
  by (induction o1 k v rule: obj_set.induct) auto

lemma distinct_obj_set: "distinct (map fst o1) \<Longrightarrow> distinct (map fst (obj_set o1 k v))"
proof (induction o1 k v rule: obj_set.induct)
  case (2 k' v' ob k v)
  then show ?case using fst_obj_set [of ob k v] by auto
qed simp

lemma obj_set_new: "k \<notin> fst ` set ob \<Longrightarrow> obj_set ob k v = ob @ [(k, v)]"
  by (induction ob k v rule: obj_set.induct) auto

lemma fold_obj_set_append:
  "distinct cs \<Longrightarrow> fst ` set ob \<inter> set cs = {} \<Longrightarrow>
     fold (\<lambda>c ob. obj_set ob c (f c)) cs ob = ob @ map (\<lambda>c. (c, f c)) cs"
  by (induction cs arbitrary: ob) (auto simp: obj_set_new)

lemma fold_obj_set: "distinct cs \<Longrightarrow> fold (\<lambda>c ob. obj_set ob c (f c)) cs [] = map (\<lambda>c. (c, f c)) cs"
  by (simp add: fold_obj_set_append)

lemma size_list_mem: "x \<in> set xs \<Longrightarrow> f x < size_list f xs"
  by (induction xs) auto

section \<open>Grouping into an insertion-ordered map\<close>

text \<open>
  The loop that fills a \<open>Map<key, item[]>\<close>: a new key goes to the end of the map, an item to the end of
  its group.  \<open>dedup\<close> keeps first appearances (the order of a \<open>Set\<close>).
\<close>

fun dedup :: "'a list \<Rightarrow> 'a list" where
  "dedup [] = []"
| "dedup (x # xs) = x # filter (\<lambda>y. y \<noteq> x) (dedup xs)"

fun group_push :: "'k \<Rightarrow> 'a \<Rightarrow> ('k \<times> 'a list) list \<Rightarrow> ('k \<times> 'a list) list" where
  "group_push k x [] = [(k, [x])]"
| "group_push k x ((k', xs) # gs) = (if k' = k then (k', xs @ [x]) # gs else (k', xs) # group_push k x gs)"

definition group_by :: "('a \<Rightarrow> 'k) \<Rightarrow> 'a list \<Rightarrow> ('k \<times> 'a list) list" where
  "group_by key xs = fold (\<lambda>x gs. group_push (key x) x gs) xs []"

lemma set_dedup [simp]: "set (dedup xs) = set xs"
  by (induction xs) auto

lemma distinct_dedup [simp]: "distinct (dedup xs)"
  by (induction xs) auto

lemma dedup_append: "dedup (xs @ ys) = dedup xs @ filter (\<lambda>y. y \<notin> set xs) (dedup ys)"
  by (induction xs) (auto simp: filter_filter intro: filter_cong)

lemma dedup_known: "x \<in> set xs \<Longrightarrow> dedup (xs @ x # ys) = dedup (xs @ ys)"
  by (auto simp: dedup_append filter_filter intro!: filter_cong)

lemma dedup_distinct: "distinct xs \<Longrightarrow> dedup xs = xs"
  by (induction xs) (auto simp: filter_id_conv)

lemma dedup_snoc: "dedup (xs @ [x]) = (if x \<in> set xs then dedup xs else dedup xs @ [x])"
  by (induction xs) auto

lemma group_push_known:
  "distinct ks \<Longrightarrow> k \<in> set ks \<Longrightarrow>
     group_push k x (map (\<lambda>k'. (k', f k')) ks) = map (\<lambda>k'. (k', if k' = k then f k' @ [x] else f k')) ks"
  by (induction ks) auto

lemma group_push_new:
  "k \<notin> set ks \<Longrightarrow> group_push k x (map (\<lambda>k'. (k', f k')) ks) = map (\<lambda>k'. (k', f k')) ks @ [(k, [x])]"
  by (induction ks) auto

lemma group_by_eq: "group_by key xs = map (\<lambda>k. (k, filter (\<lambda>x. key x = k) xs)) (dedup (map key xs))"
proof (induction xs rule: rev_induct)
  case (snoc x xs)
  let ?f = "\<lambda>k. filter (\<lambda>x. key x = k) xs"
  have step: "group_by key (xs @ [x]) = group_push (key x) x (map (\<lambda>k. (k, ?f k)) (dedup (map key xs)))"
    using snoc by (simp add: group_by_def)
  show ?case
  proof (cases "key x \<in> set (map key xs)")
    case True
    then show ?thesis
      unfolding step by (subst group_push_known) (auto simp: dedup_snoc)
  next
    case False
    then have "?f (key x) = []" by (metis (mono_tags) filter_False image_eqI set_map)
    moreover have "map (\<lambda>k. (k, ?f k)) (dedup (map key xs))
        = map (\<lambda>k. (k, filter (\<lambda>y. key y = k) (xs @ [x]))) (dedup (map key xs))"
      using False by (intro map_cong) auto
    ultimately show ?thesis
      unfolding step using False by (subst group_push_new) (auto simp: dedup_snoc)
  qed
qed (simp add: group_by_def)

lemma group_by_groups: "(k, g) \<in> set (group_by key xs) \<Longrightarrow> g = filter (\<lambda>x. key x = k) xs \<and> g \<noteq> []"
  by (auto simp: group_by_eq filter_empty_conv)

lemma group_by_keys: "map fst (group_by key xs) = dedup (map key xs)"
  by (simp add: group_by_eq comp_def)

lemma group_by_map_of: "map_of (group_by key xs) k
    = (if k \<in> key ` set xs then Some (filter (\<lambda>x. key x = k) xs) else None)"
  unfolding group_by_eq by (auto simp: map_of_map_restrict restrict_map_def)

lemma group_by_mem: "x \<in> set xs \<Longrightarrow> \<exists>g. (key x, g) \<in> set (group_by key xs) \<and> x \<in> set g"
  by (auto simp: group_by_eq image_iff)

lemma split_on_end: "c \<notin> set s \<Longrightarrow> split_on c s = [s]"
  by (induction s) auto

lemma split_on_append: "c \<notin> set s \<Longrightarrow> split_on c (s @ c # t) = s # split_on c t"
  by (induction s) auto

lemma split_on_join: "xs \<noteq> [] \<Longrightarrow> \<forall>x \<in> set xs. c \<notin> set x \<Longrightarrow> split_on c (join [c] xs) = xs"
  by (induction "[c]" xs rule: join.induct) (auto simp: split_on_end split_on_append)

text \<open>Joining is injective on names that are not empty and do not hold the separator.\<close>

lemma join_inj:
  assumes "\<forall>x \<in> set xs \<union> set ys. c \<notin> set x \<and> x \<noteq> []" and "join [c] xs = join [c] ys"
  shows "xs = ys"
proof (cases "xs = [] \<or> ys = []")
  case True
  then show ?thesis
    using assms join_eq_Nil [of "[c]" xs] join_eq_Nil [of "[c]" ys] by auto
next
  case False
  then show ?thesis
    using assms split_on_join [of xs c] split_on_join [of ys c] by (metis UnI1 UnI2)
qed

section \<open>SQL producers\<close>

text \<open>
  A producer takes the parameter array it appends to and returns its text with the new array, as the
  \<open>compile(params, ...)\<close> methods of the code do by mutation.  \<open>emit_q\<close> is the pair of statements
  \<open>params.push(v); return '?'\<close>; \<open>emit_list\<close> runs a producer over a list, as \<open>xs.map(...)\<close> does.
\<close>

definition emit_q :: "'v \<Rightarrow> 'v list \<Rightarrow> string \<times> 'v list" where
  "emit_q v ps = (''?'', ps @ [v])"

fun emit_list :: "('i \<Rightarrow> 'v list \<Rightarrow> string \<times> 'v list) \<Rightarrow> 'i list \<Rightarrow> 'v list \<Rightarrow> string list \<times> 'v list" where
  "emit_list f [] ps = ([], ps)"
| "emit_list f (x # xs) ps =
     (let (s, ps1) = f x ps; (ss, ps2) = emit_list f xs ps1 in (s # ss, ps2))"

lemma emit_list_cong [fundef_cong]:
  assumes "xs = ys" and "ps = qs" and "\<And>x qs. x \<in> set ys \<Longrightarrow> f x qs = g x qs"
  shows "emit_list f xs ps = emit_list g ys qs"
proof -
  have "(\<And>x qs. x \<in> set xs \<Longrightarrow> f x qs = g x qs) \<Longrightarrow> emit_list f xs ps' = emit_list g xs ps'" for ps'
    by (induction xs arbitrary: ps') (simp_all split: prod.splits)
  with assms show ?thesis by simp
qed

text \<open>
  The two facts every producer built with \<open>emit_list\<close> rests on, for producers that obey the contract
  on the members of one list only (what a recursion over nested values knows).
\<close>

lemma emit_list_Cons_on:
  assumes x: "\<And>ps. f x ps = (fst (f x []), ps @ snd (f x []))"
    and xs: "\<And>ps. emit_list f xs ps = (fst (emit_list f xs []), ps @ snd (emit_list f xs []))"
  shows "emit_list f (x # xs) ps
    = (fst (f x []) # fst (emit_list f xs []), ps @ snd (f x []) @ snd (emit_list f xs []))"
proof -
  obtain s vs where f: "f x [] = (s, vs)" by fastforce
  obtain ss ws where g: "emit_list f xs [] = (ss, ws)" by fastforce
  have "f x ps = (s, ps @ vs)" using x [of ps] by (simp only: f fst_conv snd_conv)
  moreover have "emit_list f xs (ps @ vs) = (ss, (ps @ vs) @ ws)"
    using xs [of "ps @ vs"] by (simp only: g fst_conv snd_conv)
  ultimately show ?thesis by (simp add: f g)
qed

lemma emit_list_append_on:
  assumes "\<And>x ps. x \<in> set xs \<Longrightarrow> f x ps = (fst (f x []), ps @ snd (f x []))"
  shows "emit_list f xs ps = (fst (emit_list f xs []), ps @ snd (emit_list f xs []))"
  using assms
proof (induction xs arbitrary: ps)
  case (Cons x xs)
  have x: "f x ps = (fst (f x []), ps @ snd (f x []))" for ps
    by (rule Cons.prems) simp
  have xs: "emit_list f xs ps = (fst (emit_list f xs []), ps @ snd (emit_list f xs []))" for ps
    by (rule Cons.IH) (rule Cons.prems, simp)
  show ?case
    by (simp only: emit_list_Cons_on [of f x xs, OF x xs] fst_conv snd_conv append_Nil)
qed simp

lemma emit_list_arity_on:
  assumes "\<And>x ps. x \<in> set xs \<Longrightarrow> f x ps = (fst (f x []), ps @ snd (f x []))"
    and "\<And>x. x \<in> set xs \<Longrightarrow> qcount (fst (f x [])) = length (snd (f x []))"
  shows "sum_list (map qcount (fst (emit_list f xs []))) = length (snd (emit_list f xs []))"
  using assms
proof (induction xs)
  case (Cons x xs)
  have x: "f x ps = (fst (f x []), ps @ snd (f x []))" for ps
    by (rule Cons.prems) simp
  have xs: "emit_list f xs ps = (fst (emit_list f xs []), ps @ snd (emit_list f xs []))" for ps
    by (rule emit_list_append_on) (rule Cons.prems, simp)
  have 1: "qcount (fst (f x [])) = length (snd (f x []))"
    by (rule Cons.prems(2)) simp
  have 2: "sum_list (map qcount (fst (emit_list f xs []))) = length (snd (emit_list f xs []))"
    by (rule Cons.IH) (rule Cons.prems, simp)+
  show ?case
    by (simp only: emit_list_Cons_on [of f x xs, OF x xs]) (simp add: 1 2)
qed simp

locale sql_emitter =
  fixes emit :: "'i \<Rightarrow> 'v list \<Rightarrow> string \<times> 'v list"
    and ok :: "'i \<Rightarrow> bool"
  assumes emit_append: "emit i ps = (fst (emit i []), ps @ snd (emit i []))"
    and emit_arity: "ok i \<Longrightarrow> qcount (fst (emit i [])) = length (snd (emit i []))"
begin

lemma emit_list_append:
  "emit_list emit xs ps = (fst (emit_list emit xs []), ps @ snd (emit_list emit xs []))"
  by (rule emit_list_append_on) (rule emit_append)

lemma emit_list_Cons:
  "emit_list emit (x # xs) ps
     = (fst (emit x []) # fst (emit_list emit xs []), ps @ snd (emit x []) @ snd (emit_list emit xs []))"
  by (rule emit_list_Cons_on) (rule emit_append, rule emit_list_append)

lemma emit_list_arity:
  "\<forall>x \<in> set xs. ok x \<Longrightarrow>
     sum_list (map qcount (fst (emit_list emit xs []))) = length (snd (emit_list emit xs []))"
  by (rule emit_list_arity_on) (rule emit_append, blast intro: emit_arity)

lemma emit_join_arity:
  "\<forall>x \<in> set xs. ok x \<Longrightarrow> qcount sep = 0 \<Longrightarrow>
     qcount (join sep (fst (emit_list emit xs []))) = length (snd (emit_list emit xs []))"
  by (simp add: qcount_join emit_list_arity)

end

text \<open>The simplest producer: one placeholder for one value.\<close>

interpretation placeholder: sql_emitter emit_q "\<lambda>_. True"
  by unfold_locales (simp_all add: emit_q_def)

lemma emit_list_q: "emit_list emit_q vs ps = (replicate (length vs) ''?'', ps @ vs)"
  by (induction vs arbitrary: ps) (auto simp: emit_q_def)

end
