(* ===== verification/JsValue.thy ===== *)
theory JsValue
  imports Prelude
begin

text \<open>
  The JavaScript values that reach the SQL compilers, with the value wrappers of \<open>DBValues.ts\<close> (one
  constructor per class) and the condition trees of \<open>DBConditions.ts\<close>: a bound value, a wrapper or a
  nested condition may stand in the same position, so the three types are mutually recursive.

  A number is \<open>JInt\<close> when \<open>Number.isInteger\<close> holds (its magnitude below \<open>1e21\<close>, where \<open>String(n)\<close> is
  the plain decimal), \<open>JFrac\<close> with its rendered text when it is finite and fractional, and \<open>JNonFin\<close>
  for \<open>NaN\<close> and the infinities.  \<open>JBig\<close> is a \<open>bigint\<close>.  \<open>JDate\<close> carries the ISO text (what
  \<open>JSON.stringify\<close> writes) and the display text (what \<open>String(d)\<close> writes, which depends on the time
  zone).  A string is a sequence of characters up to U+00FF.
\<close>

record colref =
  columnName :: string
  tableName :: string

datatype logop = And | Or

datatype jsval =
    JUndef
  | JNull
  | JBool bool
  | JInt int
  | JFrac string
  | JNonFin string
  | JBig int
  | JStr string
  | JDate string string
  | JArr "jsval list"
  | JObj "(string \<times> jsval) list"
  | JTok token
  | JCond conds
and token =
    DBToken jsval string
  | DBImmediateValue string
  | DBNullValue
  | DBNotNullValue
  | DBBoolValue bool
  | DBArrayValue "jsval list"
  | DBDynamicValue string "jsval list"
  | DBRawValue string
  | DBTupleIn "string list" "jsval list list"
  | DBCast jsval string string
  | DBCastArray "jsval list" string
  | DBParentRef colref
  | DBSubquery "colref list" string "colref list" "(colref \<times> jsval) list" string
  | DBExists string "(colref \<times> jsval) list" bool
and conds =
    DBConditions "(string \<times> jsval) list" logop "(conds \<times> logop) list"

type_synonym jsobj = "(string \<times> jsval) list"

text \<open>Reading a property that an object does not have yields \<open>undefined\<close>.\<close>

definition js_get :: "jsobj \<Rightarrow> string \<Rightarrow> jsval" where
  "js_get r k = (case map_of r k of None \<Rightarrow> JUndef | Some v \<Rightarrow> v)"

definition nullish :: "jsval \<Rightarrow> bool" where
  "nullish v \<longleftrightarrow> v = JUndef \<or> v = JNull"

definition is_token :: "jsval \<Rightarrow> bool" where
  "is_token v = (case v of JTok _ \<Rightarrow> True | _ \<Rightarrow> False)"

text \<open>\<open>instanceof DBImmediateValue\<close> with the inherited \<open>value\<close> field: the class and its subclasses.\<close>

fun immediate_text :: "token \<Rightarrow> string option" where
  "immediate_text (DBImmediateValue s) = Some s"
| "immediate_text DBNullValue = Some ''NULL''"
| "immediate_text DBNotNullValue = Some ''NOT NULL''"
| "immediate_text (DBBoolValue b) = Some (if b then ''TRUE'' else ''FALSE'')"
| "immediate_text (DBRawValue s) = Some s"
| "immediate_text _ = None"

text \<open>\<open>String(v)\<close>.\<close>

fun js_string :: "jsval \<Rightarrow> string" where
  "js_string JUndef = ''undefined''"
| "js_string JNull = ''null''"
| "js_string (JBool b) = (if b then ''true'' else ''false'')"
| "js_string (JInt i) = show_int i"
| "js_string (JFrac s) = s"
| "js_string (JNonFin s) = s"
| "js_string (JBig i) = show_int i"
| "js_string (JStr s) = s"
| "js_string (JDate ts disp) = disp"
| "js_string (JArr vs) = join '','' (map (\<lambda>v. if nullish v then [] else js_string v) vs)"
| "js_string (JObj _) = ''[object Object]''"
| "js_string (JTok _) = ''[object Object]''"
| "js_string (JCond _) = ''[object Object]''"

lemma js_get_obj_set [simp]: "js_get (obj_set r k v) k' = (if k' = k then v else js_get r k')"
  by (simp add: js_get_def map_of_obj_set)

lemma js_get_Nil [simp]: "js_get [] k = JUndef"
  by (simp add: js_get_def)

lemma js_get_Cons: "js_get ((k, v) # r) k' = (if k' = k then v else js_get r k')"
  by (simp add: js_get_def)

lemma not_nullish [simp]: "\<not> nullish (JInt i)" "\<not> nullish (JStr s)" "\<not> nullish (JBig i)"
  "nullish JUndef" "nullish JNull"
  by (simp_all add: nullish_def)

end
