(* ===== verification/MakeSQL.thy ===== *)
theory MakeSQL
  imports JsValue
begin

text \<open>
  \<open>src/scp/makesql/makesql.ts\<close> and \<open>handler.ts\<close>: the one catalog leaf \<open>makeSQL\<close>, its assembly
  (dropping skipped components, splicing nested ones), the placeholder render and the synchronous
  handler.  A component is the object \<open>{ sql, params, skip? }\<close>; a parameter is a nested component
  exactly when the structural guard \<open>isMakeSQL\<close> says so, hence the parameters are plain values here
  too.
\<close>

section \<open>Components and their assembly\<close>

record makesql =
  sql :: string
  params :: "jsval list"
  skip :: bool

datatype dialect = Postgres | Mysql | Sqlite

definition mk :: "string \<Rightarrow> jsval list \<Rightarrow> makesql" where
  "mk s ps = \<lparr>sql = s, params = ps, skip = False\<rparr>"

definition isMakeSQL :: "jsval \<Rightarrow> makesql option" where
  "isMakeSQL p = (case p of
      JObj ob \<Rightarrow>
        (case (map_of ob ''sql'', map_of ob ''params'') of
           (Some (JStr s), Some (JArr ps)) \<Rightarrow>
             Some \<lparr>sql = s, params = ps, skip = (map_of ob ''skip'' = Some (JBool True))\<rparr>
         | _ \<Rightarrow> None)
    | _ \<Rightarrow> None)"

lemma isMakeSQL_flat [simp]: "isMakeSQL (JArr vs) = None" "isMakeSQL (JStr s) = None" "isMakeSQL JNull = None"
  by (simp_all add: isMakeSQL_def)

text \<open>The nested components have smaller parameter lists, so the assembly terminates.\<close>

lemma map_of_size: "map_of ob k = Some v \<Longrightarrow> size v < size_list (size_prod (\<lambda>_. 0) size) ob"
  by (drule map_of_SomeD) (auto dest: size_list_mem [of _ _ "size_prod (\<lambda>_. 0) size"])

lemma isMakeSQL_size: "isMakeSQL p = Some m \<Longrightarrow> size_list size (params m) < size p"
  by (auto simp: isMakeSQL_def dest!: map_of_size split: jsval.splits option.splits)

function assemble :: "makesql \<Rightarrow> scp_error + (string \<times> jsval list)"
and assemble_params :: "jsval list \<Rightarrow> string list \<Rightarrow> scp_error + (string \<times> jsval list)" where
  "assemble node =
     (if skip node then Inr ([], [])
      else (let chunks = split_on (CHR ''?'') (sql node) in
        if length chunks - 1 \<noteq> length (params node)
        then Inl (PlaceholderMismatch (length chunks - 1) (length (params node)) (sql node))
        else (case assemble_params (params node) (tl chunks) of
                Inl e \<Rightarrow> Inl e
              | Inr (s, vs) \<Rightarrow> Inr (hd chunks @ s, vs))))"
| "assemble_params [] cs = Inr ([], [])"
| "assemble_params (p # ps) [] = Inr ([], [])"
| "assemble_params (p # ps) (c # cs) =
     (case (case isMakeSQL p of Some m \<Rightarrow> assemble m | None \<Rightarrow> Inr (''?'', [p])) of
        Inl e \<Rightarrow> Inl e
      | Inr (s, vs) \<Rightarrow>
          (case assemble_params ps cs of
             Inl e \<Rightarrow> Inl e
           | Inr (s', vs') \<Rightarrow> Inr (s @ c @ s', vs @ vs')))"
  by pat_completeness auto

termination
  by (relation "measure (\<lambda>x. case x of
       Inl m \<Rightarrow> Suc (size_list size (params m))
     | Inr (ps, _) \<Rightarrow> size_list size ps)")
    (auto dest!: isMakeSQL_size)

declare assemble.simps [simp del]

text \<open>\<open>composeMakeSQL\<close>: the present components concatenate, in order; an error of one is thrown.\<close>

fun compose :: "makesql list \<Rightarrow> scp_error + (string \<times> jsval list)" where
  "compose [] = Inr ([], [])"
| "compose (n # ns) =
     (case assemble n of
        Inl e \<Rightarrow> Inl e
      | Inr (s, vs) \<Rightarrow>
          (case compose ns of Inl e \<Rightarrow> Inl e | Inr (s', vs') \<Rightarrow> Inr (s @ s', vs @ vs')))"

section \<open>Placeholder rendering\<close>

fun render_loop :: "bool \<Rightarrow> nat \<Rightarrow> string \<Rightarrow> string" where
  "render_loop inString index [] = []"
| "render_loop inString index (ch # rest) =
     (if inString then ch # render_loop (ch \<noteq> CHR 0x27) index rest
      else if ch = CHR 0x27 then ch # render_loop True index rest
      else if ch = CHR ''?'' then CHR ''$'' # show_nat (Suc index) @ render_loop False (Suc index) rest
      else ch # render_loop False index rest)"

definition renderPlaceholders :: "string \<Rightarrow> dialect \<Rightarrow> string" where
  "renderPlaceholders s d = (if d \<noteq> Postgres then s else render_loop False 0 s)"

text \<open>\<open>toDollarPlaceholders\<close> of \<open>dialect.ts\<close>: the scan that does not look at quotes.\<close>

fun toDollar_loop :: "nat \<Rightarrow> string \<Rightarrow> string" where
  "toDollar_loop n [] = []"
| "toDollar_loop n (ch # rest) =
     (if ch = CHR ''?'' then CHR ''$'' # show_nat (Suc n) @ toDollar_loop (Suc n) rest
      else ch # toDollar_loop n rest)"

definition toDollarPlaceholders :: "string \<Rightarrow> string" where
  "toDollarPlaceholders s = toDollar_loop 0 s"

section \<open>The handler\<close>

text \<open>
  The driver is a parameter: a function from the rendered statement and its bound values, acting on
  a state.  \<open>makeSqlHandlerSync\<close> returns the driver's rows, or no rows for a skipped component.
\<close>

definition renderPorts :: "makesql \<Rightarrow> dialect \<Rightarrow> scp_error + (string \<times> jsval list)" where
  "renderPorts node d = (case assemble node of
      Inl e \<Rightarrow> Inl e
    | Inr (s, vs) \<Rightarrow> Inr (renderPlaceholders s d, vs))"

definition makeSqlHandler ::
  "(string \<Rightarrow> jsval list \<Rightarrow> 's \<Rightarrow> jsobj list \<times> 's) \<Rightarrow> dialect \<Rightarrow> makesql \<Rightarrow> 's
     \<Rightarrow> (scp_error + jsobj list) \<times> 's" where
  "makeSqlHandler exec d node st =
     (if skip node then (Inr [], st)
      else (case renderPorts node d of
          Inl e \<Rightarrow> (Inl e, st)
        | Inr (s, vs) \<Rightarrow> (let (rows, st') = exec s vs st in (Inr rows, st'))))"

section \<open>Lemmas on assembly\<close>

lemma split_on_chunks: "\<forall>x \<in> set (split_on c s). c \<notin> set x"
  by (induction s) (auto split: list.splits)

lemma split_on_qfree: "x \<in> set (split_on (CHR ''?'') s) \<Longrightarrow> qcount x = 0"
  using split_on_chunks [of "CHR ''?''" s] by (auto simp: qcount_0_iff)

lemma assemble_unfold:
  "\<not> skip node \<Longrightarrow> assemble node =
     (if qcount (sql node) \<noteq> length (params node)
      then Inl (PlaceholderMismatch (qcount (sql node)) (length (params node)) (sql node))
      else (case assemble_params (params node) (tl (split_on (CHR ''?'') (sql node))) of
              Inl e \<Rightarrow> Inl e
            | Inr (s, vs) \<Rightarrow> Inr (hd (split_on (CHR ''?'') (sql node)) @ s, vs)))"
  by (subst assemble.simps) (simp add: length_split_on Let_def)

lemma assemble_skip [simp]: "skip node \<Longrightarrow> assemble node = Inr ([], [])"
  by (simp add: assemble.simps)

lemma assemble_arity_both:
  "assemble node = Inr (s, vs) \<Longrightarrow> qcount s = length vs"
  "assemble_params ps cs = Inr (s, vs) \<Longrightarrow> \<forall>c \<in> set cs. qcount c = 0 \<Longrightarrow> qcount s = length vs"
proof (induction node and ps cs arbitrary: s vs and s vs rule: assemble_assemble_params.induct)
  case (1 node)
  show ?case
  proof (cases "skip node")
    case False
    with "1.prems" obtain s' where
      "assemble_params (params node) (tl (split_on (CHR ''?'') (sql node))) = Inr (s', vs)"
      and s: "s = hd (split_on (CHR ''?'') (sql node)) @ s'"
      by (auto simp: assemble_unfold split: if_splits sum.splits)
    moreover have "\<not> length (split_on (CHR ''?'') (sql node)) - 1 \<noteq> length (params node)"
      using "1.prems" False by (auto simp: assemble_unfold length_split_on split: if_splits)
    ultimately have "qcount s' = length vs"
      using "1.IH" [OF False refl] by (metis (no_types) list.set_sel(2) split_on_nonempty split_on_qfree)
    moreover have "qcount (hd (split_on (CHR ''?'') (sql node))) = 0"
      by (rule split_on_qfree [OF hd_in_set]) simp
    ultimately show ?thesis using s by simp
  qed (use "1.prems" in simp)
next
  case (4 p ps c cs)
  then show ?case
    by (cases "isMakeSQL p") (auto split: sum.splits)
qed auto

lemma assemble_arity: "assemble node = Inr (s, vs) \<Longrightarrow> qcount s = length vs"
  by (rule assemble_arity_both(1))

lemma assemble_bound_only:
  "assemble node = Inr (s, vs) \<Longrightarrow> \<forall>v \<in> set vs. isMakeSQL v = None"
  "assemble_params ps cs = Inr (s, vs) \<Longrightarrow> \<forall>v \<in> set vs. isMakeSQL v = None"
proof (induction node and ps cs arbitrary: s vs and s vs rule: assemble_assemble_params.induct)
  case (1 node)
  show ?case
  proof (cases "skip node")
    case False
    with "1.prems" obtain s' where
      "assemble_params (params node) (tl (split_on (CHR ''?'') (sql node))) = Inr (s', vs)"
      and "\<not> length (split_on (CHR ''?'') (sql node)) - 1 \<noteq> length (params node)"
      by (auto simp: assemble_unfold length_split_on split: if_splits sum.splits)
    with "1.IH" [OF False refl] show ?thesis by blast
  qed (use "1.prems" in simp)
next
  case (4 p ps c cs)
  then show ?case
    by (cases "isMakeSQL p") (auto split: sum.splits)
qed auto

lemma assemble_params_flat:
  "\<forall>p \<in> set ps. isMakeSQL p = None \<Longrightarrow> length cs = length ps \<Longrightarrow>
     assemble_params ps cs = Inr (concat (map (\<lambda>c. CHR ''?'' # c) cs), ps)"
  by (induction ps cs rule: list_induct2') auto

lemma join_concat: "xs \<noteq> [] \<Longrightarrow> join [c] xs = hd xs @ concat (map (\<lambda>x. c # x) (tl xs))"
  by (induction "[c]" xs rule: join.induct) auto

lemma assemble_flat:
  "\<not> skip node \<Longrightarrow> \<forall>p \<in> set (params node). isMakeSQL p = None \<Longrightarrow>
     assemble node =
       (if qcount (sql node) = length (params node) then Inr (sql node, params node)
        else Inl (PlaceholderMismatch (qcount (sql node)) (length (params node)) (sql node)))"
  using join_concat [of "split_on (CHR ''?'') (sql node)" "CHR ''?''"]
  by (simp add: assemble_unfold assemble_params_flat length_split_on join_split_on)

lemma compose_arity: "compose ns = Inr (s, vs) \<Longrightarrow> qcount s = length vs"
proof (induction ns arbitrary: s vs)
  case (Cons n ns)
  then obtain s1 v1 s2 v2 where "assemble n = Inr (s1, v1)" and "compose ns = Inr (s2, v2)"
    and "s = s1 @ s2" and "vs = v1 @ v2"
    by (auto split: sum.splits)
  with Cons.IH [of s2 v2] assemble_arity [of n s1 v1] show ?case by simp
qed simp

lemma compose_append:
  "compose (ms @ ns) =
     (case compose ms of Inl e \<Rightarrow> Inl e
      | Inr (s, vs) \<Rightarrow> (case compose ns of Inl e \<Rightarrow> Inl e | Inr (s', vs') \<Rightarrow> Inr (s @ s', vs @ vs')))"
  by (induction ms) (auto split: sum.splits)

lemma compose_filter_skip: "compose (filter (\<lambda>n. \<not> skip n) ns) = compose ns"
  by (induction ns) (auto split: sum.splits)

section \<open>Lemmas on the placeholder render\<close>

text \<open>The text with its placeholders numbered from \<open>n + 1\<close>, chunk by chunk.\<close>

fun number_chunks :: "nat \<Rightarrow> string list \<Rightarrow> string" where
  "number_chunks n [] = []"
| "number_chunks n [c] = c"
| "number_chunks n (c # d # cs) = c @ CHR ''$'' # show_nat (Suc n) @ number_chunks (Suc n) (d # cs)"

text \<open>No placeholder stands inside a single-quoted literal (\<open>inString\<close>: whether the text starts in one).\<close>

fun unquoted_only :: "bool \<Rightarrow> string \<Rightarrow> bool" where
  "unquoted_only inString [] = True"
| "unquoted_only inString (ch # rest) =
     (if ch = CHR 0x27 then unquoted_only (\<not> inString) rest
      else (inString \<longrightarrow> ch \<noteq> CHR ''?'') \<and> unquoted_only inString rest)"

text \<open>The placeholders outside literals: the ones the render numbers.\<close>

fun live_placeholders :: "bool \<Rightarrow> string \<Rightarrow> nat" where
  "live_placeholders inString [] = 0"
| "live_placeholders inString (ch # rest) =
     (if ch = CHR 0x27 then live_placeholders (\<not> inString) rest
      else (if \<not> inString \<and> ch = CHR ''?'' then 1 else 0) + live_placeholders inString rest)"

lemma number_chunks_Cons:
  "cs \<noteq> [] \<Longrightarrow> number_chunks n ((x # c) # cs) = x # number_chunks n (c # cs)"
  by (cases cs) auto

lemma number_chunks_head: "number_chunks n ((x # c) # cs) = x # number_chunks n (c # cs)"
  by (cases cs) auto

lemma toDollar_chunks: "toDollar_loop n s = number_chunks n (split_on (CHR ''?'') s)"
proof (induction s arbitrary: n)
  case (Cons ch rest)
  show ?case
    by (cases "split_on (CHR ''?'') rest") (auto simp: Cons.IH number_chunks_head)
qed simp

lemma render_unquoted:
  "unquoted_only inString s \<Longrightarrow> render_loop inString n s = toDollar_loop n s"
  by (induction inString n s rule: render_loop.induct) auto

lemma unquoted_live: "unquoted_only inString s \<Longrightarrow> live_placeholders inString s = qcount s"
  by (induction inString s rule: unquoted_only.induct) auto

definition quotes :: "string \<Rightarrow> nat" where
  "quotes s = length (filter (\<lambda>c. c = CHR 0x27) s)"

lemma unquoted_append:
  "unquoted_only b (s @ t) \<longleftrightarrow>
     unquoted_only b s \<and> unquoted_only (if even (quotes s) then b else \<not> b) t"
  by (induction b s rule: unquoted_only.induct) (auto simp: quotes_def)

lemma live_append:
  "live_placeholders b (s @ t) =
     live_placeholders b s + live_placeholders (if even (quotes s) then b else \<not> b) t"
  by (induction b s rule: live_placeholders.induct) (auto simp: quotes_def)

lemma live_plain: "\<forall>c \<in> set s. c \<noteq> CHR ''?'' \<and> c \<noteq> CHR 0x27 \<Longrightarrow>
    live_placeholders b (s @ t) = live_placeholders b t"
  by (induction s) auto

lemma show_nat_plain: "\<forall>c \<in> set (show_nat n). c \<noteq> CHR ''?'' \<and> c \<noteq> CHR 0x27"
  using show_nat_digits [of n] by (auto simp: is_digit_def)

lemma render_leaves_none: "live_placeholders inString (render_loop inString n s) = 0"
  by (induction inString n s rule: render_loop.induct)
    (auto simp: live_plain [OF show_nat_plain])

lemma render_other: "d \<noteq> Postgres \<Longrightarrow> renderPlaceholders s d = s"
  by (simp add: renderPlaceholders_def)

lemma render_chunks:
  "unquoted_only False s \<Longrightarrow>
     renderPlaceholders s Postgres = number_chunks 0 (split_on (CHR ''?'') s)"
  by (simp add: renderPlaceholders_def render_unquoted toDollar_chunks)

lemma unquoted_no_quotes: "CHR 0x27 \<notin> set s \<Longrightarrow> unquoted_only False s"
  by (induction s) auto

section \<open>Properties\<close>

text \<open>
  An assembled statement has exactly one placeholder per bound value, however deeply components
  are nested and whichever of them are skipped, and no value in the flat list is itself a component.
\<close>

theorem assembled_statement_is_balanced:
  "assemble node = Inr (s, vs) \<Longrightarrow> qcount s = length vs \<and> (\<forall>v \<in> set vs. isMakeSQL v = None)"
  by (auto dest: assemble_arity assemble_bound_only(1))

definition nested_example :: makesql where
  "nested_example = mk ''a = ? AND b IN (?)''
     [JInt 1, JObj [(''sql'', JStr ''SELECT c FROM t WHERE d = ?''), (''params'', JArr [JInt 2])]]"

lemma assemble_nested_example:
  "assemble nested_example = Inr (''a = ? AND b IN (SELECT c FROM t WHERE d = ?)'', [JInt 1, JInt 2])"
  by code_simp

theorem assembled_statement_is_balanced_witness:
  "qcount ''a = ? AND b IN (SELECT c FROM t WHERE d = ?)'' = length [JInt 1, JInt 2]
    \<and> isMakeSQL (JInt 1) = None \<and> isMakeSQL (JInt 2) = None"
  using assembled_statement_is_balanced [OF assemble_nested_example] by simp

text \<open>
  Assembly of a present component without nested components is the identity when the placeholder
  and parameter counts agree, and the mismatch error (never a wrong statement) when they do not.
\<close>

theorem assemble_flat_component:
  assumes "\<not> skip node" and "\<forall>p \<in> set (params node). isMakeSQL p = None"
  shows "assemble node =
    (if qcount (sql node) = length (params node) then Inr (sql node, params node)
     else Inl (PlaceholderMismatch (qcount (sql node)) (length (params node)) (sql node)))"
  using assms by (rule assemble_flat)

theorem assemble_flat_component_witness:
  "assemble (mk ''x = ?'' [JInt 1]) = Inr (''x = ?'', [JInt 1])
    \<and> assemble (mk ''x = ?'' []) = Inl (PlaceholderMismatch 1 0 ''x = ?'')"
  using assemble_flat_component [of "mk ''x = ?'' [JInt 1]"] assemble_flat_component [of "mk ''x = ?'' []"]
  by (simp add: mk_def isMakeSQL_def)

text \<open>
  Composition keeps what is present and only that: skipped components can be dropped beforehand,
  the text and the parameters of the rest concatenate, and the composed statement is balanced.
\<close>

theorem compose_present_components:
  "compose (ms @ ns) = compose (filter (\<lambda>n. \<not> skip n) ms @ filter (\<lambda>n. \<not> skip n) ns)
   \<and> (case compose (ms @ ns) of Inl e \<Rightarrow> True | Inr (s, vs) \<Rightarrow> qcount s = length vs)
   \<and> (case (compose ms, compose ns) of
        (Inr (s, vs), Inr (s', vs')) \<Rightarrow> compose (ms @ ns) = Inr (s @ s', vs @ vs')
      | _ \<Rightarrow> \<exists>e. compose (ms @ ns) = Inl e)"
  using compose_filter_skip [of "ms @ ns"] compose_arity [of "ms @ ns"]
  by (auto simp: compose_append split: sum.splits)

text \<open>
  The PostgreSQL render numbers the placeholders \<open>$1, $2, ...\<close> from left to right and leaves no live
  placeholder behind; on a text whose placeholders all stand outside literals it is the naive pass of
  \<open>dialect.ts\<close>.
\<close>

theorem render_numbers_left_to_right:
  "live_placeholders False (renderPlaceholders s Postgres) = 0
   \<and> (unquoted_only False s \<longrightarrow>
        renderPlaceholders s Postgres = number_chunks 0 (split_on (CHR ''?'') s)
        \<and> renderPlaceholders s Postgres = toDollarPlaceholders s)"
  by (simp add: renderPlaceholders_def render_leaves_none render_unquoted toDollar_chunks
      toDollarPlaceholders_def)

theorem render_numbers_left_to_right_witness:
  "renderPlaceholders ''a = ? AND b = ?'' Postgres = ''a = $1 AND b = $2''"
  using render_numbers_left_to_right [of "''a = ? AND b = ?''"]
  by (simp add: show_nat.simps digit_simps)

section \<open>Where the scans disagree\<close>

text \<open>
  The assembly splits on every question mark, the render skips those inside literals: a statement
  whose question mark stands in a literal renders unchanged but is rejected by the assembly unless a
  parameter is given for it.
\<close>

definition quoted_statement :: string where
  "quoted_statement = ''name = '' @ [CHR 0x27] @ ''who?'' @ [CHR 0x27]"

lemma quoted_placeholder_rejected:
  "renderPlaceholders quoted_statement Postgres = quoted_statement"
  "assemble (mk quoted_statement []) = Inl (PlaceholderMismatch 1 0 quoted_statement)"
  "toDollarPlaceholders quoted_statement \<noteq> quoted_statement"
  by code_simp+

text \<open>
  The guard is structural: an ordinary JSON value bound as a parameter is taken for a component when
  it has a string field \<open>sql\<close> and an array field \<open>params\<close>, and its text is spliced into the statement.
\<close>

lemma json_value_spliced:
  "assemble (mk ''SELECT 1 WHERE doc = ?''
      [JObj [(''sql'', JStr ''1 OR TRUE''), (''params'', JArr [])]])
    = Inr (''SELECT 1 WHERE doc = 1 OR TRUE'', [])"
  by code_simp

end
