(* ===== verification/DialectStrategy.thy ===== *)
theory DialectStrategy
  imports MakeSQL
begin

text \<open>
  \<open>src/scp/dialect.ts\<close>: the strategy record that holds every dialect difference of the INSERT conflict
  clause, the guard INSERT, the final placeholder pass and the NULL ordering.  The locale
  \<open>dialect_contract\<close> states what a caller of a strategy relies on; the three strategies are its
  interpretations.
\<close>

section \<open>The strategies\<close>

datatype conflict_action = Ignore | UpdateColumns "string list"

record dialect_strategy =
  dname :: string
  ignoreIsTrailingClause :: bool
  insertVerb :: "conflict_action option \<Rightarrow> string"
  insertConflictClause :: "string list \<Rightarrow> conflict_action \<Rightarrow> string"
  guardInsert :: "string \<Rightarrow> string list \<Rightarrow> string \<Rightarrow> string"
  finalizePlaceholders :: "string \<Rightarrow> string"
  orderByNulls :: "string \<Rightarrow> string \<Rightarrow> string \<Rightarrow> string"

definition onConflictClause :: "string list \<Rightarrow> conflict_action \<Rightarrow> (string \<Rightarrow> string) \<Rightarrow> string" where
  "onConflictClause conflictColumns action excludedRef =
     (let target = (if length conflictColumns > 0 then '' ('' @ join '', '' conflictColumns @ '')'' else []) in
      case action of
        Ignore \<Rightarrow> '' ON CONFLICT'' @ target @ '' DO NOTHING''
      | UpdateColumns cs \<Rightarrow> '' ON CONFLICT'' @ target @ '' DO UPDATE SET ''
          @ join '', '' (map (\<lambda>c. c @ '' = '' @ excludedRef c) cs))"

datatype guard_form = TrailingDoNothing | InsertIgnore

definition guardInsertText :: "string \<Rightarrow> string list \<Rightarrow> string \<Rightarrow> guard_form \<Rightarrow> string" where
  "guardInsertText table columns placeholders form =
     (let hd_text = (if form = InsertIgnore then ''INSERT IGNORE INTO'' else ''INSERT INTO'');
          tl_text = (if form = TrailingDoNothing then '' ON CONFLICT DO NOTHING'' else [])
      in hd_text @ '' '' @ table @ '' ('' @ join '', '' columns @ '') VALUES ('' @ placeholders @ '')'' @ tl_text)"

definition SQLITE :: dialect_strategy where
  "SQLITE = \<lparr>dname = ''sqlite'', ignoreIsTrailingClause = False,
     insertVerb = (\<lambda>a. if a = Some Ignore then ''INSERT OR IGNORE INTO'' else ''INSERT INTO''),
     insertConflictClause = (\<lambda>cs a. if a = Ignore then [] else onConflictClause cs a (\<lambda>c. ''excluded.'' @ c)),
     guardInsert = (\<lambda>t cs phs. guardInsertText t cs phs TrailingDoNothing),
     finalizePlaceholders = (\<lambda>s. s),
     orderByNulls = (\<lambda>e dir ns. e @ '' '' @ dir @ '' NULLS '' @ ns)\<rparr>"

definition POSTGRES :: dialect_strategy where
  "POSTGRES = \<lparr>dname = ''postgres'', ignoreIsTrailingClause = True,
     insertVerb = (\<lambda>a. ''INSERT INTO''),
     insertConflictClause = (\<lambda>cs a. onConflictClause cs a (\<lambda>c. ''EXCLUDED.'' @ c)),
     guardInsert = (\<lambda>t cs phs. guardInsertText t cs phs TrailingDoNothing),
     finalizePlaceholders = toDollarPlaceholders,
     orderByNulls = (\<lambda>e dir ns. e @ '' '' @ dir @ '' NULLS '' @ ns)\<rparr>"

definition MYSQL :: dialect_strategy where
  "MYSQL = \<lparr>dname = ''mysql'', ignoreIsTrailingClause = False,
     insertVerb = (\<lambda>a. if a = Some Ignore then ''INSERT IGNORE INTO'' else ''INSERT INTO''),
     insertConflictClause = (\<lambda>cs a. case a of Ignore \<Rightarrow> []
        | UpdateColumns us \<Rightarrow> '' ON DUPLICATE KEY UPDATE '' @ join '', '' (map (\<lambda>c. c @ '' = VALUES('' @ c @ '')'') us)),
     guardInsert = (\<lambda>t cs phs. guardInsertText t cs phs InsertIgnore),
     finalizePlaceholders = (\<lambda>s. s),
     orderByNulls = (\<lambda>e dir ns.
        let flagDir = (if ns = ''FIRST'' then ''DESC'' else ''ASC'')
        in e @ '' IS NULL '' @ flagDir @ '', '' @ e @ '' '' @ dir)\<rparr>"

definition dialectFor :: "string \<Rightarrow> scp_error + dialect_strategy" where
  "dialectFor name =
     (if name = ''sqlite'' then Inr SQLITE
      else if name = ''postgres'' then Inr POSTGRES
      else if name = ''mysql'' then Inr MYSQL
      else Inl (UnknownDialect name))"

lemmas strategy_defs = SQLITE_def POSTGRES_def MYSQL_def

section \<open>The contract of a strategy\<close>

text \<open>
  The single-row INSERT a caller renders from a strategy: verb, table, columns, placeholders, clause.
\<close>

definition insert_text ::
  "dialect_strategy \<Rightarrow> string \<Rightarrow> string list \<Rightarrow> string \<Rightarrow> (string list \<times> conflict_action) option \<Rightarrow> string" where
  "insert_text s table columns placeholders conflict =
     insertVerb s (map_option snd conflict) @ '' '' @ table @ '' ('' @ join '', '' columns @ '') VALUES ('' @ placeholders @ '')''
     @ (case conflict of None \<Rightarrow> [] | Some (cs, a) \<Rightarrow> insertConflictClause s cs a)"

locale dialect_contract =
  fixes s :: dialect_strategy
  assumes verb_qfree: "qcount (insertVerb s a) = 0"
    and clause_qfree: "\<forall>c \<in> set cs. qcount c = 0 \<Longrightarrow> \<forall>c \<in> set us. qcount c = 0 \<Longrightarrow>
      qcount (insertConflictClause s cs Ignore) = 0 \<and> qcount (insertConflictClause s cs (UpdateColumns us)) = 0"
    and guard_count: "\<forall>c \<in> set cs. qcount c = 0 \<Longrightarrow> qcount table = 0 \<Longrightarrow>
      qcount (guardInsert s table cs phs) = qcount phs"
    and plain_verb: "insertVerb s None = ''INSERT INTO''"
    and upsert_verb: "insertVerb s (Some (UpdateColumns us)) = ''INSERT INTO''"
    and trailing: "ignoreIsTrailingClause s \<longleftrightarrow> insertConflictClause s cs Ignore \<noteq> []"
    and trailing_verb: "ignoreIsTrailingClause s \<longleftrightarrow> insertVerb s (Some Ignore) = ''INSERT INTO''"
    and upsert_clause: "insertConflictClause s cs (UpdateColumns us) \<noteq> []"
begin

lemma ignore_expressed_once:
  "(insertVerb s (Some Ignore) \<noteq> ''INSERT INTO'') \<noteq> (insertConflictClause s cs Ignore \<noteq> [])"
  using trailing trailing_verb by blast

lemma insert_count:
  assumes "qcount table = 0" and "\<forall>c \<in> set columns. qcount c = 0"
    and "\<forall>c \<in> set cs. qcount c = 0" and "case a of Ignore \<Rightarrow> True | UpdateColumns us \<Rightarrow> \<forall>c \<in> set us. qcount c = 0"
  shows "qcount (insert_text s table columns phs (Some (cs, a))) = qcount phs"
proof -
  have "qcount (insertConflictClause s cs a) = 0"
    using assms clause_qfree [of cs "[]"] clause_qfree [of cs] by (cases a) auto
  with assms show ?thesis
    by (simp add: insert_text_def verb_qfree qcount_join_names)
qed

end

lemma onConflict_qfree:
  assumes "\<forall>c \<in> set cs. qcount c = 0" and "\<And>c. qcount c = 0 \<Longrightarrow> qcount (r c) = 0"
    and "case a of Ignore \<Rightarrow> True | UpdateColumns us \<Rightarrow> \<forall>c \<in> set us. qcount c = 0"
  shows "qcount (onConflictClause cs a r) = 0"
proof -
  have "qcount (join '', '' (map (\<lambda>c. c @ '' = '' @ r c) us)) = 0" if "\<forall>c \<in> set us. qcount c = 0" for us
    using that assms(2) by (intro qcount_join_names) auto
  with assms show ?thesis
    by (cases a) (simp_all add: onConflictClause_def qcount_join_names Let_def)
qed

lemma guardInsertText_qcount:
  "\<forall>c \<in> set cs. qcount c = 0 \<Longrightarrow> qcount table = 0 \<Longrightarrow> qcount (guardInsertText table cs phs form) = qcount phs"
  by (cases form) (simp_all add: guardInsertText_def qcount_join_names Let_def)

lemma onConflict_nonempty: "onConflictClause cs a r \<noteq> []"
  by (cases a) (simp_all add: onConflictClause_def Let_def)

interpretation sqlite: dialect_contract SQLITE
  by unfold_locales (simp_all add: SQLITE_def onConflict_qfree guardInsertText_qcount onConflict_nonempty)

interpretation postgres: dialect_contract POSTGRES
  by unfold_locales (simp_all add: POSTGRES_def onConflict_qfree guardInsertText_qcount onConflict_nonempty)

interpretation mysql: dialect_contract MYSQL
  by unfold_locales (auto simp: MYSQL_def guardInsertText_qcount intro!: qcount_join_names)

section \<open>Properties\<close>

text \<open>
  Whatever known dialect a name resolves to, an \<open>ignore\<close> conflict is expressed exactly once, on the
  verb or in a trailing clause, an upsert always carries its clause, and the placeholders of the
  INSERT are those of its VALUES; an unknown name is an error, never a default.
\<close>

theorem conflict_is_expressed_once:
  assumes "dialectFor name = Inr s" and "qcount table = 0" and "\<forall>c \<in> set columns. qcount c = 0"
    and "\<forall>c \<in> set cs. qcount c = 0" and "\<forall>c \<in> set us. qcount c = 0"
  shows "(insertVerb s (Some Ignore) \<noteq> ''INSERT INTO'') \<noteq> (insertConflictClause s cs Ignore \<noteq> [])
    \<and> insertConflictClause s cs (UpdateColumns us) \<noteq> []
    \<and> qcount (insert_text s table columns phs (Some (cs, UpdateColumns us))) = qcount phs
    \<and> dname s = name"
proof -
  consider "s = SQLITE" "name = ''sqlite''" | "s = POSTGRES" "name = ''postgres''" | "s = MYSQL" "name = ''mysql''"
    using assms(1) by (auto simp: dialectFor_def split: if_splits)
  then show ?thesis
  proof cases
    case 1
    then show ?thesis
      using assms sqlite.ignore_expressed_once sqlite.upsert_clause sqlite.insert_count
      by (simp add: SQLITE_def [THEN arg_cong [where f = dname]])
  next
    case 2
    then show ?thesis
      using assms postgres.ignore_expressed_once postgres.upsert_clause postgres.insert_count
      by (simp add: POSTGRES_def [THEN arg_cong [where f = dname]])
  next
    case 3
    then show ?thesis
      using assms mysql.ignore_expressed_once mysql.upsert_clause mysql.insert_count
      by (simp add: MYSQL_def [THEN arg_cong [where f = dname]])
  qed
qed

theorem conflict_is_expressed_once_witness:
  "insertConflictClause POSTGRES [''id''] Ignore = '' ON CONFLICT (id) DO NOTHING''
   \<and> (insertVerb POSTGRES (Some Ignore) \<noteq> ''INSERT INTO'') \<noteq> (insertConflictClause POSTGRES [''id''] Ignore \<noteq> [])"
  using conflict_is_expressed_once [of "''postgres''" POSTGRES "''t''" "[''id'']" "[''id'']" "[''v'']"]
  by (simp add: dialectFor_def) (simp add: POSTGRES_def onConflictClause_def Let_def)

end
