(* ===== verification/DBValues.thy ===== *)
theory DBValues
  imports JsValue
begin

text \<open>
  The \<open>compile\<close> methods of \<open>src/DBValues.ts\<close>.  A key is a string whose empty value stands for "no
  key": every method only tests \<open>if (key)\<close>, which fails for \<open>undefined\<close> and for the empty string
  alike.  \<open>fm\<close> is the optional \<open>SqlCastFormatter\<close>.
\<close>

section \<open>Compilation\<close>

definition defaultFormatter :: formatter where
  "defaultFormatter placeholder sqlType = placeholder @ ''::'' @ sqlType"

text \<open>\<open>formatter ?? defaultFormatter\<close>.\<close>

definition the_formatter :: "formatter option \<Rightarrow> formatter" where
  "the_formatter fm = (case fm of None \<Rightarrow> defaultFormatter | Some f \<Rightarrow> f)"

definition formatColumn :: "colref \<Rightarrow> string" where
  "formatColumn c = tableName c @ ''.'' @ columnName c"

definition emit_tuple :: "jsval list \<Rightarrow> jsval list \<Rightarrow> string \<times> jsval list" where
  "emit_tuple tuple ps =
     (let (phs, ps1) = emit_list emit_q tuple ps in (''('' @ join '', '' phs @ '')'', ps1))"

definition emit_const :: "string \<Rightarrow> jsval \<Rightarrow> jsval list \<Rightarrow> string \<times> jsval list" where
  "emit_const text v ps = (text, ps @ [v])"

definition where_suffix :: "string list \<Rightarrow> string" where
  "where_suffix whereParts = (if whereParts \<noteq> [] then '' WHERE '' @ join '' AND '' whereParts else [])"

text \<open>One definition per class, in the order of the file.\<close>

definition DBToken_compile :: "jsval \<Rightarrow> string \<Rightarrow> string \<Rightarrow> jsval list \<Rightarrow> string \<times> jsval list" where
  "DBToken_compile v opr key ps =
     ((if key \<noteq> [] then key @ '' '' @ opr @ '' ?'' else ''?''), ps @ [v])"

definition DBImmediateValue_compile :: "string \<Rightarrow> string \<Rightarrow> string" where
  "DBImmediateValue_compile v key = (if key \<noteq> [] then key @ '' = '' @ v else v)"

definition DBNullValue_compile :: "string \<Rightarrow> string" where
  "DBNullValue_compile key = (if key \<noteq> [] then key @ '' IS NULL'' else ''NULL'')"

definition DBNotNullValue_compile :: "string \<Rightarrow> string" where
  "DBNotNullValue_compile key = (if key \<noteq> [] then key @ '' IS NOT NULL'' else ''NOT NULL'')"

definition DBBoolValue_value :: "bool \<Rightarrow> string" where
  "DBBoolValue_value b = (if b then ''TRUE'' else ''FALSE'')"

definition in_list_text :: "string \<Rightarrow> string list \<Rightarrow> string" where
  "in_list_text key phs =
     (if key \<noteq> [] then key @ '' IN ('' @ join '', '' phs @ '')'' else ''('' @ join '', '' phs @ '')'')"

definition DBArrayValue_compile :: "jsval list \<Rightarrow> string \<Rightarrow> jsval list \<Rightarrow> string \<times> jsval list" where
  "DBArrayValue_compile arr key ps =
     (if arr = [] then (''1 = 0'', ps)
      else (let (phs, ps1) = emit_list emit_q arr ps in (in_list_text key phs, ps1)))"

definition DBDynamicValue_compile ::
  "string \<Rightarrow> jsval list \<Rightarrow> string \<Rightarrow> jsval list \<Rightarrow> string \<times> jsval list" where
  "DBDynamicValue_compile func vals key ps =
     ((if key \<noteq> [] then key @ '' = '' @ func else func), ps @ vals)"

definition DBRawValue_compile :: "string \<Rightarrow> string \<Rightarrow> string" where
  "DBRawValue_compile v key = (if key \<noteq> [] then key @ '' = '' @ v else v)"

definition DBTupleIn_compile ::
  "string list \<Rightarrow> jsval list list \<Rightarrow> jsval list \<Rightarrow> string \<times> jsval list" where
  "DBTupleIn_compile cols tuples ps =
     (if tuples = [] then (''1 = 0'', ps)
      else (let (rows, ps1) = emit_list emit_tuple tuples ps
            in (''('' @ join '', '' cols @ '') IN ('' @ join '', '' rows @ '')'', ps1)))"

definition DBCast_compile ::
  "jsval \<Rightarrow> string \<Rightarrow> string \<Rightarrow> string \<Rightarrow> formatter option \<Rightarrow> jsval list \<Rightarrow> string \<times> jsval list" where
  "DBCast_compile v sqlType opr key fm ps =
     (let placeholder = the_formatter fm ''?'' sqlType
      in ((if key \<noteq> [] then key @ '' '' @ opr @ '' '' @ placeholder else placeholder), ps @ [v]))"

definition DBCastArray_compile ::
  "jsval list \<Rightarrow> string \<Rightarrow> string \<Rightarrow> formatter option \<Rightarrow> jsval list \<Rightarrow> string \<times> jsval list" where
  "DBCastArray_compile arr sqlType key fm ps =
     (if arr = [] then (''1 = 0'', ps)
      else (let placeholder = the_formatter fm ''?'' sqlType;
                (phs, ps1) = emit_list (emit_const placeholder) arr ps
            in (in_list_text key phs, ps1)))"

definition DBSubquery_text ::
  "colref list \<Rightarrow> string \<Rightarrow> colref list \<Rightarrow> string \<Rightarrow> string list \<Rightarrow> string" where
  "DBSubquery_text parentColumns table selectColumns opr whereParts =
     (let selectClause = join '', '' (map formatColumn selectColumns);
          subquery = ''SELECT '' @ selectClause @ '' FROM '' @ table @ where_suffix whereParts
      in (if length parentColumns = 1
          then formatColumn (hd parentColumns) @ '' '' @ opr @ '' ('' @ subquery @ '')''
          else ''('' @ join '', '' (map formatColumn parentColumns) @ '') '' @ opr
                 @ '' ('' @ subquery @ '')''))"

definition DBExists_text :: "string \<Rightarrow> bool \<Rightarrow> string list \<Rightarrow> string" where
  "DBExists_text table notExists whereParts =
     (let subquery = ''SELECT 1 FROM '' @ table @ where_suffix whereParts
      in (if notExists then ''NOT EXISTS'' else ''EXISTS'') @ '' ('' @ subquery @ '')'')"

lemmas wrapper_defs = DBToken_compile_def DBImmediateValue_compile_def DBNullValue_compile_def
  DBNotNullValue_compile_def DBBoolValue_value_def DBArrayValue_compile_def DBDynamicValue_compile_def
  DBRawValue_compile_def DBTupleIn_compile_def DBCast_compile_def DBCastArray_compile_def
  DBSubquery_text_def DBExists_text_def in_list_text_def Let_def case_prod_beta

text \<open>
  The dynamic dispatch of \<open>compile\<close>, with the loop over the conditions of a subquery: \<open>sub_cond\<close> is the
  body of that loop, the same in \<open>DBSubquery\<close> and \<open>DBExists\<close>.  The wrappers of a subquery condition are
  compiled without the formatter, as the code does.
\<close>

fun tok_compile :: "token \<Rightarrow> string \<Rightarrow> formatter option \<Rightarrow> jsval list \<Rightarrow> string \<times> jsval list"
and sub_cond :: "colref \<times> jsval \<Rightarrow> jsval list \<Rightarrow> string \<times> jsval list" where
  "tok_compile (DBToken v opr) key fm ps = DBToken_compile v opr key ps"
| "tok_compile (DBImmediateValue v) key fm ps = (DBImmediateValue_compile v key, ps)"
| "tok_compile DBNullValue key fm ps = (DBNullValue_compile key, ps)"
| "tok_compile DBNotNullValue key fm ps = (DBNotNullValue_compile key, ps)"
| "tok_compile (DBBoolValue b) key fm ps = (DBImmediateValue_compile (DBBoolValue_value b) key, ps)"
| "tok_compile (DBArrayValue arr) key fm ps = DBArrayValue_compile arr key ps"
| "tok_compile (DBDynamicValue func vals) key fm ps = DBDynamicValue_compile func vals key ps"
| "tok_compile (DBRawValue v) key fm ps = (DBRawValue_compile v key, ps)"
| "tok_compile (DBTupleIn cols tuples) key fm ps = DBTupleIn_compile cols tuples ps"
| "tok_compile (DBCast v sqlType opr) key fm ps = DBCast_compile v sqlType opr key fm ps"
| "tok_compile (DBCastArray arr sqlType) key fm ps = DBCastArray_compile arr sqlType key fm ps"
| "tok_compile (DBParentRef c) key fm ps = (formatColumn c, ps)"
| "tok_compile (DBSubquery parentColumns table selectColumns conditions opr) key fm ps =
     (let (whereParts, ps1) = emit_list sub_cond conditions ps
      in (DBSubquery_text parentColumns table selectColumns opr whereParts, ps1))"
| "tok_compile (DBExists table conditions notExists) key fm ps =
     (let (whereParts, ps1) = emit_list sub_cond conditions ps
      in (DBExists_text table notExists whereParts, ps1))"
| "sub_cond (c, v) ps =
     (let colRef = formatColumn c in
      case v of
        JTok (DBParentRef p) \<Rightarrow>
          (let (s, ps1) = tok_compile (DBParentRef p) [] None ps in (colRef @ '' = '' @ s, ps1))
      | JTok t \<Rightarrow> tok_compile t colRef None ps
      | JNull \<Rightarrow> (colRef @ '' IS NULL'', ps)
      | JArr vs \<Rightarrow>
          (if vs = [] then (''1 = 0'', ps)
           else (let (phs, ps1) = emit_list emit_q vs ps
                 in (colRef @ '' IN ('' @ join '', '' phs @ '')'', ps1)))
      | _ \<Rightarrow> (colRef @ '' = ?'', ps @ [v]))"

section \<open>Factory functions\<close>

definition dbNull :: token where "dbNull = DBNullValue"
definition dbNotNull :: token where "dbNotNull = DBNotNullValue"
definition dbTrue :: token where "dbTrue = DBBoolValue True"
definition dbFalse :: token where "dbFalse = DBBoolValue False"
definition dbNow :: token where "dbNow = DBImmediateValue ''NOW()''"
definition dbIn :: "jsval list \<Rightarrow> token" where "dbIn = DBArrayValue"
definition dbDynamic :: "string \<Rightarrow> jsval list \<Rightarrow> token" where "dbDynamic = DBDynamicValue"
definition dbRaw :: "string \<Rightarrow> token" where "dbRaw = DBRawValue"
definition dbImmediate :: "string \<Rightarrow> token" where "dbImmediate = DBImmediateValue"
definition dbCast :: "jsval \<Rightarrow> string \<Rightarrow> string \<Rightarrow> token" where "dbCast = DBCast"
definition dbUuid :: "string \<Rightarrow> string \<Rightarrow> token" where "dbUuid v opr = DBCast (JStr v) ''uuid'' opr"
definition dbCastIn :: "jsval list \<Rightarrow> string \<Rightarrow> token" where "dbCastIn = DBCastArray"
definition dbUuidIn :: "string list \<Rightarrow> token" where "dbUuidIn vs = DBCastArray (map JStr vs) ''uuid''"
definition dbTupleIn :: "string list \<Rightarrow> jsval list list \<Rightarrow> token" where "dbTupleIn = DBTupleIn"
definition parentRef :: "colref \<Rightarrow> token" where "parentRef = DBParentRef"

section \<open>Well-formed wrappers\<close>

text \<open>
  The texts a wrapper inlines (operators, SQL types, column and table names) hold no placeholder of
  their own, except the expression of a \<open>DBDynamicValue\<close>, which holds one per value.
\<close>

definition wf_colref :: "colref \<Rightarrow> bool" where
  "wf_colref c \<longleftrightarrow> qcount (columnName c) = 0 \<and> qcount (tableName c) = 0"

fun wf_tok :: "token \<Rightarrow> bool" and wf_sub :: "colref \<times> jsval \<Rightarrow> bool" where
  "wf_tok (DBToken v opr) = (qcount opr = 0)"
| "wf_tok (DBImmediateValue s) = (qcount s = 0)"
| "wf_tok DBNullValue = True"
| "wf_tok DBNotNullValue = True"
| "wf_tok (DBBoolValue b) = True"
| "wf_tok (DBArrayValue vs) = True"
| "wf_tok (DBDynamicValue func vals) = (qcount func = length vals)"
| "wf_tok (DBRawValue s) = (qcount s = 0)"
| "wf_tok (DBTupleIn cols tuples) = (\<forall>c \<in> set cols. qcount c = 0)"
| "wf_tok (DBCast v ty opr) = (qcount ty = 0 \<and> qcount opr = 0)"
| "wf_tok (DBCastArray vs ty) = (qcount ty = 0)"
| "wf_tok (DBParentRef c) = wf_colref c"
| "wf_tok (DBSubquery pc tab sc conditions opr) =
     ((\<forall>c \<in> set pc. wf_colref c) \<and> (\<forall>c \<in> set sc. wf_colref c) \<and> qcount tab = 0 \<and> qcount opr = 0
      \<and> (\<forall>x \<in> set conditions. wf_sub x))"
| "wf_tok (DBExists tab conditions ne) = (qcount tab = 0 \<and> (\<forall>x \<in> set conditions. wf_sub x))"
| "wf_sub (c, v) = (wf_colref c \<and> (case v of JTok t \<Rightarrow> wf_tok t | _ \<Rightarrow> True))"

lemma qcount_formatColumn [arity_simps]: "wf_colref c \<Longrightarrow> qcount (formatColumn c) = 0"
  by (simp add: formatColumn_def wf_colref_def)

lemma qcount_columns [arity_simps]:
  "\<forall>c \<in> set cs. wf_colref c \<Longrightarrow> qcount (join '', '' (map formatColumn cs)) = 0"
  by (rule qcount_join_names) (auto simp: arity_simps)

lemma qcount_where_suffix [arity_simps]: "qcount (where_suffix ws) = sum_list (map qcount ws)"
  by (cases ws) (simp_all add: where_suffix_def qcount_join)

lemma keeps_placeholder_default [simp]: "keeps_placeholder defaultFormatter"
  by (simp add: keeps_placeholder_def defaultFormatter_def)

definition wf_formatter :: "formatter option \<Rightarrow> bool" where
  "wf_formatter fm \<longleftrightarrow> keeps_placeholder (the_formatter fm)"

lemma wf_formatter_None [simp]: "wf_formatter None"
  by (simp add: wf_formatter_def the_formatter_def)

lemma wf_formatter_qcount:
  "wf_formatter fm \<Longrightarrow> qcount ty = 0 \<Longrightarrow>
     qcount (the_formatter fm ''?'' ty) = 1"
  by (auto simp: wf_formatter_def keeps_placeholder_def)

section \<open>The producers of this component\<close>

lemma emit_tuple_eq: "emit_tuple t ps = (''('' @ join '', '' (replicate (length t) ''?'') @ '')'', ps @ t)"
  by (simp add: emit_tuple_def emit_list_q)

lemma sum_list_replicate_q [simp]: "sum_list (map qcount (replicate n ''?'')) = n"
  by (induction n) auto

lemma qcount_join_q [simp]: "qcount (join '', '' (replicate n ''?'')) = n"
  by (simp add: qcount_join del: map_replicate)

interpretation tuple_row: sql_emitter emit_tuple "\<lambda>_. True"
  by unfold_locales (simp_all add: emit_tuple_eq)

interpretation const_cell: sql_emitter "emit_const ph" "\<lambda>_. qcount ph = 1" for ph
  by unfold_locales (simp_all add: emit_const_def)

lemma tok_compile_append:
  "tok_compile t key fm ps = (fst (tok_compile t key fm []), ps @ snd (tok_compile t key fm []))"
and sub_cond_append:
  "sub_cond cv ps = (fst (sub_cond cv []), ps @ snd (sub_cond cv []))"
proof (induction t key fm ps and cv ps rule: tok_compile_sub_cond.induct)
  case (6 arr key fm ps)
  show ?case by (simp add: wrapper_defs emit_list_q)
next
  case (9 cols tuples key fm ps)
  show ?case by (simp add: wrapper_defs tuple_row.emit_list_append [of tuples ps])
next
  case (11 arr sqlType key fm ps)
  show ?case
    by (simp add: wrapper_defs const_cell.emit_list_append [of _ arr ps])
next
  case (13 parentColumns table selectColumns conditions opr key fm ps)
  note app = emit_list_append_on [of conditions sub_cond ps, OF "13"]
  show ?case by (simp add: wrapper_defs app)
next
  case (14 table conditions notExists key fm ps)
  note app = emit_list_append_on [of conditions sub_cond ps, OF "14"]
  show ?case by (simp add: wrapper_defs app)
next
  case (15 c v ps)
  then show ?case
    by (cases v; (auto simp: emit_list_q Let_def split: token.splits prod.splits)?)
qed (simp_all add: wrapper_defs)

lemma sub_conds_arity_on:
  assumes "\<And>x. x \<in> set conditions \<Longrightarrow> qcount (fst (sub_cond x [])) = length (snd (sub_cond x []))"
  shows "sum_list (map qcount (fst (emit_list sub_cond conditions [])))
    = length (snd (emit_list sub_cond conditions []))"
  using sub_cond_append assms by (rule emit_list_arity_on)

lemma tok_compile_arity_ps:
  fixes ps :: "jsval list"
  shows "wf_tok t \<Longrightarrow> qcount key = 0 \<Longrightarrow> wf_formatter fm \<Longrightarrow>
     qcount (fst (tok_compile t key fm [])) = length (snd (tok_compile t key fm []))"
and sub_cond_arity_ps:
  "wf_sub cv \<Longrightarrow> qcount (fst (sub_cond cv [])) = length (snd (sub_cond cv []))"
proof (induction t key fm ps and cv ps rule: tok_compile_sub_cond.induct)
  case (6 arr key fm ps)
  then show ?case by (simp add: wrapper_defs emit_list_q)
next
  case (9 cols tuples key fm ps)
  then show ?case
    using tuple_row.emit_join_arity [of tuples "'', ''"]
    by (simp add: wrapper_defs qcount_join_names)
next
  case (10 v sqlType opr key fm ps)
  then show ?case using wf_formatter_qcount [of fm sqlType] by (simp add: wrapper_defs)
next
  case (11 arr sqlType key fm ps)
  then show ?case
    using const_cell.emit_join_arity [of arr _ "'', ''"] wf_formatter_qcount [of fm sqlType]
    by (simp add: wrapper_defs)
next
  case (13 parentColumns table selectColumns conditions opr key fm ps)
  then have "sum_list (map qcount (fst (emit_list sub_cond conditions [])))
    = length (snd (emit_list sub_cond conditions []))"
    by (intro sub_conds_arity_on) (auto intro: "13.IH")
  moreover have "length parentColumns = 1 \<Longrightarrow> qcount (formatColumn (hd parentColumns)) = 0"
    using "13.prems" by (cases parentColumns) (auto simp: arity_simps)
  ultimately show ?case using "13.prems" by (simp add: wrapper_defs arity_simps)
next
  case (14 table conditions notExists key fm ps)
  then have "sum_list (map qcount (fst (emit_list sub_cond conditions [])))
    = length (snd (emit_list sub_cond conditions []))"
    by (intro sub_conds_arity_on) (auto intro: "14.IH")
  with "14.prems" show ?case by (simp add: wrapper_defs arity_simps)
next
  case (15 c v ps)
  have c: "qcount (formatColumn c) = 0"
    using "15.prems" by (simp add: arity_simps)
  show ?case
  proof (cases "\<exists>t. v = JTok t")
    case True
    then obtain t where t: "v = JTok t" by blast
    with "15" c show ?thesis
      by (cases t) (simp_all add: wrapper_defs arity_simps wf_colref_def)
  next
    case False
    with c show ?thesis by (cases v) (simp_all add: emit_list_q Let_def)
  qed
qed (auto simp: wrapper_defs arity_simps)

interpretation wrapper: sql_emitter "\<lambda>t. tok_compile t key fm"
    "\<lambda>t. wf_tok t \<and> qcount key = 0 \<and> wf_formatter fm" for key fm
  by unfold_locales (rule tok_compile_append, simp add: tok_compile_arity_ps)

interpretation sub_condition: sql_emitter sub_cond wf_sub
  by unfold_locales (rule sub_cond_append, rule sub_cond_arity_ps)

end
