(* ===== verification/DBConds.thy ===== *)
theory DBConds
  imports DBValues
begin

text \<open>
  \<open>src/DBConditions.ts\<close>: the WHERE compiler.  A condition object is an association list in the order
  \<open>Object.entries\<close> reports; \<open>conds_compile\<close> is \<open>DBConditions.compile\<close>, \<open>compileCondition\<close> the
  method of that name with its branches in the source's order.
\<close>

section \<open>Compilation\<close>

definition opname :: "logop \<Rightarrow> string" where
  "opname l = (case l of And \<Rightarrow> ''AND'' | Or \<Rightarrow> ''OR'')"

text \<open>\<open>if (sql) parts.push(`(${sql})`)\<close>: an empty text stays empty and is dropped later.\<close>

definition paren :: "string \<Rightarrow> string" where
  "paren s = (if s = [] then [] else ''('' @ s @ '')'')"

definition js_strs :: "jsval list \<Rightarrow> string list" where
  "js_strs vs = concat (map (\<lambda>v. case v of JStr s \<Rightarrow> [s] | _ \<Rightarrow> []) vs)"

text \<open>The \<open>[sql, params]\<close> form of a raw condition.\<close>

definition raw_sql_params :: "jsval list \<Rightarrow> (string \<times> jsval list) option" where
  "raw_sql_params vs = (case vs of [JStr s, JArr rawParams] \<Rightarrow> Some (s, rawParams) | _ \<Rightarrow> None)"

definition compileRaw :: "jsval \<Rightarrow> jsval list \<Rightarrow> string \<times> jsval list" where
  "compileRaw v ps = (case v of
      JStr s \<Rightarrow> (s, ps)
    | JArr vs \<Rightarrow>
        (case raw_sql_params vs of
           Some (s, rawParams) \<Rightarrow> (s, ps @ rawParams)
         | None \<Rightarrow> (if js_strs vs \<noteq> [] then (join '' AND '' (js_strs vs), ps) else ([], ps)))
    | _ \<Rightarrow> ([], ps))"

definition compileCustomOperator :: "string \<Rightarrow> jsval \<Rightarrow> jsval list \<Rightarrow> string \<times> jsval list" where
  "compileCustomOperator key v ps = (case v of
      JArr vs \<Rightarrow>
        (let placeholderCount = qcount key in
         if placeholderCount = 1 \<and> length vs = 0 then (replace_first (CHR ''?'') ''NULL'' key, ps)
         else if placeholderCount = 1 \<and> length vs \<noteq> 1
           then (replace_first (CHR ''?'') (join '', '' (map (\<lambda>_. ''?'') vs)) key, ps @ vs)
         else (key, ps @ vs))
    | _ \<Rightarrow> (key, ps @ [v]))"

text \<open>The branches after the wrappers and the nested conditions: plain values.\<close>

definition compilePlain :: "string \<Rightarrow> jsval \<Rightarrow> jsval list \<Rightarrow> string \<times> jsval list" where
  "compilePlain key v ps = (case v of
      JNull \<Rightarrow> (key @ '' IS NULL'', ps)
    | JBool b \<Rightarrow>
        (if b \<and> CHR '' '' \<in> set key then (key, ps)
         else (key @ '' = '' @ (if b then ''TRUE'' else ''FALSE''), ps))
    | JArr vs \<Rightarrow>
        (if CHR ''?'' \<in> set key then compileCustomOperator key v ps
         else if vs = [] then (''1 = 0'', ps)
         else (let (phs, ps1) = emit_list emit_q vs ps
               in (key @ '' IN ('' @ join '', '' phs @ '')'', ps1)))
    | _ \<Rightarrow>
        (if CHR ''?'' \<in> set key then compileCustomOperator key v ps
         else (key @ '' = ?'', ps @ [v])))"

function (sequential) conds_compile :: "conds \<Rightarrow> formatter option \<Rightarrow> jsval list \<Rightarrow> string \<times> jsval list"
and compileCondition :: "string \<times> jsval \<Rightarrow> formatter option \<Rightarrow> jsval list \<Rightarrow> string \<times> jsval list"
and compileNested :: "conds \<times> logop \<Rightarrow> formatter option \<Rightarrow> jsval list \<Rightarrow> string \<times> jsval list"
and compileOrGroup :: "jsval \<Rightarrow> formatter option \<Rightarrow> jsval list \<Rightarrow> string \<times> jsval list" where
  "conds_compile (DBConditions conditions opr nested) fm ps =
     (let (main, ps1) = emit_list (\<lambda>kv. compileCondition kv fm) conditions ps;
          (nest, ps2) = emit_list (\<lambda>n. compileNested n fm) nested ps1;
          parts = filter (\<lambda>s. s \<noteq> []) (main @ nest)
      in (if parts = [] then ([], ps2)
          else (join ('' '' @ opname opr @ '' '') parts, ps2)))"
| "compileCondition (key, v) fm ps =
     (if key = ''__or__'' \<and> (case v of JArr _ \<Rightarrow> True | _ \<Rightarrow> False) then
        (case v of JArr groups \<Rightarrow>
           (let (gs, ps1) = emit_list (\<lambda>g. compileOrGroup g fm) groups ps;
                orParts = filter (\<lambda>s. s \<noteq> []) gs
            in (if orParts \<noteq> [] then ''('' @ join '' OR '' orParts @ '')'' else [], ps1))
         | _ \<Rightarrow> ([], ps))
      else if key = ''__exists__'' \<and> (case v of JTok (DBExists _ _ _) \<Rightarrow> True | _ \<Rightarrow> False) then
        (case v of JTok t \<Rightarrow> tok_compile t [] None ps | _ \<Rightarrow> ([], ps))
      else if key = ''__subquery__'' \<and> (case v of JTok (DBSubquery _ _ _ _ _) \<Rightarrow> True | _ \<Rightarrow> False) then
        (case v of JTok t \<Rightarrow> tok_compile t [] None ps | _ \<Rightarrow> ([], ps))
      else if key = ''__raw__'' then compileRaw v ps
      else (case v of
          JTok t \<Rightarrow> tok_compile t key fm ps
        | JCond c \<Rightarrow> (let (s, ps1) = conds_compile c fm ps in (''('' @ s @ '')'', ps1))
        | _ \<Rightarrow> (if starts_with ''__'' key then ([], ps) else compilePlain key v ps)))"
| "compileNested (c, l) fm ps = (let (s, ps1) = conds_compile c fm ps in (paren s, ps1))"
| "compileOrGroup g fm ps =
     (case g of
        JObj conditions \<Rightarrow>
          (let (parts, ps1) = emit_list (\<lambda>kv. compileCondition kv fm) conditions ps
           in (paren (join '' AND '' (filter (\<lambda>s. s \<noteq> []) parts)), ps1))
      | _ \<Rightarrow> ([], ps))"

  by pat_completeness auto

termination
  by (relation "measure (\<lambda>x. case x of
       Inl (Inl (c, _, _)) \<Rightarrow> 2 * size c
     | Inl (Inr (kv, _, _)) \<Rightarrow> Suc (2 * size_prod (\<lambda>_. 0) size kv)
     | Inr (Inl (n, _, _)) \<Rightarrow> Suc (2 * size_prod size (\<lambda>_. 0) n)
     | Inr (Inr (g, _, _)) \<Rightarrow> 2 * size g)")
    (auto dest: size_list_mem [of _ _ size] size_list_mem [of _ _ "size_prod (\<lambda>_. 0) size"]
      size_list_mem [of _ _ "size_prod size (\<lambda>_. 0)"])

section \<open>Building conditions\<close>

fun conds_add :: "conds \<Rightarrow> conds \<Rightarrow> logop \<Rightarrow> conds" where
  "conds_add (DBConditions cs opr nested) c l = DBConditions cs opr (nested @ [(c, l)])"

fun isEmpty :: "conds \<Rightarrow> bool" where
  "isEmpty (DBConditions cs opr nested) \<longleftrightarrow> cs = [] \<and> nested = []"

definition and_conditions :: "(string \<times> jsval) list \<Rightarrow> conds" where
  "and_conditions cs = DBConditions cs And []"

definition or_conditions :: "(string \<times> jsval) list \<Rightarrow> conds" where
  "or_conditions cs = DBConditions cs Or []"

text \<open>\<open>normalizeConditions\<close>: a condition tree as it is, a plain object wrapped (\<open>Inr\<close>).\<close>

definition normalizeConditions :: "conds + (string \<times> jsval) list \<Rightarrow> conds" where
  "normalizeConditions x = (case x of Inl c \<Rightarrow> c | Inr cs \<Rightarrow> DBConditions cs And [])"

section \<open>Well-formed conditions\<close>

text \<open>
  A condition is well formed when the texts it inlines hold the placeholders the code counts on: a
  plain key none, a custom-operator key one per bound value (or a single one for a list), a raw text
  one per raw parameter.
\<close>

definition wf_raw :: "jsval \<Rightarrow> bool" where
  "wf_raw v = (case v of
      JStr s \<Rightarrow> qcount s = 0
    | JArr vs \<Rightarrow>
        (case raw_sql_params vs of
           Some (s, rawParams) \<Rightarrow> qcount s = length rawParams
         | None \<Rightarrow> (\<forall>s \<in> set (js_strs vs). qcount s = 0))
    | _ \<Rightarrow> True)"

definition wf_plain :: "string \<Rightarrow> jsval \<Rightarrow> bool" where
  "wf_plain key v = (case v of
      JNull \<Rightarrow> qcount key = 0
    | JBool b \<Rightarrow> qcount key = 0
    | JArr vs \<Rightarrow> qcount key \<le> 1 \<or> qcount key = length vs
    | _ \<Rightarrow> qcount key \<le> 1)"

function (sequential) wf_conds :: "conds \<Rightarrow> bool"
and wf_entry :: "string \<times> jsval \<Rightarrow> bool"
and wf_group :: "jsval \<Rightarrow> bool" where
  "wf_conds (DBConditions conditions opr nested) =
     ((\<forall>kv \<in> set conditions. wf_entry kv) \<and> (\<forall>n \<in> set nested. wf_conds (fst n)))"
| "wf_entry (key, v) =
     (if key = ''__raw__'' then wf_raw v
      else (case v of
          JTok t \<Rightarrow> wf_tok t \<and> qcount key = 0
        | JCond c \<Rightarrow> wf_conds c
        | JArr vs \<Rightarrow> (if key = ''__or__'' then \<forall>g \<in> set vs. wf_group g else wf_plain key v)
        | _ \<Rightarrow> wf_plain key v))"
| "wf_group (JObj conditions) = (\<forall>kv \<in> set conditions. wf_entry kv)"
| "wf_group g = True"
  by pat_completeness auto

termination
  by (relation "measure (\<lambda>x. case x of
       Inl c \<Rightarrow> 2 * size c
     | Inr (Inl kv) \<Rightarrow> Suc (2 * size_prod (\<lambda>_. 0) size kv)
     | Inr (Inr g) \<Rightarrow> 2 * size g)")
    (auto dest: size_list_mem [of _ _ size] size_list_mem [of _ _ "size_prod (\<lambda>_. 0) size"]
      size_list_mem [of _ _ "size_prod size (\<lambda>_. 0)"])

section \<open>The condition compiler is a producer\<close>

lemma qcount_opname [simp]: "qcount (opname l) = 0"
  by (cases l) (simp_all add: opname_def)

lemma qcount_paren [simp]: "qcount (paren s) = qcount s"
  by (simp add: paren_def)

lemma sum_list_filter_nonempty [simp]:
  "sum_list (map qcount (filter (\<lambda>s. s \<noteq> []) xs)) = sum_list (map qcount xs)"
  by (induction xs) auto

lemma qcount_replace_first:
  "CHR ''?'' \<in> set key \<Longrightarrow> Suc (qcount (replace_first (CHR ''?'') r key)) = qcount key + qcount r"
  by (induction key) auto

lemma compileRaw_append: "compileRaw v ps = (fst (compileRaw v []), ps @ snd (compileRaw v []))"
  by (cases v) (auto simp: compileRaw_def split: option.splits)

lemma compilePlain_append:
  "compilePlain key v ps = (fst (compilePlain key v []), ps @ snd (compilePlain key v []))"
  by (cases v) (simp_all add: compilePlain_def compileCustomOperator_def emit_list_q Let_def)

lemma compileRaw_arity: "wf_raw v \<Longrightarrow> qcount (fst (compileRaw v [])) = length (snd (compileRaw v []))"
  by (cases v) (auto simp: compileRaw_def wf_raw_def qcount_join_names split: option.splits)

lemma qcount_in_set: "CHR ''?'' \<in> set s \<longleftrightarrow> qcount s \<noteq> 0"
  by (simp add: qcount_0_iff)

lemma compilePlain_arity:
  assumes "wf_plain key v"
  shows "qcount (fst (compilePlain key v [])) = length (snd (compilePlain key v []))"
proof (cases "\<exists>vs. v = JArr vs")
  case True
  then obtain vs where "v = JArr vs" by blast
  moreover have "qcount key = 1 \<Longrightarrow> qcount (replace_first (CHR ''?'') r key) = qcount r" for r
    using qcount_replace_first [of key r] by (simp add: qcount_in_set)
  ultimately show ?thesis using assms
    by (auto simp: compilePlain_def compileCustomOperator_def wf_plain_def emit_list_q Let_def
        map_replicate_const qcount_in_set)
next
  case False
  with assms show ?thesis
    by (cases v) (auto simp: compilePlain_def compileCustomOperator_def wf_plain_def qcount_in_set)
qed

lemma conds_compile_append:
  "conds_compile c fm ps = (fst (conds_compile c fm []), ps @ snd (conds_compile c fm []))"
and compileCondition_append:
  "compileCondition kv fm ps = (fst (compileCondition kv fm []), ps @ snd (compileCondition kv fm []))"
and compileNested_append:
  "compileNested n fm ps = (fst (compileNested n fm []), ps @ snd (compileNested n fm []))"
and compileOrGroup_append:
  "compileOrGroup g fm ps = (fst (compileOrGroup g fm []), ps @ snd (compileOrGroup g fm []))"
proof (induction c fm ps and kv fm ps and n fm ps and g fm ps
    rule: conds_compile_compileCondition_compileNested_compileOrGroup.induct)
  case (1 conditions opr nested fm ps)
  have a: "emit_list (\<lambda>kv. compileCondition kv fm) conditions qs
    = (fst (emit_list (\<lambda>kv. compileCondition kv fm) conditions []),
       qs @ snd (emit_list (\<lambda>kv. compileCondition kv fm) conditions []))" for qs
    by (rule emit_list_append_on) (rule "1"(1))
  have b: "emit_list (\<lambda>n. compileNested n fm) nested qs
    = (fst (emit_list (\<lambda>n. compileNested n fm) nested []),
       qs @ snd (emit_list (\<lambda>n. compileNested n fm) nested []))" for qs
    by (rule emit_list_append_on) (rule "1"(2) [OF refl surjective_pairing [symmetric]])
  show ?case
    by (simp add: a [of ps] b [of "ps @ vs" for vs] b [of "snd (emit_list f xs ys)" for f xs ys]
        Let_def case_prod_beta)
next
  case (2 key v fm ps)
  show ?case
  proof (cases v)
    case (JArr groups)
    have a: "emit_list (\<lambda>g. compileOrGroup g fm) groups ps
      = (fst (emit_list (\<lambda>g. compileOrGroup g fm) groups []),
         ps @ snd (emit_list (\<lambda>g. compileOrGroup g fm) groups []))" if "key = ''__or__''" for ps
      by (rule emit_list_append_on) (rule "2"(1), use JArr that in auto)
    show ?thesis
      using JArr compileRaw_append [of v ps] compilePlain_append [of key v ps]
      by (simp add: a [of ps] Let_def case_prod_beta)
  next
    case (JTok t)
    show ?thesis
      using JTok compileRaw_append [of v ps] tok_compile_append [of t key fm ps]
        tok_compile_append [of t "[]" None ps]
      by (simp)
  next
    case (JCond c)
    have "conds_compile c fm ps = (fst (conds_compile c fm []), ps @ snd (conds_compile c fm []))"
      if "key \<noteq> ''__raw__''"
      by (rule "2"(2)) (use JCond that in auto)
    with JCond compileRaw_append [of v ps] show ?thesis by (simp add: Let_def case_prod_beta)
  qed (use compileRaw_append [of v ps] compilePlain_append [of key v ps] in simp_all)
next
  case (3 c l fm ps)
  then show ?case by (simp add: Let_def case_prod_beta)
next
  case (4 g fm ps)
  show ?case
  proof (cases g)
    case (JObj conditions)
    have a: "emit_list (\<lambda>kv. compileCondition kv fm) conditions ps
      = (fst (emit_list (\<lambda>kv. compileCondition kv fm) conditions []),
         ps @ snd (emit_list (\<lambda>kv. compileCondition kv fm) conditions []))" for ps
      by (rule emit_list_append_on) (rule "4", rule JObj)
    show ?thesis using JObj by (simp add: a [of ps] Let_def case_prod_beta)
  qed simp_all
qed

lemma starts_with_special:
  "starts_with ''__'' ''__or__''" "starts_with ''__'' ''__raw__''"
  by simp_all

lemma conds_compile_parts:
  "conds_compile (DBConditions conditions opr nested) fm [] =
     (join ('' '' @ opname opr @ '' '') (filter (\<lambda>s. s \<noteq> [])
        (fst (emit_list (\<lambda>kv. compileCondition kv fm) conditions [])
         @ fst (emit_list (\<lambda>n. compileNested n fm) nested []))),
      snd (emit_list (\<lambda>kv. compileCondition kv fm) conditions [])
      @ snd (emit_list (\<lambda>n. compileNested n fm) nested []))"
  using emit_list_append_on [of nested "\<lambda>n. compileNested n fm"
      "snd (emit_list (\<lambda>kv. compileCondition kv fm) conditions [])", OF compileNested_append]
  by (simp add: Let_def case_prod_beta)

lemma qcount_or_text:
  "qcount (if xs \<noteq> [] then ''('' @ join '' OR '' xs @ '')'' else []) = sum_list (map qcount xs)"
  by (simp add: qcount_join)

lemma compileCondition_or:
  "compileCondition (''__or__'', JArr groups) fm [] =
     (let gs = filter (\<lambda>s. s \<noteq> []) (fst (emit_list (\<lambda>g. compileOrGroup g fm) groups []))
      in (if gs \<noteq> [] then ''('' @ join '' OR '' gs @ '')'' else [],
          snd (emit_list (\<lambda>g. compileOrGroup g fm) groups [])))"
  by (simp add: Let_def case_prod_beta)

lemma conds_arity_ps:
  fixes ps :: "jsval list"
  shows "wf_conds c \<Longrightarrow> wf_formatter fm \<Longrightarrow>
    qcount (fst (conds_compile c fm [])) = length (snd (conds_compile c fm []))"
and entry_arity_ps: "wf_entry kv \<Longrightarrow> wf_formatter fm \<Longrightarrow>
    qcount (fst (compileCondition kv fm [])) = length (snd (compileCondition kv fm []))"
and nested_arity_ps: "wf_conds (fst n) \<Longrightarrow> wf_formatter fm \<Longrightarrow>
    qcount (fst (compileNested n fm [])) = length (snd (compileNested n fm []))"
and group_arity_ps: "wf_group g \<Longrightarrow> wf_formatter fm \<Longrightarrow>
    qcount (fst (compileOrGroup g fm [])) = length (snd (compileOrGroup g fm []))"
proof (induction c fm ps and kv fm ps and n fm ps and g fm ps
    rule: conds_compile_compileCondition_compileNested_compileOrGroup.induct)
  case (1 conditions opr nested fm ps)
  have a: "sum_list (map qcount (fst (emit_list (\<lambda>kv. compileCondition kv fm) conditions [])))
    = length (snd (emit_list (\<lambda>kv. compileCondition kv fm) conditions []))"
    by (rule emit_list_arity_on) (rule compileCondition_append, rule "1"(1), use "1.prems" in auto)
  have b: "sum_list (map qcount (fst (emit_list (\<lambda>n. compileNested n fm) nested [])))
    = length (snd (emit_list (\<lambda>n. compileNested n fm) nested []))"
    by (rule emit_list_arity_on)
      (rule compileNested_append, rule "1"(2) [OF refl surjective_pairing [symmetric]], use "1.prems" in auto)
  show ?case
    by (simp add: conds_compile_parts qcount_join a b del: conds_compile.simps filter_append)
next
  case (2 key v fm ps)
  show ?case
  proof (cases "key = ''__raw__''")
    case True
    then show ?thesis using "2.prems" by (cases v) (simp_all add: compileRaw_arity)
  next
    case False
    show ?thesis
    proof (cases v)
      case (JArr groups)
      have "sum_list (map qcount (fst (emit_list (\<lambda>g. compileOrGroup g fm) groups [])))
        = length (snd (emit_list (\<lambda>g. compileOrGroup g fm) groups []))" if "key = ''__or__''"
        by (rule emit_list_arity_on)
          (rule compileOrGroup_append, rule "2"(1), use JArr that "2.prems" in auto)
      moreover have "key \<noteq> ''__or__'' \<Longrightarrow> wf_plain key v" and "wf_formatter fm"
        using JArr False "2.prems" by simp_all
      ultimately show ?thesis
        using JArr False compilePlain_arity [of key v]
        by (cases "key = ''__or__''")
          (simp_all only: compileCondition_or qcount_or_text Let_def fst_conv snd_conv sum_list_filter_nonempty,
           simp)
    next
      case (JTok t)
      with "2.prems" False show ?thesis
        by (auto simp: tok_compile_arity_ps)
    next
      case (JCond c)
      have "qcount (fst (conds_compile c fm [])) = length (snd (conds_compile c fm []))"
        by (rule "2"(2)) (use JCond False "2.prems" in auto)
      with JCond False show ?thesis by (simp add: Let_def case_prod_beta)
    qed (use False "2.prems" compilePlain_arity [of key v] in auto)
  qed
next
  case (3 c l fm ps)
  then show ?case by (simp add: Let_def case_prod_beta)
next
  case (4 g fm ps)
  show ?case
  proof (cases g)
    case (JObj conditions)
    have "sum_list (map qcount (fst (emit_list (\<lambda>kv. compileCondition kv fm) conditions [])))
      = length (snd (emit_list (\<lambda>kv. compileCondition kv fm) conditions []))"
      by (rule emit_list_arity_on)
        (rule compileCondition_append, rule "4"(1), use JObj "4.prems" in auto)
    with JObj show ?thesis by (simp add: Let_def case_prod_beta qcount_join)
  qed simp_all
qed

interpretation entry: sql_emitter "\<lambda>kv. compileCondition kv fm" "\<lambda>kv. wf_entry kv \<and> wf_formatter fm" for fm
  by unfold_locales (rule compileCondition_append, simp add: entry_arity_ps)

interpretation where_clause: sql_emitter "\<lambda>c. conds_compile c fm" "\<lambda>c. wf_conds c \<and> wf_formatter fm" for fm
  by unfold_locales (rule conds_compile_append, simp add: conds_arity_ps)

section \<open>What the branches write\<close>

lemma emit_list_snoc:
  assumes "\<And>x ps. f x ps = (fst (f x []), ps @ snd (f x []))"
  shows "emit_list f (xs @ [x]) [] =
    (fst (emit_list f xs []) @ [fst (f x [])], snd (emit_list f xs []) @ snd (f x []))"
proof -
  have "emit_list f (xs @ [x]) ps = (let (ss, ps1) = emit_list f xs ps; (s, ps2) = f x ps1 in (ss @ [s], ps2))" for ps
    by (induction xs arbitrary: ps) (auto simp: Let_def case_prod_beta)
  then show ?thesis
    using assms [of x "snd (emit_list f xs [])"] by (simp add: Let_def case_prod_beta)
qed

lemma conds_add_compile:
  fixes c d :: conds
  assumes c: "fst (conds_compile c fm []) \<noteq> []" and d: "fst (conds_compile d fm []) \<noteq> []"
    and opr: "c = DBConditions cs opr nested"
  shows "conds_compile (conds_add c d l) fm [] =
    (fst (conds_compile c fm []) @ '' '' @ opname opr @ '' ('' @ fst (conds_compile d fm []) @ '')'',
     snd (conds_compile c fm []) @ snd (conds_compile d fm []))"
proof -
  let ?parts = "filter (\<lambda>s. s \<noteq> []) (fst (emit_list (\<lambda>kv. compileCondition kv fm) cs [])
         @ fst (emit_list (\<lambda>n. compileNested n fm) nested []))"
  have last_part: "compileNested (d, l) fm [] = (''('' @ fst (conds_compile d fm []) @ '')'', snd (conds_compile d fm []))"
    using d by (simp add: paren_def Let_def case_prod_beta)
  have ne: "?parts \<noteq> []"
    using c by (auto simp only: opr conds_compile_parts fst_conv) simp
  have join_snoc: "xs \<noteq> [] \<Longrightarrow> join sep (xs @ [x]) = join sep xs @ sep @ x" for sep x and xs :: "string list"
    by (induction xs) (auto simp: join_Cons)
  have snoc: "emit_list (\<lambda>n. compileNested n fm) (nested @ [(d, l)]) [] =
    (fst (emit_list (\<lambda>n. compileNested n fm) nested []) @ [''('' @ fst (conds_compile d fm []) @ '')''],
     snd (emit_list (\<lambda>n. compileNested n fm) nested []) @ snd (conds_compile d fm []))"
    using emit_list_snoc [of "\<lambda>n. compileNested n fm" nested "(d, l)", OF compileNested_append]
    by (simp only: last_part fst_conv snd_conv)
  show ?thesis
    using join_snoc [OF ne, of "'' '' @ opname opr @ '' ''"]
    by (simp only: opr conds_add.simps conds_compile_parts snoc fst_conv snd_conv) simp
qed

section \<open>Properties\<close>

text \<open>
  C14. The WHERE compiler only appends to the parameter array, its text does not depend on what the
  array already holds, and for well-formed conditions it writes exactly one placeholder per value it
  appends, through every nesting of AND, OR, subqueries, EXISTS, tuples, casts and raw texts.
\<close>

theorem where_clause_is_balanced:
  assumes "wf_conds c" and "wf_formatter fm"
  shows "\<exists>text vals. (\<forall>ps. conds_compile c fm ps = (text, ps @ vals)) \<and> qcount text = length vals"
  using conds_compile_append [of c fm] conds_arity_ps(1) [OF assms] by blast

definition example_where :: conds where
  "example_where = DBConditions
     [(''age >= ?'', JInt 18), (''status'', JArr [JStr ''a'', JStr ''b'']),
      (''__or__'', JArr [JObj [(''x'', JNull)], JObj [(''id'', JTok (dbUuid ''u'' ''=''))]])] And []"

lemma example_where_text:
  "conds_compile example_where None [] =
     (''age >= ? AND status IN (?, ?) AND ((x IS NULL) OR (id = ?::uuid))'',
      [JInt 18, JStr ''a'', JStr ''b'', JStr ''u''])"
  by code_simp

theorem where_clause_is_balanced_witness:
  "\<exists>text vals. (\<forall>ps. conds_compile example_where None ps = (text, ps @ vals)) \<and> qcount text = length vals"
  by (rule where_clause_is_balanced) (simp_all add: example_where_def dbUuid_def wf_plain_def)

text \<open>
  Adding a nested condition: the result is the old clause, the operator of the outer tree, and the
  new clause in parentheses, with the new parameters after the old ones.
\<close>

theorem add_conjoins_in_parentheses:
  assumes "fst (conds_compile (DBConditions cs opr nested) fm []) \<noteq> []"
    and "fst (conds_compile d fm []) \<noteq> []"
  shows "conds_compile (conds_add (DBConditions cs opr nested) d l) fm [] =
    (fst (conds_compile (DBConditions cs opr nested) fm []) @ '' '' @ opname opr
       @ '' ('' @ fst (conds_compile d fm []) @ '')'',
     snd (conds_compile (DBConditions cs opr nested) fm []) @ snd (conds_compile d fm []))"
  using assms by (rule conds_add_compile) simp

theorem add_conjoins_in_parentheses_witness:
  "conds_compile (conds_add (and_conditions [(''a'', JInt 1)]) (or_conditions [(''b'', JNull), (''c'', JBool True)]) And) None []
     = (''a = ? AND (b IS NULL OR c = TRUE)'', [JInt 1])"
  using add_conjoins_in_parentheses [of "[(''a'', JInt 1)]" And "[]" None
      "or_conditions [(''b'', JNull), (''c'', JBool True)]" And]
  by (simp add: and_conditions_def or_conditions_def compilePlain_def opname_def Let_def)

section \<open>Corner cases\<close>

text \<open>
  A nested condition that is empty compiles to a pair of parentheses with nothing inside when it
  stands under a key, where the nested list and the OR groups drop it.
\<close>

lemma empty_condition_value:
  "conds_compile (and_conditions [(''x'', JCond (and_conditions []))]) None [] = (''()'', [])"
  "conds_compile (conds_add (and_conditions []) (and_conditions []) And) None [] = ([], [])"
  by code_simp+

end
