(* ===== verification/JsonArray.thy ===== *)
theory JsonArray
  imports DBConds MakeSQL
begin

text \<open>
  \<open>src/scp/makesql/json-array.ts\<close>: the JSON parameter encoder, the static membership predicates of the
  three dialects, and the condition compiler that binds a plain IN list as one JSON parameter.
\<close>

section \<open>The JSON parameter encoder\<close>

text \<open>
  \<open>JSON.stringify\<close> on the modelled values.  The text of a character is the escape the standard
  prescribes; \<open>undefined\<close> is written \<open>null\<close> in an array and dropped in an object; non-finite numbers
  are \<open>null\<close>; a date is its ISO text.  A wrapper or condition object inside a payload is not modelled:
  its text is left unspecified.
\<close>

definition hex_digit :: "nat \<Rightarrow> char" where
  "hex_digit n = (if n < 10 then char_of (48 + n) else char_of (87 + n))"

definition json_char :: "char \<Rightarrow> string" where
  "json_char c = (
     let n = of_char c :: nat in
     if c = CHR 0x22 then [CHR 0x5C, CHR 0x22]
     else if c = CHR 0x5C then [CHR 0x5C, CHR 0x5C]
     else if n = 8 then [CHR 0x5C, CHR ''b'']
     else if n = 9 then [CHR 0x5C, CHR ''t'']
     else if n = 10 then [CHR 0x5C, CHR ''n'']
     else if n = 12 then [CHR 0x5C, CHR ''f'']
     else if n = 13 then [CHR 0x5C, CHR ''r'']
     else if n < 32 then [CHR 0x5C, CHR ''u'', CHR ''0'', CHR ''0'', hex_digit (n div 16), hex_digit (n mod 16)]
     else [c])"

definition json_string :: "string \<Rightarrow> string" where
  "json_string s = CHR 0x22 # concat (map json_char s) @ [CHR 0x22]"

definition bigint_sentinel :: string where
  "bigint_sentinel = CHR 0x00 # ''int:''"

text \<open>The replacer: a \<open>bigint\<close> becomes the tagged string, a MySQL boolean \<open>1\<close> or \<open>0\<close>.\<close>

fun json_text :: "dialect \<Rightarrow> jsval \<Rightarrow> string" where
  "json_text d JUndef = ''null''"
| "json_text d JNull = ''null''"
| "json_text d (JBool b) =
     (if d = Mysql then (if b then ''1'' else ''0'') else (if b then ''true'' else ''false''))"
| "json_text d (JInt i) = show_int i"
| "json_text d (JFrac s) = s"
| "json_text d (JNonFin s) = ''null''"
| "json_text d (JBig i) = json_string (bigint_sentinel @ show_int i)"
| "json_text d (JStr s) = json_string s"
| "json_text d (JDate ts disp) = json_string ts"
| "json_text d (JArr vs) = ''['' @ join '','' (map (json_text d) vs) @ '']''"
| "json_text d (JObj ob) =
     ''{'' @ join '','' (map (\<lambda>kv. json_string (fst kv) @ '':'' @ json_text d (snd kv))
        (filter (\<lambda>kv. snd kv \<noteq> JUndef) ob)) @ ''}''"
| "json_text d (JTok t) = undefined"
| "json_text d (JCond c) = undefined"

text \<open>
  \<open>tagged.replace(/"\\u0000int:(-?\d+)"/g, '$1')\<close>: \<open>match_tag\<close> is the pattern at the current position,
  yielding the captured digits and the rest; \<open>untag\<close> the scan from left to right.
\<close>

definition tag_prefix :: string where
  "tag_prefix = CHR 0x22 # CHR 0x5C # ''u0000int:''"

definition match_tag :: "string \<Rightarrow> (string \<times> string) option" where
  "match_tag s =
     (if starts_with tag_prefix s then
        (let r = drop (length tag_prefix) s;
             sign = (if starts_with ''-'' r then ''-'' else []);
             r1 = drop (length sign) r;
             ds = takeWhile is_digit r1;
             r2 = dropWhile is_digit r1
         in (if ds \<noteq> [] \<and> starts_with [CHR 0x22] r2 then Some (sign @ ds, tl r2) else None))
      else None)"

lemma match_tag_shorter: "match_tag s = Some (ds, r) \<Longrightarrow> length r < length s"
proof -
  assume m: "match_tag s = Some (ds, r)"
  define r0 where "r0 = drop (length tag_prefix) s"
  define r1 where "r1 = drop (length (if starts_with ''-'' r0 then ''-'' else [])) r0"
  have "r = tl (dropWhile is_digit r1)" and "starts_with tag_prefix s"
    using m by (auto simp: match_tag_def r0_def r1_def Let_def split: if_splits)
  moreover have "length (tl (dropWhile is_digit r1)) \<le> length r1"
    using length_dropWhile_le [of is_digit r1] by (metis diff_le_self le_trans length_tl)
  moreover have "length r1 \<le> length r0" and "length r0 < length s"
    using \<open>starts_with tag_prefix s\<close> by (auto simp: r1_def r0_def tag_prefix_def starts_with_prefix)
  ultimately show ?thesis by simp
qed

function untag :: "string \<Rightarrow> string" where
  "untag [] = []"
| "untag (c # cs) =
     (case match_tag (c # cs) of
        Some (ds, r) \<Rightarrow> ds @ untag r
      | None \<Rightarrow> c # untag cs)"
  by pat_completeness auto

termination
  by (relation "measure length") (auto dest: match_tag_shorter)

definition encodeJsonParam :: "dialect \<Rightarrow> jsval \<Rightarrow> string" where
  "encodeJsonParam d payload = untag (json_text d payload)"

definition encodeJsonArrayParam :: "dialect \<Rightarrow> jsval list \<Rightarrow> string" where
  "encodeJsonArrayParam d vs = encodeJsonParam d (JArr vs)"

section \<open>The membership predicates\<close>

definition inListPredicate :: "dialect \<Rightarrow> string \<Rightarrow> string" where
  "inListPredicate d col = (case d of
      Postgres \<Rightarrow> col @ '' = ANY(?)''
    | Mysql \<Rightarrow> col @ '' IN (SELECT JSON_UNQUOTE(v) FROM JSON_TABLE(?, '' @ squoted ''$[*]''
                @ '' COLUMNS(v JSON PATH '' @ squoted ''$'' @ '')) jt)''
    | Sqlite \<Rightarrow> col @ '' IN (SELECT value FROM json_each(?))'')"

text \<open>\<open>columns.map((c, i) => ...)\<close>: the column with its index.\<close>

definition map_index :: "(nat \<Rightarrow> 'a \<Rightarrow> 'b) \<Rightarrow> 'a list \<Rightarrow> 'b list" where
  "map_index f xs = map (\<lambda>i. f i (xs ! i)) [0..<length xs]"

definition PG_ARRAY_CAST_TOKEN :: string where
  "PG_ARRAY_CAST_TOKEN = ''@@PG_ARRAY_CAST@@''"

text \<open>\<open>pgElementTypes?.[i] ?? PG_ARRAY_CAST_TOKEN\<close>.\<close>

definition elem_type :: "string list option \<Rightarrow> nat \<Rightarrow> string" where
  "elem_type tys i = (case tys of
      None \<Rightarrow> PG_ARRAY_CAST_TOKEN
    | Some ts \<Rightarrow> (if i < length ts then ts ! i else PG_ARRAY_CAST_TOKEN))"

definition json_path :: "nat \<Rightarrow> string" where
  "json_path i = squoted (''$['' @ show_nat i @ '']'')"

definition tupleInPredicate :: "dialect \<Rightarrow> string \<Rightarrow> string list \<Rightarrow> string list option \<Rightarrow> string" where
  "tupleInPredicate d table columns pgElementTypes =
     (let target = ''('' @ join '', '' (map (\<lambda>k. table @ ''.'' @ k) columns) @ '')'' in
      case d of
        Postgres \<Rightarrow> target @ '' IN (SELECT * FROM UNNEST(''
            @ join '', '' (map_index (\<lambda>i _. ''?::'' @ elem_type pgElementTypes i) columns) @ ''))''
      | Mysql \<Rightarrow> target @ '' IN (SELECT ''
            @ join '', '' (map_index (\<lambda>i _. ''JSON_UNQUOTE(c'' @ show_nat i @ '')'') columns)
            @ '' FROM JSON_TABLE(?, '' @ squoted ''$[*]'' @ '' COLUMNS(''
            @ join '', '' (map_index (\<lambda>i _. ''c'' @ show_nat i @ '' JSON PATH '' @ json_path i) columns)
            @ '')) jt)''
      | Sqlite \<Rightarrow> target @ '' IN (SELECT ''
            @ join '', '' (map_index (\<lambda>i _. ''json_extract(value, '' @ json_path i @ '')'') columns)
            @ '' FROM json_each(?))'')"

section \<open>The dialect-aware condition compiler\<close>

definition inListJson :: "dialect \<Rightarrow> string \<Rightarrow> jsval list \<Rightarrow> string \<times> string" where
  "inListJson d col vs = (inListPredicate d col, encodeJsonArrayParam d vs)"

text \<open>
  \<open>JsonArrayConditions.compileCondition\<close>: the plain non-empty IN list is intercepted, everything else
  goes to the base class (\<open>super.compileCondition\<close>).
\<close>

definition json_compileCondition ::
  "dialect \<Rightarrow> string \<times> jsval \<Rightarrow> formatter option \<Rightarrow> jsval list \<Rightarrow> string \<times> jsval list" where
  "json_compileCondition d kv fm ps =
     (case kv of (key, v) \<Rightarrow>
       (case v of
          JArr vs \<Rightarrow>
            (if length vs > 0 \<and> CHR ''?'' \<notin> set key \<and> \<not> starts_with ''__'' key
             then (let (s, param) = inListJson d key vs in (s, ps @ [JStr param]))
             else compileCondition kv fm ps)
        | _ \<Rightarrow> compileCondition kv fm ps))"

text \<open>
  \<open>conditionsFor(conditions, dialect).compile(params, formatter)\<close>: the inherited \<open>compile\<close> with the
  dialect's own \<open>compileCondition\<close> on the entries of the object; the condition trees nested in it are
  of the base class.
\<close>

definition entry_compile ::
  "dialect \<Rightarrow> string \<times> jsval \<Rightarrow> formatter option \<Rightarrow> jsval list \<Rightarrow> string \<times> jsval list" where
  "entry_compile d kv fm ps =
     (if d = Postgres then compileCondition kv fm ps else json_compileCondition d kv fm ps)"

definition where_compile ::
  "dialect \<Rightarrow> (string \<times> jsval) list \<Rightarrow> formatter option \<Rightarrow> jsval list \<Rightarrow> string \<times> jsval list" where
  "where_compile d conditions fm ps =
     (let (main, ps1) = emit_list (\<lambda>kv. entry_compile d kv fm) conditions ps;
          parts = filter (\<lambda>s. s \<noteq> []) main
      in (join '' AND '' parts, ps1))"

section \<open>The encoder writes the JSON text it means\<close>

text \<open>
  The reference text: as \<open>json_text\<close>, with a \<open>bigint\<close> written as its bare digits.  The encoder reaches it
  by tagging and untagging, which is exact when no string of the payload holds a NUL character.
\<close>

fun json_ref :: "dialect \<Rightarrow> jsval \<Rightarrow> string" where
  "json_ref d (JBig i) = show_int i"
| "json_ref d (JArr vs) = ''['' @ join '','' (map (json_ref d) vs) @ '']''"
| "json_ref d (JObj ob) =
     ''{'' @ join '','' (map (\<lambda>kv. json_string (fst kv) @ '':'' @ json_ref d (snd kv))
        (filter (\<lambda>kv. snd kv \<noteq> JUndef) ob)) @ ''}''"
| "json_ref d v = json_text d v"

definition nul_free :: "string \<Rightarrow> bool" where
  "nul_free s \<longleftrightarrow> CHR 0x00 \<notin> set s"

fun json_ok :: "jsval \<Rightarrow> bool" where
  "json_ok (JFrac s) = (CHR 0x22 \<notin> set s)"
| "json_ok (JStr s) = nul_free s"
| "json_ok (JDate ts disp) = nul_free ts"
| "json_ok (JArr vs) = (\<forall>v \<in> set vs. json_ok v)"
| "json_ok (JObj ob) = (\<forall>kv \<in> set ob. nul_free (fst kv) \<and> json_ok (snd kv))"
| "json_ok (JTok t) = False"
| "json_ok (JCond c) = False"
| "json_ok v = True"

lemma untag_plain_char [simp]: "c \<noteq> CHR 0x22 \<Longrightarrow> untag (c # cs) = c # untag cs"
  by (simp add: match_tag_def tag_prefix_def)

declare untag.simps(2) [simp del]

lemma untag_plain: "CHR 0x22 \<notin> set s \<Longrightarrow> untag (s @ b) = s @ untag b"
proof (induction s)
  case (Cons c s)
  then have "c \<noteq> CHR 0x22" by auto
  with Cons show ?case by simp
qed simp

definition opens_tag :: "string \<Rightarrow> bool" where
  "opens_tag b = starts_with (tl tag_prefix) b"

lemma untag_quote: "\<not> opens_tag b \<Longrightarrow> untag (CHR 0x22 # b) = CHR 0x22 # untag b"
  by (simp add: untag.simps match_tag_def tag_prefix_def opens_tag_def)

lemma opens_tag_simps [simp]:
  "\<not> opens_tag []" "c \<noteq> CHR 0x5C \<Longrightarrow> \<not> opens_tag (c # b)"
  "c \<noteq> CHR ''u'' \<Longrightarrow> \<not> opens_tag (CHR 0x5C # c # b)"
  "\<not> (x = CHR ''0'' \<and> y = CHR ''0'') \<Longrightarrow>
     \<not> opens_tag (CHR 0x5C # CHR ''u'' # CHR ''0'' # CHR ''0'' # x # y # b)"
  by (auto simp: opens_tag_def tag_prefix_def)

lemma hex_digit_0: "n < 16 \<Longrightarrow> hex_digit n = CHR ''0'' \<Longrightarrow> n = 0"
  by (drule arg_cong [where f = "of_char :: char \<Rightarrow> nat"]) (simp add: hex_digit_def split: if_splits)

lemma hex_digit_not_quote: "n < 16 \<Longrightarrow> hex_digit n \<noteq> CHR 0x22"
proof
  assume "n < 16" and "hex_digit n = CHR 0x22"
  then have "(of_char (hex_digit n) :: nat) = 34" by simp
  with \<open>n < 16\<close> show False by (simp add: hex_digit_def split: if_splits)
qed

lemma of_char_0: "(of_char c :: nat) = 0 \<longleftrightarrow> c = CHR 0x00"
  using of_char_eq_iff [of c "CHR 0x00", where 'a = nat] by simp

lemma nul_free_Cons [simp]: "nul_free (c # s) \<longleftrightarrow> c \<noteq> CHR 0x00 \<and> nul_free s"
  by (auto simp: nul_free_def)

text \<open>The body of a string literal neither opens a tag nor is changed by the scan.\<close>

lemma json_char_cases:
  assumes "c \<noteq> CHR 0x00"
  obtains (quote) "c = CHR 0x22" "json_char c = [CHR 0x5C, CHR 0x22]"
    | (other) "CHR 0x22 \<notin> set (json_char c)" "\<And>b. \<not> opens_tag (json_char c @ b)"
proof (cases "c = CHR 0x22")
  case True
  then show thesis by (intro quote) (simp_all add: json_char_def)
next
  case False
  define n where "n = (of_char c :: nat)"
  have "n \<noteq> 0" using assms of_char_0 [of c] by (simp add: n_def)
  have d: "\<not> (hex_digit (n div 16) = CHR ''0'' \<and> hex_digit (n mod 16) = CHR ''0'')" if "n < 32"
  proof
    assume h: "hex_digit (n div 16) = CHR ''0'' \<and> hex_digit (n mod 16) = CHR ''0''"
    have "n div 16 < 16" using that by simp
    with h have "n div 16 = 0" and "n mod 16 = 0"
      using hex_digit_0 [of "n div 16"] hex_digit_0 [of "n mod 16"] by auto
    with \<open>n \<noteq> 0\<close> show False using div_mult_mod_eq [of n 16] by simp
  qed
  have q: "CHR 0x22 \<noteq> hex_digit (n div 16)" if "n < 32"
    using hex_digit_not_quote [of "n div 16"] that by fastforce
  have r: "CHR 0x22 \<noteq> hex_digit (n mod 16)"
    using hex_digit_not_quote [of "n mod 16"] by fastforce
  show thesis
    by (rule other)
      (use False d q r in
        \<open>auto simp: json_char_def n_def [symmetric] Let_def\<close>)
qed

lemma body_no_tag: "nul_free s \<Longrightarrow> \<not> opens_tag (concat (map json_char s) @ CHR 0x22 # b)"
proof (cases s)
  case (Cons c s')
  assume "nul_free s"
  with Cons have "c \<noteq> CHR 0x00" by simp
  then show ?thesis by (cases rule: json_char_cases) (simp_all add: Cons)
qed simp

lemma untag_body:
  "nul_free s \<Longrightarrow> untag (concat (map json_char s) @ CHR 0x22 # b) = concat (map json_char s) @ untag (CHR 0x22 # b)"
proof (induction s)
  case (Cons c s)
  then have "c \<noteq> CHR 0x00" and s: "nul_free s" by simp_all
  then show ?case
    by (cases rule: json_char_cases)
      (simp_all add: Cons.IH [OF s] untag_quote [OF body_no_tag [OF s]] untag_plain)
qed simp

lemma untag_string:
  "nul_free s \<Longrightarrow> \<not> opens_tag b \<Longrightarrow> untag (json_string s @ b) = json_string s @ untag b"
  by (simp add: json_string_def untag_quote [OF body_no_tag] untag_body untag_quote)

lemma json_char_plain: "(of_char c :: nat) \<ge> 32 \<Longrightarrow> c \<noteq> CHR 0x22 \<Longrightarrow> c \<noteq> CHR 0x5C \<Longrightarrow> json_char c = [c]"
  by (auto simp: json_char_def Let_def)

lemma json_char_digits: "\<forall>c \<in> set s. is_digit c \<Longrightarrow> concat (map json_char s) = s"
proof (induction s)
  case (Cons c s)
  have "json_char c = [c]"
    by (rule json_char_plain) (use Cons.prems in \<open>auto simp: is_digit_def\<close>)
  with Cons show ?case by simp
qed simp

lemma json_char_show_int: "concat (map json_char (show_int i)) = show_int i"
proof -
  have "json_char (CHR ''-'') = ''-''" by code_simp
  then show ?thesis using show_nat_digits by (simp add: show_int_def json_char_digits)
qed

lemma json_tagged: "json_string (bigint_sentinel @ show_int i) = tag_prefix @ show_int i @ [CHR 0x22]"
proof -
  have "concat (map json_char bigint_sentinel) = CHR 0x5C # ''u0000int:''" by code_simp
  then show ?thesis
    by (simp add: json_string_def json_char_show_int tag_prefix_def)
qed

lemma takeWhile_show_nat:
  "takeWhile is_digit (show_nat n @ CHR 0x22 # b) = show_nat n"
  "dropWhile is_digit (show_nat n @ CHR 0x22 # b) = CHR 0x22 # b"
proof -
  have "\<not> is_digit (CHR 0x22)" by (simp add: is_digit_def)
  with show_nat_digits [of n] show "takeWhile is_digit (show_nat n @ CHR 0x22 # b) = show_nat n"
    and "dropWhile is_digit (show_nat n @ CHR 0x22 # b) = CHR 0x22 # b"
    by (simp_all add: takeWhile_append2 dropWhile_append2)
qed

lemma show_nat_no_minus: "\<not> starts_with ''-'' (show_nat n @ b)"
proof -
  have "is_digit (hd (show_nat n))" using show_nat_digits [of n] by (simp add: hd_in_set)
  then show ?thesis
    using minus_not_digit by (cases "show_nat n") auto
qed

lemma match_tagged: "match_tag (tag_prefix @ show_int i @ CHR 0x22 # b) = Some (show_int i, b)"
proof -
  have pre: "starts_with tag_prefix (tag_prefix @ r)" for r
    by (auto simp: starts_with_prefix)
  show ?thesis
    using show_nat_no_minus [of "nat i" "CHR 0x22 # b"]
    by (simp add: match_tag_def pre show_int_def takeWhile_show_nat Let_def)
qed

lemma untag_tagged: "untag (json_string (bigint_sentinel @ show_int i) @ b) = show_int i @ untag b"
proof -
  have cons: "tag_prefix @ show_int i @ CHR 0x22 # b
      = CHR 0x22 # tl tag_prefix @ show_int i @ CHR 0x22 # b"
    by (simp add: tag_prefix_def)
  have "untag (tag_prefix @ show_int i @ CHR 0x22 # b) = show_int i @ untag b"
    using match_tagged [of i b] unfolding cons by (simp add: untag.simps(2))
  then show ?thesis by (simp add: json_tagged)
qed

lemma show_int_no_quote: "CHR 0x22 \<notin> set (show_int i)"
proof -
  have "CHR 0x22 \<notin> set (show_nat n)" for n
    using show_nat_digits [of n] by (auto simp: is_digit_def)
  then show ?thesis by (simp add: show_int_def)
qed

text \<open>Elements joined by commas, each followed by a character that is not a backslash.\<close>

lemma untag_join:
  assumes "\<And>x b. x \<in> set xs \<Longrightarrow> \<not> opens_tag b \<Longrightarrow> untag (f x @ b) = g x @ untag b"
    and "\<not> opens_tag b"
  shows "untag (join '','' (map f xs) @ b) = join '','' (map g xs) @ untag b"
  using assms
proof (induction xs)
  case (Cons x xs)
  then show ?case by (cases xs) simp_all
qed simp

lemma untag_json: "json_ok v \<Longrightarrow> \<not> opens_tag b \<Longrightarrow> untag (json_text d v @ b) = json_ref d v @ untag b"
proof (induction d v arbitrary: b rule: json_text.induct)
  case (10 d vs)
  then show ?case by (simp add: untag_join [of vs "json_text d" "json_ref d"])
next
  case (11 d ob)
  have "untag (join '','' (map (\<lambda>kv. json_string (fst kv) @ '':'' @ json_text d (snd kv))
        (filter (\<lambda>kv. snd kv \<noteq> JUndef) ob)) @ ''}'' @ b)
    = join '','' (map (\<lambda>kv. json_string (fst kv) @ '':'' @ json_ref d (snd kv))
        (filter (\<lambda>kv. snd kv \<noteq> JUndef) ob)) @ untag (''}'' @ b)"
    by (rule untag_join) (use 11 in \<open>auto simp: untag_string\<close>)
  then show ?case by simp
qed (simp_all add: untag_tagged untag_string untag_plain show_int_no_quote)

lemma encode_exact: "json_ok v \<Longrightarrow> encodeJsonParam d v = json_ref d v"
  using untag_json [of v "[]" d] by (simp add: encodeJsonParam_def)

section \<open>The dialect-aware WHERE compiler is a producer\<close>

lemma qcount_inListPredicate: "qcount (inListPredicate d col) = Suc (qcount col)"
  by (cases d) (simp_all add: inListPredicate_def)

lemma entry_compile_cases:
  obtains (json) key vs where "kv = (key, JArr vs)" "qcount key = 0"
      "\<And>ps. entry_compile d kv fm ps = (inListPredicate d key, ps @ [JStr (encodeJsonArrayParam d vs)])"
    | (base) "\<And>ps. entry_compile d kv fm ps = compileCondition kv fm ps"
proof (cases "\<exists>key vs. d \<noteq> Postgres \<and> kv = (key, JArr vs) \<and> length vs > 0 \<and> CHR ''?'' \<notin> set key
    \<and> \<not> starts_with ''__'' key")
  case True
  then show thesis
    by (elim exE conjE) (rule json, auto simp: entry_compile_def json_compileCondition_def inListJson_def
      qcount_0_iff simp del: compileCondition.simps)
next
  case False
  then show thesis
    by (intro base) (cases kv, auto simp: entry_compile_def json_compileCondition_def
      simp del: compileCondition.simps split: jsval.splits)
qed

lemma entry_compile_append:
  "entry_compile d kv fm ps = (fst (entry_compile d kv fm []), ps @ snd (entry_compile d kv fm []))"
proof (cases rule: entry_compile_cases [of kv d fm])
  case base
  then show ?thesis by (simp only: base) (rule compileCondition_append)
qed simp

lemma entry_compile_arity:
  "wf_entry kv \<Longrightarrow> wf_formatter fm \<Longrightarrow>
     qcount (fst (entry_compile d kv fm [])) = length (snd (entry_compile d kv fm []))"
proof (cases rule: entry_compile_cases [of kv d fm])
  case base
  moreover assume "wf_entry kv" "wf_formatter fm"
  ultimately show ?thesis by (simp only: base entry_arity_ps)
qed (simp add: qcount_inListPredicate)

interpretation dialect_entry: sql_emitter "\<lambda>kv. entry_compile d kv fm" "\<lambda>kv. wf_entry kv \<and> wf_formatter fm" for d fm
  by unfold_locales (rule entry_compile_append, simp add: entry_compile_arity)

lemma where_compile_append:
  "where_compile d cs fm ps = (fst (where_compile d cs fm []), ps @ snd (where_compile d cs fm []))"
  using dialect_entry.emit_list_append [of d fm cs ps] by (simp add: where_compile_def Let_def case_prod_beta)

lemma where_compile_arity:
  "\<forall>kv \<in> set cs. wf_entry kv \<Longrightarrow> wf_formatter fm \<Longrightarrow>
     qcount (fst (where_compile d cs fm [])) = length (snd (where_compile d cs fm []))"
  using dialect_entry.emit_list_arity [of cs fm d]
  by (simp add: where_compile_def Let_def case_prod_beta qcount_join)

interpretation dialect_where: sql_emitter "\<lambda>cs. where_compile d cs fm"
    "\<lambda>cs. (\<forall>kv \<in> set cs. wf_entry kv) \<and> wf_formatter fm" for d fm
  by unfold_locales (rule where_compile_append, simp add: where_compile_arity)

lemma where_compile_postgres:
  "where_compile Postgres cs fm ps = conds_compile (and_conditions cs) fm ps"
proof -
  have "(\<lambda>kv. entry_compile Postgres kv fm) = (\<lambda>kv. compileCondition kv fm)"
    by (simp add: entry_compile_def fun_eq_iff)
  then show ?thesis
    by (simp add: where_compile_def and_conditions_def opname_def Let_def case_prod_beta)
qed

lemma where_compile_Nil [simp]: "where_compile d [] fm ps = ([], ps)"
  by (simp add: where_compile_def)

lemma map_index_const: "map_index (\<lambda>i x. f i) xs = map f [0..<length xs]"
  by (simp add: map_index_def)

section \<open>Properties\<close>

text \<open>
  C18. The JSON parameter of an IN list or a batch is exactly the JSON text of the payload, every
  \<open>bigint\<close> as a number token with all its digits, whenever no string of the payload holds a NUL.
\<close>

theorem json_param_is_exact:
  "json_ok v \<Longrightarrow> encodeJsonParam d v = json_ref d v"
  by (rule encode_exact)

theorem json_param_is_exact_witness:
  "encodeJsonParam Mysql (JArr [JBig 9007199254740993, JStr [CHR 0x22], JBool True])
     = ''[9007199254740993,'' @ [CHR 0x22, CHR 0x5C, CHR 0x22, CHR 0x22] @ '',1]''"
proof -
  have ok: "json_ok (JArr [JBig 9007199254740993, JStr [CHR 0x22], JBool True])" by code_simp
  have "json_ref Mysql (JArr [JBig 9007199254740993, JStr [CHR 0x22], JBool True])
     = ''[9007199254740993,'' @ [CHR 0x22, CHR 0x5C, CHR 0x22, CHR 0x22] @ '',1]''"
  proof -
    have "json_string [CHR 0x22] = [CHR 0x22, CHR 0x5C, CHR 0x22, CHR 0x22]" by code_simp
    moreover have "show_int 9007199254740993 = ''9007199254740993''"
      by (simp add: show_int_def show_nat.simps digit_simps)
    ultimately show ?thesis by simp
  qed
  with json_param_is_exact [OF ok, of Mysql] show ?thesis by (rule trans)
qed

text \<open>
  A plain key with a non-empty list binds one value per element on PostgreSQL and one JSON
  parameter on MySQL and SQLite, whose text does not depend on the list; an empty list is the
  constant false and binds nothing, on every dialect.
\<close>

theorem in_list_binding:
  assumes "qcount key = 0" and "\<not> starts_with ''__'' key"
  shows "entry_compile d (key, JArr []) fm ps = (''1 = 0'', ps)
    \<and> entry_compile d (key, JArr (v # vs)) fm ps =
       (if d = Postgres
        then (key @ '' IN ('' @ join '', '' (replicate (Suc (length vs)) ''?'') @ '')'', ps @ v # vs)
        else (inListPredicate d key, ps @ [JStr (encodeJsonArrayParam d (v # vs))]))"
proof -
  have "key \<noteq> ''__raw__''" and "key \<noteq> ''__or__''" using assms(2) by auto
  then show ?thesis
    using assms
    by (auto simp: entry_compile_def json_compileCondition_def inListJson_def compilePlain_def
        qcount_0_iff emit_list_q emit_q_def Let_def)
qed

theorem in_list_binding_witness:
  "entry_compile Sqlite (''id'', JArr [JInt 1, JInt 2]) None []
     = (''id IN (SELECT value FROM json_each(?))'', [JStr ''[1,2]''])"
proof -
  have "encodeJsonArrayParam Sqlite [JInt 1, JInt 2] = ''[1,2]''" by code_simp
  then show ?thesis
    using in_list_binding [of "''id''" Sqlite None "[]" "JInt 1" "[JInt 2]"]
    by (simp add: inListPredicate_def)
qed

lemma tuple_predicate_qcount:
  assumes "qcount table = 0" and "\<forall>c \<in> set columns. qcount c = 0"
    and "\<forall>t \<in> set (case tys of None \<Rightarrow> [] | Some ts \<Rightarrow> ts). qcount t = 0"
  shows "qcount (tupleInPredicate d table columns tys) = (if d = Postgres then length columns else 1)"
proof -
  have "qcount (elem_type tys i) = 0" for i
    using assms(3) by (auto simp: elem_type_def PG_ARRAY_CAST_TOKEN_def split: option.splits)
  then have types: "qcount (join '', '' (map (\<lambda>i. ''?::'' @ elem_type tys i) [0..<n])) = n" for n
    by (simp add: qcount_join comp_def sum_list_triv)
  have names: "qcount (join '', '' (map f [0..<n])) = 0" if "\<And>i. qcount (f i) = 0" for f :: "nat \<Rightarrow> string" and n
    using that by (intro qcount_join_names) auto
  have "qcount (join '', '' (map (\<lambda>k. table @ ''.'' @ k) columns)) = 0"
    using assms by (intro qcount_join_names) auto
  with types names show ?thesis
    by (cases d) (simp_all add: tupleInPredicate_def map_index_const json_path_def Let_def)
qed

text \<open>
  The composite membership predicate has a fixed number of placeholders whatever is bound: one per
  key column on PostgreSQL, a single one on MySQL and SQLite.
\<close>

theorem tuple_predicate_placeholders:
  assumes "qcount table = 0" and "\<forall>c \<in> set columns. qcount c = 0"
    and "\<forall>t \<in> set (case tys of None \<Rightarrow> [] | Some ts \<Rightarrow> ts). qcount t = 0"
  shows "qcount (tupleInPredicate d table columns tys) = (if d = Postgres then length columns else 1)"
  using assms by (rule tuple_predicate_qcount)

theorem tuple_predicate_placeholders_witness:
  "qcount (tupleInPredicate Postgres ''t'' [''a'', ''b''] (Some [''int'', ''text''])) = 2
   \<and> qcount (tupleInPredicate Mysql ''t'' [''a'', ''b''] None) = 1"
  using tuple_predicate_placeholders [of "''t''" "[''a'', ''b'']" "Some [''int'', ''text'']" Postgres]
    tuple_predicate_placeholders [of "''t''" "[''a'', ''b'']" None Mysql]
  by simp

section \<open>A forged number\<close>

text \<open>
  A string that starts with the sentinel is encoded as the number it spells: the NUL of the sentinel
  and the NUL of a caller's string are escaped alike.
\<close>

lemma sentinel_can_be_forged:
  "encodeJsonParam Mysql (JArr [JStr (CHR 0x00 # ''int:5'')]) = encodeJsonParam Mysql (JArr [JBig 5])"
  "encodeJsonParam Mysql (JArr [JBig 5]) = ''[5]''"
  by code_simp+

end
