(* ===== verification/CompileSelect.thy ===== *)
theory CompileSelect
  imports JsonArray
begin

text \<open>
  \<open>src/scp/makesql/compile.ts\<close>, \<open>compile-select.ts\<close> and the ORDER BY rendering of \<open>src/Column.ts\<close>: the
  dialect's cast formatter, the WHERE bundle and its connectors, and the SELECT compiler with its split
  at the end of the WHERE region.
\<close>

section \<open>Formatters and WHERE bundles\<close>

definition pgCastFormatter :: formatter where
  "pgCastFormatter placeholder sqlType = placeholder @ ''::'' @ sqlType"

definition noCastFormatter :: formatter where
  "noCastFormatter placeholder sqlType = placeholder"

definition formatterFor :: "dialect \<Rightarrow> formatter" where
  "formatterFor d = (if d = Postgres then pgCastFormatter else noCastFormatter)"

definition compileWhere :: "jsobj \<Rightarrow> dialect \<Rightarrow> makesql" where
  "compileWhere conditions d =
     (let (core, ps) = where_compile d conditions (Some (formatterFor d)) [] in mk core ps)"

definition whereClause :: "makesql \<Rightarrow> makesql" where
  "whereClause w = (if sql w = [] then mk [] [] else mk ('' WHERE '' @ sql w) (params w))"

definition andTrailing :: "makesql \<Rightarrow> makesql list \<Rightarrow> makesql list" where
  "andTrailing h tails = h # map (\<lambda>t. t\<lparr>sql := '' AND '' @ sql t\<rparr>) tails"

section \<open>ORDER BY\<close>

record order_column =
  ocolumn :: string
  direction :: string
  nulls :: "string option"

datatype order_spec = NoOrder | OrderText string | OrderOne order_column | OrderMany "order_column list"

definition order_column_string :: "order_column \<Rightarrow> string" where
  "order_column_string oc = ocolumn oc @ '' '' @ direction oc
     @ (case nulls oc of None \<Rightarrow> [] | Some n \<Rightarrow> '' NULLS '' @ n)"

text \<open>\<open>undefined\<close> (no order) is the empty text: the caller only tests it for truth.\<close>

fun orderToString :: "order_spec \<Rightarrow> string" where
  "orderToString NoOrder = []"
| "orderToString (OrderText s) = s"
| "orderToString (OrderMany ocs) = join '', '' (map order_column_string ocs)"
| "orderToString (OrderOne oc) = order_column_string oc"

section \<open>SELECT\<close>

datatype count = Static int | BoundCount jsval

record cte =
  cteName :: string
  cteSql :: string
  cteParams :: "jsval list"

text \<open>The optional text fields are empty when absent: the code only tests them for truth.\<close>

record select_desc =
  sdialect :: dialect
  fromTable :: string
  select :: string
  selectColumn :: "string option"
  sconditions :: jsobj
  joinText :: string
  joinParams :: "jsval list"
  scte :: "cte option"
  groupBy :: string
  order :: order_spec
  limit :: "count option"
  offset :: "count option"
  appendText :: string
  forUpdate :: bool
  forShare :: bool

record select_bundle =
  head :: string
  headParams :: "jsval list"
  tail :: string
  tailParams :: "jsval list"
  lead :: string

definition bundle_sql :: "select_bundle \<Rightarrow> string" where
  "bundle_sql b = head b @ tail b"

definition bundle_params :: "select_bundle \<Rightarrow> jsval list" where
  "bundle_params b = headParams b @ tailParams b"

definition bundle_makesql :: "select_bundle \<Rightarrow> makesql" where
  "bundle_makesql b = mk (bundle_sql b) (bundle_params b)"

definition lockTail :: "bool \<Rightarrow> bool \<Rightarrow> scp_error + string" where
  "lockTail fu fs =
     (if fu \<and> fs then Inl LockConflict
      else if fu then Inr '' FOR UPDATE''
      else if fs then Inr '' FOR SHARE''
      else Inr [])"

definition count_text :: "count \<Rightarrow> jsval list \<Rightarrow> string \<times> jsval list" where
  "count_text c ps = (case c of Static n \<Rightarrow> (show_int n, ps) | BoundCount v \<Rightarrow> (''?'', ps @ [v]))"

definition page_text :: "string \<Rightarrow> count option \<Rightarrow> jsval list \<Rightarrow> string \<times> jsval list" where
  "page_text word c ps = (case c of
      None \<Rightarrow> ([], ps)
    | Some n \<Rightarrow> (let (s, ps1) = count_text n ps in (word @ s, ps1)))"

definition opt_text :: "string \<Rightarrow> string \<Rightarrow> string" where
  "opt_text word s = (if s = [] then [] else word @ s)"

definition compileSelect :: "select_desc \<Rightarrow> scp_error + select_bundle" where
  "compileSelect desc =
     (let selectCols = (if select desc \<noteq> [] then select desc
                        else (case selectColumn desc of None \<Rightarrow> ''*'' | Some c \<Rightarrow> c));
          hp0 = (case scte desc of None \<Rightarrow> [] | Some c \<Rightarrow> cteParams c) @ joinParams desc;
          (wclause, hp) = where_compile (sdialect desc) (sconditions desc) (Some (formatterFor (sdialect desc))) hp0;
          hd_text = (case scte desc of None \<Rightarrow> []
                     | Some c \<Rightarrow> ''WITH '' @ cteName c @ '' AS ('' @ cteSql c @ '') '')
                 @ ''SELECT '' @ selectCols @ '' FROM '' @ fromTable desc
                 @ opt_text '' '' (joinText desc) @ opt_text '' WHERE '' wclause;
          orderClause = orderToString (order desc);
          (lim, tp1) = page_text '' LIMIT '' (limit desc) [];
          (off, tp2) = page_text '' OFFSET '' (offset desc) tp1
      in bind_r (lockTail (forUpdate desc) (forShare desc)) (\<lambda>lock.
         Inr \<lparr>head = hd_text, headParams = hp,
              tail = opt_text '' GROUP BY '' (groupBy desc) @ opt_text '' ORDER BY '' orderClause
                     @ lim @ off @ lock @ opt_text '' '' (appendText desc),
              tailParams = tp2,
              lead = (if wclause \<noteq> [] then ''AND'' else ''WHERE'')\<rparr>))"

definition plain_select :: "dialect \<Rightarrow> string \<Rightarrow> select_desc" where
  "plain_select d t = \<lparr>sdialect = d, fromTable = t, select = [], selectColumn = None, sconditions = [],
     joinText = [], joinParams = [], scte = None, groupBy = [], order = NoOrder, limit = None,
     offset = None, appendText = [], forUpdate = False, forShare = False\<rparr>"

section \<open>Balance\<close>

definition wf_select :: "select_desc \<Rightarrow> bool" where
  "wf_select desc \<longleftrightarrow>
     qcount (fromTable desc) = 0 \<and> qcount (select desc) = 0
     \<and> (case selectColumn desc of None \<Rightarrow> True | Some c \<Rightarrow> qcount c = 0)
     \<and> (\<forall>kv \<in> set (sconditions desc). wf_entry kv)
     \<and> qcount (joinText desc) = length (joinParams desc)
     \<and> (case scte desc of None \<Rightarrow> True
        | Some c \<Rightarrow> qcount (cteName c) = 0 \<and> qcount (cteSql c) = length (cteParams c))
     \<and> qcount (groupBy desc) = 0 \<and> qcount (orderToString (order desc)) = 0 \<and> qcount (appendText desc) = 0"

lemma keeps_placeholder_for [simp]: "keeps_placeholder (formatterFor d)"
  by (simp add: formatterFor_def keeps_placeholder_def pgCastFormatter_def noCastFormatter_def)

lemma wf_formatter_for [simp]: "wf_formatter (Some (formatterFor d))"
  by (simp add: wf_formatter_def the_formatter_def)

lemma qcount_opt_text [arity_simps]: "qcount word = 0 \<Longrightarrow> qcount (opt_text word s) = qcount s"
  by (simp add: opt_text_def)

interpretation page: sql_emitter "\<lambda>c. page_text word c" "\<lambda>_. qcount word = 0" for word
  by unfold_locales
    (auto simp: page_text_def count_text_def split: option.splits count.splits)

lemma lockTail_qcount: "lockTail fu fs = Inr s \<Longrightarrow> qcount s = 0"
  by (auto simp: lockTail_def split: if_splits)

lemma compileSelect_fields:
  assumes "compileSelect desc = Inr b"
  defines "w \<equiv> where_compile (sdialect desc) (sconditions desc) (Some (formatterFor (sdialect desc))) []"
  obtains lock where "lockTail (forUpdate desc) (forShare desc) = Inr lock"
    and "head b = (case scte desc of None \<Rightarrow> [] | Some c \<Rightarrow> ''WITH '' @ cteName c @ '' AS ('' @ cteSql c @ '') '')
      @ ''SELECT '' @ (if select desc \<noteq> [] then select desc
                        else (case selectColumn desc of None \<Rightarrow> ''*'' | Some c \<Rightarrow> c))
      @ '' FROM '' @ fromTable desc @ opt_text '' '' (joinText desc) @ opt_text '' WHERE '' (fst w)"
    and "headParams b = (case scte desc of None \<Rightarrow> [] | Some c \<Rightarrow> cteParams c) @ joinParams desc @ snd w"
    and "tail b = opt_text '' GROUP BY '' (groupBy desc) @ opt_text '' ORDER BY '' (orderToString (order desc))
      @ fst (page_text '' LIMIT '' (limit desc) []) @ fst (page_text '' OFFSET '' (offset desc) [])
      @ lock @ opt_text '' '' (appendText desc)"
    and "tailParams b = snd (page_text '' LIMIT '' (limit desc) []) @ snd (page_text '' OFFSET '' (offset desc) [])"
    and "lead b = (if fst w \<noteq> [] then ''AND'' else ''WHERE'')"
proof -
  note app = where_compile_append [of "sdialect desc" "sconditions desc" "Some (formatterFor (sdialect desc))"
      "(case scte desc of None \<Rightarrow> [] | Some c \<Rightarrow> cteParams c) @ joinParams desc"]
    page.emit_append [of "'' OFFSET ''" "offset desc" "snd (page_text '' LIMIT '' (limit desc) [])"]
  obtain lock where lock: "lockTail (forUpdate desc) (forShare desc) = Inr lock"
    using assms(1) by (auto simp: compileSelect_def Let_def case_prod_beta bind_r_Inr_iff)
  show thesis
    by (rule that [OF lock])
      (use assms(1) in \<open>auto simp: compileSelect_def Let_def case_prod_beta lock app w_def\<close>)
qed

lemma compileSelect_balanced:
  assumes "wf_select desc" and "compileSelect desc = Inr b"
  shows "qcount (head b) = length (headParams b)" and "qcount (tail b) = length (tailParams b)"
proof -
  note wf = assms(1) [unfolded wf_select_def]
  note w = where_compile_arity [of "sconditions desc" "Some (formatterFor (sdialect desc))" "sdialect desc"]
  from assms(2) show "qcount (head b) = length (headParams b)"
    by (rule compileSelect_fields) (use wf w in \<open>auto simp: arity_simps split: option.splits\<close>)
  from assms(2) show "qcount (tail b) = length (tailParams b)"
    by (rule compileSelect_fields)
      (use wf page.emit_arity [of "'' LIMIT ''"] page.emit_arity [of "'' OFFSET ''"] in
        \<open>simp add: arity_simps lockTail_qcount\<close>)
qed

lemma compileSelect_total:
  "\<not> (forUpdate desc \<and> forShare desc) \<Longrightarrow> \<exists>b. compileSelect desc = Inr b"
  by (auto simp: compileSelect_def lockTail_def Let_def case_prod_beta)

lemma assemble_bound:
  "\<forall>p \<in> set ps. isMakeSQL p = None \<Longrightarrow> qcount s = length ps \<Longrightarrow> assemble (mk s ps) = Inr (s, ps)"
  by (subst assemble_flat) (simp_all add: mk_def)

section \<open>Properties\<close>

text \<open>
  A SELECT either asks for both row locks and is refused, or compiles to a bundle that is balanced on
  both sides of the WHERE boundary; with bound values only it is accepted by the assembly unchanged.
\<close>

theorem select_compiles_balanced:
  assumes "wf_select desc"
  shows "if forUpdate desc \<and> forShare desc then compileSelect desc = Inl LockConflict
    else (\<exists>b. compileSelect desc = Inr b
      \<and> qcount (head b) = length (headParams b) \<and> qcount (tail b) = length (tailParams b)
      \<and> (list_all (\<lambda>p. isMakeSQL p = None) (bundle_params b) \<longrightarrow>
           assemble (bundle_makesql b) = Inr (bundle_sql b, bundle_params b)))"
proof (cases "forUpdate desc \<and> forShare desc")
  case True
  then show ?thesis by (simp add: compileSelect_def lockTail_def Let_def case_prod_beta)
next
  case False
  then obtain b where b: "compileSelect desc = Inr b" using compileSelect_total by blast
  note bal = compileSelect_balanced [OF assms b]
  have "list_all (\<lambda>p. isMakeSQL p = None) (bundle_params b) \<Longrightarrow>
      assemble (bundle_makesql b) = Inr (bundle_sql b, bundle_params b)"
    unfolding bundle_makesql_def
    by (rule assemble_bound) (simp_all add: list_all_iff bundle_sql_def bundle_params_def bal)
  with b bal False show ?thesis by auto
qed

definition example_select :: select_desc where
  "example_select = (plain_select Postgres ''users'')
     \<lparr>sconditions := [(''age >= ?'', JInt 18)], order := OrderOne \<lparr>ocolumn = ''id'', direction = ''DESC'', nulls = Some ''LAST''\<rparr>,
      limit := Some (BoundCount (JInt 5)), offset := Some (Static 10), forUpdate := True\<rparr>"

theorem select_compiles_balanced_witness:
  "\<exists>b. compileSelect example_select = Inr b \<and> qcount (head b) = length (headParams b)
     \<and> qcount (tail b) = length (tailParams b)"
proof -
  have "wf_select example_select"
    by (simp add: wf_select_def example_select_def plain_select_def wf_plain_def order_column_string_def)
  from select_compiles_balanced [OF this] show ?thesis
    by (auto simp: example_select_def plain_select_def)
qed

lemma example_select_text:
  "map_sum id (\<lambda>b. (bundle_sql b, bundle_params b)) (compileSelect example_select)
    = Inr (''SELECT * FROM users WHERE age >= ? ORDER BY id DESC NULLS LAST LIMIT ? OFFSET 10 FOR UPDATE'',
           [JInt 18, JInt 5])"
  by code_simp

section \<open>A cast that ignores the dialect\<close>

text \<open>
  The wrappers inside a subquery condition are compiled without the formatter, so the PostgreSQL cast
  appears on MySQL, where the same wrapper outside the subquery has none.
\<close>

lemma subquery_cast_ignores_dialect:
  "sql (compileWhere [(''__exists__'', JTok (DBExists ''orders''
       [(\<lparr>columnName = ''ref'', tableName = ''orders''\<rparr>, JTok (dbUuid ''u'' ''=''))] False))] Mysql)
   = ''EXISTS (SELECT 1 FROM orders WHERE orders.ref = ?::uuid)''"
  "sql (compileWhere [(''ref'', JTok (dbUuid ''u'' ''=''))] Mysql) = ''ref = ?''"
  by code_simp+

end
