(* ===== verification/Builders.thy ===== *)
theory Builders
  imports CompileSelect
begin

text \<open>
  The interface \<open>SqlBuilder\<close> of \<open>src/drivers/types.ts\<close> with its option objects, and its SQLite and MySQL
  implementations (\<open>drivers/SqliteSqlBuilder.ts\<close>, \<open>drivers/MysqlSqlBuilder.ts\<close>).  The locale
  \<open>sql_builder\<close> is what the write compilers rely on; each builder is an interpretation of it.  A skip
  map (\<open>Map<number, Set<string>>\<close>) is an association list in insertion order.
\<close>

section \<open>Options\<close>

datatype update_cols = AllColumns | TheseColumns "string list"

record insert_opts =
  ins_table :: string
  ins_columns :: "string list"
  ins_records :: "jsobj list"
  ins_raw :: "jsobj list option"
  ins_casts :: "string \<Rightarrow> string option"
  ins_conflict :: "string list option"
  ins_ignore :: bool
  ins_update :: "update_cols option"
  ins_returning :: string

type_synonym skip_map = "(nat \<times> string list) list"

record update_opts =
  upd_table :: string
  upd_keys :: "string list"
  upd_columns :: "string list"
  upd_records :: "jsobj list"
  upd_raw :: "jsobj list option"
  upd_casts :: "string \<Rightarrow> string option"
  upd_skips :: skip_map
  upd_returning :: string

record find_opts =
  find_table :: string
  find_pkeys :: "string list"
  find_values :: "jsval list list"
  find_select :: string
  find_casts :: "string \<Rightarrow> string option"

record select_pkeys_opts =
  spk_table :: string
  spk_pkeys :: "string list"
  spk_keys :: "string list"
  spk_values :: "jsval list list"

definition update_list :: "update_cols \<Rightarrow> string list \<Rightarrow> string list" where
  "update_list u columns = (case u of AllColumns \<Rightarrow> columns | TheseColumns cs \<Rightarrow> cs)"

text \<open>\<open>skipMap.get(i)?.has(col) ?? false\<close>, and the set of all skipped columns in order of appearance.\<close>

definition is_skipped :: "skip_map \<Rightarrow> nat \<Rightarrow> string \<Rightarrow> bool" where
  "is_skipped m i c = (case map_of m i of None \<Rightarrow> False | Some cs \<Rightarrow> c \<in> set cs)"

definition skip_columns :: "skip_map \<Rightarrow> string list" where
  "skip_columns m = dedup (concat (map snd m))"

text \<open>\<open>xs[i]\<close>: out of range it is \<open>undefined\<close>.\<close>

definition js_nth :: "jsval list \<Rightarrow> nat \<Rightarrow> jsval" where
  "js_nth xs i = (if i < length xs then xs ! i else JUndef)"

definition returning_text :: "string \<Rightarrow> string" where
  "returning_text r = opt_text '' RETURNING '' r"

section \<open>Cells and rows\<close>

definition value_cell :: "jsval \<Rightarrow> jsval list \<Rightarrow> string \<times> jsval list" where
  "value_cell v ps = (case v of JTok t \<Rightarrow> tok_compile t [] None ps | _ \<Rightarrow> emit_q v ps)"

definition value_row :: "string \<Rightarrow> jsval list \<Rightarrow> jsval list \<Rightarrow> string \<times> jsval list" where
  "value_row opn vs ps = (let (cells, ps1) = emit_list value_cell vs ps in (opn @ join '', '' cells @ '')'', ps1))"

definition q_row :: "string \<Rightarrow> jsval list \<Rightarrow> jsval list \<Rightarrow> string \<times> jsval list" where
  "q_row opn vs ps = (opn @ join '', '' (map (\<lambda>_. ''?'') vs) @ '')'', ps @ vs)"

definition wf_val :: "jsval \<Rightarrow> bool" where
  "wf_val v \<longleftrightarrow> (case v of JTok t \<Rightarrow> wf_tok t | _ \<Rightarrow> True)"

interpretation value_cell: sql_emitter value_cell wf_val
proof
  show "value_cell v ps = (fst (value_cell v []), ps @ snd (value_cell v []))" for v ps
    by (cases v) (simp_all add: value_cell_def emit_q_def, rule tok_compile_append)
  show "wf_val v \<Longrightarrow> qcount (fst (value_cell v [])) = length (snd (value_cell v []))" for v
    by (cases v) (simp_all add: value_cell_def emit_q_def wf_val_def tok_compile_arity_ps)
qed

interpretation value_row: sql_emitter "value_row opn" "\<lambda>vs. qcount opn = 0 \<and> (\<forall>v \<in> set vs. wf_val v)" for opn
proof
  show "value_row opn vs ps = (fst (value_row opn vs []), ps @ snd (value_row opn vs []))" for vs ps
    by (simp add: value_row_def case_prod_beta Let_def value_cell.emit_list_append [of vs ps])
  show "qcount opn = 0 \<and> (\<forall>v \<in> set vs. wf_val v) \<Longrightarrow>
      qcount (fst (value_row opn vs [])) = length (snd (value_row opn vs []))" for vs
    using value_cell.emit_join_arity [of vs "'', ''"] by (simp add: value_row_def case_prod_beta Let_def)
qed

lemma qcount_join_marks [simp]: "qcount (join '', '' (map (\<lambda>_. ''?'') vs)) = length vs"
  by (induction vs) (auto simp: join_Cons)

interpretation q_row: sql_emitter "q_row opn" "\<lambda>_. qcount opn = 0" for opn
  by unfold_locales (simp_all add: q_row_def)

lemma wf_val_undef [simp]: "wf_val JUndef"
  by (simp add: wf_val_def)

section \<open>The contract of a builder\<close>

definition names_ok :: "string list \<Rightarrow> bool" where
  "names_ok cs \<longleftrightarrow> (\<forall>c \<in> set cs. qcount c = 0)"

definition wf_record :: "jsobj \<Rightarrow> bool" where
  "wf_record r \<longleftrightarrow> (\<forall>v \<in> snd ` set r. wf_val v)"

definition casts_ok :: "(string \<Rightarrow> string option) \<Rightarrow> bool" where
  "casts_ok f \<longleftrightarrow> (\<forall>c t. f c = Some t \<longrightarrow> qcount t = 0)"

definition wf_insert :: "insert_opts \<Rightarrow> bool" where
  "wf_insert opt \<longleftrightarrow> qcount (ins_table opt) = 0 \<and> names_ok (ins_columns opt)
     \<and> (\<forall>r \<in> set (ins_records opt). wf_record r) \<and> casts_ok (ins_casts opt)
     \<and> (case ins_conflict opt of None \<Rightarrow> True | Some cs \<Rightarrow> names_ok cs)
     \<and> (case ins_update opt of Some (TheseColumns cs) \<Rightarrow> names_ok cs | _ \<Rightarrow> True)
     \<and> qcount (ins_returning opt) = 0"

definition wf_update :: "update_opts \<Rightarrow> bool" where
  "wf_update opt \<longleftrightarrow> qcount (upd_table opt) = 0 \<and> names_ok (upd_keys opt) \<and> names_ok (upd_columns opt)
     \<and> (\<forall>r \<in> set (upd_records opt). wf_record r) \<and> casts_ok (upd_casts opt)
     \<and> names_ok (skip_columns (upd_skips opt)) \<and> qcount (upd_returning opt) = 0"

definition wf_find :: "find_opts \<Rightarrow> bool" where
  "wf_find opt \<longleftrightarrow> qcount (find_table opt) = 0 \<and> names_ok (find_pkeys opt) \<and> qcount (find_select opt) = 0
     \<and> casts_ok (find_casts opt)"

definition balanced :: "makesql \<Rightarrow> bool" where
  "balanced m \<longleftrightarrow> qcount (sql m) = length (params m) \<and> \<not> skip m"

lemma balanced_mk [simp]: "balanced (mk s ps) \<longleftrightarrow> qcount s = length ps"
  by (simp add: balanced_def mk_def)

lemma wf_record_get: "wf_record r \<Longrightarrow> wf_val (js_get r c)"
  by (cases "map_of r c") (fastforce simp: wf_record_def js_get_def dest: map_of_SomeD)+

lemma qcount_names [arity_simps]: "names_ok cs \<Longrightarrow> qcount sep = 0 \<Longrightarrow> qcount (join sep cs) = 0"
  by (simp add: names_ok_def qcount_join_names)

lemma qcount_map_names [arity_simps]:
  "names_ok cs \<Longrightarrow> qcount sep = 0 \<Longrightarrow> (\<And>c. qcount c = 0 \<Longrightarrow> qcount (f c) = 0) \<Longrightarrow> qcount (join sep (map f cs)) = 0"
  by (rule qcount_join_names) (auto simp: names_ok_def)

lemma qcount_returning [arity_simps]: "qcount (returning_text r) = qcount r"
  by (simp add: returning_text_def opt_text_def)

locale sql_builder =
  fixes build_insert :: "insert_opts \<Rightarrow> scp_error + makesql"
    and build_update :: "update_opts \<Rightarrow> scp_error + makesql"
    and build_find :: "find_opts \<Rightarrow> makesql"
  assumes insert_balanced: "wf_insert opt \<Longrightarrow> build_insert opt = Inr m \<Longrightarrow> balanced m"
    and update_balanced: "wf_update uopt \<Longrightarrow> build_update uopt = Inr m \<Longrightarrow> balanced m"
    and find_balanced: "wf_find fpt \<Longrightarrow> (\<forall>vs \<in> set (find_values fpt). length vs = length (find_pkeys fpt)) \<Longrightarrow>
      balanced (build_find fpt)"
begin

lemma insert_assembles:
  assumes "wf_insert opt" and "build_insert opt = Inr m" and "\<forall>p \<in> set (params m). isMakeSQL p = None"
  shows "assemble m = Inr (sql m, params m)"
  using insert_balanced [OF assms(1,2)] assemble_bound [of "params m" "sql m"] assms(3)
  by (cases m) (simp add: balanced_def mk_def)

lemma update_assembles:
  assumes "wf_update uopt" and "build_update uopt = Inr m" and "\<forall>p \<in> set (params m). isMakeSQL p = None"
  shows "assemble m = Inr (sql m, params m)"
  using update_balanced [OF assms(1,2)] assemble_bound [of "params m" "sql m"] assms(3)
  by (cases m) (simp add: balanced_def mk_def)

lemma inserts_balanced:
  assumes "map_r build_insert opts = Inr ms" and "\<forall>opt \<in> set opts. wf_insert opt"
  shows "\<forall>m \<in> set ms. balanced m"
  using assms by (induction opts arbitrary: ms) (auto simp: bind_r_Inr_iff insert_balanced)

end

section \<open>SQLite\<close>

definition values_text :: "insert_opts \<Rightarrow> string \<times> jsval list" where
  "values_text opt =
     (let (rows, ps) = emit_list (\<lambda>r. value_row ''('' (map (js_get r) (ins_columns opt))) (ins_records opt) []
      in (ins_table opt @ '' ('' @ join '', '' (ins_columns opt) @ '') VALUES '' @ join '', '' rows, ps))"

definition sqlite_buildInsert :: "insert_opts \<Rightarrow> makesql" where
  "sqlite_buildInsert opt =
     (let (body, ps) = values_text opt;
          s = (case ins_conflict opt of
                 None \<Rightarrow> ''INSERT INTO '' @ body
               | Some target \<Rightarrow>
                   if ins_ignore opt then ''INSERT OR IGNORE INTO '' @ body
                   else (case ins_update opt of
                           None \<Rightarrow> ''INSERT INTO '' @ body
                         | Some u \<Rightarrow> ''INSERT INTO '' @ body @ '' ON CONFLICT ('' @ join '', '' target @ '') DO UPDATE SET ''
                             @ join '', '' (map (\<lambda>c. c @ '' = excluded.'' @ c) (update_list u (ins_columns opt)))))
      in mk (s @ returning_text (ins_returning opt)) ps)"

text \<open>The WHEN clause of one record in the CASE of one column.\<close>

definition key_condition :: "string list \<Rightarrow> string" where
  "key_condition keys =
     (let conds = map (\<lambda>k. k @ '' = ?'') keys
      in if length conds = 1 then hd conds else ''('' @ join '' AND '' conds @ '')'')"

definition when_clause :: "update_opts \<Rightarrow> string \<Rightarrow> nat \<times> jsobj \<Rightarrow> jsval list \<Rightarrow> string \<times> jsval list" where
  "when_clause opt col ir ps =
     (let kc = key_condition (upd_keys opt);
          ps1 = ps @ map (js_get (snd ir)) (upd_keys opt)
      in if is_skipped (upd_skips opt) (fst ir) col
         then (''WHEN '' @ kc @ '' THEN '' @ upd_table opt @ ''.'' @ col, ps1)
         else (let (v, ps2) = value_cell (js_get (snd ir) col) ps1 in (''WHEN '' @ kc @ '' THEN '' @ v, ps2)))"

definition set_clause :: "update_opts \<Rightarrow> string \<Rightarrow> jsval list \<Rightarrow> string \<times> jsval list" where
  "set_clause opt col ps =
     (let (ws, ps1) = emit_list (when_clause opt col) (enumerate 0 (upd_records opt)) ps
      in (col @ '' = CASE '' @ join '' '' ws @ '' END'', ps1))"

definition sqlite_buildUpdateMany :: "update_opts \<Rightarrow> makesql" where
  "sqlite_buildUpdateMany opt =
     (let keyValues = map (\<lambda>r. map (js_get r) (upd_keys opt)) (upd_records opt);
          (sets, ps) = emit_list (set_clause opt) (upd_columns opt) [];
          (w, ps') = (if length (upd_keys opt) = 1
            then (hd (upd_keys opt) @ '' IN ('' @ join '', '' (map (\<lambda>_. ''?'') keyValues) @ '')'',
                  ps @ map (\<lambda>kv. js_nth kv 0) keyValues)
            else (''('' @ join '', '' (upd_keys opt) @ '') IN (''
                  @ join '', '' (map (\<lambda>_. ''('' @ join '', '' (map (\<lambda>_. ''?'') (upd_keys opt)) @ '')'') keyValues) @ '')'',
                  ps @ concat keyValues))
      in mk (''UPDATE '' @ upd_table opt @ '' SET '' @ join '', '' sets @ '' WHERE '' @ w
             @ returning_text (upd_returning opt)) ps')"

definition find_single :: "find_opts \<Rightarrow> makesql" where
  "find_single opt = mk (''SELECT '' @ find_select opt @ '' FROM '' @ find_table opt @ '' WHERE '' @ hd (find_pkeys opt)
       @ '' IN ('' @ join '', '' (map (\<lambda>_. ''?'') (find_values opt)) @ '')'') (map (\<lambda>v. js_nth v 0) (find_values opt))"

definition join_on :: "string list \<Rightarrow> string" where
  "join_on cs = join '' AND '' (map (\<lambda>c. ''t.'' @ c @ '' = v.'' @ c) cs)"

definition sqlite_buildFindByPkeys :: "find_opts \<Rightarrow> makesql" where
  "sqlite_buildFindByPkeys opt =
     (if length (find_pkeys opt) = 1 then find_single opt
      else (let (rows, ps) = emit_list (q_row ''('') (find_values opt) [];
                selectCol = (if find_select opt = ''*'' then ''t.*'' else find_select opt)
            in mk (''WITH v('' @ join '', '' (find_pkeys opt) @ '') AS (VALUES '' @ join '', '' rows @ '') SELECT '' @ selectCol
                   @ '' FROM '' @ find_table opt @ '' AS t JOIN v ON '' @ join_on (find_pkeys opt)) ps))"

definition sqlite_buildReturning :: "string \<Rightarrow> string list \<Rightarrow> string option" where
  "sqlite_buildReturning table cs = Some (join '', '' (map (\<lambda>c. table @ ''.'' @ c) cs))"

section \<open>SQLite: balance\<close>

text \<open>A producer run over an image of a list: rows of records, clauses of columns.\<close>

lemma emit_list_map: "emit_list f (map g xs) ps = emit_list (\<lambda>x. f (g x)) xs ps"
  by (induction xs arbitrary: ps) (simp_all add: case_prod_beta Let_def)

lemma values_text_balanced [arity_simps]:
  assumes "wf_insert opt"
  shows "qcount (fst (values_text opt)) = length (snd (values_text opt))"
proof -
  have "\<forall>vs \<in> set (map (\<lambda>r. map (js_get r) (ins_columns opt)) (ins_records opt)). \<forall>v \<in> set vs. wf_val v"
    using assms by (auto simp: wf_insert_def wf_record_get)
  then show ?thesis
    using assms value_row.emit_join_arity [of "map (\<lambda>r. map (js_get r) (ins_columns opt)) (ins_records opt)" "''(''" "'', ''"]
    by (simp add: values_text_def case_prod_beta Let_def emit_list_map wf_insert_def arity_simps)
qed

lemma qcount_update_list:
  "wf_insert opt \<Longrightarrow> ins_update opt = Some u \<Longrightarrow> names_ok (update_list u (ins_columns opt))"
  by (cases u) (simp_all add: wf_insert_def update_list_def)

lemma sqlite_insert_balanced: "wf_insert opt \<Longrightarrow> balanced (sqlite_buildInsert opt)"
  using values_text_balanced [of opt] qcount_update_list [of opt]
  by (auto simp: sqlite_buildInsert_def case_prod_beta Let_def arity_simps wf_insert_def split: option.splits)

lemma qcount_key_condition [arity_simps]: "names_ok keys \<Longrightarrow> qcount (key_condition keys) = length keys"
proof -
  assume "names_ok keys"
  then have "sum_list (map (\<lambda>k. qcount (k @ '' = ?'')) keys) = length keys"
    unfolding names_ok_def by (induction keys) auto
  then show ?thesis
    by (cases keys; cases "tl keys") (simp_all add: key_condition_def Let_def qcount_join comp_def)
qed

lemma ball_enumerate: "(\<forall>ir \<in> set (enumerate n xs). P (snd ir)) \<longleftrightarrow> (\<forall>x \<in> set xs. P x)"
proof -
  have "snd ` set (enumerate n xs) = set xs" by (metis list.set_map map_snd_enumerate)
  then have "set xs = snd ` set (enumerate n xs)" by simp
  then show ?thesis by (simp only: ball_simps(9))
qed

interpretation when_clause: sql_emitter "when_clause opt col"
    "\<lambda>ir. wf_update opt \<and> qcount col = 0 \<and> wf_record (snd ir)" for opt col
proof
  show "when_clause opt col ir ps = (fst (when_clause opt col ir []), ps @ snd (when_clause opt col ir []))" for ir ps
  proof -
    obtain s vs where "value_cell (js_get (snd ir) col) [] = (s, vs)" by fastforce
    with value_cell.emit_append have "value_cell (js_get (snd ir) col) qs = (s, qs @ vs)" for qs
      by (metis fst_conv snd_conv)
    then show ?thesis by (simp add: when_clause_def Let_def)
  qed
  show "wf_update opt \<and> qcount col = 0 \<and> wf_record (snd ir) \<Longrightarrow>
      qcount (fst (when_clause opt col ir [])) = length (snd (when_clause opt col ir []))" for ir
  proof -
    assume ok: "wf_update opt \<and> qcount col = 0 \<and> wf_record (snd ir)"
    obtain s vs where v: "value_cell (js_get (snd ir) col) [] = (s, vs)" by fastforce
    with value_cell.emit_append have "value_cell (js_get (snd ir) col) qs = (s, qs @ vs)" for qs
      by (metis fst_conv snd_conv)
    moreover have "qcount s = length vs"
      using value_cell.emit_arity [of "js_get (snd ir) col"] wf_record_get [of "snd ir" col] ok by (simp add: v)
    ultimately show ?thesis using ok by (simp add: when_clause_def Let_def wf_update_def arity_simps)
  qed
qed

interpretation set_clause: sql_emitter "set_clause opt" "\<lambda>col. wf_update opt \<and> qcount col = 0" for opt
proof
  show "set_clause opt col ps = (fst (set_clause opt col []), ps @ snd (set_clause opt col []))" for col ps
    by (simp add: set_clause_def case_prod_beta Let_def when_clause.emit_list_append [of opt col _ ps])
  show "wf_update opt \<and> qcount col = 0 \<Longrightarrow> qcount (fst (set_clause opt col [])) = length (snd (set_clause opt col []))" for col
    using when_clause.emit_join_arity [of "enumerate 0 (upd_records opt)" opt col "'' ''"]
    by (auto simp: set_clause_def case_prod_beta Let_def wf_update_def ball_enumerate)
qed

lemma length_concat_rows: "length (concat (map (\<lambda>r. map (f r) ks) rs)) = length rs * length ks"
  by (induction rs) auto

lemma qcount_tuples:
  "qcount (join '', '' (map (\<lambda>_. CHR ''('' # join '', '' (map (\<lambda>_. ''?'') ks) @ '')'') rs)) = length rs * length ks"
  by (induction rs) (auto simp: join_Cons)

lemma sqlite_update_balanced:
  assumes "wf_update opt"
  shows "balanced (sqlite_buildUpdateMany opt)"
proof -
  have "names_ok (upd_columns opt)" "names_ok (upd_keys opt)" using assms by (simp_all add: wf_update_def)
  then have "qcount (join '', '' (fst (emit_list (set_clause opt) (upd_columns opt) [])))
      = length (snd (emit_list (set_clause opt) (upd_columns opt) []))"
    using assms by (intro set_clause.emit_join_arity) (auto simp: names_ok_def)
  moreover have "length (upd_keys opt) = 1 \<Longrightarrow> qcount (hd (upd_keys opt)) = 0"
    using \<open>names_ok (upd_keys opt)\<close> by (cases "upd_keys opt") (auto simp: names_ok_def)
  ultimately show ?thesis
    using assms by (simp add: sqlite_buildUpdateMany_def case_prod_beta Let_def wf_update_def arity_simps
        length_concat_rows qcount_tuples comp_def)
qed

lemma find_single_balanced: "wf_find opt \<Longrightarrow> length (find_pkeys opt) = 1 \<Longrightarrow> balanced (find_single opt)"
  by (cases "find_pkeys opt") (auto simp: find_single_def wf_find_def names_ok_def)

lemma qcount_join_on [arity_simps]: "names_ok cs \<Longrightarrow> qcount (join_on cs) = 0"
  unfolding join_on_def by (rule qcount_map_names) auto

lemma sqlite_find_balanced: "wf_find opt \<Longrightarrow> balanced (sqlite_buildFindByPkeys opt)"
  using find_single_balanced [of opt] q_row.emit_join_arity [of "find_values opt" "''(''" "'', ''"]
  by (auto simp: sqlite_buildFindByPkeys_def case_prod_beta Let_def wf_find_def arity_simps)

interpretation sqlite_builder: sql_builder "\<lambda>opt. Inr (sqlite_buildInsert opt)"
    "\<lambda>opt. Inr (sqlite_buildUpdateMany opt)" sqlite_buildFindByPkeys
  by unfold_locales (auto intro: sqlite_insert_balanced sqlite_update_balanced sqlite_find_balanced)

section \<open>Properties\<close>

definition case_values :: "update_opts \<Rightarrow> string \<Rightarrow> nat \<times> jsobj \<Rightarrow> jsval list" where
  "case_values opt col ir = map (js_get (snd ir)) (upd_keys opt)
     @ (if is_skipped (upd_skips opt) (fst ir) col then [] else [js_get (snd ir) col])"

lemma when_clauses_plain:
  assumes "\<forall>ir \<in> set irs. \<not> is_token (js_get (snd ir) col)"
  shows "snd (emit_list (when_clause opt col) irs ps) = ps @ concat (map (case_values opt col) irs)"
  using assms
proof (induction irs arbitrary: ps)
  case (Cons ir irs)
  have "snd (when_clause opt col ir ps) = ps @ case_values opt col ir"
    using Cons.prems by (cases "js_get (snd ir) col")
      (auto simp: when_clause_def Let_def case_values_def value_cell_def emit_q_def is_token_def)
  with Cons show ?case by (simp add: case_prod_beta Let_def)
qed simp

lemma set_clauses_plain:
  assumes "\<forall>col \<in> set cols. \<forall>r \<in> set (upd_records opt). \<not> is_token (js_get r col)"
  shows "snd (emit_list (set_clause opt) cols ps)
    = ps @ concat (map (\<lambda>col. concat (map (case_values opt col) (enumerate 0 (upd_records opt)))) cols)"
  using assms
proof (induction cols arbitrary: ps)
  case (Cons col cols)
  have "\<forall>ir \<in> set (enumerate 0 (upd_records opt)). \<not> is_token (js_get (snd ir) col)"
    using Cons.prems by (subst ball_enumerate) simp
  then have "snd (set_clause opt col ps) = ps @ concat (map (case_values opt col) (enumerate 0 (upd_records opt)))"
    by (simp add: set_clause_def case_prod_beta Let_def when_clauses_plain)
  with Cons show ?case by (simp add: case_prod_beta Let_def)
qed simp

text \<open>
  The SQLite batch UPDATE binds, column by column and record by record, the key of the record and its
  value (the key alone where the column is skipped), then every key once more for the WHERE clause; the
  statement has one placeholder for each of them.
\<close>

theorem sqlite_update_binds_in_order:
  assumes "wf_update opt" and "\<forall>c \<in> set (upd_columns opt). \<forall>r \<in> set (upd_records opt). \<not> is_token (js_get r c)"
  shows "params (sqlite_buildUpdateMany opt)
      = concat (map (\<lambda>c. concat (map (case_values opt c) (enumerate 0 (upd_records opt)))) (upd_columns opt))
        @ concat (map (\<lambda>r. map (js_get r) (upd_keys opt)) (upd_records opt))
    \<and> qcount (sql (sqlite_buildUpdateMany opt)) = length (params (sqlite_buildUpdateMany opt))"
proof -
  have "map (\<lambda>r. js_nth (map (js_get r) ks) 0) rs = concat (map (\<lambda>r. map (js_get r) ks) rs)"
    if "length ks = Suc 0" for rs and ks :: "string list"
    using that by (cases ks) (auto simp: js_nth_def concat_map_singleton)
  then show ?thesis
    using sqlite_update_balanced [OF assms(1)] set_clauses_plain [OF assms(2), of "[]"]
    by (auto simp: balanced_def sqlite_buildUpdateMany_def case_prod_beta Let_def mk_def comp_def)
qed

theorem sqlite_update_binds_in_order_witness:
  "params (sqlite_buildUpdateMany \<lparr>upd_table = ''t'', upd_keys = [''id''], upd_columns = [''v''],
     upd_records = [[(''id'', JInt 1), (''v'', JInt 7)], [(''id'', JInt 2), (''v'', JInt 8)]], upd_raw = None,
     upd_casts = (\<lambda>_. None), upd_skips = [(1, [''v''])], upd_returning = []\<rparr>)
   = [JInt 1, JInt 7, JInt 2, JInt 1, JInt 2]"
  by (subst sqlite_update_binds_in_order [THEN conjunct1])
    (simp_all add: wf_update_def names_ok_def wf_record_def wf_val_def casts_ok_def skip_columns_def
      is_token_def js_get_def case_values_def is_skipped_def)

end
