(* ===== verification/MysqlBuilder.thy ===== *)
theory MysqlBuilder
  imports Builders
begin

text \<open>
  \<open>src/drivers/MysqlSqlBuilder.ts\<close>: \<open>INSERT IGNORE\<close> and \<open>ON DUPLICATE KEY UPDATE\<close>, the batch UPDATE
  through a joined VALUES list with one skip flag per skipped column, and the key queries.
\<close>

section \<open>The statements\<close>

definition mysql_buildInsert :: "insert_opts \<Rightarrow> makesql" where
  "mysql_buildInsert opt =
     (let (body, ps) = values_text opt;
          s = (case ins_conflict opt of
                 None \<Rightarrow> ''INSERT INTO '' @ body
               | Some target \<Rightarrow>
                   if ins_ignore opt then ''INSERT IGNORE INTO '' @ body
                   else (case ins_update opt of
                           None \<Rightarrow> ''INSERT INTO '' @ body
                         | Some u \<Rightarrow> ''INSERT INTO '' @ body @ '' ON DUPLICATE KEY UPDATE ''
                             @ join '', '' (map (\<lambda>c. c @ '' = VALUES('' @ c @ '')'') (update_list u (ins_columns opt)))))
      in mk (s @ returning_text (ins_returning opt)) ps)"

text \<open>One \<open>ROW(...)\<close>: the values of all columns, then one boolean flag per column skipped anywhere.\<close>

definition flag_cells :: "update_opts \<Rightarrow> nat \<Rightarrow> jsval list" where
  "flag_cells opt i = map (\<lambda>c. JBool (is_skipped (upd_skips opt) i c)) (skip_columns (upd_skips opt))"

definition update_row :: "update_opts \<Rightarrow> nat \<times> jsobj \<Rightarrow> jsval list \<Rightarrow> string \<times> jsval list" where
  "update_row opt ir ps =
     value_row ''ROW('' (map (js_get (snd ir)) (upd_keys opt @ upd_columns opt) @ flag_cells opt (fst ir)) ps"

definition skip_name :: "string \<Rightarrow> string" where
  "skip_name c = ''_skip_'' @ c"

definition mysql_set_clause :: "update_opts \<Rightarrow> string \<Rightarrow> string" where
  "mysql_set_clause opt col =
     (if col \<in> set (skip_columns (upd_skips opt))
      then ''t.'' @ col @ '' = IF(v.'' @ skip_name col @ '', t.'' @ col @ '', v.'' @ col @ '')''
      else ''t.'' @ col @ '' = v.'' @ col)"

definition update_value_columns :: "update_opts \<Rightarrow> string list" where
  "update_value_columns opt = upd_keys opt @ upd_columns opt @ map skip_name (skip_columns (upd_skips opt))"

definition mysql_buildUpdateMany :: "update_opts \<Rightarrow> makesql" where
  "mysql_buildUpdateMany opt =
     (let (rows, ps) = emit_list (update_row opt) (enumerate 0 (upd_records opt)) []
      in mk (''UPDATE '' @ upd_table opt @ '' AS t JOIN (VALUES '' @ join '', '' rows @ '') AS v(''
             @ join '', '' (update_value_columns opt) @ '') ON '' @ join_on (upd_keys opt)
             @ '' SET '' @ join '', '' (map (mysql_set_clause opt) (upd_columns opt))) ps)"

definition mysql_buildSelectPkeys :: "select_pkeys_opts \<Rightarrow> makesql" where
  "mysql_buildSelectPkeys opt =
     mk (''SELECT DISTINCT '' @ join '', '' (spk_pkeys opt) @ '' FROM '' @ spk_table opt @ '' WHERE ''
         @ join '' AND '' (map (\<lambda>c. c @ '' IN (?)'') (spk_keys opt)))
        (map (\<lambda>i. JArr (map (\<lambda>kv. js_nth kv i) (spk_values opt))) [0..<length (spk_keys opt)])"

definition mysql_buildFindByPkeys :: "find_opts \<Rightarrow> makesql" where
  "mysql_buildFindByPkeys opt =
     (if length (find_pkeys opt) = 1 then find_single opt
      else (let (rows, ps) = emit_list (q_row ''ROW('') (find_values opt) [];
                selectCol = (if find_select opt = ''*'' then ''t.*'' else find_select opt)
            in mk (''SELECT '' @ selectCol @ '' FROM '' @ find_table opt @ '' AS t JOIN (VALUES '' @ join '', '' rows
                   @ '') AS v('' @ join '', '' (find_pkeys opt) @ '') ON '' @ join_on (find_pkeys opt)) ps))"

definition mysql_buildReturning :: "string \<Rightarrow> string list \<Rightarrow> string option" where
  "mysql_buildReturning table cs = None"

section \<open>Balance\<close>

lemma mysql_insert_balanced: "wf_insert opt \<Longrightarrow> balanced (mysql_buildInsert opt)"
  using values_text_balanced [of opt] qcount_update_list [of opt]
  by (auto simp: mysql_buildInsert_def case_prod_beta Let_def arity_simps wf_insert_def split: option.splits)

lemma flag_cells_wf: "v \<in> set (flag_cells opt i) \<Longrightarrow> wf_val v"
  by (auto simp: flag_cells_def wf_val_def)

interpretation update_row: sql_emitter "update_row opt" "\<lambda>ir. wf_record (snd ir)" for opt
proof
  show "update_row opt ir ps = (fst (update_row opt ir []), ps @ snd (update_row opt ir []))" for ir ps
    unfolding update_row_def by (rule value_row.emit_append)
  show "wf_record (snd ir) \<Longrightarrow> qcount (fst (update_row opt ir [])) = length (snd (update_row opt ir []))" for ir
    unfolding update_row_def by (rule value_row.emit_arity) (auto simp: wf_record_get flag_cells_wf)
qed

lemma qcount_set_clause: "qcount c = 0 \<Longrightarrow> qcount (mysql_set_clause opt c) = 0"
  by (simp add: mysql_set_clause_def skip_name_def)

lemma names_ok_update_columns: "wf_update opt \<Longrightarrow> names_ok (update_value_columns opt)"
  by (auto simp: wf_update_def names_ok_def update_value_columns_def skip_name_def)

lemma mysql_update_balanced:
  assumes "wf_update opt"
  shows "balanced (mysql_buildUpdateMany opt)"
proof -
  have "qcount (join '', '' (fst (emit_list (update_row opt) (enumerate 0 (upd_records opt)) [])))
      = length (snd (emit_list (update_row opt) (enumerate 0 (upd_records opt)) []))"
    using assms by (intro update_row.emit_join_arity) (simp_all add: ball_enumerate wf_update_def)
  then show ?thesis
    using assms names_ok_update_columns [OF assms]
    by (simp add: mysql_buildUpdateMany_def case_prod_beta Let_def wf_update_def arity_simps qcount_set_clause)
qed

lemma mysql_find_balanced: "wf_find opt \<Longrightarrow> balanced (mysql_buildFindByPkeys opt)"
  using find_single_balanced [of opt] q_row.emit_join_arity [of "find_values opt" "''ROW(''" "'', ''"]
  by (auto simp: mysql_buildFindByPkeys_def case_prod_beta Let_def wf_find_def arity_simps)

interpretation mysql_builder: sql_builder "\<lambda>opt. Inr (mysql_buildInsert opt)"
    "\<lambda>opt. Inr (mysql_buildUpdateMany opt)" mysql_buildFindByPkeys
  by unfold_locales (auto intro: mysql_insert_balanced mysql_update_balanced mysql_find_balanced)

section \<open>What the batch UPDATE binds\<close>

lemma value_cells_plain:
  "\<forall>v \<in> set vs. \<not> is_token v \<Longrightarrow> emit_list value_cell vs ps = (replicate (length vs) ''?'', ps @ vs)"
  by (induction vs arbitrary: ps) (auto simp: value_cell_def emit_q_def is_token_def split: jsval.splits)

lemma value_row_plain:
  "\<forall>v \<in> set vs. \<not> is_token v \<Longrightarrow>
     value_row opn vs ps = (opn @ join '', '' (replicate (length vs) ''?'') @ '')'', ps @ vs)"
  by (simp add: value_row_def value_cells_plain)

definition update_cells :: "update_opts \<Rightarrow> nat \<times> jsobj \<Rightarrow> jsval list" where
  "update_cells opt ir = map (js_get (snd ir)) (upd_keys opt @ upd_columns opt) @ flag_cells opt (fst ir)"

definition plain_records :: "string list \<Rightarrow> jsobj list \<Rightarrow> bool" where
  "plain_records cs rs \<longleftrightarrow> (\<forall>r \<in> set rs. \<forall>c \<in> set cs. \<not> is_token (js_get r c))"

lemma flag_cells_plain: "v \<in> set (flag_cells opt i) \<Longrightarrow> \<not> is_token v"
  by (auto simp: flag_cells_def is_token_def)

lemma update_rows_plain:
  assumes "\<forall>ir \<in> set irs. \<forall>c \<in> set (upd_keys opt @ upd_columns opt). \<not> is_token (js_get (snd ir) c)"
  shows "emit_list (update_row opt) irs ps
    = (replicate (length irs) (''ROW('' @ join '', '' (replicate (length (update_value_columns opt)) ''?'') @ '')''),
       ps @ concat (map (update_cells opt) irs))"
  using assms
proof (induction irs arbitrary: ps)
  case (Cons ir irs)
  have "update_row opt ir ps = (''ROW('' @ join '', '' (replicate (length (update_cells opt ir)) ''?'') @ '')'',
      ps @ update_cells opt ir)" for ps
    unfolding update_row_def update_cells_def
    by (rule value_row_plain) (use Cons.prems flag_cells_plain in auto)
  moreover have "length (update_cells opt ir) = length (update_value_columns opt)"
    by (simp add: update_cells_def update_value_columns_def flag_cells_def)
  ultimately show ?case using Cons.IH Cons.prems by simp
qed simp

lemma mysql_update_plain:
  assumes "plain_records (upd_keys opt @ upd_columns opt) (upd_records opt)"
  shows "params (mysql_buildUpdateMany opt) = concat (map (update_cells opt) (enumerate 0 (upd_records opt)))"
    and "\<exists>pre post. sql (mysql_buildUpdateMany opt) = pre @ join '', '' (replicate (length (upd_records opt))
        (''ROW('' @ join '', '' (replicate (length (update_value_columns opt)) ''?'') @ '')''))
      @ '') AS v('' @ join '', '' (update_value_columns opt) @ '')'' @ post"
proof -
  have "\<forall>ir \<in> set (enumerate 0 (upd_records opt)).
      \<forall>c \<in> set (upd_keys opt @ upd_columns opt). \<not> is_token (js_get (snd ir) c)"
    using assms by (subst ball_enumerate) (simp add: plain_records_def)
  note rows = update_rows_plain [OF this, of "[]"]
  show "params (mysql_buildUpdateMany opt) = concat (map (update_cells opt) (enumerate 0 (upd_records opt)))"
    by (simp add: mysql_buildUpdateMany_def rows mk_def)
  show "\<exists>pre post. sql (mysql_buildUpdateMany opt) = pre @ join '', '' (replicate (length (upd_records opt))
        (''ROW('' @ join '', '' (replicate (length (update_value_columns opt)) ''?'') @ '')''))
      @ '') AS v('' @ join '', '' (update_value_columns opt) @ '')'' @ post"
    by (rule exI [of _ "''UPDATE '' @ upd_table opt @ '' AS t JOIN (VALUES ''"],
        rule exI [of _ "'' ON '' @ join_on (upd_keys opt) @ '' SET '' @ join '', '' (map (mysql_set_clause opt) (upd_columns opt))"])
      (simp add: mysql_buildUpdateMany_def rows mk_def)
qed

section \<open>Properties\<close>

text \<open>
  On plain values the MySQL batch UPDATE binds the records in order, each as its key values, its new
  values and its skip flags, and every ROW has exactly as many cells as the derived table has columns.
\<close>

theorem mysql_update_rows_fit_columns:
  assumes "wf_update opt" and "plain_records (upd_keys opt @ upd_columns opt) (upd_records opt)"
  shows "params (mysql_buildUpdateMany opt) = concat (map (update_cells opt) (enumerate 0 (upd_records opt)))
    \<and> length (params (mysql_buildUpdateMany opt)) = length (upd_records opt) * length (update_value_columns opt)
    \<and> qcount (sql (mysql_buildUpdateMany opt)) = length (params (mysql_buildUpdateMany opt))
    \<and> (\<exists>pre post. sql (mysql_buildUpdateMany opt) = pre @ join '', '' (replicate (length (upd_records opt))
        (''ROW('' @ join '', '' (replicate (length (update_value_columns opt)) ''?'') @ '')''))
      @ '') AS v('' @ join '', '' (update_value_columns opt) @ '')'' @ post)"
proof -
  have "length (concat (map (update_cells opt) (enumerate n rs))) = length rs * length (update_value_columns opt)" for n rs
    by (induction rs arbitrary: n) (simp_all add: update_cells_def update_value_columns_def flag_cells_def)
  with mysql_update_plain [OF assms(2)] mysql_update_balanced [OF assms(1)] show ?thesis
    by (simp add: balanced_def)
qed

theorem mysql_update_rows_fit_columns_witness:
  "params (mysql_buildUpdateMany \<lparr>upd_table = ''t'', upd_keys = [''id''], upd_columns = [''v''],
     upd_records = [[(''id'', JInt 1), (''v'', JInt 7)], [(''id'', JInt 2)]], upd_raw = None,
     upd_casts = (\<lambda>_. None), upd_skips = [(1, [''v''])], upd_returning = []\<rparr>)
   = [JInt 1, JInt 7, JBool False, JInt 2, JUndef, JBool True]"
  by (subst mysql_update_rows_fit_columns [THEN conjunct1])
    (simp_all add: wf_update_def names_ok_def wf_record_def wf_val_def casts_ok_def skip_columns_def plain_records_def
      is_token_def js_get_def update_cells_def flag_cells_def is_skipped_def)

end
