(* ===== verification/PgBuilder.thy ===== *)
theory PgBuilder
  imports MysqlBuilder
begin

text \<open>
  \<open>src/drivers/PostgresSqlBuilder.ts\<close>: the inferred column types, the batch INSERT and UPDATE over
  \<open>UNNEST\<close> (one array parameter per column) with the fallback to a VALUES list when a row holds a
  wrapper, and the key queries.  \<open>JSON.stringify\<close> raises on a \<open>bigint\<close>, so the statements that
  serialise array and JSON columns can fail.
\<close>

section \<open>Types\<close>

definition ends_with_array :: "string \<Rightarrow> bool" where
  "ends_with_array s \<longleftrightarrow> 2 \<le> length s \<and> drop (length s - 2) s = ''[]''"

definition getArrayElementType :: "string \<Rightarrow> string" where
  "getArrayElementType t = (if ends_with_array t then take (length t - 2) t else t)"

definition buildJsonToTypeExpr :: "string \<Rightarrow> string \<Rightarrow> string" where
  "buildJsonToTypeExpr colRef pgType =
     (if pgType = ''jsonb'' \<or> pgType = ''json'' then colRef @ ''::'' @ pgType
      else if ends_with_array pgType then
        ''CASE WHEN '' @ colRef @ '' IS NULL THEN NULL ELSE COALESCE((SELECT array_agg(elem::''
        @ getArrayElementType pgType @ '') FROM jsonb_array_elements_text('' @ colRef
        @ ''::jsonb) AS elem), ARRAY[]::'' @ pgType @ '') END''
      else colRef)"

fun first_present :: "jsval list \<Rightarrow> jsval option" where
  "first_present [] = None"
| "first_present (v # vs) = (if nullish v then first_present vs else Some v)"

fun inferPgType :: "jsval \<Rightarrow> string" where
  "inferPgType JUndef = ''text''"
| "inferPgType JNull = ''text''"
| "inferPgType (JInt i) = ''int''"
| "inferPgType (JFrac s) = ''numeric''"
| "inferPgType (JNonFin s) = ''numeric''"
| "inferPgType (JBig i) = ''bigint''"
| "inferPgType (JBool b) = ''boolean''"
| "inferPgType (JStr s) = ''text''"
| "inferPgType (JDate ts disp) = ''timestamp''"
| "inferPgType (JArr vs) = (case first_present vs of
      None \<Rightarrow> ''text[]''
    | Some v \<Rightarrow> (case v of
          JInt _ \<Rightarrow> ''int[]'' | JFrac _ \<Rightarrow> ''numeric[]'' | JNonFin _ \<Rightarrow> ''numeric[]''
        | JBool _ \<Rightarrow> ''boolean[]'' | JStr _ \<Rightarrow> ''text[]'' | JDate _ _ \<Rightarrow> ''timestamp[]''
        | _ \<Rightarrow> ''jsonb''))"
| "inferPgType (JObj ob) = ''jsonb''"
| "inferPgType (JTok t) = ''jsonb''"
| "inferPgType (JCond c) = ''jsonb''"

text \<open>The declared cast, else the type of the first raw value that is present and not a wrapper, else text.\<close>

fun first_sample :: "string \<Rightarrow> jsobj list \<Rightarrow> jsval option" where
  "first_sample col [] = None"
| "first_sample col (r # rs) =
     (let v = js_get r col in if \<not> nullish v \<and> \<not> is_token v then Some v else first_sample col rs)"

definition column_type :: "(string \<Rightarrow> string option) \<Rightarrow> jsobj list option \<Rightarrow> string \<Rightarrow> string" where
  "column_type casts raw col =
     (case casts col of
        Some t \<Rightarrow> if t \<noteq> [] then t else
          (case raw of None \<Rightarrow> ''text'' | Some rs \<Rightarrow> (case first_sample col rs of None \<Rightarrow> ''text'' | Some v \<Rightarrow> inferPgType v))
      | None \<Rightarrow>
          (case raw of None \<Rightarrow> ''text'' | Some rs \<Rightarrow> (case first_sample col rs of None \<Rightarrow> ''text'' | Some v \<Rightarrow> inferPgType v)))"

definition isArrayType :: "string \<Rightarrow> bool" where
  "isArrayType t \<longleftrightarrow> ends_with_array t \<and> t \<noteq> ''jsonb'' \<and> t \<noteq> ''json''"

definition isJsonType :: "string \<Rightarrow> bool" where
  "isJsonType t \<longleftrightarrow> t = ''jsonb'' \<or> t = ''json''"

text \<open>\<open>JSON.stringify\<close>, which raises a \<open>TypeError\<close> on a \<open>bigint\<close> anywhere in the value.\<close>

fun has_bigint :: "jsval \<Rightarrow> bool" where
  "has_bigint (JBig i) = True"
| "has_bigint (JArr vs) = (\<exists>v \<in> set vs. has_bigint v)"
| "has_bigint (JObj ob) = (\<exists>kv \<in> set ob. has_bigint (snd kv))"
| "has_bigint _ = False"

definition json_stringify :: "jsval \<Rightarrow> scp_error + jsval" where
  "json_stringify v =
     (if has_bigint v then Inl (OtherError ''Do not know how to serialize a BigInt'') else Inr (JStr (json_text Postgres v)))"

section \<open>INSERT\<close>

text \<open>\<open>rawRecords?.[idx]?.[col]\<close>, serialised, or \<open>null\<close>.\<close>

definition raw_json :: "jsobj list option \<Rightarrow> nat \<Rightarrow> string \<Rightarrow> scp_error + jsval" where
  "raw_json raw idx col =
     (let v = (case raw of None \<Rightarrow> JUndef | Some rs \<Rightarrow> if idx < length rs then js_get (rs ! idx) col else JUndef)
      in if nullish v then Inr JNull else json_stringify v)"

definition insert_cell :: "insert_opts \<Rightarrow> string \<Rightarrow> string \<Rightarrow> nat \<times> jsobj \<Rightarrow> scp_error + jsval" where
  "insert_cell opt col pgType ir =
     (let v = js_get (snd ir) col in
      if is_token v then Inr v else if isArrayType pgType then raw_json (ins_raw opt) (fst ir) col else Inr v)"

definition unnest_type :: "string \<Rightarrow> string" where
  "unnest_type pgType = (if isArrayType pgType \<or> isJsonType pgType then ''?::text[]'' else ''?::'' @ pgType @ ''[]'')"

definition select_expr :: "string \<Rightarrow> string \<Rightarrow> string" where
  "select_expr col pgType =
     (if isArrayType pgType then buildJsonToTypeExpr (''v.'' @ col) pgType
      else if isJsonType pgType then ''v.'' @ col @ ''::'' @ pgType
      else ''v.'' @ col)"

text \<open>
  The loop over the columns: the arrays, the UNNEST list and the select list, or \<open>None\<close> when a column
  holds a wrapper (the code breaks out and starts over with VALUES).
\<close>

fun unnest_columns :: "insert_opts \<Rightarrow> string list \<Rightarrow> scp_error + (jsval list \<times> string list \<times> string list) option" where
  "unnest_columns opt [] = Inr (Some ([], [], []))"
| "unnest_columns opt (col # cols) =
     (let pgType = column_type (ins_casts opt) (ins_raw opt) col in
      bind_r (map_r (insert_cell opt col pgType) (enumerate 0 (ins_records opt))) (\<lambda>vals.
        if \<exists>r \<in> set (ins_records opt). is_token (js_get r col) then Inr None
        else bind_r (unnest_columns opt cols) (\<lambda>rest. Inr (case rest of
               None \<Rightarrow> None
             | Some (ps, us, ss) \<Rightarrow>
                 Some (JArr vals # ps, unnest_type pgType # us, select_expr col pgType # ss)))))"

definition conflict_text :: "insert_opts \<Rightarrow> string" where
  "conflict_text opt = (case ins_conflict opt of
      None \<Rightarrow> []
    | Some target \<Rightarrow> '' ON CONFLICT ('' @ join '', '' target @ '')'' @
        (if ins_ignore opt then '' DO NOTHING''
         else (case ins_update opt of None \<Rightarrow> []
               | Some u \<Rightarrow> '' DO UPDATE SET ''
                   @ join '', '' (map (\<lambda>c. c @ '' = EXCLUDED.'' @ c) (update_list u (ins_columns opt))))))"

definition pg_cell :: "insert_opts \<Rightarrow> string \<times> jsval \<Rightarrow> jsval list \<Rightarrow> string \<times> jsval list" where
  "pg_cell opt cv ps =
     (case snd cv of
        JTok t \<Rightarrow> tok_compile t [] None ps
      | v \<Rightarrow> (case ins_casts opt (fst cv) of
               Some t \<Rightarrow> (if t \<noteq> [] \<and> t \<noteq> ''timestamp'' \<and> t \<noteq> ''date'' then ''?::'' @ t else ''?'')
             | None \<Rightarrow> ''?'', ps @ [v]))"

definition pg_row :: "insert_opts \<Rightarrow> jsobj \<Rightarrow> jsval list \<Rightarrow> string \<times> jsval list" where
  "pg_row opt r ps =
     (let (cells, ps1) = emit_list (pg_cell opt) (map (\<lambda>c. (c, js_get r c)) (ins_columns opt)) ps
      in (''('' @ join '', '' cells @ '')'', ps1))"

definition pg_values_insert :: "insert_opts \<Rightarrow> makesql" where
  "pg_values_insert opt =
     (let (rows, ps) = emit_list (pg_row opt) (ins_records opt) []
      in mk (''INSERT INTO '' @ ins_table opt @ '' ('' @ join '', '' (ins_columns opt) @ '') VALUES '' @ join '', '' rows
             @ conflict_text opt @ returning_text (ins_returning opt)) ps)"

definition pg_unnest_insert :: "insert_opts \<Rightarrow> jsval list \<times> string list \<times> string list \<Rightarrow> makesql" where
  "pg_unnest_insert opt arrays = (case arrays of (ps, us, ss) \<Rightarrow>
     mk (''INSERT INTO '' @ ins_table opt @ '' ('' @ join '', '' (ins_columns opt) @ '') SELECT '' @ join '', '' ss
         @ '' FROM UNNEST('' @ join '', '' us @ '') AS v('' @ join '', '' (ins_columns opt) @ '')''
         @ conflict_text opt @ returning_text (ins_returning opt)) ps)"

definition pg_buildInsert :: "insert_opts \<Rightarrow> scp_error + makesql" where
  "pg_buildInsert opt =
     (if length (ins_records opt) > 1
      then bind_r (unnest_columns opt (ins_columns opt)) (\<lambda>res. Inr (case res of
             Some arrays \<Rightarrow> pg_unnest_insert opt arrays
           | None \<Rightarrow> pg_values_insert opt))
      else Inr (pg_values_insert opt))"

section \<open>UPDATE\<close>

definition pg_update_cell :: "update_opts \<Rightarrow> string \<Rightarrow> nat \<times> jsobj \<Rightarrow> scp_error + jsval" where
  "pg_update_cell opt col ir =
     (let pgType = column_type (upd_casts opt) (upd_raw opt) col; v = js_get (snd ir) col in
      if is_skipped (upd_skips opt) (fst ir) col then Inr JNull
      else if isArrayType pgType then raw_json (upd_raw opt) (fst ir) col
      else if isJsonType pgType \<and> \<not> nullish v then (case v of JStr s \<Rightarrow> Inr v | _ \<Rightarrow> json_stringify v)
      else Inr v)"

definition pg_update_column :: "update_opts \<Rightarrow> string \<Rightarrow> scp_error + jsval" where
  "pg_update_column opt col =
     bind_r (map_r (pg_update_cell opt col) (enumerate 0 (upd_records opt))) (\<lambda>vals. Inr (JArr vals))"

definition pg_update_unnest :: "update_opts \<Rightarrow> string \<Rightarrow> string" where
  "pg_update_unnest opt col =
     (let t = column_type (upd_casts opt) (upd_raw opt) col in
      if isArrayType t \<or> isJsonType t then ''?::text[]''
      else ''?::'' @ (if t = ''timestamp'' then ''timestamptz'' else t) @ ''[]'')"

definition pg_flag_column :: "update_opts \<Rightarrow> string \<Rightarrow> jsval" where
  "pg_flag_column opt col =
     JArr (map (\<lambda>ir. JBool (is_skipped (upd_skips opt) (fst ir) col)) (enumerate 0 (upd_records opt)))"

definition pg_set_clause :: "update_opts \<Rightarrow> string \<Rightarrow> string" where
  "pg_set_clause opt col =
     (let e = select_expr col (column_type (upd_casts opt) (upd_raw opt) col) in
      if col \<in> set (skip_columns (upd_skips opt))
      then col @ '' = CASE WHEN v.'' @ skip_name col @ '' THEN t.'' @ col @ '' ELSE '' @ e @ '' END''
      else col @ '' = '' @ e)"

definition pg_buildUpdateMany :: "update_opts \<Rightarrow> scp_error + makesql" where
  "pg_buildUpdateMany opt =
     (let allColumns = upd_keys opt @ upd_columns opt; skipCols = skip_columns (upd_skips opt) in
      bind_r (map_r (pg_update_column opt) allColumns) (\<lambda>arrays. Inr
        (mk (''UPDATE '' @ upd_table opt @ '' AS t SET '' @ join '', '' (map (pg_set_clause opt) (upd_columns opt))
             @ '' FROM UNNEST('' @ join '', '' (map (pg_update_unnest opt) allColumns @ map (\<lambda>_. ''?::boolean[]'') skipCols)
             @ '') AS v('' @ join '', '' (update_value_columns opt) @ '') WHERE '' @ join_on (upd_keys opt)
             @ returning_text (upd_returning opt))
            (arrays @ map (pg_flag_column opt) skipCols))))"

section \<open>Key queries\<close>

definition pg_key_type :: "find_opts \<Rightarrow> string \<Rightarrow> jsval list \<Rightarrow> string" where
  "pg_key_type opt col vals =
     (let inferred = inferPgType (case first_present vals of None \<Rightarrow> JUndef | Some v \<Rightarrow> v)
      in case find_casts opt col of Some t \<Rightarrow> (if t \<noteq> [] then t else inferred) | None \<Rightarrow> inferred)"

definition pg_key_column :: "find_opts \<Rightarrow> nat \<times> string \<Rightarrow> jsval list \<Rightarrow> string \<times> jsval list" where
  "pg_key_column opt ic ps =
     (let vals = map (\<lambda>v. js_nth v (fst ic)) (find_values opt)
      in (''?::'' @ pg_key_type opt (snd ic) vals @ ''[]'', ps @ [JArr vals]))"

definition pg_buildFindByPkeys :: "find_opts \<Rightarrow> makesql" where
  "pg_buildFindByPkeys opt =
     (if length (find_pkeys opt) = 1
      then (let (e, ps) = pg_key_column opt (0, hd (find_pkeys opt)) []
            in mk (''SELECT '' @ find_select opt @ '' FROM '' @ find_table opt @ '' WHERE '' @ hd (find_pkeys opt)
                   @ '' = ANY('' @ e @ '')'') ps)
      else (let (es, ps) = emit_list (pg_key_column opt) (enumerate 0 (find_pkeys opt)) []
            in mk (''SELECT '' @ find_select opt @ '' FROM '' @ find_table opt @ '' WHERE (''
                   @ join '', '' (find_pkeys opt) @ '') IN (SELECT * FROM UNNEST('' @ join '', '' es @ ''))'') ps))"

definition pg_buildReturning :: "string list \<Rightarrow> string \<Rightarrow> string option" where
  "pg_buildReturning cs alias =
     (let prefix = (if alias \<noteq> [] then alias @ ''.'' else []) in Some (join '', '' (map (\<lambda>c. prefix @ c) cs)))"

section \<open>Balance\<close>

lemma inferPgType_qfree [simp]: "qcount (inferPgType v) = 0"
  by (cases v) (auto split: option.splits jsval.splits)

lemma column_type_qfree: "casts_ok casts \<Longrightarrow> qcount (column_type casts raw col) = 0"
  by (auto simp: column_type_def casts_ok_def split: option.splits)

lemma qcount_take: "qcount s = 0 \<Longrightarrow> qcount (take n s) = 0"
  by (auto simp: qcount_0_iff dest: in_set_takeD)

lemma select_expr_qfree: "qcount t = 0 \<Longrightarrow> qcount col = 0 \<Longrightarrow> qcount (select_expr col t) = 0"
  by (simp add: select_expr_def buildJsonToTypeExpr_def getArrayElementType_def qcount_take)

lemma unnest_type_q: "qcount t = 0 \<Longrightarrow> qcount (unnest_type t) = 1"
  by (simp add: unnest_type_def)

lemma length_map_r_enumerate:
  "map_r f (enumerate n xs) = Inr ys \<Longrightarrow> length ys = length xs"
  by (drule map_r_Inr_length) simp

text \<open>
  What the loop over the columns builds: one array per column, each with one entry per record, and the
  matching UNNEST and select entries; it gives up exactly when some record holds a wrapper.
\<close>

lemma unnest_columns_shape:
  assumes "unnest_columns opt cols = Inr (Some (ps, us, ss))"
  shows "length ps = length cols \<and> us = map (\<lambda>c. unnest_type (column_type (ins_casts opt) (ins_raw opt) c)) cols
    \<and> ss = map (\<lambda>c. select_expr c (column_type (ins_casts opt) (ins_raw opt) c)) cols
    \<and> (\<forall>p \<in> set ps. \<exists>vs. p = JArr vs \<and> length vs = length (ins_records opt))"
  using assms
proof (induction cols arbitrary: ps us ss)
  case (Cons col cols)
  then show ?case
    by (auto simp: Let_def bind_r_Inr_iff length_map_r_enumerate split: if_splits option.splits)
qed simp

lemma unnest_columns_tokens:
  assumes "unnest_columns opt cols = Inr res"
  shows "res = None \<longleftrightarrow> (\<exists>c \<in> set cols. \<exists>r \<in> set (ins_records opt). is_token (js_get r c))"
  using assms
proof (induction cols arbitrary: res)
  case (Cons col cols)
  then show ?case
    by (auto simp: Let_def bind_r_Inr_iff split: if_splits option.splits)
qed simp

lemma sum_list_ones: "\<forall>x \<in> set xs. qcount x = 1 \<Longrightarrow> sum_list (map qcount xs) = length xs"
  by (induction xs) auto

lemma join_ones: "qcount sep = 0 \<Longrightarrow> \<forall>x \<in> set xs. qcount x = 1 \<Longrightarrow> qcount (join sep xs) = length xs"
  by (simp add: qcount_join sum_list_ones)

lemma conflict_text_qfree: "wf_insert opt \<Longrightarrow> qcount (conflict_text opt) = 0"
  using qcount_update_list [of opt]
  by (auto simp: conflict_text_def arity_simps wf_insert_def split: option.splits)

interpretation pg_cell: sql_emitter "pg_cell opt" "\<lambda>cv. casts_ok (ins_casts opt) \<and> wf_val (snd cv)" for opt
proof
  show "pg_cell opt cv ps = (fst (pg_cell opt cv []), ps @ snd (pg_cell opt cv []))" for cv ps
    by (cases "snd cv") (simp_all add: pg_cell_def, rule tok_compile_append)
  show "casts_ok (ins_casts opt) \<and> wf_val (snd cv) \<Longrightarrow> qcount (fst (pg_cell opt cv [])) = length (snd (pg_cell opt cv []))" for cv
    by (cases "snd cv")
      (auto simp: pg_cell_def wf_val_def casts_ok_def tok_compile_arity_ps split: option.splits)
qed

interpretation pg_row: sql_emitter "pg_row opt" "\<lambda>r. casts_ok (ins_casts opt) \<and> wf_record r" for opt
proof
  show "pg_row opt r ps = (fst (pg_row opt r []), ps @ snd (pg_row opt r []))" for r ps
    by (simp add: pg_row_def case_prod_beta Let_def pg_cell.emit_list_append [of opt _ ps])
  show "casts_ok (ins_casts opt) \<and> wf_record r \<Longrightarrow> qcount (fst (pg_row opt r [])) = length (snd (pg_row opt r []))" for r
    using pg_cell.emit_join_arity [of "map (\<lambda>c. (c, js_get r c)) (ins_columns opt)" opt "'', ''"]
    by (auto simp: pg_row_def case_prod_beta Let_def wf_record_get)
qed

lemma pg_values_balanced: "wf_insert opt \<Longrightarrow> balanced (pg_values_insert opt)"
  using pg_row.emit_join_arity [of "ins_records opt" opt "'', ''"] conflict_text_qfree [of opt]
  by (simp add: pg_values_insert_def case_prod_beta Let_def wf_insert_def arity_simps)

lemma pg_unnest_balanced:
  assumes "wf_insert opt" and "unnest_columns opt (ins_columns opt) = Inr (Some (ps, us, ss))"
  shows "balanced (pg_unnest_insert opt (ps, us, ss))"
proof -
  note shape = unnest_columns_shape [OF assms(2)]
  have casts: "casts_ok (ins_casts opt)" and cols: "names_ok (ins_columns opt)"
    using assms(1) by (simp_all add: wf_insert_def)
  have "\<forall>u \<in> set us. qcount u = 1"
    using shape casts by (auto simp: unnest_type_q column_type_qfree)
  then have "qcount (join '', '' us) = length us" by (rule join_ones [rotated]) simp
  then have "qcount (join '', '' us) = length ps" using shape by simp
  moreover have "qcount (join '', '' ss) = 0"
    using shape casts cols by (intro qcount_join_names) (auto simp: select_expr_qfree column_type_qfree names_ok_def)
  ultimately show ?thesis
    using assms(1) conflict_text_qfree [OF assms(1)] cols
    by (simp add: pg_unnest_insert_def arity_simps wf_insert_def)
qed

lemma pg_insert_balanced: "wf_insert opt \<Longrightarrow> pg_buildInsert opt = Inr m \<Longrightarrow> balanced m"
  by (auto simp: pg_buildInsert_def bind_r_Inr_iff pg_values_balanced pg_unnest_balanced
      split: if_splits option.splits)

lemma pg_update_unnest_q: "casts_ok (upd_casts opt) \<Longrightarrow> qcount (pg_update_unnest opt col) = 1"
  using column_type_qfree [of "upd_casts opt" "upd_raw opt" col] by (simp add: pg_update_unnest_def Let_def)

lemma pg_set_clause_qfree: "casts_ok (upd_casts opt) \<Longrightarrow> qcount col = 0 \<Longrightarrow> qcount (pg_set_clause opt col) = 0"
  using column_type_qfree [of "upd_casts opt" "upd_raw opt" col]
  by (simp add: pg_set_clause_def Let_def skip_name_def select_expr_qfree)

lemma pg_update_balanced:
  assumes wf: "wf_update opt" and m: "pg_buildUpdateMany opt = Inr m"
  shows "balanced m"
proof -
  have casts: "casts_ok (upd_casts opt)" using wf by (simp add: wf_update_def)
  obtain arrays where arrays: "map_r (pg_update_column opt) (upd_keys opt @ upd_columns opt) = Inr arrays"
    using m by (auto simp: pg_buildUpdateMany_def Let_def bind_r_Inr_iff)
  let ?us = "map (pg_update_unnest opt) (upd_keys opt @ upd_columns opt) @ map (\<lambda>_. ''?::boolean[]'') (skip_columns (upd_skips opt))"
  have "qcount (join '', '' ?us) = length ?us"
    by (subst qcount_join, simp, rule sum_list_ones) (auto simp: pg_update_unnest_q casts)
  moreover have "qcount (join '', '' (map (pg_set_clause opt) (upd_columns opt))) = 0"
    using wf casts by (intro qcount_join_names) (auto simp: pg_set_clause_qfree wf_update_def names_ok_def)
  ultimately show ?thesis
    using m wf names_ok_update_columns [OF wf] map_r_Inr_length [OF arrays] arrays
    by (auto simp: pg_buildUpdateMany_def Let_def bind_r_Inr_iff wf_update_def arity_simps)
qed

lemma pg_key_type_qfree: "casts_ok (find_casts opt) \<Longrightarrow> qcount (pg_key_type opt col vals) = 0"
  by (auto simp: pg_key_type_def Let_def casts_ok_def split: option.splits)

interpretation pg_key: sql_emitter "pg_key_column opt" "\<lambda>_. casts_ok (find_casts opt)" for opt
  by unfold_locales (auto simp: pg_key_column_def Let_def pg_key_type_qfree)

lemma pg_find_balanced: "wf_find opt \<Longrightarrow> balanced (pg_buildFindByPkeys opt)"
  using pg_key.emit_join_arity [of "enumerate 0 (find_pkeys opt)" opt "'', ''"]
    pg_key_type_qfree [of opt]
  by (cases "find_pkeys opt")
    (auto simp: pg_buildFindByPkeys_def pg_key_column_def case_prod_beta Let_def wf_find_def arity_simps names_ok_def)

interpretation pg_builder: sql_builder pg_buildInsert pg_buildUpdateMany pg_buildFindByPkeys
  by unfold_locales (auto intro: pg_insert_balanced pg_update_balanced pg_find_balanced)

section \<open>Properties\<close>

text \<open>
  A multi-row PostgreSQL INSERT binds one array per column, each with one entry per record, unless
  some inserted column of some record holds a wrapper: then, and only then, it falls back to the VALUES list.
\<close>

theorem batch_insert_shape:
  assumes "length (ins_records opt) > 1" and "pg_buildInsert opt = Inr m"
  shows "if \<exists>c \<in> set (ins_columns opt). \<exists>r \<in> set (ins_records opt). is_token (js_get r c)
    then m = pg_values_insert opt
    else length (params m) = length (ins_columns opt)
      \<and> (\<forall>p \<in> set (params m). \<exists>vs. p = JArr vs \<and> length vs = length (ins_records opt))"
proof -
  obtain res where res: "unnest_columns opt (ins_columns opt) = Inr res"
    and m: "m = (case res of Some arrays \<Rightarrow> pg_unnest_insert opt arrays | None \<Rightarrow> pg_values_insert opt)"
    using assms by (auto simp: pg_buildInsert_def bind_r_Inr_iff)
  show ?thesis
  proof (cases res)
    case None
    with res m unnest_columns_tokens [OF res] show ?thesis by simp
  next
    case (Some arrays)
    obtain ps us ss where a: "arrays = (ps, us, ss)" by (cases arrays)
    have "params m = ps" by (simp add: m Some a pg_unnest_insert_def mk_def)
    with unnest_columns_shape [of opt _ ps us ss] unnest_columns_tokens [OF res] res show ?thesis
      by (simp add: Some a)
  qed
qed

definition example_insert :: insert_opts where
  "example_insert = \<lparr>ins_table = ''users'', ins_columns = [''name'', ''tags''],
     ins_records = [[(''name'', JStr ''a''), (''tags'', JNull)], [(''name'', JStr ''b''), (''tags'', JNull)]],
     ins_raw = Some [[(''name'', JStr ''a''), (''tags'', JArr [JInt 1])], [(''name'', JStr ''b'')]],
     ins_casts = (\<lambda>_. None), ins_conflict = None, ins_ignore = False, ins_update = None, ins_returning = ''id''\<rparr>"

lemma example_insert_text:
  "map_sum id params (pg_buildInsert example_insert)
    = Inr [JArr [JStr ''a'', JStr ''b''], JArr [JStr ''[1]'', JNull]]"
  by code_simp

theorem batch_insert_shape_witness:
  "\<exists>m. pg_buildInsert example_insert = Inr m \<and> length (params m) = 2"
proof -
  obtain m where m: "pg_buildInsert example_insert = Inr m"
    using example_insert_text by (cases "pg_buildInsert example_insert") auto
  have "length (ins_records example_insert) > 1" by (simp add: example_insert_def)
  from batch_insert_shape [OF this m] m show ?thesis
    by (simp add: example_insert_def is_token_def js_get_def)
qed

text \<open>
  The batch UPDATE binds one array per key, updated and skip-flag column; every array has one entry
  per record, and a skipped cell is bound as NULL.
\<close>

theorem batch_update_shape:
  assumes "pg_buildUpdateMany opt = Inr m"
  shows "length (params m) = length (update_value_columns opt)
    \<and> (\<forall>p \<in> set (params m). \<exists>vs. p = JArr vs \<and> length vs = length (upd_records opt))
    \<and> (\<forall>k < length (upd_keys opt @ upd_columns opt). \<forall>i < length (upd_records opt). \<forall>vs.
         params m ! k = JArr vs \<longrightarrow> is_skipped (upd_skips opt) i ((upd_keys opt @ upd_columns opt) ! k) \<longrightarrow> vs ! i = JNull)"
proof -
  obtain arrays where a: "map_r (pg_update_column opt) (upd_keys opt @ upd_columns opt) = Inr arrays"
    and ps: "params m = arrays @ map (pg_flag_column opt) (skip_columns (upd_skips opt))"
    using assms by (auto simp: pg_buildUpdateMany_def Let_def bind_r_Inr_iff mk_def)
  have cell: "\<exists>vs. arrays ! k = JArr vs \<and> length vs = length (upd_records opt)
      \<and> (\<forall>i < length vs. is_skipped (upd_skips opt) i ((upd_keys opt @ upd_columns opt) ! k) \<longrightarrow> vs ! i = JNull)"
    if k: "k < length (upd_keys opt @ upd_columns opt)" for k
  proof -
    have "pg_update_column opt ((upd_keys opt @ upd_columns opt) ! k) = Inr (arrays ! k)"
      by (rule map_r_nth [OF a k])
    then obtain vs where vs: "arrays ! k = JArr vs"
      and cells: "map_r (pg_update_cell opt ((upd_keys opt @ upd_columns opt) ! k)) (enumerate 0 (upd_records opt)) = Inr vs"
      by (clarsimp simp: pg_update_column_def bind_r_Inr_iff) metis
    have len: "length vs = length (upd_records opt)" using map_r_Inr_length [OF cells] by simp
    have "vs ! i = JNull" if "i < length vs" "is_skipped (upd_skips opt) i ((upd_keys opt @ upd_columns opt) ! k)" for i
      using map_r_nth [OF cells, of i] that len by (simp add: pg_update_cell_def nth_enumerate_eq)
    with vs len show ?thesis by blast
  qed
  have len: "length arrays = length (upd_keys opt @ upd_columns opt)" by (rule map_r_Inr_length [OF a])
  have "\<exists>vs. p = JArr vs \<and> length vs = length (upd_records opt)" if "p \<in> set (params m)" for p
    using that cell len by (auto simp: ps pg_flag_column_def in_set_conv_nth)
  moreover have "vs ! i = JNull" if "k < length (upd_keys opt @ upd_columns opt)" "i < length (upd_records opt)"
    "params m ! k = JArr vs" "is_skipped (upd_skips opt) i ((upd_keys opt @ upd_columns opt) ! k)" for k i vs
    using that cell [of k] len by (auto simp: ps nth_append)
  ultimately show ?thesis
    using len by (auto simp: ps update_value_columns_def)
qed

definition example_update :: update_opts where
  "example_update = \<lparr>upd_table = ''users'', upd_keys = [''id''], upd_columns = [''name''],
     upd_records = [[(''id'', JInt 1), (''name'', JStr ''a'')], [(''id'', JInt 2)]], upd_raw = None,
     upd_casts = (\<lambda>_. None), upd_skips = [(1, [''name''])], upd_returning = []\<rparr>"

lemma example_update_text:
  "map_sum id params (pg_buildUpdateMany example_update)
    = Inr [JArr [JInt 1, JInt 2], JArr [JStr ''a'', JNull], JArr [JBool False, JBool True]]"
  by code_simp

theorem batch_update_shape_witness:
  "\<exists>m. pg_buildUpdateMany example_update = Inr m \<and> length (params m) = 3"
proof -
  obtain m where m: "pg_buildUpdateMany example_update = Inr m"
    using example_update_text by (cases "pg_buildUpdateMany example_update") auto
  from batch_update_shape [OF m] m show ?thesis
    by (simp add: example_update_def update_value_columns_def skip_columns_def)
qed

end
