(* ===== verification/JsonBatch.thy ===== *)
theory JsonBatch
  imports PgBuilder
begin

text \<open>
  \<open>src/scp/makesql/json-batch.ts\<close>: the batch INSERT and UPDATE of MySQL and SQLite that carry all rows in
  one JSON parameter, expanded on the server by \<open>JSON_TABLE\<close> or \<open>json_each\<close>.
\<close>

section \<open>Payload\<close>

definition rowsHaveDbToken :: "jsobj list \<Rightarrow> string list \<Rightarrow> bool" where
  "rowsHaveDbToken rows columns \<longleftrightarrow> (\<exists>r \<in> set rows. \<exists>c \<in> set columns. is_token (js_get r c))"

definition null_cell :: "jsval \<Rightarrow> jsval" where
  "null_cell v = (if v = JUndef then JNull else v)"

definition project_row :: "string list \<Rightarrow> jsobj \<Rightarrow> jsobj" where
  "project_row columns r = fold (\<lambda>c ob. obj_set ob c (null_cell (js_get r c))) columns []"

definition rowsToJson :: "dialect \<Rightarrow> jsobj list \<Rightarrow> string list \<Rightarrow> string" where
  "rowsToJson d rows columns = encodeJsonParam d (JArr (map (\<lambda>r. JObj (project_row columns r)) rows))"

text \<open>
  The column of \<open>JSON_TABLE\<close>: its type and whether the extracted value is unquoted, from the first value
  present in the group.
\<close>

definition mysqlJsonTableColumn :: "string \<Rightarrow> jsobj list \<Rightarrow> string \<times> (string \<Rightarrow> string)" where
  "mysqlJsonTableColumn col rows =
     (case first_present (map (\<lambda>r. js_get r col) rows) of
        None \<Rightarrow> (''JSON'', \<lambda>ref. ''JSON_UNQUOTE('' @ ref @ '')'')
      | Some v \<Rightarrow> (case v of
            JBool _ \<Rightarrow> (''BIGINT'', \<lambda>ref. ref)
          | JBig _ \<Rightarrow> (''BIGINT'', \<lambda>ref. ref)
          | JInt _ \<Rightarrow> (''BIGINT'', \<lambda>ref. ref)
          | JFrac _ \<Rightarrow> (''DECIMAL(65,30)'', \<lambda>ref. ref)
          | JNonFin _ \<Rightarrow> (''DECIMAL(65,30)'', \<lambda>ref. ref)
          | JStr _ \<Rightarrow> (''JSON'', \<lambda>ref. ''JSON_UNQUOTE('' @ ref @ '')'')
          | _ \<Rightarrow> (''JSON'', \<lambda>ref. ref)))"

definition jt_column :: "jsobj list \<Rightarrow> string \<Rightarrow> string" where
  "jt_column rows col = col @ '' '' @ fst (mysqlJsonTableColumn col rows) @ '' PATH '' @ squoted (''$.'' @ col)"

section \<open>INSERT\<close>

definition mysqlInsertJson :: "insert_opts \<Rightarrow> makesql" where
  "mysqlInsertJson opt =
     (let cols = ins_columns opt; rows = ins_records opt;
          source = ''SELECT '' @ join '', '' (map (\<lambda>c. snd (mysqlJsonTableColumn c rows) (''jt.'' @ c)) cols)
            @ '' FROM JSON_TABLE(?, '' @ squoted ''$[*]'' @ '' COLUMNS('' @ join '', '' (map (jt_column rows) cols) @ '')) jt'';
          target = ins_table opt @ '' ('' @ join '', '' cols @ '') '' @ source;
          s = (case (ins_conflict opt, ins_ignore opt, ins_update opt) of
                 (Some _, True, _) \<Rightarrow> ''INSERT IGNORE INTO '' @ target
               | (Some _, False, Some u) \<Rightarrow> ''INSERT INTO '' @ target @ '' ON DUPLICATE KEY UPDATE ''
                   @ join '', '' (map (\<lambda>c. c @ '' = VALUES('' @ c @ '')'') (update_list u cols))
               | _ \<Rightarrow> ''INSERT INTO '' @ target)
      in mk (s @ returning_text (ins_returning opt)) [JStr (rowsToJson Mysql rows cols)])"

definition json_extract :: "string \<Rightarrow> string \<Rightarrow> string" where
  "json_extract doc col = ''json_extract('' @ doc @ '', '' @ squoted (''$.'' @ col) @ '')''"

definition sqliteInsertJson :: "insert_opts \<Rightarrow> makesql" where
  "sqliteInsertJson opt =
     (let cols = ins_columns opt; rows = ins_records opt;
          source = ''SELECT '' @ join '', '' (map (json_extract ''value'') cols) @ '' FROM json_each(?)'';
          target = ins_table opt @ '' ('' @ join '', '' cols @ '') '' @ source;
          s = (case (ins_conflict opt, ins_ignore opt, ins_update opt) of
                 (Some _, True, _) \<Rightarrow> ''INSERT OR IGNORE INTO '' @ target
               | (Some cs, False, Some u) \<Rightarrow> ''INSERT INTO '' @ target @ '' WHERE true ON CONFLICT (''
                   @ join '', '' cs @ '') DO UPDATE SET '' @ join '', '' (map (\<lambda>c. c @ '' = excluded.'' @ c) (update_list u cols))
               | _ \<Rightarrow> ''INSERT INTO '' @ target)
      in mk (s @ returning_text (ins_returning opt)) [JStr (rowsToJson Sqlite rows cols)])"

section \<open>UPDATE\<close>

definition update_payload_row :: "update_opts \<Rightarrow> nat \<times> jsobj \<Rightarrow> jsobj" where
  "update_payload_row opt ir =
     fold (\<lambda>c ob. obj_set ob (skip_name c) (JInt (if is_skipped (upd_skips opt) (fst ir) c then 1 else 0)))
       (skip_columns (upd_skips opt)) (project_row (upd_keys opt @ upd_columns opt) (snd ir))"

definition update_payload :: "dialect \<Rightarrow> update_opts \<Rightarrow> string" where
  "update_payload d opt =
     encodeJsonParam d (JArr (map (\<lambda>ir. JObj (update_payload_row opt ir)) (enumerate 0 (upd_records opt))))"

definition mysqlUpdateManyJson :: "update_opts \<Rightarrow> makesql" where
  "mysqlUpdateManyJson opt =
     (let rows = upd_records opt; skipCols = skip_columns (upd_skips opt);
          jtCols = map (jt_column rows) (upd_keys opt @ upd_columns opt)
            @ map (\<lambda>c. skip_name c @ '' BIGINT PATH '' @ squoted (''$.'' @ skip_name c)) skipCols;
          v = (\<lambda>c. snd (mysqlJsonTableColumn c rows) (''v.'' @ c));
          sets = map (\<lambda>c. if c \<in> set skipCols
              then ''u.'' @ c @ '' = IF(v.'' @ skip_name c @ '', u.'' @ c @ '', '' @ v c @ '')''
              else ''u.'' @ c @ '' = '' @ v c) (upd_columns opt);
          ons = map (\<lambda>k. ''u.'' @ k @ '' = '' @ v k) (upd_keys opt)
      in mk (''UPDATE '' @ upd_table opt @ '' AS u JOIN JSON_TABLE(?, '' @ squoted ''$[*]'' @ '' COLUMNS(''
             @ join '', '' jtCols @ '')) AS v ON '' @ join '' AND '' ons @ '' SET '' @ join '', '' sets
             @ returning_text (upd_returning opt))
            [JStr (update_payload Mysql opt)])"

definition sqlite_set_json :: "update_opts \<Rightarrow> string \<Rightarrow> jsval list \<Rightarrow> string \<times> jsval list" where
  "sqlite_set_json opt col ps =
     (let keyMatch = join '' AND '' (map (\<lambda>k. json_extract ''je.value'' k @ '' = '' @ upd_table opt @ ''.'' @ k) (upd_keys opt));
          valueExpr = (if col \<in> set (skip_columns (upd_skips opt))
            then ''CASE WHEN '' @ json_extract ''je.value'' (skip_name col) @ '' THEN '' @ upd_table opt @ ''.'' @ col
                 @ '' ELSE '' @ json_extract ''je.value'' col @ '' END''
            else json_extract ''je.value'' col)
      in (col @ '' = (SELECT '' @ valueExpr @ '' FROM json_each(?) je WHERE '' @ keyMatch @ '' LIMIT 1)'',
          ps @ [JStr (update_payload Sqlite opt)]))"

definition sqliteUpdateManyJson :: "update_opts \<Rightarrow> makesql" where
  "sqliteUpdateManyJson opt =
     (let (sets, ps) = emit_list (sqlite_set_json opt) (upd_columns opt) [];
          projected = join '', '' (map (json_extract ''value'') (upd_keys opt));
          target = (if length (upd_keys opt) = 1 then hd (upd_keys opt)
            else ''('' @ join '', '' (map (\<lambda>k. upd_table opt @ ''.'' @ k) (upd_keys opt)) @ '')'')
      in mk (''UPDATE '' @ upd_table opt @ '' SET '' @ join '', '' sets @ '' WHERE '' @ target
             @ '' IN (SELECT '' @ projected @ '' FROM json_each(?))'' @ returning_text (upd_returning opt))
            (ps @ [JStr (update_payload Sqlite opt)]))"

section \<open>Balance\<close>

lemma json_table_qfree:
  "qcount (fst (mysqlJsonTableColumn c rows)) = 0"
  "qcount ref = 0 \<Longrightarrow> qcount (snd (mysqlJsonTableColumn c rows) ref) = 0"
  by (auto simp: mysqlJsonTableColumn_def split: option.splits jsval.splits)

lemma jt_column_qfree: "qcount c = 0 \<Longrightarrow> qcount (jt_column rows c) = 0"
  by (simp add: jt_column_def json_table_qfree)

lemma json_extract_qfree: "qcount doc = 0 \<Longrightarrow> qcount c = 0 \<Longrightarrow> qcount (json_extract doc c) = 0"
  by (simp add: json_extract_def)

lemma mysqlInsertJson_balanced: "wf_insert opt \<Longrightarrow> balanced (mysqlInsertJson opt)"
  using qcount_update_list [of opt]
  by (auto simp: mysqlInsertJson_def Let_def wf_insert_def arity_simps json_table_qfree jt_column_qfree
      split: option.splits bool.splits)

lemma sqliteInsertJson_balanced: "wf_insert opt \<Longrightarrow> balanced (sqliteInsertJson opt)"
  using qcount_update_list [of opt]
  by (auto simp: sqliteInsertJson_def Let_def wf_insert_def arity_simps json_extract_qfree
      split: option.splits bool.splits)

lemma skip_name_qfree: "qcount (skip_name c) = qcount c"
  by (simp add: skip_name_def)

lemma mysqlUpdateManyJson_balanced:
  assumes "wf_update opt"
  shows "balanced (mysqlUpdateManyJson opt)"
proof -
  have names: "names_ok (upd_keys opt)" "names_ok (upd_columns opt)" "names_ok (skip_columns (upd_skips opt))"
    using assms by (simp_all add: wf_update_def)
  then have "qcount (join '', '' (map (jt_column (upd_records opt)) (upd_keys opt @ upd_columns opt)
      @ map (\<lambda>c. skip_name c @ '' BIGINT PATH '' @ squoted (''$.'' @ skip_name c)) (skip_columns (upd_skips opt)))) = 0"
    by (intro qcount_join_names) (auto simp: names_ok_def jt_column_qfree skip_name_qfree)
  with assms names show ?thesis
    by (simp add: mysqlUpdateManyJson_def Let_def wf_update_def arity_simps json_table_qfree skip_name_qfree)
qed

interpretation sqlite_set: sql_emitter "sqlite_set_json opt" "\<lambda>c. wf_update opt \<and> qcount c = 0" for opt
proof
  show "sqlite_set_json opt c ps = (fst (sqlite_set_json opt c []), ps @ snd (sqlite_set_json opt c []))" for c ps
    by (simp add: sqlite_set_json_def Let_def)
  show "wf_update opt \<and> qcount c = 0 \<Longrightarrow> qcount (fst (sqlite_set_json opt c [])) = length (snd (sqlite_set_json opt c []))" for c
    by (auto simp: sqlite_set_json_def Let_def wf_update_def arity_simps json_extract_qfree skip_name_qfree)
qed

lemma sqliteUpdateManyJson_params:
  "params (sqliteUpdateManyJson opt) = replicate (length (upd_columns opt) + 1) (JStr (update_payload Sqlite opt))"
proof -
  have "snd (emit_list (sqlite_set_json opt) cs ps) = ps @ replicate (length cs) (JStr (update_payload Sqlite opt))" for cs ps
    by (induction cs arbitrary: ps) (simp_all add: case_prod_beta Let_def sqlite_set_json_def)
  then show ?thesis
    by (simp add: sqliteUpdateManyJson_def case_prod_beta Let_def mk_def replicate_append_same)
qed

lemma sqliteUpdateManyJson_balanced:
  assumes "wf_update opt"
  shows "balanced (sqliteUpdateManyJson opt)"
proof -
  have names: "names_ok (upd_keys opt)" "names_ok (upd_columns opt)" using assms by (simp_all add: wf_update_def)
  then have "qcount (join '', '' (fst (emit_list (sqlite_set_json opt) (upd_columns opt) [])))
      = length (snd (emit_list (sqlite_set_json opt) (upd_columns opt) []))"
    using assms by (intro sqlite_set.emit_join_arity) (auto simp: names_ok_def)
  moreover have "length (upd_keys opt) = 1 \<Longrightarrow> qcount (hd (upd_keys opt)) = 0"
    using names(1) by (cases "upd_keys opt") (auto simp: names_ok_def)
  ultimately show ?thesis
    using assms names by (simp add: sqliteUpdateManyJson_def case_prod_beta Let_def wf_update_def arity_simps json_extract_qfree)
qed

end
