(* ===== verification/CompileCrud.thy ===== *)
theory CompileCrud
  imports JsonBatch
begin

text \<open>
  \<open>src/scp/makesql/compile-crud.ts\<close>: the write compilers.  \<open>compileInsertMany\<close> groups the records by their
  sorted column set and compiles one INSERT per group, \<open>compileUpdateMany\<close> and \<open>compileDeleteMany\<close> are the
  batch forms, \<open>compileUpdateSingle\<close> and \<open>compileDelete\<close> refuse an empty WHERE clause.  Column names are
  sorted by character code, which is JavaScript's default order.
\<close>

section \<open>Choosing the builder\<close>

definition builderInsert :: "dialect \<Rightarrow> insert_opts \<Rightarrow> scp_error + makesql" where
  "builderInsert d opt = (case d of
      Postgres \<Rightarrow> pg_buildInsert opt | Mysql \<Rightarrow> Inr (mysql_buildInsert opt) | Sqlite \<Rightarrow> Inr (sqlite_buildInsert opt))"

definition builderUpdateMany :: "dialect \<Rightarrow> update_opts \<Rightarrow> scp_error + makesql" where
  "builderUpdateMany d opt = (case d of
      Postgres \<Rightarrow> pg_buildUpdateMany opt | Mysql \<Rightarrow> Inr (mysql_buildUpdateMany opt) | Sqlite \<Rightarrow> Inr (sqlite_buildUpdateMany opt))"

definition builderFind :: "dialect \<Rightarrow> find_opts \<Rightarrow> makesql" where
  "builderFind d opt = (case d of
      Postgres \<Rightarrow> pg_buildFindByPkeys opt | Mysql \<Rightarrow> mysql_buildFindByPkeys opt | Sqlite \<Rightarrow> sqlite_buildFindByPkeys opt)"

definition compileInsert :: "dialect \<Rightarrow> insert_opts \<Rightarrow> scp_error + makesql" where
  "compileInsert d opt = bind_r (builderInsert d opt) (\<lambda>m. Inr (mk (sql m) (params m)))"

section \<open>createMany\<close>

text \<open>A column of a record is sent unless its value is \<open>undefined\<close> or the immediate \<open>DEFAULT\<close>.\<close>

definition is_sent :: "jsval \<Rightarrow> bool" where
  "is_sent v \<longleftrightarrow> v \<noteq> JUndef \<and> (case v of JTok t \<Rightarrow> immediate_text t \<noteq> Some ''DEFAULT'' | _ \<Rightarrow> True)"

definition record_columns :: "jsobj \<Rightarrow> string list" where
  "record_columns r = sort (filter (\<lambda>k. is_sent (js_get r k)) (map fst r))"

text \<open>
  The groups in order of first appearance, each with its columns and its records paired with the raw
  ones.  The raw records, when given, are parallel to the records.
\<close>

definition with_raw :: "jsobj list \<Rightarrow> jsobj list option \<Rightarrow> (jsobj \<times> jsobj) list" where
  "with_raw records raw = (case raw of None \<Rightarrow> map (\<lambda>r. (r, r)) records | Some rs \<Rightarrow> zip records rs)"

type_synonym insert_group = "string list \<times> (jsobj \<times> jsobj) list"

definition insert_groups :: "jsobj list \<Rightarrow> jsobj list option \<Rightarrow> insert_group list" where
  "insert_groups records raw =
     (if length records = 1 then [(record_columns (hd records), with_raw records raw)]
      else map (\<lambda>(patternKey, items). (record_columns (fst (hd items)), items))
        (group_by (\<lambda>rr. join '','' (record_columns (fst rr))) (with_raw records raw)))"

definition group_opts :: "insert_opts \<Rightarrow> insert_group \<Rightarrow> insert_opts" where
  "group_opts opt g = opt\<lparr>ins_columns := fst g, ins_records := map fst (snd g), ins_raw := Some (map snd (snd g))\<rparr>"

definition compile_group :: "dialect \<Rightarrow> insert_opts \<Rightarrow> insert_group \<Rightarrow> scp_error + makesql" where
  "compile_group d opt g =
     (let gopt = group_opts opt g in
      if d \<noteq> Postgres \<and> \<not> rowsHaveDbToken (map fst (snd g)) (fst g)
      then Inr (if d = Mysql then mysqlInsertJson gopt else sqliteInsertJson gopt)
      else compileInsert d gopt)"

definition compileInsertMany :: "dialect \<Rightarrow> insert_opts \<Rightarrow> scp_error + makesql list" where
  "compileInsertMany d opt = map_r (compile_group d opt) (insert_groups (ins_records opt) (ins_raw opt))"

section \<open>updateMany\<close>

definition compileUpdateMany :: "dialect \<Rightarrow> update_opts \<Rightarrow> scp_error + makesql" where
  "compileUpdateMany d opt =
     (if d \<noteq> Postgres \<and> \<not> rowsHaveDbToken (upd_records opt) (upd_keys opt @ upd_columns opt)
      then Inr (if d = Mysql then mysqlUpdateManyJson opt else sqliteUpdateManyJson opt)
      else bind_r (builderUpdateMany d opt) (\<lambda>m. Inr (mk (sql m) (params m))))"

section \<open>Single UPDATE and DELETE\<close>

definition write_formatter :: "dialect \<Rightarrow> formatter option" where
  "write_formatter d = (if d = Postgres then Some (formatterFor d) else None)"

definition set_cell :: "dialect \<Rightarrow> (string \<Rightarrow> string option) \<Rightarrow> string \<times> jsval \<Rightarrow> jsval list \<Rightarrow> string \<times> jsval list" where
  "set_cell d casts cv ps = (case cv of (col, v) \<Rightarrow> (case v of
      JTok t \<Rightarrow> (let (s, ps1) = tok_compile t [] (write_formatter d) ps in (col @ '' = '' @ s, ps1))
    | _ \<Rightarrow> (case (casts col, write_formatter d) of
          (Some sqlCast, Some f) \<Rightarrow>
            (if sqlCast \<noteq> [] \<and> sqlCast \<noteq> ''timestamp'' \<and> sqlCast \<noteq> ''date''
             then col @ '' = '' @ f ''?'' sqlCast else col @ '' = ?'')
        | _ \<Rightarrow> col @ '' = ?'', ps @ [v])))"

definition compileUpdateSingle ::
  "dialect \<Rightarrow> string \<Rightarrow> jsobj \<Rightarrow> jsobj \<Rightarrow> (string \<Rightarrow> string option) \<Rightarrow> string \<Rightarrow> scp_error + makesql" where
  "compileUpdateSingle d table vals conditions casts returning =
     (let (sets, ps) = emit_list (set_cell d casts) vals [];
          (w, ps1) = where_compile d conditions (write_formatter d) ps
      in if w = [] then Inl (RequiresConditions ''UPDATE'')
         else Inr (mk (''UPDATE '' @ table @ '' SET '' @ join '', '' sets @ '' WHERE '' @ w @ returning_text returning) ps1))"

definition compileDelete :: "dialect \<Rightarrow> string \<Rightarrow> jsobj \<Rightarrow> string \<Rightarrow> scp_error + makesql" where
  "compileDelete d table conditions returning =
     (let (w, ps) = where_compile d conditions (write_formatter d) []
      in if w = [] then Inl (RequiresConditions ''DELETE'')
         else Inr (mk (''DELETE FROM '' @ table @ '' WHERE '' @ w @ returning_text returning) ps))"

section \<open>deleteMany\<close>

definition present_columns :: "string list \<Rightarrow> jsobj \<Rightarrow> string list" where
  "present_columns keyColumns key = filter (\<lambda>c. js_get key c \<noteq> JUndef) keyColumns"

definition group_conditions :: "string list \<Rightarrow> jsobj list \<Rightarrow> jsobj" where
  "group_conditions keyColumns grp =
     fold (\<lambda>c ob. obj_set ob c (JArr (map (\<lambda>k. js_get k c) grp))) (present_columns keyColumns (hd grp)) []"

definition delete_groups :: "string list \<Rightarrow> jsobj list \<Rightarrow> jsobj list list" where
  "delete_groups keyColumns keys = map snd (group_by (\<lambda>k. join '','' (sort (present_columns keyColumns k))) keys)"

definition delete_conditions :: "string list \<Rightarrow> jsobj list \<Rightarrow> jsobj list" where
  "delete_conditions keyColumns keys =
     (if length keyColumns = 1 then [[(hd keyColumns, JArr (map (\<lambda>k. js_get k (hd keyColumns)) keys))]]
      else map (group_conditions keyColumns) (delete_groups keyColumns keys))"

definition compileDeleteMany :: "dialect \<Rightarrow> string \<Rightarrow> string list \<Rightarrow> jsobj list \<Rightarrow> string \<Rightarrow> scp_error + makesql list" where
  "compileDeleteMany d table keyColumns keys returning =
     (if keyColumns = [] then Inl EmptyKeyColumns
      else if keys = [] then Inr []
      else map_r (\<lambda>c. compileDelete d table c returning) (delete_conditions keyColumns keys))"

section \<open>Balance\<close>

lemma mk_idem: "\<not> skip m \<Longrightarrow> mk (sql m) (params m) = m"
  by (cases m) (simp add: mk_def)

lemma builders_balanced:
  "wf_insert opt \<Longrightarrow> builderInsert d opt = Inr m \<Longrightarrow> balanced m"
  "wf_update uopt \<Longrightarrow> builderUpdateMany d uopt = Inr m \<Longrightarrow> balanced m"
  "wf_find fopt \<Longrightarrow> balanced (builderFind d fopt)"
  by (auto simp: builderInsert_def builderUpdateMany_def builderFind_def pg_insert_balanced pg_update_balanced
      pg_find_balanced mysql_insert_balanced mysql_update_balanced mysql_find_balanced sqlite_insert_balanced
      sqlite_update_balanced sqlite_find_balanced split: dialect.splits)

interpretation dialect_builder: sql_builder "builderInsert d" "builderUpdateMany d" "builderFind d" for d
  by unfold_locales (auto intro: builders_balanced)

lemma compileInsert_eq:
  assumes "wf_insert opt" and "builderInsert d opt = Inr m"
  shows "compileInsert d opt = Inr m"
  using builders_balanced(1) [OF assms] by (simp add: compileInsert_def assms(2) mk_idem balanced_def)

lemma compileInsert_balanced: "wf_insert opt \<Longrightarrow> compileInsert d opt = Inr m \<Longrightarrow> balanced m"
  using builders_balanced(1) by (fastforce simp: compileInsert_def bind_r_Inr_iff balanced_def mk_def)

lemma compile_group_balanced: "wf_insert (group_opts opt g) \<Longrightarrow> compile_group d opt g = Inr m \<Longrightarrow> balanced m"
  by (auto simp: compile_group_def Let_def mysqlInsertJson_balanced sqliteInsertJson_balanced compileInsert_balanced
      split: if_splits)

lemma compileUpdateMany_balanced:
  assumes "wf_update opt" and "compileUpdateMany d opt = Inr m"
  shows "balanced m"
proof (cases "d \<noteq> Postgres \<and> \<not> rowsHaveDbToken (upd_records opt) (upd_keys opt @ upd_columns opt)")
  case True
  with assms show ?thesis
    by (auto simp: compileUpdateMany_def mysqlUpdateManyJson_balanced sqliteUpdateManyJson_balanced split: if_splits)
next
  case False
  then obtain b where "builderUpdateMany d opt = Inr b" "m = mk (sql b) (params b)"
    using assms(2) by (auto simp: compileUpdateMany_def bind_r_Inr_iff split: if_splits)
  with builders_balanced(2) [OF assms(1)] show ?thesis by (auto simp: balanced_def mk_def)
qed

lemma wf_write_formatter [simp]: "wf_formatter (write_formatter d)"
  by (simp add: write_formatter_def)

interpretation set_cell: sql_emitter "set_cell d casts"
    "\<lambda>cv. casts_ok casts \<and> qcount (fst cv) = 0 \<and> wf_val (snd cv)" for d casts
proof
  have pg: "wf_formatter (Some pgCastFormatter)"
    using wf_formatter_for [of Postgres] by (simp add: formatterFor_def)
  show "set_cell d casts cv ps = (fst (set_cell d casts cv []), ps @ snd (set_cell d casts cv []))" for cv ps
    by (cases cv; cases "snd cv")
      (simp_all add: set_cell_def case_prod_beta Let_def tok_compile_append [of _ "[]" "write_formatter d" ps])
  show "casts_ok casts \<and> qcount (fst cv) = 0 \<and> wf_val (snd cv) \<Longrightarrow>
      qcount (fst (set_cell d casts cv [])) = length (snd (set_cell d casts cv []))" for cv
    by (cases cv; cases "snd cv")
      (auto simp: set_cell_def wf_val_def casts_ok_def case_prod_beta Let_def tok_compile_arity_ps write_formatter_def
        pg formatterFor_def pgCastFormatter_def split: option.splits)
qed

definition wf_conditions :: "jsobj \<Rightarrow> bool" where
  "wf_conditions cs \<longleftrightarrow> (\<forall>kv \<in> set cs. wf_entry kv)"

lemma compileDelete_balanced:
  assumes "wf_conditions conditions" and "qcount table = 0" and "qcount returning = 0"
    and "compileDelete d table conditions returning = Inr m"
  shows "balanced m"
  using assms where_compile_arity [of conditions "write_formatter d" d]
  by (auto simp: compileDelete_def case_prod_beta Let_def wf_conditions_def arity_simps split: if_splits)

lemma compileUpdateSingle_balanced:
  assumes "wf_conditions conditions" and "qcount table = 0" and "qcount returning = 0"
    and "casts_ok casts" and "names_ok (map fst vals)" and "wf_record vals"
    and "compileUpdateSingle d table vals conditions casts returning = Inr m"
  shows "balanced m"
proof -
  have "qcount (join '', '' (fst (emit_list (set_cell d casts) vals []))) = length (snd (emit_list (set_cell d casts) vals []))"
    using assms by (intro set_cell.emit_join_arity) (auto simp: names_ok_def wf_record_def)
  then show ?thesis
    using assms where_compile_arity [of conditions "write_formatter d" d]
    by (auto simp: compileUpdateSingle_def case_prod_beta Let_def wf_conditions_def arity_simps
        where_compile_append [of d conditions "write_formatter d" "snd (emit_list (set_cell d casts) vals [])"]
        split: if_splits)
qed

section \<open>Properties\<close>

definition plain_columns :: "jsobj \<Rightarrow> bool" where
  "plain_columns r \<longleftrightarrow> (\<forall>c \<in> set (map fst r). c \<noteq> [] \<and> CHR '','' \<notin> set c \<and> qcount c = 0)"

definition parallel_raw :: "jsobj list \<Rightarrow> jsobj list option \<Rightarrow> bool" where
  "parallel_raw records raw \<longleftrightarrow> (case raw of None \<Rightarrow> True | Some rs \<Rightarrow> length rs = length records)"

lemma record_columns_names: "plain_columns r \<Longrightarrow> c \<in> set (record_columns r) \<Longrightarrow> c \<noteq> [] \<and> CHR '','' \<notin> set c \<and> qcount c = 0"
  by (auto simp: plain_columns_def record_columns_def)

lemma with_raw_records: "parallel_raw records raw \<Longrightarrow> map fst (with_raw records raw) = records"
  by (auto simp: with_raw_def parallel_raw_def comp_def split: option.splits)

lemma pattern_key_inj:
  assumes "plain_columns r" "plain_columns r'"
    and "join '','' (record_columns r) = join '','' (record_columns r')"
  shows "record_columns r = record_columns r'"
proof (rule join_inj)
  show "\<forall>x \<in> set (record_columns r) \<union> set (record_columns r'). CHR '','' \<notin> set x \<and> x \<noteq> []"
    using assms(1,2) record_columns_names by blast
qed (rule assms(3))

lemma insert_groups_spec:
  assumes plain: "\<forall>r \<in> set records. plain_columns r" and raw: "parallel_raw records raw"
    and g: "(cols, items) \<in> set (insert_groups records raw)"
  shows "items \<noteq> [] \<and> items = filter (\<lambda>rr. record_columns (fst rr) = cols) (with_raw records raw)"
proof (cases "length records = 1")
  case True
  then obtain r where r: "records = [r]" by (cases records) auto
  with raw obtain r' where r': "with_raw records raw = [(r, r')]"
    by (cases raw; cases "the raw") (auto simp: with_raw_def parallel_raw_def)
  with g r True show ?thesis by (auto simp: insert_groups_def)
next
  case False
  let ?key = "\<lambda>rr. join '','' (record_columns (fst rr))" and ?xs = "with_raw records raw"
  have plain': "plain_columns (fst rr)" if "rr \<in> set ?xs" for rr
    using that plain with_raw_records [OF raw] by (metis image_eqI list.set_map)
  obtain k where k: "(k, items) \<in> set (group_by ?key ?xs)" and cols: "cols = record_columns (fst (hd items))"
    using g False by (auto simp: insert_groups_def)
  from group_by_groups [OF k] have items: "items = filter (\<lambda>rr. ?key rr = k) ?xs" and ne: "items \<noteq> []" by auto
  then have h: "hd items \<in> set ?xs" "?key (hd items) = k"
    using hd_in_set [OF ne] by auto
  have "(?key rr = k) = (record_columns (fst rr) = cols)" if "rr \<in> set ?xs" for rr
    using pattern_key_inj [OF plain' [OF that] plain' [OF h(1)]] h(2) by (auto simp: cols)
  then have "items = filter (\<lambda>rr. record_columns (fst rr) = cols) ?xs"
    by (subst items) (rule filter_cong, simp_all)
  with ne show ?thesis by simp
qed

lemma insert_groups_complete:
  assumes "rr \<in> set (with_raw records raw)" and "parallel_raw records raw" and "\<forall>r \<in> set records. plain_columns r"
  shows "record_columns (fst rr) \<in> set (map fst (insert_groups records raw))"
proof (cases "length records = 1")
  case True
  have "fst rr \<in> set records" using assms(1,2) with_raw_records by (metis image_eqI list.set_map)
  with True show ?thesis by (cases records) (auto simp: insert_groups_def)
next
  case False
  obtain items where "(join '','' (record_columns (fst rr)), items) \<in> set (group_by (\<lambda>rr. join '','' (record_columns (fst rr))) (with_raw records raw))"
    and mem: "rr \<in> set items"
    using group_by_mem [OF assms(1), of "\<lambda>rr. join '','' (record_columns (fst rr))"] by auto
  then have "(record_columns (fst (hd items)), items) \<in> set (insert_groups records raw)"
    using False by (force simp: insert_groups_def)
  moreover from insert_groups_spec [OF assms(3,2) this] mem
  have "record_columns (fst rr) = record_columns (fst (hd items))" by (metis (mono_tags, lifting) filter_is_subset mem_Collect_eq set_filter)
  ultimately show ?thesis by force
qed

text \<open>
  \<open>createMany\<close> partitions its records: every record belongs to the group of its own sent columns, a
  group holds exactly the records with its columns, in their order, and no group is empty.
\<close>

theorem create_many_partitions:
  assumes "\<forall>r \<in> set records. plain_columns r" and "parallel_raw records raw"
  shows "(\<forall>(cols, items) \<in> set (insert_groups records raw).
      items \<noteq> [] \<and> map fst items = filter (\<lambda>r. record_columns r = cols) records)
    \<and> set (map fst (insert_groups records raw)) = record_columns ` set records"
proof -
  have "map fst items = filter (\<lambda>r. record_columns r = cols) records \<and> items \<noteq> []"
    if "(cols, items) \<in> set (insert_groups records raw)" for cols items
  proof -
    note spec = insert_groups_spec [OF assms that]
    then have "map fst items = map fst (filter (\<lambda>rr. record_columns (fst rr) = cols) (with_raw records raw))" by simp
    also have "\<dots> = filter (\<lambda>r. record_columns r = cols) (map fst (with_raw records raw))"
      by (simp add: filter_map comp_def)
    finally show ?thesis using spec [THEN conjunct1] with_raw_records [OF assms(2)] by simp
  qed
  note groups = this
  have "record_columns r \<in> set (map fst (insert_groups records raw))" if "r \<in> set records" for r
  proof -
    from that with_raw_records [OF assms(2)] obtain rr where "rr \<in> set (with_raw records raw)" "r = fst rr"
      by (metis (no_types, lifting) image_iff list.set_map)
    then show ?thesis using insert_groups_complete assms by blast
  qed
  moreover have "cols \<in> record_columns ` set records" if g: "(cols, items) \<in> set (insert_groups records raw)" for cols items
  proof -
    from groups [OF g] obtain r where "r \<in> set (map fst items)" by (cases items) auto
    with groups [OF g] have "r \<in> set (filter (\<lambda>r. record_columns r = cols) records)" by simp
    then show ?thesis by auto
  qed
  ultimately show ?thesis using groups by force
qed

theorem create_many_partitions_witness:
  "set (map fst (insert_groups [[(''b'', JInt 1), (''a'', JInt 2)], [(''a'', JInt 3)], [(''a'', JInt 4), (''b'', JNull)]] None))
    = {[''a'', ''b''], [''a'']}"
  by (subst create_many_partitions [THEN conjunct2])
    (auto simp: plain_columns_def parallel_raw_def record_columns_def is_sent_def js_get_def)

text \<open>
  Every write is refused without a WHERE clause: the single UPDATE and DELETE either fail because their
  conditions compile to nothing, or carry the compiled, non-empty clause.
\<close>

theorem writes_require_conditions:
  "(case compileDelete d table conditions returning of
      Inl e \<Rightarrow> e = RequiresConditions ''DELETE'' \<and> fst (where_compile d conditions (write_formatter d) []) = []
    | Inr m \<Rightarrow> \<exists>w. w \<noteq> [] \<and> sql m = ''DELETE FROM '' @ table @ '' WHERE '' @ w @ returning_text returning)
   \<and> (case compileUpdateSingle d table vals conditions casts returning of
      Inl e \<Rightarrow> e = RequiresConditions ''UPDATE'' \<and> fst (where_compile d conditions (write_formatter d) []) = []
    | Inr m \<Rightarrow> \<exists>sets w. w \<noteq> [] \<and> sql m = ''UPDATE '' @ table @ '' SET '' @ sets @ '' WHERE '' @ w @ returning_text returning)"
  using where_compile_append [of d conditions "write_formatter d" "snd (emit_list (set_cell d casts) vals [])"]
  by (auto simp: compileDelete_def compileUpdateSingle_def case_prod_beta Let_def mk_def)

text \<open>
  The SQLite batch INSERT is a static text: whatever the rows, it is the same statement with the one
  JSON parameter, and the batch UPDATE repeats that parameter once per SET column and once for the WHERE.
\<close>

theorem sqlite_batch_is_static:
  "sql (sqliteInsertJson (opt\<lparr>ins_records := rows\<rparr>)) = sql (sqliteInsertJson opt)
   \<and> length (params (sqliteInsertJson opt)) = 1
   \<and> sql (sqliteUpdateManyJson (uopt\<lparr>upd_records := rows\<rparr>)) = sql (sqliteUpdateManyJson uopt)
   \<and> params (sqliteUpdateManyJson uopt)
      = replicate (length (upd_columns uopt) + 1) (JStr (update_payload Sqlite uopt))"
proof -
  have "fst (emit_list (sqlite_set_json (uopt\<lparr>upd_records := rows\<rparr>)) cs ps) = fst (emit_list (sqlite_set_json uopt) cs ps')"
    for cs ps ps'
    by (induction cs arbitrary: ps ps') (simp_all add: case_prod_beta Let_def sqlite_set_json_def)
  then have "fst (emit_list (sqlite_set_json (uopt\<lparr>upd_records := rows\<rparr>)) cs []) = fst (emit_list (sqlite_set_json uopt) cs [])"
    for cs .
  then show ?thesis
    using sqliteUpdateManyJson_params [of uopt]
    by (simp add: sqliteInsertJson_def sqliteUpdateManyJson_def Let_def case_prod_beta mk_def)
qed

section \<open>What a batch DELETE matches\<close>

text \<open>The rows a conjunction of membership conditions matches.\<close>

definition row_matches :: "jsobj \<Rightarrow> jsobj \<Rightarrow> bool" where
  "row_matches conditions row \<longleftrightarrow>
     (\<forall>cv \<in> set conditions. case snd cv of JArr vs \<Rightarrow> js_get row (fst cv) \<in> set vs | v \<Rightarrow> js_get row (fst cv) = v)"

lemma group_conditions_eq:
  "distinct keyColumns \<Longrightarrow> group_conditions keyColumns grp
    = map (\<lambda>c. (c, JArr (map (\<lambda>k. js_get k c) grp))) (present_columns keyColumns (hd grp))"
  by (simp add: group_conditions_def present_columns_def fold_obj_set)

lemma delete_groups_complete:
  assumes "keys \<noteq> []" and "\<forall>k \<in> set keys. present_columns keyColumns k = keyColumns"
  shows "delete_groups keyColumns keys = [keys]"
proof -
  let ?k = "join '','' (sort keyColumns)"
  have m: "map (\<lambda>k. join '','' (sort (present_columns keyColumns k))) keys = map (\<lambda>_. ?k) keys"
    using assms(2) by (intro map_cong) auto
  have d: "dedup (map (\<lambda>_. ?k) xs) = (if xs = [] then [] else [?k])" for xs :: "jsobj list"
    by (induction xs) auto
  have "filter (\<lambda>k. join '','' (sort (present_columns keyColumns k)) = ?k) keys = keys"
    using assms(2) by (intro filter_True) auto
  then show ?thesis using assms(1) by (simp add: delete_groups_def group_by_eq m d)
qed

text \<open>
  The WHERE clause of \<open>deleteMany\<close> on complete keys is one membership test per key column: it matches
  every requested row, and also every other combination of the requested column values.
\<close>

theorem delete_many_matches_combinations:
  assumes "keys \<noteq> []" and "distinct keyColumns" and "keyColumns \<noteq> []"
    and "\<forall>k \<in> set keys. present_columns keyColumns k = keyColumns"
  shows "((\<exists>cs \<in> set (delete_conditions keyColumns keys). row_matches cs row)
      \<longleftrightarrow> (\<forall>c \<in> set keyColumns. \<exists>k \<in> set keys. js_get row c = js_get k c))
    \<and> (row \<in> set keys \<longrightarrow> (\<exists>cs \<in> set (delete_conditions keyColumns keys). row_matches cs row))"
proof -
  have iff: "(\<exists>cs \<in> set (delete_conditions keyColumns keys). row_matches cs row)
      \<longleftrightarrow> (\<forall>c \<in> set keyColumns. \<exists>k \<in> set keys. js_get row c = js_get k c)"
  proof (cases "length keyColumns = 1")
    case True
    then obtain c where "keyColumns = [c]" by (cases keyColumns) auto
    then show ?thesis by (auto simp: delete_conditions_def row_matches_def)
  next
    case False
    have "present_columns keyColumns (hd keys) = keyColumns" using assms(1,4) by simp
    with False assms show ?thesis
      by (auto simp: delete_conditions_def delete_groups_complete group_conditions_eq row_matches_def)
  qed
  then show ?thesis by blast
qed

theorem delete_many_matches_combinations_witness:
  "\<exists>cs \<in> set (delete_conditions [''a'', ''b''] [[(''a'', JInt 1), (''b'', JInt 10)], [(''a'', JInt 2), (''b'', JInt 20)]]).
     row_matches cs [(''a'', JInt 1), (''b'', JInt 20)]"
  by (subst delete_many_matches_combinations [THEN conjunct1]) (simp_all add: present_columns_def js_get_def)

text \<open>The statement of the example: the row \<open>(1, 20)\<close>, which was not requested, is deleted too.\<close>

lemma composite_delete_overreaches:
  "map_sum id (map (\<lambda>m. (sql m, params m))) (compileDeleteMany Postgres ''t'' [''a'', ''b'']
      [[(''a'', JInt 1), (''b'', JInt 10)], [(''a'', JInt 2), (''b'', JInt 20)]] [])
    = Inr [(''DELETE FROM t WHERE a IN (?, ?) AND b IN (?, ?)'', [JInt 1, JInt 2, JInt 10, JInt 20])]"
  by code_simp

text \<open>
  Without a formatter a cast falls back to the PostgreSQL text, so the single writes leak it to MySQL.
\<close>

lemma write_cast_ignores_dialect:
  "map_sum id sql (compileDelete Mysql ''t'' [(''id'', JTok (dbUuid ''u'' ''=''))] []) = Inr ''DELETE FROM t WHERE id = ?::uuid''"
  "sql (compileWhere [(''id'', JTok (dbUuid ''u'' ''=''))] Mysql) = ''id = ?''"
  by code_simp+

text \<open>The type of a JSON_TABLE column is that of the first row: a later fraction meets an integer column.\<close>

lemma first_row_decides_type:
  "fst (mysqlJsonTableColumn ''x'' [[(''x'', JInt 1)], [(''x'', JFrac ''1.5'')]]) = ''BIGINT''"
  by code_simp

end
