(* ===== verification/CompileRelation.thy ===== *)
theory CompileRelation
  imports CompileCrud
begin

text \<open>
  \<open>src/scp/makesql/compile-relation.ts\<close>: the batch loads of a relation, single and composite key, with
  and without a per-parent limit, the PostgreSQL element types and the deferred array cast.
\<close>

section \<open>Array types\<close>

text \<open>\<open>typeof v === 'number'\<close> and \<open>Number.isInteger(v)\<close>.\<close>

definition is_number :: "jsval \<Rightarrow> bool" where
  "is_number v = (case v of JInt _ \<Rightarrow> True | JFrac _ \<Rightarrow> True | JNonFin _ \<Rightarrow> True | _ \<Rightarrow> False)"

definition is_integer :: "jsval \<Rightarrow> bool" where
  "is_integer v = (case v of JInt _ \<Rightarrow> True | _ \<Rightarrow> False)"

definition inferPgElementType :: "jsval list \<Rightarrow> string" where
  "inferPgElementType vals = (case vals of
      [] \<Rightarrow> ''text''
    | sample # _ \<Rightarrow>
        if is_number sample then (if list_all is_integer vals then ''int'' else ''numeric'')
        else (case sample of JBig _ \<Rightarrow> ''bigint'' | JBool _ \<Rightarrow> ''boolean'' | JDate _ _ \<Rightarrow> ''timestamp'' | _ \<Rightarrow> ''text''))"

text \<open>A missing cast is the empty text: the code only tests it for truth.\<close>

definition inferPgArrayType :: "jsval list \<Rightarrow> string \<Rightarrow> string" where
  "inferPgArrayType vals sqlCast = (if sqlCast \<noteq> [] then sqlCast @ ''[]'' else inferPgElementType vals @ ''[]'')"

definition pgArrayCastType :: "jsval list \<Rightarrow> string \<Rightarrow> bool \<Rightarrow> string" where
  "pgArrayCastType vals sqlCast defer_cast =
     (if sqlCast \<noteq> [] then sqlCast @ ''[]'' else if defer_cast then PG_ARRAY_CAST_TOKEN else inferPgArrayType vals [])"

text \<open>The replacement of the first occurrence of a text.\<close>

fun replace_sub :: "string \<Rightarrow> string \<Rightarrow> string \<Rightarrow> string" where
  "replace_sub p r [] = (if p = [] then r else [])"
| "replace_sub p r (c # cs) = (if starts_with p (c # cs) then r @ drop (length p) (c # cs) else c # replace_sub p r cs)"

definition resolvePgArrayCast :: "string \<Rightarrow> jsval list \<Rightarrow> string" where
  "resolvePgArrayCast s vals = replace_sub PG_ARRAY_CAST_TOKEN (inferPgArrayType vals []) s"

section \<open>Options\<close>

record relation_base =
  rdialect :: dialect
  rtable :: string
  rselect :: string
  rconditions :: jsobj
  rorder :: string
  rcasts :: "string \<Rightarrow> string option"
  rdefer :: bool
  rkeyTypes :: "string list"

definition cast_of :: "relation_base \<Rightarrow> string \<Rightarrow> string" where
  "cast_of b c = (case rcasts b c of None \<Rightarrow> [] | Some t \<Rightarrow> t)"

definition run_select :: "select_desc \<Rightarrow> scp_error + makesql" where
  "run_select desc = bind_r (compileSelect desc) (\<lambda>b. Inr (bundle_makesql b))"

text \<open>The SELECT of the child table; a missing order is the empty text.\<close>

definition child_select :: "relation_base \<Rightarrow> string \<Rightarrow> jsobj \<Rightarrow> select_desc" where
  "child_select b sel conditions =
     (plain_select (rdialect b) (rtable b))\<lparr>select := sel, sconditions := conditions,
        order := (if rorder b = [] then NoOrder else OrderText (rorder b))\<rparr>"

definition qual_col :: "string \<Rightarrow> string \<Rightarrow> string" where
  "qual_col table key = table @ ''.'' @ key"

definition raw_entry :: "string \<Rightarrow> jsval list \<Rightarrow> string \<times> jsval" where
  "raw_entry text vals = (''__raw__'', JArr [JStr text, JArr vals])"

text \<open>The window of the MySQL and SQLite forms, and the filter on its row number.\<close>

definition ranked_cte :: "relation_base \<Rightarrow> string list \<Rightarrow> jsobj \<Rightarrow> select_desc" where
  "ranked_cte b keys conditions =
     (plain_select (rdialect b) (rtable b))\<lparr>select := ''*, ROW_NUMBER() OVER (PARTITION BY '' @ join '', '' keys
        @ '' ORDER BY '' @ (if rorder b \<noteq> [] then rorder b else join '', '' keys) @ '') AS _rn'', sconditions := conditions\<rparr>"

definition ranked_select :: "relation_base \<Rightarrow> int \<Rightarrow> makesql \<Rightarrow> select_desc" where
  "ranked_select b lim m =
     (plain_select (rdialect b) ''ranked'')\<lparr>sconditions := [(''__raw__'', JStr (''_rn <= '' @ show_int lim))],
        scte := Some \<lparr>cteName = ''ranked'', cteSql = sql m, cteParams = params m\<rparr>\<rparr>"

definition ranked :: "relation_base \<Rightarrow> string list \<Rightarrow> jsobj \<Rightarrow> int \<Rightarrow> scp_error + makesql" where
  "ranked b keys conditions lim =
     bind_r (run_select (ranked_cte b keys conditions)) (\<lambda>m. run_select (ranked_select b lim m))"

text \<open>The LATERAL of the PostgreSQL forms: the key rows, then the limited child SELECT per key row.\<close>

definition lateral :: "relation_base \<Rightarrow> string \<Rightarrow> string \<Rightarrow> jsval list \<Rightarrow> int \<Rightarrow> scp_error + makesql" where
  "lateral b keyRows keyPredicate keyParams lim =
     bind_r (run_select ((child_select b [] (obj_spread [(''__raw__'', JStr keyPredicate)] (rconditions b)))
               \<lparr>limit := Some (Static lim)\<rparr>))
       (\<lambda>inner. Inr (mk (''SELECT '' @ rtable b @ ''.* FROM '' @ keyRows @ '' CROSS JOIN LATERAL ('' @ sql inner @ '') '' @ rtable b)
                       (keyParams @ params inner)))"

section \<open>Single key\<close>

definition compileSingleKeyUnlimited :: "relation_base \<Rightarrow> string \<Rightarrow> jsval list \<Rightarrow> scp_error + makesql" where
  "compileSingleKeyUnlimited b key vals =
     (if rdialect b = Postgres then
        (let pgType = pgArrayCastType vals (cast_of b key) (rdefer b)
         in run_select (child_select b (rselect b) (obj_spread
              [raw_entry (qual_col (rtable b) key @ '' = ANY(?::'' @ pgType @ '')'') [JArr vals]] (rconditions b))))
      else run_select (child_select b (rselect b) (obj_set (rconditions b) key (JArr vals))))"

definition compileSingleKeyLimited :: "relation_base \<Rightarrow> string \<Rightarrow> jsval list \<Rightarrow> int \<Rightarrow> scp_error + makesql" where
  "compileSingleKeyLimited b key vals lim =
     (if rdialect b = Postgres then
        (let pgType = pgArrayCastType vals (cast_of b key) (rdefer b)
         in lateral b (''unnest(?::'' @ pgType @ '') AS _keys(key)'') (qual_col (rtable b) key @ '' = _keys.key'') [JArr vals] lim)
      else ranked b [key] (obj_spread [(key, JArr vals)] (rconditions b)) lim)"

section \<open>Composite key, the value-expanding forms\<close>

definition transpose_keys :: "string list \<Rightarrow> jsval list list \<Rightarrow> jsval list list" where
  "transpose_keys keys tuples = map (\<lambda>i. map (\<lambda>t. js_nth t i) tuples) [0..<length keys]"

definition unnest_params :: "relation_base \<Rightarrow> string list \<Rightarrow> jsval list list \<Rightarrow> string" where
  "unnest_params b keys columnArrays =
     join '', '' (map_index (\<lambda>i arr. ''?::'' @ inferPgArrayType arr (cast_of b (keys ! i))) columnArrays)"

definition key_tuples_text :: "string list \<Rightarrow> jsval list list \<Rightarrow> string" where
  "key_tuples_text keys tuples =
     ''('' @ join '', '' keys @ '') IN ('' @ join '', '' (map (\<lambda>_. ''('' @ join '', '' (map (\<lambda>_. ''?'') keys) @ '')'') tuples) @ '')''"

definition unnest_column :: "string \<Rightarrow> string \<Rightarrow> string" where
  "unnest_column table key = ''_unnest_'' @ table @ ''_'' @ key"

definition compileCompositeKeyUnlimited :: "relation_base \<Rightarrow> string list \<Rightarrow> jsval list list \<Rightarrow> scp_error + makesql" where
  "compileCompositeKeyUnlimited b keys tuples =
     (if rdialect b = Postgres then
        (let arrays = transpose_keys keys tuples; alias = ''_unnest_'' @ rtable b;
             ons = join '' AND '' (map (\<lambda>k. qual_col (rtable b) k @ '' = '' @ alias @ ''.'' @ unnest_column (rtable b) k) keys);
             joinClause = ''JOIN unnest('' @ unnest_params b keys arrays @ '') AS '' @ alias @ ''(''
               @ join '', '' (map (unnest_column (rtable b)) keys) @ '') ON '' @ ons
         in run_select ((child_select b (rselect b) (rconditions b))\<lparr>joinText := joinClause, joinParams := map JArr arrays\<rparr>))
      else run_select (child_select b (rselect b)
             (obj_spread (rconditions b) [raw_entry (key_tuples_text keys tuples) (concat tuples)])))"

definition key_rows_predicate :: "string \<Rightarrow> string list \<Rightarrow> string" where
  "key_rows_predicate table keys =
     join '' AND '' (map_index (\<lambda>i k. qual_col table k @ '' = _keys.key'' @ show_nat i) keys)"

definition compileCompositeKeyLimited :: "relation_base \<Rightarrow> string list \<Rightarrow> jsval list list \<Rightarrow> int \<Rightarrow> scp_error + makesql" where
  "compileCompositeKeyLimited b keys tuples lim =
     (if rdialect b = Postgres then
        (let arrays = transpose_keys keys tuples
         in lateral b (''unnest('' @ unnest_params b keys arrays @ '') AS _keys(''
              @ join '', '' (map_index (\<lambda>i _. ''key'' @ show_nat i) keys) @ '')'')
              (key_rows_predicate (rtable b) keys) (map JArr arrays) lim)
      else ranked b keys (obj_spread [raw_entry (key_tuples_text keys tuples) (concat tuples)] (rconditions b)) lim)"

section \<open>Composite key, the static forms\<close>

definition PLACEHOLDER_TUPLES :: jsval where
  "PLACEHOLDER_TUPLES = JArr [JArr [JNull]]"

fun key_row_columns :: "string \<Rightarrow> string list \<Rightarrow> nat \<Rightarrow> string list \<Rightarrow> scp_error + string list" where
  "key_row_columns table tys i [] = Inr []"
| "key_row_columns table tys i (key # keys) =
     (let ty = (if i < length tys then tys ! i else []) in
      if ty = [] then Inl (UndeclaredKeyType table key)
      else bind_r (key_row_columns table tys (Suc i) keys) (\<lambda>cols.
        Inr ((''(_t->>'' @ show_nat i @ '')::'' @ ty @ '' AS key'' @ show_nat i) # cols)))"

definition pgCompositeKeyRows :: "relation_base \<Rightarrow> string list \<Rightarrow> scp_error + string" where
  "pgCompositeKeyRows b keys =
     bind_r (key_row_columns (rtable b) (rkeyTypes b) 0 keys) (\<lambda>cols.
       Inr (''(SELECT '' @ join '', '' cols @ '' FROM json_array_elements(?::json) AS _t) AS _keys''))"

definition compileCompositeKeyStaticUnlimited :: "relation_base \<Rightarrow> string list \<Rightarrow> scp_error + makesql" where
  "compileCompositeKeyStaticUnlimited b keys =
     (if rdialect b = Postgres then
        bind_r (pgCompositeKeyRows b keys) (\<lambda>keyRows.
          run_select ((child_select b (rselect b) (rconditions b))
            \<lparr>joinText := ''JOIN '' @ keyRows @ '' ON '' @ key_rows_predicate (rtable b) keys, joinParams := [PLACEHOLDER_TUPLES]\<rparr>))
      else run_select (child_select b (rselect b)
             (obj_spread (rconditions b)
               [(''__raw__'', JArr [JStr (tupleInPredicate (rdialect b) (rtable b) keys None), PLACEHOLDER_TUPLES])])))"

definition compileCompositeKeyStaticLimited :: "relation_base \<Rightarrow> string list \<Rightarrow> int \<Rightarrow> scp_error + makesql" where
  "compileCompositeKeyStaticLimited b keys lim =
     (if rdialect b = Postgres then
        bind_r (pgCompositeKeyRows b keys) (\<lambda>keyRows.
          lateral b keyRows (key_rows_predicate (rtable b) keys) [PLACEHOLDER_TUPLES] lim)
      else ranked b keys (obj_spread
             [(''__raw__'', JArr [JStr (tupleInPredicate (rdialect b) (rtable b) keys None), PLACEHOLDER_TUPLES])] (rconditions b)) lim)"

section \<open>Balance\<close>

definition wf_base :: "relation_base \<Rightarrow> bool" where
  "wf_base b \<longleftrightarrow> qcount (rtable b) = 0 \<and> qcount (rselect b) = 0 \<and> wf_conditions (rconditions b)
     \<and> qcount (rorder b) = 0 \<and> casts_ok (rcasts b) \<and> names_ok (rkeyTypes b)"

lemma inferPgElementType_qfree [simp]: "qcount (inferPgElementType vals) = 0"
  by (auto simp: inferPgElementType_def split: list.splits jsval.splits)

lemma cast_of_qfree: "casts_ok (rcasts b) \<Longrightarrow> qcount (cast_of b c) = 0"
  by (auto simp: cast_of_def casts_ok_def split: option.splits)

lemma array_type_qfree:
  "qcount c = 0 \<Longrightarrow> qcount (inferPgArrayType vals c) = 0"
  "qcount c = 0 \<Longrightarrow> qcount (pgArrayCastType vals c dfr) = 0"
  by (auto simp: inferPgArrayType_def pgArrayCastType_def PG_ARRAY_CAST_TOKEN_def)

lemma wf_conditions_set: "wf_conditions ob \<Longrightarrow> wf_entry kv \<Longrightarrow> wf_conditions (obj_set ob (fst kv) (snd kv))"
  using set_obj_set [of ob "fst kv" "snd kv"] by (auto simp: wf_conditions_def)

lemma wf_conditions_spread: "wf_conditions o1 \<Longrightarrow> wf_conditions o2 \<Longrightarrow> wf_conditions (obj_spread o1 o2)"
proof (induction o2 arbitrary: o1)
  case (Cons kv o2)
  from Cons.prems(2) have o2: "wf_conditions o2" and "wf_entry kv" unfolding wf_conditions_def by auto
  with Cons.prems(1) have "wf_conditions (obj_set o1 (fst kv) (snd kv))" by (intro wf_conditions_set)
  from Cons.IH [OF this o2] show ?case by (simp only: obj_spread_def fold_simps comp_apply case_prod_beta)
qed (simp add: obj_spread_def)

lemma wf_raw_entry: "qcount text = length vals \<Longrightarrow> wf_entry (raw_entry text vals)"
  by (simp add: raw_entry_def raw_sql_params_def wf_raw_def)

lemma wf_raw_pair: "qcount text = length vals \<Longrightarrow> wf_entry (''__raw__'', JArr [JStr text, JArr vals])"
  by (simp add: raw_sql_params_def wf_raw_def)

lemma wf_raw_text: "qcount text = 0 \<Longrightarrow> wf_entry (''__raw__'', JStr text)"
  by (simp add: wf_raw_def)

lemma wf_key_entry: "qcount key = 0 \<Longrightarrow> key \<noteq> ''__or__'' \<Longrightarrow> key \<noteq> ''__raw__'' \<Longrightarrow> wf_entry (key, JArr vals)"
  by (simp add: wf_plain_def)

lemma wf_conditions_single: "wf_entry kv \<Longrightarrow> wf_conditions [kv]"
  by (simp add: wf_conditions_def)

lemma run_select_balanced: "wf_select desc \<Longrightarrow> run_select desc = Inr m \<Longrightarrow> balanced m"
  using compileSelect_balanced [of desc]
  by (auto simp: run_select_def bind_r_Inr_iff bundle_makesql_def bundle_sql_def bundle_params_def)

lemma run_select_total: "\<not> forUpdate desc \<Longrightarrow> \<exists>m. run_select desc = Inr m"
  using compileSelect_total [of desc] by (auto simp: run_select_def)

lemma wf_child_select:
  "wf_base b \<Longrightarrow> wf_conditions cs \<Longrightarrow> qcount sel = 0 \<Longrightarrow> wf_select (child_select b sel cs)"
  by (simp add: wf_base_def child_select_def plain_select_def wf_select_def wf_conditions_def)

lemma wf_select_limit: "wf_select desc \<Longrightarrow> wf_select (desc\<lparr>limit := n\<rparr>)"
  by (simp add: wf_select_def)

lemma lateral_balanced:
  assumes "wf_base b" and "qcount keyRows = length keyParams" and "qcount pred = 0"
    and "lateral b keyRows pred keyParams lim = Inr m"
  shows "balanced m"
proof -
  let ?d = "(child_select b [] (obj_spread [(''__raw__'', JStr pred)] (rconditions b)))\<lparr>limit := Some (Static lim)\<rparr>"
  have "wf_conditions (obj_spread [(''__raw__'', JStr pred)] (rconditions b))"
    using assms(1,3) by (intro wf_conditions_spread wf_conditions_single wf_raw_text) (simp_all add: wf_base_def)
  then have wf_d: "wf_select ?d"
    using wf_select_limit [OF wf_child_select [OF assms(1)]] by simp
  obtain inner where "run_select ?d = Inr inner"
    and m: "m = mk (''SELECT '' @ rtable b @ ''.* FROM '' @ keyRows @ '' CROSS JOIN LATERAL ('' @ sql inner @ '') '' @ rtable b)
        (keyParams @ params inner)"
    using assms(4) by (auto simp: lateral_def bind_r_Inr_iff)
  with run_select_balanced [OF wf_d] have "qcount (sql inner) = length (params inner)" by (simp add: balanced_def)
  with assms(1,2) show ?thesis by (simp add: m wf_base_def)
qed

lemma ranked_balanced:
  assumes "wf_base b" and "names_ok keys" and "wf_conditions cs" and "ranked b keys cs lim = Inr m"
  shows "balanced m"
proof -
  have "wf_select (ranked_cte b keys cs)"
    using assms(1-3) by (simp add: wf_base_def ranked_cte_def plain_select_def wf_select_def wf_conditions_def arity_simps)
  moreover obtain cte where "run_select (ranked_cte b keys cs) = Inr cte" and m: "run_select (ranked_select b lim cte) = Inr m"
    using assms(4) by (auto simp: ranked_def bind_r_Inr_iff)
  ultimately have "balanced cte" using run_select_balanced by blast
  moreover have "wf_entry (''__raw__'', JStr (''_rn <= '' @ show_int lim))"
    by (rule wf_raw_text) simp
  ultimately have "wf_select (ranked_select b lim cte)"
    by (simp add: ranked_select_def plain_select_def wf_select_def balanced_def del: wf_entry.simps)
  from run_select_balanced [OF this m] show ?thesis .
qed

lemma qcount_map_index: "(\<And>i x. x \<in> set xs \<Longrightarrow> qcount (f i x) = 0) \<Longrightarrow> qcount sep = 0 \<Longrightarrow> qcount (join sep (map_index f xs)) = 0"
  by (intro qcount_join_names) (auto simp: map_index_def)

lemma key_rows_predicate_qfree: "qcount table = 0 \<Longrightarrow> names_ok keys \<Longrightarrow> qcount (key_rows_predicate table keys) = 0"
  unfolding key_rows_predicate_def by (rule qcount_map_index) (auto simp: names_ok_def qual_col_def)

lemma key_row_columns_qfree:
  "key_row_columns table tys i keys = Inr cols \<Longrightarrow> names_ok tys \<Longrightarrow> qcount (join '', '' cols) = 0"
proof (induction keys arbitrary: i cols)
  case (Cons key keys)
  obtain rest where "key_row_columns table tys (Suc i) keys = Inr rest" and i: "i < length tys"
    and "cols = (''(_t->>'' @ show_nat i @ '')::'' @ tys ! i @ '' AS key'' @ show_nat i) # rest"
    using Cons.prems(1) by (auto simp: Let_def bind_r_Inr_iff split: if_splits)
  with Cons.IH Cons.prems(2) nth_mem [OF i] show ?case by (auto simp: join_Cons names_ok_def)
qed simp

lemma pgCompositeKeyRows_q: "wf_base b \<Longrightarrow> pgCompositeKeyRows b keys = Inr s \<Longrightarrow> qcount s = 1"
  by (auto simp: pgCompositeKeyRows_def bind_r_Inr_iff key_row_columns_qfree wf_base_def)

lemma tuple_raw_wf:
  "d \<noteq> Postgres \<Longrightarrow> qcount table = 0 \<Longrightarrow> names_ok keys \<Longrightarrow>
     wf_entry (''__raw__'', JArr [JStr (tupleInPredicate d table keys None), PLACEHOLDER_TUPLES])"
  unfolding PLACEHOLDER_TUPLES_def by (rule wf_raw_pair) (simp add: tuple_predicate_qcount names_ok_def)

lemma wf_child_join:
  "wf_select desc \<Longrightarrow> qcount j = length ps \<Longrightarrow> wf_select (desc\<lparr>joinText := j, joinParams := ps\<rparr>)"
  by (simp add: wf_select_def)

definition key_names_ok :: "string list \<Rightarrow> bool" where
  "key_names_ok keys \<longleftrightarrow> names_ok keys \<and> ''__or__'' \<notin> set keys \<and> ''__raw__'' \<notin> set keys"

lemma run_select_ok:
  assumes "wf_select desc" and "\<not> forUpdate desc"
  shows "\<exists>m. run_select desc = Inr m \<and> balanced m"
  using run_select_total [OF assms(2)] run_select_balanced [OF assms(1)] by blast

lemma child_select_unlocked [simp]: "\<not> forUpdate (child_select b sel cs)"
  by (simp add: child_select_def plain_select_def)

lemma lateral_ok:
  assumes "wf_base b" and "qcount keyRows = length keyParams" and "qcount pred = 0"
  shows "\<exists>m. lateral b keyRows pred keyParams lim = Inr m \<and> balanced m"
proof -
  have "\<exists>m. run_select ((child_select b [] cs)\<lparr>limit := n\<rparr>) = Inr m" for cs n
    by (rule run_select_total) simp
  then have "\<exists>m. lateral b keyRows pred keyParams lim = Inr m"
    unfolding lateral_def by (metis bind_r_simps(2))
  with lateral_balanced [OF assms] show ?thesis by blast
qed

lemma ranked_ok:
  assumes "wf_base b" and "names_ok keys" and "wf_conditions cs"
  shows "\<exists>m. ranked b keys cs lim = Inr m \<and> balanced m"
proof -
  have "\<exists>m. run_select (ranked_cte b keys cs) = Inr m" "\<exists>m. run_select (ranked_select b lim c) = Inr m" for c
    by (rule run_select_total, simp add: ranked_cte_def ranked_select_def plain_select_def)+
  then have "\<exists>m. ranked b keys cs lim = Inr m" unfolding ranked_def by (metis bind_r_simps(2))
  with ranked_balanced [OF assms] show ?thesis by blast
qed

lemma child_ok:
  assumes "wf_base b" and "wf_conditions cs"
  shows "\<exists>m. run_select (child_select b (rselect b) cs) = Inr m \<and> balanced m"
  by (rule run_select_ok) (use assms wf_child_select [of b cs "rselect b"] in \<open>simp_all add: wf_base_def\<close>)

lemma child_join_ok:
  assumes "wf_base b" and "qcount j = length ps"
  shows "\<exists>m. run_select ((child_select b (rselect b) (rconditions b))\<lparr>joinText := j, joinParams := ps\<rparr>) = Inr m \<and> balanced m"
proof -
  have "wf_select (child_select b (rselect b) (rconditions b))"
    using assms(1) by (intro wf_child_select) (simp_all add: wf_base_def)
  from run_select_ok [OF wf_child_join [OF this assms(2)]] show ?thesis by simp
qed

lemma unnest_params_q:
  assumes "casts_ok (rcasts b)"
  shows "qcount (unnest_params b keys arrays) = length arrays"
proof -
  have "qcount (unnest_params b keys arrays) = length (map_index (\<lambda>i arr. ''?::'' @ inferPgArrayType arr (cast_of b (keys ! i))) arrays)"
    unfolding unnest_params_def by (rule join_ones) (auto simp: map_index_def array_type_qfree cast_of_qfree assms)
  then show ?thesis by (simp add: map_index_def)
qed

lemma key_tuples_text_q:
  "names_ok keys \<Longrightarrow> qcount (key_tuples_text keys tuples) = length tuples * length keys"
  by (simp add: key_tuples_text_def arity_simps qcount_tuples)

lemma length_transpose [simp]: "length (transpose_keys keys tuples) = length keys"
  by (simp add: transpose_keys_def)

lemma length_concat_fixed: "\<forall>t \<in> set tuples. length t = n \<Longrightarrow> length (concat tuples) = length tuples * n"
  by (induction tuples) auto

lemma key_predicate_q:
  "qcount table = 0 \<Longrightarrow> qcount key = 0 \<Longrightarrow> qcount (qual_col table key) = 0"
  by (simp add: qual_col_def)

lemma single_unlimited_ok:
  assumes b: "wf_base b" and k: "key_names_ok [key]"
  shows "\<exists>m. compileSingleKeyUnlimited b key vals = Inr m \<and> balanced m"
proof (cases "rdialect b = Postgres")
  case True
  have "wf_entry (raw_entry (qual_col (rtable b) key @ '' = ANY(?::'' @ pgArrayCastType vals (cast_of b key) (rdefer b) @ '')'') [JArr vals])"
    using b k by (intro wf_raw_entry) (simp add: wf_base_def key_names_ok_def names_ok_def key_predicate_q array_type_qfree cast_of_qfree)
  then have "wf_conditions (obj_spread [raw_entry (qual_col (rtable b) key @ '' = ANY(?::'' @ pgArrayCastType vals (cast_of b key) (rdefer b) @ '')'') [JArr vals]] (rconditions b))"
    using b by (intro wf_conditions_spread wf_conditions_single) (simp_all add: wf_base_def)
  from child_ok [OF b this] True show ?thesis by (simp add: compileSingleKeyUnlimited_def Let_def)
next
  case False
  have "wf_entry (key, JArr vals)" using k by (intro wf_key_entry) (auto simp: key_names_ok_def names_ok_def)
  with wf_conditions_set [of "rconditions b" "(key, JArr vals)"] b have "wf_conditions (obj_set (rconditions b) key (JArr vals))"
    by (simp add: wf_base_def)
  from child_ok [OF b this] False show ?thesis by (simp add: compileSingleKeyUnlimited_def)
qed

lemma single_limited_ok:
  assumes b: "wf_base b" and k: "key_names_ok [key]"
  shows "\<exists>m. compileSingleKeyLimited b key vals lim = Inr m \<and> balanced m"
proof (cases "rdialect b = Postgres")
  case True
  have "\<exists>m. lateral b (''unnest(?::'' @ pgArrayCastType vals (cast_of b key) (rdefer b) @ '') AS _keys(key)'')
      (qual_col (rtable b) key @ '' = _keys.key'') [JArr vals] lim = Inr m \<and> balanced m"
    using b k by (intro lateral_ok) (simp_all add: wf_base_def key_names_ok_def names_ok_def key_predicate_q array_type_qfree cast_of_qfree)
  with True show ?thesis by (simp add: compileSingleKeyLimited_def Let_def)
next
  case False
  have "wf_entry (key, JArr vals)" using k by (intro wf_key_entry) (auto simp: key_names_ok_def names_ok_def)
  with b k False show ?thesis
    by (simp add: compileSingleKeyLimited_def ranked_ok key_names_ok_def wf_conditions_spread wf_conditions_single wf_base_def
        del: wf_entry.simps)
qed

lemma composite_raw_ok:
  assumes "names_ok keys" and "\<forall>t \<in> set tuples. length t = length keys"
  shows "wf_entry (raw_entry (key_tuples_text keys tuples) (concat tuples))"
  by (rule wf_raw_entry) (simp only: key_tuples_text_q [OF assms(1)] length_concat_fixed [OF assms(2)])

lemma composite_unlimited_ok:
  assumes b: "wf_base b" and k: "names_ok keys" and t: "\<forall>t \<in> set tuples. length t = length keys"
  shows "\<exists>m. compileCompositeKeyUnlimited b keys tuples = Inr m \<and> balanced m"
proof (cases "rdialect b = Postgres")
  case True
  have rt: "qcount (rtable b) = 0" using b by (simp add: wf_base_def)
  have "qcount (join '', '' (map (unnest_column (rtable b)) keys)) = 0"
    "qcount (join '' AND '' (map (\<lambda>k. qual_col (rtable b) k @ '' = '' @ (''_unnest_'' @ rtable b) @ ''.'' @ unnest_column (rtable b) k) keys)) = 0"
    by (rule qcount_map_names [OF k]; simp add: unnest_column_def qual_col_def rt)+
  then show ?thesis
    unfolding compileCompositeKeyUnlimited_def Let_def if_P [OF True]
    by (intro child_join_ok [OF b]) (use rt b in \<open>simp add: unnest_params_q wf_base_def\<close>)
next
  case False
  have "wf_conditions (obj_spread (rconditions b) [raw_entry (key_tuples_text keys tuples) (concat tuples)])"
    using b composite_raw_ok [OF k t] by (intro wf_conditions_spread wf_conditions_single) (simp_all add: wf_base_def)
  from child_ok [OF b this] False show ?thesis by (simp add: compileCompositeKeyUnlimited_def)
qed

lemma composite_limited_ok:
  assumes b: "wf_base b" and k: "names_ok keys" and t: "\<forall>t \<in> set tuples. length t = length keys"
  shows "\<exists>m. compileCompositeKeyLimited b keys tuples lim = Inr m \<and> balanced m"
proof (cases "rdialect b = Postgres")
  case True
  have "qcount (join '', '' (map_index (\<lambda>i _. ''key'' @ show_nat i) keys)) = 0"
    by (rule qcount_map_index) simp_all
  then show ?thesis
    unfolding compileCompositeKeyLimited_def Let_def if_P [OF True]
    by (intro lateral_ok [OF b]) (use b k in \<open>simp_all add: unnest_params_q wf_base_def key_rows_predicate_qfree\<close>)
next
  case False
  have "wf_conditions (obj_spread [raw_entry (key_tuples_text keys tuples) (concat tuples)] (rconditions b))"
    using b composite_raw_ok [OF k t] by (intro wf_conditions_spread wf_conditions_single) (simp_all add: wf_base_def)
  from ranked_ok [OF b k this] False show ?thesis by (simp add: compileCompositeKeyLimited_def)
qed

lemma key_rows_none:
  "(\<exists>cols. key_row_columns table tys i keys = Inr cols) \<longleftrightarrow> (\<forall>j < length keys. i + j < length tys \<and> tys ! (i + j) \<noteq> [])"
proof (induction keys arbitrary: i)
  case (Cons key keys)
  have "(\<forall>j < Suc (length keys). P j) \<longleftrightarrow> P 0 \<and> (\<forall>j < length keys. P (Suc j))" for P
    by (auto simp: less_Suc_eq_0_disj)
  with Cons.IH [of "Suc i"] show ?case
    by (auto simp: Let_def bind_r_Inr_iff)
qed simp

lemma key_rows_error: "key_row_columns table tys i keys = Inl e \<Longrightarrow> \<exists>k \<in> set keys. e = UndeclaredKeyType table k"
proof (induction keys arbitrary: i)
  case (Cons key keys)
  show ?case
  proof (cases "i < length tys \<and> tys ! i \<noteq> []")
    case True
    with Cons show ?thesis by (cases "key_row_columns table tys (Suc i) keys") auto
  next
    case False
    with Cons.prems show ?thesis by (auto split: if_splits)
  qed
qed simp

definition types_declared :: "relation_base \<Rightarrow> string list \<Rightarrow> bool" where
  "types_declared b keys \<longleftrightarrow> (\<forall>j < length keys. j < length (rkeyTypes b) \<and> rkeyTypes b ! j \<noteq> [])"

lemma pgCompositeKeyRows_declared: "types_declared b keys \<longleftrightarrow> (\<exists>s. pgCompositeKeyRows b keys = Inr s)"
  using key_rows_none [of "rtable b" "rkeyTypes b" 0 keys]
  by (auto simp: types_declared_def pgCompositeKeyRows_def bind_r_Inr_iff)

lemma pgCompositeKeyRows_error: "pgCompositeKeyRows b keys = Inl e \<Longrightarrow> \<exists>k \<in> set keys. e = UndeclaredKeyType (rtable b) k"
  using key_rows_error by (auto simp: pgCompositeKeyRows_def bind_r_def split: sum.splits)

lemma static_unlimited_ok:
  assumes b: "wf_base b" and k: "names_ok keys" and ty: "rdialect b = Postgres \<Longrightarrow> types_declared b keys"
  shows "\<exists>m. compileCompositeKeyStaticUnlimited b keys = Inr m \<and> balanced m"
proof (cases "rdialect b = Postgres")
  case True
  then obtain s where s: "pgCompositeKeyRows b keys = Inr s" using ty pgCompositeKeyRows_declared by blast
  have q: "qcount (key_rows_predicate (rtable b) keys) = 0" using b k by (intro key_rows_predicate_qfree) (simp_all add: wf_base_def)
  show ?thesis
    unfolding compileCompositeKeyStaticUnlimited_def if_P [OF True] s bind_r_simps
    by (intro child_join_ok [OF b]) (simp add: pgCompositeKeyRows_q [OF b s] q)
next
  case False
  have "wf_conditions (obj_spread (rconditions b)
      [(''__raw__'', JArr [JStr (tupleInPredicate (rdialect b) (rtable b) keys None), PLACEHOLDER_TUPLES])])"
    using b tuple_raw_wf [OF False _ k] by (intro wf_conditions_spread wf_conditions_single) (simp_all add: wf_base_def)
  from child_ok [OF b this] False show ?thesis by (simp add: compileCompositeKeyStaticUnlimited_def)
qed

lemma static_limited_ok:
  assumes b: "wf_base b" and k: "names_ok keys" and ty: "rdialect b = Postgres \<Longrightarrow> types_declared b keys"
  shows "\<exists>m. compileCompositeKeyStaticLimited b keys lim = Inr m \<and> balanced m"
proof (cases "rdialect b = Postgres")
  case True
  then obtain s where s: "pgCompositeKeyRows b keys = Inr s" using ty pgCompositeKeyRows_declared by blast
  show ?thesis
    unfolding compileCompositeKeyStaticLimited_def if_P [OF True] s bind_r_simps
    by (intro lateral_ok [OF b])
      (use b k in \<open>simp_all add: pgCompositeKeyRows_q [OF b s] key_rows_predicate_qfree wf_base_def\<close>)
next
  case False
  have "wf_conditions (obj_spread [(''__raw__'', JArr [JStr (tupleInPredicate (rdialect b) (rtable b) keys None), PLACEHOLDER_TUPLES])]
      (rconditions b))"
    using b tuple_raw_wf [OF False _ k] by (intro wf_conditions_spread wf_conditions_single) (simp_all add: wf_base_def)
  from ranked_ok [OF b k this] False show ?thesis by (simp add: compileCompositeKeyStaticLimited_def)
qed

section \<open>Properties\<close>

text \<open>
  Every batch load of a relation compiles to a balanced statement on every dialect, single or
  composite key, with or without a per-parent limit.
\<close>

theorem relation_loads_are_balanced:
  assumes "wf_base b" and "key_names_ok keys" and "key \<in> set keys" and "\<forall>t \<in> set tuples. length t = length keys"
  shows "(\<exists>m. compileSingleKeyUnlimited b key vals = Inr m \<and> balanced m)
    \<and> (\<exists>m. compileSingleKeyLimited b key vals lim = Inr m \<and> balanced m)
    \<and> (\<exists>m. compileCompositeKeyUnlimited b keys tuples = Inr m \<and> balanced m)
    \<and> (\<exists>m. compileCompositeKeyLimited b keys tuples lim = Inr m \<and> balanced m)"
proof -
  have "key_names_ok [key]" "names_ok keys" using assms by (auto simp: key_names_ok_def names_ok_def)
  then show ?thesis
    using assms single_unlimited_ok single_limited_ok composite_unlimited_ok composite_limited_ok by simp
qed

definition example_base :: relation_base where
  "example_base = \<lparr>rdialect = Postgres, rtable = ''posts'', rselect = [], rconditions = [(''live'', JBool True)],
     rorder = ''id'', rcasts = (\<lambda>_. None), rdefer = False, rkeyTypes = [''int'']\<rparr>"

lemma wf_example_base: "wf_base example_base"
  by (simp add: wf_base_def example_base_def wf_conditions_def wf_plain_def casts_ok_def names_ok_def)

lemma example_limited_text:
  "map_sum id (\<lambda>m. (sql m, params m)) (compileSingleKeyLimited example_base ''author_id'' [JInt 1, JInt 2] 3)
    = Inr (''SELECT posts.* FROM unnest(?::int[]) AS _keys(key) CROSS JOIN LATERAL (SELECT * FROM posts WHERE posts.author_id = _keys.key AND live = TRUE ORDER BY id LIMIT 3) posts'',
           [JArr [JInt 1, JInt 2]])"
  by code_simp

theorem relation_loads_are_balanced_witness:
  "\<exists>m. compileSingleKeyLimited example_base ''author_id'' [JInt 1, JInt 2] 3 = Inr m \<and> balanced m"
  using relation_loads_are_balanced [OF wf_example_base, of "[''author_id'']" "''author_id''" "[[JInt 1]]" "[JInt 1, JInt 2]" 3]
  by (simp add: key_names_ok_def names_ok_def)

text \<open>
  The static composite loads fail exactly on PostgreSQL with an undeclared key column, naming that
  column and never guessing its type; otherwise they are balanced.
\<close>

theorem static_composite_needs_types:
  assumes "wf_base b" and "names_ok keys"
  shows "if rdialect b = Postgres \<and> \<not> types_declared b keys
    then \<exists>k \<in> set keys. compileCompositeKeyStaticUnlimited b keys = Inl (UndeclaredKeyType (rtable b) k)
      \<and> compileCompositeKeyStaticLimited b keys lim = Inl (UndeclaredKeyType (rtable b) k)
    else (\<exists>m. compileCompositeKeyStaticUnlimited b keys = Inr m \<and> balanced m)
      \<and> (\<exists>m. compileCompositeKeyStaticLimited b keys lim = Inr m \<and> balanced m)"
proof (cases "rdialect b = Postgres \<and> \<not> types_declared b keys")
  case True
  then obtain e where e: "pgCompositeKeyRows b keys = Inl e"
    using pgCompositeKeyRows_declared by (cases "pgCompositeKeyRows b keys") auto
  with pgCompositeKeyRows_error [OF e] True show ?thesis
    by (auto simp: compileCompositeKeyStaticUnlimited_def compileCompositeKeyStaticLimited_def)
next
  case False
  with assms show ?thesis using static_unlimited_ok static_limited_ok by (metis (no_types))
qed

theorem static_composite_needs_types_witness:
  "compileCompositeKeyStaticUnlimited example_base [''a'', ''b''] = Inl (UndeclaredKeyType ''posts'' ''b'')
   \<and> (\<exists>m. compileCompositeKeyStaticUnlimited example_base [''a''] = Inr m \<and> balanced m)"
proof -
  have "types_declared example_base [''a'']" by (simp add: types_declared_def example_base_def)
  moreover have "compileCompositeKeyStaticUnlimited example_base [''a'', ''b''] = Inl (UndeclaredKeyType ''posts'' ''b'')"
    by code_simp
  ultimately show ?thesis
    using static_composite_needs_types [OF wf_example_base, of "[''a'']"] by (simp add: names_ok_def)
qed

section \<open>A filter that replaces the key predicate\<close>

text \<open>
  The key predicate travels under \<open>__raw__\<close>, before the relation's own filters: a filter with a
  \<open>__raw__\<close> entry of its own replaces it, and the load reads the whole table.
\<close>

lemma raw_filter_drops_keys:
  "map_sum id (\<lambda>m. (sql m, params m))
      (compileSingleKeyUnlimited (example_base\<lparr>rconditions := [(''__raw__'', JStr ''score > 0'')]\<rparr>) ''author_id'' [JInt 1])
    = Inr (''SELECT * FROM posts WHERE score > 0 ORDER BY id'', [])"
  by code_simp

end
