(* ===== verification/Grouping.thy ===== *)
theory Grouping
  imports JsValue
begin

text \<open>
  \<open>src/scp/grouping.ts\<close>: key identity, the deduplicated key tuples of the parents, the children grouped
  by key and their attachment to one parent.  The locale \<open>batch_source\<close> is what the batch load of a
  relation relies on (a fetch by key set); the load over it is equal to one fetch per parent.
\<close>

section \<open>The operations\<close>

definition KEY_SEP :: string where
  "KEY_SEP = [CHR 0x00]"

definition keyIdentity :: "jsval list \<Rightarrow> string" where
  "keyIdentity vs =
     (if length vs = 1 then js_string (vs ! 0)
      else if length vs = 2 then js_string (vs ! 0) @ KEY_SEP @ js_string (vs ! 1)
      else join KEY_SEP (map js_string vs))"

definition key_tuple :: "string list \<Rightarrow> jsobj \<Rightarrow> jsval list" where
  "key_tuple cols r = map (js_get r) cols"

definition partial_key :: "jsval list \<Rightarrow> bool" where
  "partial_key t \<longleftrightarrow> list_ex nullish t"

fun dedupe_loop :: "string list \<Rightarrow> string list \<Rightarrow> jsval list list \<Rightarrow> jsobj list \<Rightarrow> jsval list list" where
  "dedupe_loop keyCols seen out [] = out"
| "dedupe_loop keyCols seen out (r # rs) =
     (let t = key_tuple keyCols r; i = keyIdentity t in
      if partial_key t then dedupe_loop keyCols seen out rs
      else if i \<in> set seen then dedupe_loop keyCols seen out rs
      else dedupe_loop keyCols (i # seen) (out @ [t]) rs)"

definition dedupeKeyTuples :: "jsobj list \<Rightarrow> string list \<Rightarrow> jsval list list" where
  "dedupeKeyTuples rows keyCols = dedupe_loop keyCols [] [] rows"

type_synonym relation_batch = "(string \<times> jsobj list) list"

definition groupByKey :: "jsobj list \<Rightarrow> string list \<Rightarrow> relation_batch" where
  "groupByKey children fkCols =
     fold (\<lambda>c byKey. let t = key_tuple fkCols c in
        if partial_key t then byKey else group_push (keyIdentity t) c byKey) children []"

datatype attached = Many "jsobj list" | One "jsobj option"

definition attachToParent :: "jsobj \<Rightarrow> string list \<Rightarrow> relation_batch \<Rightarrow> bool \<Rightarrow> attached" where
  "attachToParent parent pkCols byKey single =
     (let t = key_tuple pkCols parent;
          rows = (if partial_key t then None else map_of byKey (keyIdentity t))
      in if \<not> single then Many (case rows of None \<Rightarrow> [] | Some rs \<Rightarrow> rs)
         else One (case rows of None \<Rightarrow> None | Some rs \<Rightarrow> (if length rs > 0 then Some (rs ! 0) else None)))"

section \<open>Key identity\<close>

lemma keyIdentity_eq: "keyIdentity vs = join KEY_SEP (map js_string vs)"
proof -
  consider "vs = []" | v where "vs = [v]" | v w where "vs = [v, w]" | "length vs > 2"
    by (cases vs; cases "tl vs"; cases "tl (tl vs)") auto
  then show ?thesis by cases (auto simp: keyIdentity_def)
qed

lemma keyIdentity_inj:
  assumes "length vs = length ws"
    and "\<forall>v \<in> set vs \<union> set ws. CHR 0x00 \<notin> set (js_string v)"
    and "keyIdentity vs = keyIdentity ws"
  shows "map js_string vs = map js_string ws"
proof (cases "vs = []")
  case True
  with assms(1) show ?thesis by simp
next
  case False
  with assms(1) have "map js_string vs \<noteq> []" "map js_string ws \<noteq> []" by auto
  moreover have "\<forall>x \<in> set (map js_string vs). CHR 0x00 \<notin> set x" "\<forall>x \<in> set (map js_string ws). CHR 0x00 \<notin> set x"
    using assms(2) by auto
  ultimately have "split_on (CHR 0x00) (join KEY_SEP (map js_string vs)) = map js_string vs"
    and "split_on (CHR 0x00) (join KEY_SEP (map js_string ws)) = map js_string ws"
    unfolding KEY_SEP_def by (blast intro: split_on_join)+
  with assms(3) show ?thesis unfolding keyIdentity_eq by metis
qed

text \<open>The separator is not out of reach of a string: two different tuples share an identity.\<close>

lemma key_tuples_can_collide:
  "keyIdentity [JStr (''a'' @ KEY_SEP @ ''b''), JStr ''c''] = keyIdentity [JStr ''a'', JStr (''b'' @ KEY_SEP @ ''c'')]"
  by (simp add: keyIdentity_def)

section \<open>What the operations compute\<close>

definition complete :: "string list \<Rightarrow> jsobj \<Rightarrow> bool" where
  "complete cols r \<longleftrightarrow> \<not> partial_key (key_tuple cols r)"

definition ident :: "string list \<Rightarrow> jsobj \<Rightarrow> string" where
  "ident cols r = keyIdentity (key_tuple cols r)"

lemmas grouping_defs = complete_def ident_def Let_def

lemma dedupe_loop_spec:
  assumes "map keyIdentity out = is" and "distinct is" and "set seen = set is"
  shows "map keyIdentity (dedupe_loop keyCols seen out rows) = dedup (is @ map (ident keyCols) (filter (complete keyCols) rows))
    \<and> set (dedupe_loop keyCols seen out rows) \<subseteq> set out \<union> key_tuple keyCols ` set (filter (complete keyCols) rows)"
  using assms
proof (induction rows arbitrary: seen out "is")
  case Nil
  then show ?case by (simp add: dedup_distinct)
next
  case (Cons r rs)
  show ?case
  proof (cases "complete keyCols r \<and> ident keyCols r \<notin> set is")
    case True
    with Cons.prems have step: "map keyIdentity (out @ [key_tuple keyCols r]) = is @ [ident keyCols r]"
      "distinct (is @ [ident keyCols r])" "set (ident keyCols r # seen) = set (is @ [ident keyCols r])"
      by (auto simp: ident_def)
    have "dedupe_loop keyCols seen out (r # rs)
        = dedupe_loop keyCols (ident keyCols r # seen) (out @ [key_tuple keyCols r]) rs"
      using True Cons.prems by (simp add: grouping_defs)
    with Cons.IH [OF step] True show ?thesis by auto
  next
    case False
    then have "dedupe_loop keyCols seen out (r # rs) = dedupe_loop keyCols seen out rs"
      using Cons.prems by (auto simp: grouping_defs)
    with Cons.IH [OF Cons.prems] False dedup_known [of "ident keyCols r" "is"] show ?thesis by auto
  qed
qed

lemma dedupeKeyTuples_spec:
  "map keyIdentity (dedupeKeyTuples rows keyCols) = dedup (map (ident keyCols) (filter (complete keyCols) rows))"
  "set (dedupeKeyTuples rows keyCols) \<subseteq> key_tuple keyCols ` set (filter (complete keyCols) rows)"
  using dedupe_loop_spec [of "[]" "[]" "[]" keyCols rows] by (simp_all add: dedupeKeyTuples_def)

lemma groupByKey_eq: "groupByKey children fkCols = group_by (ident fkCols) (filter (complete fkCols) children)"
proof -
  have "fold (\<lambda>c byKey. let t = key_tuple fkCols c in
        if partial_key t then byKey else group_push (keyIdentity t) c byKey) children m
      = fold (\<lambda>x. group_push (ident fkCols x) x) (filter (complete fkCols) children) m" for m
    by (induction children arbitrary: m) (auto simp: grouping_defs)
  then show ?thesis by (simp add: groupByKey_def group_by_def)
qed

lemma groupByKey_lookup:
  "map_of (groupByKey children fkCols) k
    = (let rs = filter (\<lambda>c. complete fkCols c \<and> ident fkCols c = k) children in if rs = [] then None else Some rs)"
  by (auto simp: groupByKey_eq group_by_map_of Let_def filter_empty_conv intro: filter_cong)

definition children_of :: "string list \<Rightarrow> string list \<Rightarrow> jsobj list \<Rightarrow> jsobj \<Rightarrow> jsobj list" where
  "children_of pkCols fkCols children parent =
     (if complete pkCols parent
      then filter (\<lambda>c. complete fkCols c \<and> ident fkCols c = ident pkCols parent) children else [])"

lemma attach_eq:
  "attachToParent parent pkCols (groupByKey children fkCols) single
    = (let rs = children_of pkCols fkCols children parent in
       if single then One (if rs = [] then None else Some (hd rs)) else Many rs)"
  by (auto simp: attachToParent_def groupByKey_lookup children_of_def grouping_defs hd_conv_nth)

section \<open>The batch load of a relation\<close>

text \<open>
  What the load relies on: a fetch by a set of key tuples, which returns the rows of the child table, in
  the order of the statement, whose foreign key is one of them.  Keys are compared by identity: the
  statements of every dialect cast or coerce the bound keys, so that \<open>1\<close> and \<open>'1'\<close> match the same rows.
\<close>

definition keys_match :: "string list \<Rightarrow> jsval list list \<Rightarrow> jsobj \<Rightarrow> bool" where
  "keys_match fkCols keys c \<longleftrightarrow> complete fkCols c \<and> ident fkCols c \<in> keyIdentity ` set keys"

locale batch_source =
  fixes fetch :: "jsval list list \<Rightarrow> jsobj list" and table :: "jsobj list" and fkCols :: "string list"
  assumes fetch_eq: "fetch keys = filter (keys_match fkCols keys) table"
begin

lemma fetch_one: "fetch [t] = filter (\<lambda>c. complete fkCols c \<and> ident fkCols c = keyIdentity t) table"
  by (simp add: fetch_eq keys_match_def [abs_def])

lemma children_of_batch:
  assumes "parent \<in> set parents"
  shows "children_of pkCols fkCols (fetch (dedupeKeyTuples parents pkCols)) parent
    = (if complete pkCols parent then fetch [key_tuple pkCols parent] else [])"
proof (cases "complete pkCols parent")
  case True
  have "keyIdentity ` set (dedupeKeyTuples parents pkCols) = set (map keyIdentity (dedupeKeyTuples parents pkCols))"
    by simp
  then have keys: "keyIdentity ` set (dedupeKeyTuples parents pkCols) = ident pkCols ` {r \<in> set parents. complete pkCols r}"
    by (simp add: dedupeKeyTuples_spec(1))
  have "ident pkCols parent \<in> keyIdentity ` set (dedupeKeyTuples parents pkCols)"
    using assms True by (auto simp: keys)
  then show ?thesis
    using True by (auto simp: children_of_def fetch_one fetch_eq keys_match_def ident_def intro!: filter_cong)
qed (simp add: children_of_def)

lemma attach_batch:
  assumes "parent \<in> set parents"
  shows "attachToParent parent pkCols (groupByKey (fetch (dedupeKeyTuples parents pkCols)) fkCols) single
    = (let rs = (if complete pkCols parent then fetch [key_tuple pkCols parent] else []) in
       if single then One (if rs = [] then None else Some (hd rs)) else Many rs)"
  by (simp only: attach_eq children_of_batch [OF assms])

end

text \<open>The rows a relation statement selects from a child table.\<close>

definition select_by_keys :: "jsobj list \<Rightarrow> string list \<Rightarrow> jsval list list \<Rightarrow> jsobj list" where
  "select_by_keys table fkCols keys = filter (keys_match fkCols keys) table"

interpretation relation_select: batch_source "select_by_keys table fkCols" table fkCols for table fkCols
  by unfold_locales (simp add: select_by_keys_def)

section \<open>Properties\<close>

text \<open>
  The key set of a relation load is the identities of the complete parent keys, without duplicates, in
  order of first appearance; no partial key is ever fetched.
\<close>

theorem key_set_is_deduplicated:
  "map keyIdentity (dedupeKeyTuples rows keyCols) = dedup (map (ident keyCols) (filter (complete keyCols) rows))
   \<and> distinct (map keyIdentity (dedupeKeyTuples rows keyCols))
   \<and> set (dedupeKeyTuples rows keyCols) \<subseteq> key_tuple keyCols ` {r. r \<in> set rows \<and> complete keyCols r}"
  using dedupeKeyTuples_spec [of rows keyCols] by simp



text \<open>
  Without a NUL in their texts, two key tuples of one arity share an identity only if they read the
  same column by column.
\<close>

theorem key_identity_separates:
  assumes "length vs = length ws" and "\<forall>v \<in> set vs \<union> set ws. CHR 0x00 \<notin> set (js_string v)"
  shows "keyIdentity vs = keyIdentity ws \<longleftrightarrow> map js_string vs = map js_string ws"
proof
  show "keyIdentity vs = keyIdentity ws \<Longrightarrow> map js_string vs = map js_string ws"
    by (rule keyIdentity_inj [OF assms])
  show "map js_string vs = map js_string ws \<Longrightarrow> keyIdentity vs = keyIdentity ws"
    by (simp add: keyIdentity_eq)
qed

theorem key_identity_separates_witness:
  "keyIdentity [JStr ''a'', JStr ''bc''] \<noteq> keyIdentity [JStr ''ab'', JStr ''c'']"
  by (subst key_identity_separates) simp_all

end
