(* ===== verification/LimitConfig.thy ===== *)
theory LimitConfig
  imports JsValue
begin

text \<open>
  \<open>src/scp/limit-config.ts\<close> and \<open>LimitExceededError\<close> of \<open>src/scp/errors.ts\<close>: the process-wide hard-limit
  configuration (an object whose keys may be absent, \<open>undefined\<close> or \<open>null\<close>), the resolution of the
  effective caps and the two checks at the read boundary.
\<close>

section \<open>The configuration\<close>

type_synonym limit_state = jsobj

definition setLimitConfig :: "jsobj \<Rightarrow> limit_state \<Rightarrow> limit_state" where
  "setLimitConfig config st = obj_spread st config"

definition getLimitConfig :: "limit_state \<Rightarrow> jsobj" where
  "getLimitConfig st = st"

definition resetLimitConfig :: "limit_state \<Rightarrow> limit_state" where
  "resetLimitConfig st = []"

definition normalizeCap :: "jsval \<Rightarrow> string \<Rightarrow> scp_error + nat option" where
  "normalizeCap v field =
     (if nullish v then Inr None
      else (case v of
          JInt i \<Rightarrow> (if i < 0 then Inl (LimitNotInteger field (js_string v)) else Inr (Some (nat i)))
        | _ \<Rightarrow> Inl (LimitNotInteger field (js_string v))))"

definition resolveFindHardLimit :: "limit_state \<Rightarrow> jsval \<Rightarrow> scp_error + nat option" where
  "resolveFindHardLimit st override =
     normalizeCap (if override \<noteq> JUndef then override else js_get st ''findHardLimit'') ''findHardLimit''"

definition resolveHasManyHardLimit :: "limit_state \<Rightarrow> jsval \<Rightarrow> jsval \<Rightarrow> scp_error + nat option" where
  "resolveHasManyHardLimit st perRelation glob =
     (let g = (if glob \<noteq> JUndef then glob else js_get st ''hasManyHardLimit'');
          raw = (if perRelation = JNull then JNull else if perRelation \<noteq> JUndef then perRelation else g)
      in normalizeCap raw ''hasManyHardLimit'')"

section \<open>The checks\<close>

record relation_guard =
  guard_limit :: int
  guard_model :: "string option"
  guard_relation :: string

definition assertFindHardLimit :: "'r list \<Rightarrow> nat option \<Rightarrow> string \<Rightarrow> scp_error + unit" where
  "assertFindHardLimit rows cap model = (case cap of
      None \<Rightarrow> Inr ()
    | Some c \<Rightarrow> (if length rows > c then Inl (LimitExceeded (int c) (length rows) ''find'' (Some model) None) else Inr ()))"

definition assertRelationHardLimit :: "'r list \<Rightarrow> relation_guard option \<Rightarrow> scp_error + unit" where
  "assertRelationHardLimit rows guard = (case guard of
      None \<Rightarrow> Inr ()
    | Some g \<Rightarrow>
        (if int (length rows) > guard_limit g
         then Inl (LimitExceeded (guard_limit g) (length rows) ''relation'' (guard_model g) (Some (guard_relation g)))
         else Inr ()))"

definition or_unknown :: "string option \<Rightarrow> string" where
  "or_unknown s = (case s of None \<Rightarrow> ''unknown'' | Some x \<Rightarrow> x)"

definition limit_message :: "int \<Rightarrow> nat \<Rightarrow> string \<Rightarrow> string option \<Rightarrow> string option \<Rightarrow> string" where
  "limit_message lim cnt ctx model relation =
     (let place = (if ctx = ''find'' then ''find() on '' @ or_unknown model
            else ''relation '' @ squoted (or_unknown relation) @ '' on '' @ or_unknown model);
          phrase = (if ctx = ''find'' then ''more than '' @ show_int lim else show_nat cnt)
      in ''Query limit exceeded: '' @ place @ '' returned '' @ phrase @ '' records, but limit is '' @ show_int lim
         @ ''. This usually indicates a missing WHERE clause or an N+1 query pattern. Set a higher limit or use pagination.'')"

text \<open>
  The read of a capped statement: the emitter bakes \<open>LIMIT cap + 1\<close>, the boundary asserts the rows.
\<close>

definition capped_read :: "'r list \<Rightarrow> nat option \<Rightarrow> string \<Rightarrow> scp_error + 'r list" where
  "capped_read rows cap model =
     (let fetched = (case cap of None \<Rightarrow> rows | Some c \<Rightarrow> take (c + 1) rows)
      in bind_r (assertFindHardLimit fetched cap model) (\<lambda>_. Inr fetched))"

section \<open>Lemmas\<close>

lemma js_get_append: "js_get (obj_spread o1 o2) k = (case map_of (rev o2) k of None \<Rightarrow> js_get o1 k | Some v \<Rightarrow> v)"
proof -
  have "map_of (obj_spread o1 o2) = map_of o1 ++ map_of (rev o2)"
    unfolding obj_spread_def
    by (induction o2 arbitrary: o1) (auto simp: map_of_obj_set fun_eq_iff map_add_def split: option.splits)
  then show ?thesis by (auto simp: js_get_def map_add_def split: option.splits)
qed

lemma normalizeCap_cases:
  "normalizeCap v field = Inr None \<longleftrightarrow> nullish v"
  "normalizeCap v field = Inr (Some c) \<longleftrightarrow> v = JInt (int c)"
  by (cases v; auto simp: normalizeCap_def)+

section \<open>Properties\<close>

text \<open>
  The effective relation cap follows its precedence: an explicit \<open>null\<close> on the relation disables it
  whatever the global says, a number on the relation wins over the global, and only \<open>undefined\<close> falls
  through; anything but a non-negative integer is refused.
\<close>

theorem relation_cap_precedence:
  "resolveHasManyHardLimit st JNull glob = Inr None
   \<and> resolveHasManyHardLimit st (JInt i) glob
      = (if i < 0 then Inl (LimitNotInteger ''hasManyHardLimit'' (show_int i)) else Inr (Some (nat i)))
   \<and> resolveHasManyHardLimit (setLimitConfig [(''hasManyHardLimit'', v)] st) JUndef JUndef = normalizeCap v ''hasManyHardLimit''
   \<and> resolveHasManyHardLimit (setLimitConfig [(''findHardLimit'', v)] st) JUndef JUndef = resolveHasManyHardLimit st JUndef JUndef
   \<and> resolveHasManyHardLimit (resetLimitConfig st) JUndef JUndef = Inr None"
  by (simp add: resolveHasManyHardLimit_def setLimitConfig_def resetLimitConfig_def normalizeCap_def obj_spread_def Let_def
      nullish_def)

text \<open>
  A capped read fetches at most one row more than its cap and then either returns every row there is,
  no more than the cap, or fails because there are more; it never returns a truncated result.
\<close>

theorem capped_read_never_truncates:
  "(case capped_read rows cap model of
      Inl e \<Rightarrow> (\<exists>c. cap = Some c \<and> length rows > c \<and> e = LimitExceeded (int c) (c + 1) ''find'' (Some model) None)
    | Inr fetched \<Rightarrow> fetched = rows \<and> (cap = None \<or> length rows \<le> the cap))"
  by (auto simp: capped_read_def assertFindHardLimit_def Let_def split: option.splits)

end
