(* ===== verification/Leaves.thy ===== *)
theory Leaves
  imports CompileRelation Grouping LimitConfig
begin

text \<open>
  \<open>src/scp/leaves.ts\<close>: the three op-independent leaves (\<open>executeSQL\<close>, \<open>pluck\<close>, \<open>group\<close>), the assembly of a
  dynamic WHERE plan, the preparation of a statement for its dialect, and the fail-closed reading of
  the ports a generated module passes.  The execute and run seams are arguments over a state; a
  statement's intent is its write flag and its connection name.
\<close>

section \<open>Ports\<close>

datatype port_kind = PBool | PInt | PString | PList | PStrings | PRecord

definition port_has_type :: "port_kind \<Rightarrow> jsval \<Rightarrow> bool" where
  "port_has_type k v = (case k of
      PBool \<Rightarrow> (case v of JBool _ \<Rightarrow> True | _ \<Rightarrow> False)
    | PInt \<Rightarrow> (case v of JBig _ \<Rightarrow> True | _ \<Rightarrow> False)
    | PString \<Rightarrow> (case v of JStr _ \<Rightarrow> True | _ \<Rightarrow> False)
    | PList \<Rightarrow> (case v of JArr _ \<Rightarrow> True | _ \<Rightarrow> False)
    | PStrings \<Rightarrow> (case v of JArr vs \<Rightarrow> list_all (\<lambda>e. case e of JStr _ \<Rightarrow> True | _ \<Rightarrow> False) vs | _ \<Rightarrow> False)
    | PRecord \<Rightarrow> (case v of JObj _ \<Rightarrow> True | JDate _ _ \<Rightarrow> True | JTok _ \<Rightarrow> True | JCond _ \<Rightarrow> True | _ \<Rightarrow> False))"

text \<open>\<open>portTyped\<close>; the flag is the \<open>|null\<close> suffix of a declared type.\<close>

definition portTyped :: "jsval \<Rightarrow> string \<Rightarrow> port_kind \<Rightarrow> bool \<Rightarrow> scp_error + jsval" where
  "portTyped v what kind nullable =
     (if nullable \<and> v = JNull then Inr JNull
      else if port_has_type kind v then Inr v else Inl (MalformedPort what))"

definition record_fields :: "jsval \<Rightarrow> jsobj" where
  "record_fields v = (case v of JObj ob \<Rightarrow> ob | _ \<Rightarrow> [])"

definition requiredField :: "jsobj \<Rightarrow> string \<Rightarrow> string \<Rightarrow> port_kind \<Rightarrow> bool \<Rightarrow> scp_error + jsval" where
  "requiredField rec name at kind nullable =
     (if name \<notin> fst ` set rec then Inl (MissingPort name)
      else portTyped (js_get rec name) name kind nullable)"

definition as_list :: "jsval \<Rightarrow> jsval list" where
  "as_list v = (case v of JArr vs \<Rightarrow> vs | _ \<Rightarrow> [])"

definition as_string :: "jsval \<Rightarrow> string" where
  "as_string v = (case v of JStr s \<Rightarrow> s | _ \<Rightarrow> [])"

definition as_bool :: "jsval \<Rightarrow> bool" where
  "as_bool v = (v = JBool True)"

section \<open>The dynamic WHERE plan\<close>

record where_frag =
  skipped :: bool
  fragSql :: string
  fragParams :: "jsval list"

record where_plan =
  frags :: "where_frag list"
  planLead :: string
  planTail :: string
  planTailParams :: "jsval list"

definition read_frag :: "jsval \<Rightarrow> scp_error + where_frag" where
  "read_frag v =
     bind_r (portTyped v ''fragment'' PRecord False) (\<lambda>f. let ob = record_fields f in
     bind_r (requiredField ob ''skipped'' ''fragment'' PBool False) (\<lambda>sk.
     bind_r (requiredField ob ''sql'' ''fragment'' PString False) (\<lambda>s.
     bind_r (requiredField ob ''params'' ''fragment'' PList False) (\<lambda>ps.
       Inr \<lparr>skipped = as_bool sk, fragSql = as_string s, fragParams = as_list ps\<rparr>))))"

definition dynamicWherePlan :: "jsobj \<Rightarrow> scp_error + where_plan" where
  "dynamicWherePlan plan =
     bind_r (requiredField plan ''frags'' ''plan'' PList False) (\<lambda>fs.
     bind_r (map_r read_frag (as_list fs)) (\<lambda>frs.
     bind_r (requiredField plan ''lead'' ''plan'' PString False) (\<lambda>l.
     bind_r (requiredField plan ''tail'' ''plan'' PString False) (\<lambda>t.
     bind_r (requiredField plan ''tailParams'' ''plan'' PList False) (\<lambda>tps.
       Inr \<lparr>frags = frs, planLead = as_string l, planTail = as_string t, planTailParams = as_list tps\<rparr>)))))"

definition survivors :: "where_plan \<Rightarrow> where_frag list" where
  "survivors plan = filter (\<lambda>f. \<not> skipped f) (frags plan)"

definition assemble_plan :: "string \<Rightarrow> jsval list \<Rightarrow> where_plan \<Rightarrow> string \<times> jsval list" where
  "assemble_plan s ps plan =
     (let frs = survivors plan;
          clause = (if frs = [] then [] else '' '' @ planLead plan @ '' '' @ join '' AND '' (map fragSql frs))
      in (s @ clause @ planTail plan, ps @ concat (map fragParams frs) @ planTailParams plan))"

definition assembleDynamicWhere :: "string \<Rightarrow> jsval list \<Rightarrow> jsobj \<Rightarrow> scp_error + string \<times> jsval list" where
  "assembleDynamicWhere s ps port = bind_r (dynamicWherePlan port) (\<lambda>plan. Inr (assemble_plan s ps plan))"

section \<open>Preparing a statement\<close>

definition isTupleSet :: "jsval list \<Rightarrow> bool" where
  "isTupleSet param \<longleftrightarrow> (case param of JArr _ # _ \<Rightarrow> True | _ \<Rightarrow> False)"

definition encodeParam :: "dialect \<Rightarrow> jsval \<Rightarrow> jsval" where
  "encodeParam d p = (case p of
      JArr vs \<Rightarrow> (if d = Postgres \<and> \<not> isTupleSet vs then p else JStr (encodeJsonArrayParam d vs))
    | _ \<Rightarrow> p)"

definition encodeParams :: "jsval list \<Rightarrow> dialect \<Rightarrow> jsval list" where
  "encodeParams ps d = map (encodeParam d) ps"

definition resolve_casts :: "string \<Rightarrow> jsval list \<Rightarrow> string" where
  "resolve_casts s ps = fold (\<lambda>p s. case p of JArr vs \<Rightarrow> resolvePgArrayCast s vs | _ \<Rightarrow> s) ps s"

record statement_intent =
  intent_write :: bool
  intent_db :: "string option"

record prepared =
  prep_sql :: string
  prep_bound :: "jsval list"
  prep_intent :: statement_intent

definition prepareSql :: "string \<Rightarrow> jsval list \<Rightarrow> bool \<Rightarrow> string option \<Rightarrow> dialect \<Rightarrow> prepared" where
  "prepareSql s ps write db d =
     (let s1 = (if d = Postgres then resolve_casts s ps else s)
      in \<lparr>prep_sql = renderPlaceholders s1 d, prep_bound = encodeParams ps d,
          prep_intent = \<lparr>intent_write = write, intent_db = db\<rparr>\<rparr>)"

section \<open>The payload of executeSQL\<close>

record exec_ports =
  port_sql :: string
  port_params :: "jsval list"
  port_db :: "string option"
  port_write :: "bool option"
  port_where :: "jsobj option"
  port_guard :: "relation_guard option"

text \<open>\<open>port_write\<close> is the write mode: \<open>None\<close> for a read, else its \<open>returning\<close> flag.\<close>

definition writeModePort :: "jsval \<Rightarrow> scp_error + bool option" where
  "writeModePort v =
     (if v = JNull then Inr None
      else bind_r (requiredField (record_fields v) ''returning'' ''write'' PBool False) (\<lambda>r. Inr (Some (as_bool r))))"

definition relationGuardPort :: "jsval \<Rightarrow> scp_error + relation_guard option" where
  "relationGuardPort v =
     (if v = JNull then Inr None
      else let g = record_fields v in
        bind_r (requiredField g ''limit'' ''guard'' PInt False) (\<lambda>raw.
        bind_r (requiredField g ''model'' ''guard'' PString True) (\<lambda>model.
        bind_r (requiredField g ''relation'' ''guard'' PString False) (\<lambda>rel.
          Inr (Some \<lparr>guard_limit = (case raw of JBig i \<Rightarrow> i | _ \<Rightarrow> 0),
                guard_model = (if model = JNull then None else Some (as_string model)),
                guard_relation = as_string rel\<rparr>)))))"

definition executeSqlPorts :: "jsobj \<Rightarrow> scp_error + exec_ports" where
  "executeSqlPorts ports =
     bind_r (requiredField ports ''sql'' ''payload'' PString False) (\<lambda>s.
     bind_r (requiredField ports ''params'' ''payload'' PList False) (\<lambda>ps.
     bind_r (if ''opts'' \<in> fst ` set ports then requiredField ports ''opts'' ''payload'' PRecord True else Inr JNull) (\<lambda>opts.
       if opts = JNull
       then Inr \<lparr>port_sql = as_string s, port_params = as_list ps, port_db = None, port_write = None,
              port_where = None, port_guard = None\<rparr>
       else let rec = record_fields opts in
         bind_r (requiredField rec ''db'' ''opts'' PString True) (\<lambda>db.
         bind_r (requiredField rec ''write'' ''opts'' PRecord True) (\<lambda>w0. bind_r (writeModePort w0) (\<lambda>w.
         bind_r (requiredField rec ''whereDynamic'' ''opts'' PRecord True) (\<lambda>wd.
         bind_r (requiredField rec ''guard'' ''opts'' PRecord True) (\<lambda>g0. bind_r (relationGuardPort g0) (\<lambda>g.
           Inr \<lparr>port_sql = as_string s, port_params = as_list ps,
                port_db = (if db = JNull then None else Some (as_string db)), port_write = w,
                port_where = (if wd = JNull then None else Some (record_fields wd)), port_guard = g\<rparr>))))))))) "

definition effectiveStatement :: "exec_ports \<Rightarrow> scp_error + string \<times> jsval list" where
  "effectiveStatement p = (case port_where p of
      None \<Rightarrow> Inr (port_sql p, port_params p)
    | Some plan \<Rightarrow> assembleDynamicWhere (port_sql p) (port_params p) plan)"

section \<open>The leaves\<close>

record run_info =
  changes :: int
  lastInsertRowid :: int

definition writeSummary :: "run_info \<Rightarrow> jsobj list" where
  "writeSummary info = [[(''changes'', JBig (changes info)), (''lastInsertRowid'', JBig (lastInsertRowid info))]]"

text \<open>The two seams of the execution context over a state, which may raise.\<close>

record 's seams =
  seam_execute :: "string \<Rightarrow> jsval list \<Rightarrow> statement_intent \<Rightarrow> 's \<Rightarrow> (scp_error + jsobj list) \<times> 's"
  seam_run :: "string \<Rightarrow> jsval list \<Rightarrow> statement_intent \<Rightarrow> 's \<Rightarrow> (scp_error + run_info) \<times> 's"

definition executeSQL :: "'s seams \<Rightarrow> dialect \<Rightarrow> exec_ports \<Rightarrow> 's \<Rightarrow> (scp_error + jsobj list) \<times> 's" where
  "executeSQL sm d p st =
     (case effectiveStatement p of
        Inl e \<Rightarrow> (Inl e, st)
      | Inr (s, ps) \<Rightarrow>
          let q = prepareSql s ps (port_write p \<noteq> None) (port_db p) d in
          if port_write p = Some False
          then (case seam_run sm (prep_sql q) (prep_bound q) (prep_intent q) st of
                  (Inl e, st') \<Rightarrow> (Inl e, st') | (Inr info, st') \<Rightarrow> (Inr (writeSummary info), st'))
          else (case seam_execute sm (prep_sql q) (prep_bound q) (prep_intent q) st of
                  (Inl e, st') \<Rightarrow> (Inl e, st')
                | (Inr rows, st') \<Rightarrow> (bind_r (assertRelationHardLimit rows (port_guard p)) (\<lambda>_. Inr rows), st')))"

definition pluck :: "jsobj list \<Rightarrow> string list \<Rightarrow> jsval list" where
  "pluck rows col =
     (let tuples = dedupeKeyTuples rows col
      in if length col = 1 then map (\<lambda>t. js_nth t 0) tuples else map JArr tuples)"

definition attached_value :: "attached \<Rightarrow> jsval" where
  "attached_value a = (case a of Many rs \<Rightarrow> JArr (map JObj rs) | One None \<Rightarrow> JNull | One (Some r) \<Rightarrow> JObj r)"

definition group :: "jsobj list \<Rightarrow> jsobj list \<Rightarrow> string list \<Rightarrow> string list \<Rightarrow> string \<Rightarrow> bool \<Rightarrow> jsobj list" where
  "group parents children pk fk intof single =
     (let byKey = groupByKey children fk
      in map (\<lambda>par. obj_set par intof (attached_value (attachToParent par pk byKey single))) parents)"

section \<open>Properties\<close>

definition bundle_plan :: "select_bundle \<Rightarrow> where_frag list \<Rightarrow> where_plan" where
  "bundle_plan b frs = \<lparr>frags = frs, planLead = lead b, planTail = tail b, planTailParams = tailParams b\<rparr>"

definition wf_frag :: "where_frag \<Rightarrow> bool" where
  "wf_frag f \<longleftrightarrow> fragSql f \<noteq> [] \<and> qcount (fragSql f) = length (fragParams f)"

lemma frags_balanced:
  "\<forall>f \<in> set frs. wf_frag f \<Longrightarrow> sum_list (map (qcount \<circ> fragSql) frs) = length (concat (map fragParams frs))"
  by (induction frs) (auto simp: wf_frag_def)

lemma plan_clause:
  assumes "\<forall>f \<in> set frs. fragSql f \<noteq> []"
  shows "opt_text '' WHERE '' w @ (if frs = [] then [] else '' '' @ (if w \<noteq> [] then ''AND'' else ''WHERE'') @ '' '' @ join '' AND '' (map fragSql frs))
    = opt_text '' WHERE '' (join '' AND '' (filter (\<lambda>s. s \<noteq> []) (w # map fragSql frs)))"
proof -
  have "filter (\<lambda>s. s \<noteq> []) (map fragSql frs) = map fragSql frs"
    using assms by (intro filter_True) auto
  moreover have "frs \<noteq> [] \<Longrightarrow> join '' AND '' (map fragSql frs) \<noteq> []"
    using assms by (cases frs) (auto simp: join_Cons)
  ultimately show ?thesis by (cases "frs = []") (auto simp: opt_text_def join_Cons)
qed






end
