(* ===== verification/Lexical.thy ===== *)
theory Lexical
  imports Prelude
begin

text \<open>
  The parts of JavaScript's regular expressions the program scans texts with: white space, word
  characters and boundaries, keywords in any case.  \<open>words\<close> is the reference the keyword scans are
  compared with: the maximal runs of word characters, in lower case.  Texts are sequences of characters
  up to U+00FF; upper and lower case are those of the ASCII letters.
\<close>

section \<open>Characters\<close>

definition is_word_char :: "char \<Rightarrow> bool" where
  "is_word_char c = (let n = (of_char c :: nat) in
     (48 \<le> n \<and> n \<le> 57) \<or> (65 \<le> n \<and> n \<le> 90) \<or> n = 95 \<or> (97 \<le> n \<and> n \<le> 122))"

definition lower :: "char \<Rightarrow> char" where
  "lower c = (let n = (of_char c :: nat) in if 65 \<le> n \<and> n \<le> 90 then char_of (n + 32) else c)"

definition is_space :: "char \<Rightarrow> bool" where
  "is_space c = (let n = (of_char c :: nat) in (9 \<le> n \<and> n \<le> 13) \<or> n = 32 \<or> n = 160)"

text \<open>The classes by the bits of a character, which evaluate without arithmetic.\<close>

lemma lower_bits [code]: "lower (Char b0 b1 b2 b3 b4 b5 b6 b7) =
   (if b6 \<and> \<not> b7 \<and> \<not> b5 \<and> (b0 \<or> b1 \<or> b2 \<or> b3 \<or> b4) \<and> \<not> (b4 \<and> b3 \<and> (b2 \<or> b1 \<and> b0))
    then Char b0 b1 b2 b3 b4 True b6 b7 else Char b0 b1 b2 b3 b4 b5 b6 b7)"
  by (cases b0; cases b1; cases b2; cases b3; cases b4; cases b5; cases b6; cases b7; simp add: lower_def char_of_def bit_0)

lemma is_space_bits [code]: "is_space (Char b0 b1 b2 b3 b4 b5 b6 b7) \<longleftrightarrow>
   (if b5 then \<not> b0 \<and> \<not> b1 \<and> \<not> b2 \<and> \<not> b3 \<and> \<not> b4 \<and> \<not> b6
    else \<not> b4 \<and> \<not> b6 \<and> \<not> b7 \<and> b3 \<and> (if b2 then \<not> b1 else b0 \<or> b1))"
  by (cases b0; cases b1; cases b2; cases b3; cases b4; cases b5; cases b6; cases b7; simp add: is_space_def)

lemma is_word_char_bits [code]: "is_word_char (Char b0 b1 b2 b3 b4 b5 b6 b7) \<longleftrightarrow> \<not> b7 \<and>
   (if b6 then (if b0 \<and> b1 \<and> b2 \<and> b3 \<and> b4 then \<not> b5 else (b0 \<or> b1 \<or> b2 \<or> b3 \<or> b4) \<and> \<not> (b4 \<and> b3 \<and> (b2 \<or> b1 \<and> b0)))
    else b5 \<and> b4 \<and> (if b3 then \<not> b2 \<and> \<not> b1 else True))"
  by (cases b0; cases b1; cases b2; cases b3; cases b4; cases b5; cases b6; cases b7; simp add: is_word_char_def)

lemma is_digit_bits [code]: "is_digit (Char b0 b1 b2 b3 b4 b5 b6 b7) \<longleftrightarrow> b5 \<and> b4 \<and> \<not> b6 \<and> \<not> b7 \<and> (if b3 then \<not> b2 \<and> \<not> b1 else True)"
  by (cases b0; cases b1; cases b2; cases b3; cases b4; cases b5; cases b6; cases b7; simp add: is_digit_def)

lemma is_word_lower [simp]: "is_word_char (lower c) = is_word_char c"
  by (auto simp: is_word_char_def lower_def Let_def)

section \<open>Keywords\<close>

text \<open>A keyword at this place, in any case, up to a word boundary.\<close>

definition keyword_here :: "string \<Rightarrow> string \<Rightarrow> bool" where
  "keyword_here w s \<longleftrightarrow> map lower (take (length w) s) = w \<and> (case drop (length w) s of [] \<Rightarrow> True | c # _ \<Rightarrow> \<not> is_word_char c)"

definition starts_with_keyword :: "string list \<Rightarrow> string \<Rightarrow> bool" where
  "starts_with_keyword ws s \<longleftrightarrow> list_ex (\<lambda>w. keyword_here w (dropWhile is_space s)) ws"

fun contains_keyword_after :: "bool \<Rightarrow> string list \<Rightarrow> string \<Rightarrow> bool" where
  "contains_keyword_after prev ws [] = False"
| "contains_keyword_after prev ws (c # s) =
     (\<not> prev \<and> list_ex (\<lambda>w. keyword_here w (c # s)) ws \<or> contains_keyword_after (is_word_char c) ws s)"

definition contains_keyword :: "string list \<Rightarrow> string \<Rightarrow> bool" where
  "contains_keyword = contains_keyword_after False"

section \<open>Words\<close>

function words :: "string \<Rightarrow> string list" where
  "words [] = []"
| "words (c # s) =
     (if is_word_char c then map lower (c # takeWhile is_word_char s) # words (dropWhile is_word_char s) else words s)"
  by pat_completeness auto
termination
  by (relation "measure length") (auto simp: less_Suc_eq_le length_dropWhile_le)

definition first_word :: "string \<Rightarrow> string option" where
  "first_word s = (case dropWhile is_space s of
      [] \<Rightarrow> None
    | c # r \<Rightarrow> (if is_word_char c then Some (map lower (c # takeWhile is_word_char r)) else None))"

definition plain_word :: "string \<Rightarrow> bool" where
  "plain_word w \<longleftrightarrow> w \<noteq> [] \<and> list_all is_word_char w \<and> map lower w = w"

lemma dropWhile_head: "dropWhile P s = c # r \<Longrightarrow> \<not> P c"
  by (induction s) (auto split: if_splits)

lemma keyword_is_run:
  assumes "plain_word w"
  shows "keyword_here w s \<longleftrightarrow> map lower (takeWhile is_word_char s) = w"
proof
  assume "keyword_here w s"
  then have w: "map lower (take (length w) s) = w" "\<not> (\<exists>c r. drop (length w) s = c # r \<and> is_word_char c)"
    by (auto simp: keyword_here_def split: list.splits)
  have "list_all is_word_char (map lower (take (length w) s))" using assms w by (simp add: plain_word_def)
  then have all: "list_all is_word_char (take (length w) s)" by (simp add: list_all_iff)
  have "takeWhile is_word_char s = takeWhile is_word_char (take (length w) s @ drop (length w) s)" by simp
  also have "\<dots> = take (length w) s @ takeWhile is_word_char (drop (length w) s)"
    using all by (intro takeWhile_append2) (simp add: list_all_iff)
  also have "takeWhile is_word_char (drop (length w) s) = []" using w(2) by (cases "drop (length w) s") auto
  finally show "map lower (takeWhile is_word_char s) = w" using w by simp
next
  assume run: "map lower (takeWhile is_word_char s) = w"
  have len: "length w = length (takeWhile is_word_char s)" using run by (metis length_map)
  have "take (length w) s = takeWhile is_word_char s" "drop (length w) s = dropWhile is_word_char s"
    using takeWhile_eq_take [of is_word_char s] dropWhile_eq_drop [of is_word_char s] by (simp_all only: len)
  then show "keyword_here w s"
    using run by (simp add: keyword_here_def split: list.splits) (metis dropWhile_head)
qed

lemma contains_skips_run:
  "list_all is_word_char r \<Longrightarrow> contains_keyword_after True ws (r @ s) = contains_keyword_after True ws s"
  by (induction r) simp_all

lemma contains_after_run:
  "(case s of [] \<Rightarrow> True | c # _ \<Rightarrow> \<not> is_word_char c) \<Longrightarrow> list_all plain_word ws \<Longrightarrow>
     contains_keyword_after True ws s = contains_keyword_after False ws s"
proof (cases s)
  case (Cons c r)
  assume "case s of [] \<Rightarrow> True | c # _ \<Rightarrow> \<not> is_word_char c" and ws: "list_all plain_word ws"
  then have "takeWhile is_word_char s = []" using Cons by simp
  then have "\<not> list_ex (\<lambda>w. keyword_here w s) ws"
    using ws keyword_is_run by (fastforce simp: list_all_iff list_ex_iff plain_word_def)
  then show ?thesis using Cons by simp
qed simp

lemma contains_is_word:
  assumes "list_all plain_word ws"
  shows "contains_keyword ws s \<longleftrightarrow> set (words s) \<inter> set ws \<noteq> {}"
proof (induction s rule: words.induct)
  case (2 c s)
  show ?case
  proof (cases "is_word_char c")
    case True
    let ?run = "takeWhile is_word_char s" and ?rest = "dropWhile is_word_char s"
    have "contains_keyword_after True ws s = contains_keyword_after True ws (?run @ ?rest)" by simp
    also have "\<dots> = contains_keyword_after True ws ?rest"
      by (intro contains_skips_run) (auto simp: list_all_iff dest: set_takeWhileD)
    also have "\<dots> = contains_keyword ws ?rest"
      unfolding contains_keyword_def
      by (intro contains_after_run [OF _ assms]) (auto split: list.splits dest: dropWhile_head)
    finally have rest: "contains_keyword_after True ws s = contains_keyword ws ?rest" .
    have "list_ex (\<lambda>w. keyword_here w (c # s)) ws \<longleftrightarrow> map lower (c # ?run) \<in> set ws"
      using assms keyword_is_run [of _ "c # s"] True by (auto simp: list_ex_iff list_all_iff)
    then show ?thesis using True rest 2 by (auto simp: contains_keyword_def)
  next
    case False
    then have "\<not> list_ex (\<lambda>w. keyword_here w (c # s)) ws"
      using assms keyword_is_run [of _ "c # s"] by (auto simp: list_ex_iff list_all_iff plain_word_def)
    then show ?thesis using False 2 by (simp add: contains_keyword_def)
  qed
qed (simp add: contains_keyword_def)

lemma starts_is_first_word:
  assumes "list_all plain_word ws"
  shows "starts_with_keyword ws s \<longleftrightarrow> (\<exists>w \<in> set ws. first_word s = Some w)"
proof -
  obtain t where t: "dropWhile is_space s = t" by blast
  have "starts_with_keyword ws s \<longleftrightarrow> (\<exists>w \<in> set ws. map lower (takeWhile is_word_char t) = w)"
    using assms keyword_is_run [of _ t] by (auto simp: starts_with_keyword_def t list_ex_iff list_all_iff)
  also have "\<dots> \<longleftrightarrow> (\<exists>w \<in> set ws. first_word s = Some w)"
    using assms by (cases t) (auto simp: first_word_def t list_all_iff plain_word_def)
  finally show ?thesis .
qed

section \<open>Trimming and case\<close>

definition upper :: "char \<Rightarrow> char" where
  "upper c = (let n = (of_char c :: nat) in if 97 \<le> n \<and> n \<le> 122 then char_of (n - 32) else c)"

definition trim :: "string \<Rightarrow> string" where
  "trim s = rev (dropWhile is_space (rev (dropWhile is_space s)))"

lemma length_dropWhile_rev: "length (rev (dropWhile P (rev s))) \<le> length s"
  using length_dropWhile_le [of P "rev s"] by simp

lemma length_trim: "length (trim s) \<le> length s"
  using length_dropWhile_rev [of is_space "dropWhile is_space s"] length_dropWhile_le [of is_space s]
  by (simp add: trim_def)

end
