(* ===== verification/ColType.thy ===== *)
theory ColType
  imports JsValue Lexical "HOL-Library.Word"
begin

text \<open>
  The type system of a projected column: \<open>src/scp/coltype.ts\<close>.  A declared SQL type is reduced to a
  token, classified twice (the scalar of the behaviour contract and the class its cells are
  materialised to), and a cell the driver returned is materialised.  The bounds of \<open>checkI64\<close> are those
  of a 64-bit word.
\<close>

section \<open>The type token\<close>

text \<open>\<open>/\\(.*\\)/\<close>: from the first parenthesis that closes on its line to the last that does.\<close>

definition is_newline :: "char \<Rightarrow> bool" where
  "is_newline c \<longleftrightarrow> of_char c \<in> {10 :: nat, 13}"

fun strip_parens :: "string \<Rightarrow> string" where
  "strip_parens [] = []"
| "strip_parens (c # s) =
     (if c = CHR ''('' \<and> CHR '')'' \<in> set (takeWhile (\<lambda>x. \<not> is_newline x) s)
      then rev (takeWhile (\<lambda>x. x \<noteq> CHR '')'') (rev (takeWhile (\<lambda>x. \<not> is_newline x) s))) @ dropWhile (\<lambda>x. \<not> is_newline x) s
      else c # strip_parens s)"

text \<open>One of the words \<open>UNSIGNED\<close>, \<open>ZEROFILL\<close>, \<open>PRECISION\<close>, \<open>NOT NULL\<close>, \<open>NULL\<close> up to a word boundary, removed.\<close>

definition match_literal :: "string \<Rightarrow> string \<Rightarrow> string option" where
  "match_literal w s = (if take (length w) s = w \<and> w \<noteq> [] \<and> (case drop (length w) s of [] \<Rightarrow> True | c # _ \<Rightarrow> \<not> is_word_char c)
     then Some (drop (length w) s) else None)"

definition match_not_null :: "string \<Rightarrow> string option" where
  "match_not_null s = (if take 3 s = ''NOT'' \<and> dropWhile is_space (drop 3 s) \<noteq> drop 3 s
     then match_literal ''NULL'' (dropWhile is_space (drop 3 s)) else None)"

definition match_qualifier :: "string \<Rightarrow> string option" where
  "match_qualifier s = (case match_literal ''UNSIGNED'' s of Some r \<Rightarrow> Some r
     | None \<Rightarrow> (case match_literal ''ZEROFILL'' s of Some r \<Rightarrow> Some r
     | None \<Rightarrow> (case match_literal ''PRECISION'' s of Some r \<Rightarrow> Some r
     | None \<Rightarrow> (case match_not_null s of Some r \<Rightarrow> Some r
     | None \<Rightarrow> match_literal ''NULL'' s))))"

lemma match_literal_shorter: "match_literal w s = Some r \<Longrightarrow> length r < length s"
  by (auto simp: match_literal_def split: if_splits) (metis diff_less length_greater_0_conv take_eq_Nil)

lemma match_qualifier_shorter: "match_qualifier s = Some r \<Longrightarrow> length r < length s"
proof -
  have nn: "match_not_null s = Some r \<Longrightarrow> length r < length s" for r
    using length_dropWhile_le [of is_space "drop 3 s"]
    by (auto simp: match_not_null_def split: if_splits dest!: match_literal_shorter)
  show "match_qualifier s = Some r \<Longrightarrow> length r < length s"
    by (auto simp: match_qualifier_def split: option.splits dest: match_literal_shorter nn)
qed

function strip_qualifiers :: "bool \<Rightarrow> string \<Rightarrow> string" where
  "strip_qualifiers prev [] = []"
| "strip_qualifiers prev (c # s) =
     (case (if prev then None else match_qualifier (c # s)) of
        Some r \<Rightarrow> strip_qualifiers True r
      | None \<Rightarrow> c # strip_qualifiers (is_word_char c) s)"
  by pat_completeness auto
termination
  by (relation "measure (\<lambda>(_, s). length s)") (auto split: if_splits dest!: match_qualifier_shorter)

fun collapse_spaces :: "bool \<Rightarrow> string \<Rightarrow> string" where
  "collapse_spaces in_run [] = []"
| "collapse_spaces in_run (c # s) =
     (if is_space c then (if in_run then collapse_spaces True s else CHR '' '' # collapse_spaces True s)
      else c # collapse_spaces False s)"

definition normalizeSqlTypeToken :: "string \<Rightarrow> string" where
  "normalizeSqlTypeToken t = trim (collapse_spaces False (strip_qualifiers False (strip_parens (map upper (trim t)))))"

lemma length_strip_parens: "length (strip_parens s) \<le> length s"
proof (induction s)
  case (Cons c s)
  let ?l = "takeWhile (\<lambda>x. \<not> is_newline x) s" and ?r = "dropWhile (\<lambda>x. \<not> is_newline x) s"
  have "length (takeWhile (\<lambda>x. x \<noteq> CHR '')'') (rev ?l)) + length ?r \<le> length ?l + length ?r"
    using length_takeWhile_le [of "\<lambda>x. x \<noteq> CHR '')''" "rev ?l"] by simp
  also have "\<dots> = length s" by (metis length_append takeWhile_dropWhile_id)
  finally show ?case using Cons by simp
qed simp

lemma length_strip_qualifiers: "length (strip_qualifiers b s) \<le> length s"
proof (induction b s rule: strip_qualifiers.induct)
  case (2 prev c s)
  then show ?case
    using match_qualifier_shorter [of "c # s"] by (fastforce split: if_splits option.splits)
qed simp

lemma length_collapse: "length (collapse_spaces b s) \<le> length s"
  by (induction b s rule: collapse_spaces.induct) auto

lemma length_normalize: "length (normalizeSqlTypeToken t) \<le> length t"
proof -
  have "length (normalizeSqlTypeToken t) \<le> length (map upper (trim t))"
    unfolding normalizeSqlTypeToken_def
    by (meson length_trim length_collapse length_strip_qualifiers length_strip_parens order_trans)
  then show ?thesis using length_trim [of t] by simp
qed

definition sqlTypeIsNotNull :: "string \<Rightarrow> bool" where
  "sqlTypeIsNotNull t = (let s = map upper t in
     \<exists>i < length s. (i = 0 \<or> \<not> is_word_char (s ! (i - 1))) \<and> match_not_null (drop i s) \<noteq> None)"

section \<open>The closed sets of types\<close>

definition int_types :: "string list" where
  "int_types = [''INTEGER'', ''INT'', ''BIGINT'', ''SMALLINT'', ''TINYINT'', ''MEDIUMINT'', ''INT2'', ''INT4'', ''INT8'',
     ''SERIAL'', ''SERIAL4'', ''BIGSERIAL'', ''SERIAL8'', ''SMALLSERIAL'', ''SERIAL2'']"

definition float_types :: "string list" where
  "float_types = [''REAL'', ''FLOAT'', ''DOUBLE'', ''FLOAT4'', ''FLOAT8'']"

definition decimal_types :: "string list" where
  "decimal_types = [''DECIMAL'', ''NUMERIC'', ''MONEY'']"

definition text_types :: "string list" where
  "text_types = [''TEXT'', ''VARCHAR'', ''CHAR'', ''CHARACTER'', ''CHARACTER VARYING'', ''CLOB'', ''UUID'']"

definition bool_types :: "string list" where
  "bool_types = [''BOOLEAN'', ''BOOL'']"

definition date_types :: "string list" where
  "date_types = [''DATE'', ''TIMESTAMP'', ''TIMESTAMPTZ'', ''DATETIME'', ''TIME'']"

definition json_types :: "string list" where
  "json_types = [''JSON'', ''JSONB'']"

lemmas type_sets = int_types_def float_types_def decimal_types_def text_types_def bool_types_def date_types_def json_types_def

datatype bc_scalar = BcString | BcInt | BcFloat | BcBool | BcNull

definition sqlTypeToBcScalar :: "string \<Rightarrow> scp_error + bc_scalar" where
  "sqlTypeToBcScalar sqlType = (let t = normalizeSqlTypeToken sqlType in
     if t \<in> set int_types then Inr BcInt
     else if t \<in> set float_types then Inr BcFloat
     else if t \<in> set (decimal_types @ text_types @ date_types @ json_types) then Inr BcString
     else if t \<in> set bool_types then Inr BcBool
     else Inl (UnknownSqlType sqlType))"

datatype materialize_class = MInt | MDate | MBool | MPass

text \<open>\<open>/^(.+?)\\s*\\[\\s*\\]$/\<close> on the token.\<close>

definition element_of_token :: "string \<Rightarrow> string option" where
  "element_of_token t = (case rev t of
      CHR '']'' # r1 \<Rightarrow> (case dropWhile is_space r1 of
        CHR ''['' # r2 \<Rightarrow> (if dropWhile is_space r2 = [] then None else Some (trim (rev r2)))
      | _ \<Rightarrow> None)
    | _ \<Rightarrow> None)"

definition arrayElementType :: "string \<Rightarrow> string option" where
  "arrayElementType sqlType = element_of_token (normalizeSqlTypeToken sqlType)"

lemma element_shorter: "element_of_token t = Some e \<Longrightarrow> length e < length t"
proof -
  assume e: "element_of_token t = Some e"
  then obtain r1 where r1: "rev t = CHR '']'' # r1" by (auto simp: element_of_token_def split: list.splits char.splits bool.splits)
  obtain r2 where r2: "dropWhile is_space r1 = CHR ''['' # r2" "e = trim (rev r2)"
    using e r1 by (auto simp: element_of_token_def split: list.splits char.splits bool.splits if_splits)
  have "length t = Suc (length r1)" using r1 by (metis length_Cons length_rev)
  moreover have "Suc (length r2) \<le> length r1" using r2(1) length_dropWhile_le [of is_space r1] by simp
  ultimately show ?thesis using r2(2) length_trim [of "rev r2"] by simp
qed

function sqlTypeToMaterializeClass :: "string \<Rightarrow> scp_error + materialize_class" where
  "sqlTypeToMaterializeClass sqlType = (let t = normalizeSqlTypeToken sqlType in
     case arrayElementType t of
       Some element \<Rightarrow> bind_r (sqlTypeToMaterializeClass element) (\<lambda>_. Inr MPass)
     | None \<Rightarrow>
         if t \<in> set int_types then Inr MInt
         else if t \<in> set bool_types then Inr MBool
         else if t \<in> set date_types then Inr MDate
         else if t \<in> set (float_types @ decimal_types @ text_types @ json_types) then Inr MPass
         else Inl (UnknownSqlType sqlType))"
  by pat_completeness auto
termination
proof (relation "measure length")
  fix sqlType t element
  assume "t = normalizeSqlTypeToken sqlType" "arrayElementType t = Some element"
  then have "length element < length (normalizeSqlTypeToken t)" by (simp add: arrayElementType_def element_shorter)
  also have "\<dots> \<le> length sqlType"
    using length_normalize [of t] length_normalize [of sqlType] \<open>t = _\<close> by simp
  finally show "(element, sqlType) \<in> measure length" by simp
qed simp

declare sqlTypeToMaterializeClass.simps [simp del]

definition materializeClassOrUndefined :: "string \<Rightarrow> materialize_class option" where
  "materializeClassOrUndefined t = (case sqlTypeToMaterializeClass t of Inl _ \<Rightarrow> None | Inr k \<Rightarrow> Some k)"

definition keyArrayElemScalar :: "string \<Rightarrow> scp_error + bc_scalar" where
  "keyArrayElemScalar t = bind_r (sqlTypeToMaterializeClass t) (\<lambda>k. case k of
      MInt \<Rightarrow> Inr BcInt | MDate \<Rightarrow> Inr BcString | MBool \<Rightarrow> Inr BcBool
    | MPass \<Rightarrow> bind_r (sqlTypeToBcScalar t) (\<lambda>s. Inr (if s = BcFloat then BcFloat else BcString)))"

definition scalar_fits :: "materialize_class \<Rightarrow> bc_scalar \<Rightarrow> bool" where
  "scalar_fits k s \<longleftrightarrow> (case k of MInt \<Rightarrow> s = BcInt | MBool \<Rightarrow> s = BcBool | MDate \<Rightarrow> s = BcString
     | MPass \<Rightarrow> s = BcFloat \<or> s = BcString)"

text \<open>
  The two classifications of a declared type agree: an integer, boolean or date column has the
  scalar its materialised cells have, and a type outside the closed set is refused by both; only array
  types differ, which have a materialisation and no scalar.
\<close>

theorem classifications_agree:
  "(case arrayElementType (normalizeSqlTypeToken t) of
      Some element \<Rightarrow> (isl (sqlTypeToMaterializeClass t) \<longleftrightarrow> isl (sqlTypeToMaterializeClass element))
    | None \<Rightarrow> (case (sqlTypeToMaterializeClass t, sqlTypeToBcScalar t) of
        (Inr k, Inr s) \<Rightarrow> scalar_fits k s \<and> keyArrayElemScalar t = Inr s
      | (Inl e, Inl e') \<Rightarrow> e = UnknownSqlType t \<and> e' = e
      | _ \<Rightarrow> False))"
proof (cases "arrayElementType (normalizeSqlTypeToken t)")
  case None
  obtain n where n: "normalizeSqlTypeToken t = n" by blast
  have k: "sqlTypeToMaterializeClass t =
      (if n \<in> set int_types then Inr MInt else if n \<in> set bool_types then Inr MBool
       else if n \<in> set date_types then Inr MDate
       else if n \<in> set (float_types @ decimal_types @ text_types @ json_types) then Inr MPass
       else Inl (UnknownSqlType t))"
    using None n by (simp add: sqlTypeToMaterializeClass.simps [of t])
  have disjoint: "set int_types \<inter> set (float_types @ decimal_types @ text_types @ date_types @ json_types @ bool_types) = {}"
      "set float_types \<inter> set (decimal_types @ text_types @ date_types @ json_types @ bool_types) = {}"
      "set bool_types \<inter> set (decimal_types @ text_types @ date_types @ json_types) = {}"
      "set date_types \<inter> set (decimal_types @ text_types @ json_types) = {}"
    by (simp_all add: type_sets)
  have b: "sqlTypeToBcScalar t =
      (if n \<in> set int_types then Inr BcInt else if n \<in> set float_types then Inr BcFloat
       else if n \<in> set (decimal_types @ text_types @ date_types @ json_types) then Inr BcString
       else if n \<in> set bool_types then Inr BcBool else Inl (UnknownSqlType t))"
    using n by (simp add: sqlTypeToBcScalar_def)
  have none: "arrayElementType n = None" using None n by simp
  consider "n \<in> set int_types" | "n \<in> set bool_types" | "n \<in> set date_types" | "n \<in> set float_types"
    | "n \<in> set (decimal_types @ text_types @ json_types)"
    | "n \<notin> set (int_types @ bool_types @ date_types @ float_types @ decimal_types @ text_types @ json_types)"
    by auto
  then show ?thesis
    using disjoint by cases (auto simp: n none k b keyArrayElemScalar_def scalar_fits_def disjoint_iff)
next
  case (Some element)
  then show ?thesis
    by (cases "sqlTypeToMaterializeClass element") (simp_all add: sqlTypeToMaterializeClass.simps [of t])
qed

lemma array_types_have_no_scalar:
  "sqlTypeToMaterializeClass ''integer[]'' = Inr MPass \<and> sqlTypeToBcScalar ''integer[]'' = Inl (UnknownSqlType ''integer[]'')"
  by code_simp

lemma token_examples:
  "map normalizeSqlTypeToken [''decimal(10, 2) not  null'', ''Double Precision'', ''int(11) unsigned'', ''varchar(255)[]'']
   = [''DECIMAL'', ''DOUBLE'', ''INT'', ''VARCHAR[]'']"
  by code_simp

section \<open>Materialising a cell\<close>

definition I64_MIN :: int where "I64_MIN = - (2 ^ 63)"
definition I64_MAX :: int where "I64_MAX = 2 ^ 63 - 1"

definition checkI64 :: "int \<Rightarrow> scp_error + int" where
  "checkI64 v = (if v < I64_MIN \<or> v > I64_MAX then Inl (BadCell ''i64'') else Inr v)"

text \<open>\<open>/^-?\\d+$/\<close> and \<open>BigInt\<close> of a text that matches it.\<close>

definition digit_value :: "char \<Rightarrow> int" where
  "digit_value c = int (of_char c) - 48"

definition parse_nat :: "string \<Rightarrow> int" where
  "parse_nat ds = foldl (\<lambda>n c. 10 * n + digit_value c) 0 ds"

definition parse_int :: "string \<Rightarrow> int option" where
  "parse_int s =
     (if s \<noteq> [] \<and> hd s = CHR ''-'' then (if tl s \<noteq> [] \<and> list_all is_digit (tl s) then Some (- parse_nat (tl s)) else None)
      else if s \<noteq> [] \<and> list_all is_digit s then Some (parse_nat s) else None)"

definition parse_bool :: "string \<Rightarrow> bool option" where
  "parse_bool v = (let s = map lower (trim v) in
     if s \<in> {''t'', ''true'', ''1''} then Some True else if s \<in> {''f'', ''false'', ''0''} then Some False else None)"

definition materializeCell :: "jsval \<Rightarrow> materialize_class \<Rightarrow> scp_error + jsval" where
  "materializeCell v k = (if v = JNull \<or> v = JUndef then Inr v else (case k of
      MInt \<Rightarrow> (case v of
          JBig i \<Rightarrow> bind_r (checkI64 i) (\<lambda>i. Inr (JBig i))
        | JStr s \<Rightarrow> (case parse_int s of
            None \<Rightarrow> Inl (BadCell ''int text'')
          | Some i \<Rightarrow> bind_r (checkI64 i) (\<lambda>i. Inr (JBig i)))
        | JInt i \<Rightarrow> (if \<bar>i\<bar> \<le> 2 ^ 53 - 1 then Inr (JBig i) else Inl (BadCell ''unsafe number''))
        | _ \<Rightarrow> Inl (BadCell ''int''))
    | MDate \<Rightarrow> (case v of JStr s \<Rightarrow> Inr (JStr s) | JDate iso_text _ \<Rightarrow> Inr (JStr iso_text) | _ \<Rightarrow> Inl (BadCell ''date''))
    | MBool \<Rightarrow> (case v of
          JBool b \<Rightarrow> Inr (JBool b)
        | JInt i \<Rightarrow> Inr (JBool (i \<noteq> 0))
        | JFrac _ \<Rightarrow> Inr (JBool True)
        | JNonFin _ \<Rightarrow> Inr (JBool True)
        | JBig i \<Rightarrow> Inr (JBool (i \<noteq> 0))
        | JStr s \<Rightarrow> (case parse_bool s of Some b \<Rightarrow> Inr (JBool b) | None \<Rightarrow> Inl (BadCell ''bool''))
        | _ \<Rightarrow> Inl (BadCell ''bool''))
    | MPass \<Rightarrow> Inr v))"

lemma i64_range: "sint (word_of_int i :: 64 word) = i \<longleftrightarrow> I64_MIN \<le> i \<and> i \<le> I64_MAX"
proof -
  have "sint (word_of_int i :: 64 word) = signed_take_bit 63 i"
    by (simp add: sint_sbintrunc')
  then show ?thesis
    by (auto simp: I64_MIN_def I64_MAX_def signed_take_bit_int_eq_self_iff)
qed

lemma parse_nat_snoc: "parse_nat (ds @ [c]) = 10 * parse_nat ds + digit_value c"
  by (simp add: parse_nat_def)

lemma digit_value_digit: "a < 10 \<Longrightarrow> digit_value (digit a) = int a"
  by (simp add: digit_value_def digit_code)

lemma parse_show_nat: "parse_nat (show_nat n) = int n"
proof (induction n rule: show_nat.induct)
  case (1 n)
  show ?case
  proof (cases "n < 10")
    case True
    then show ?thesis by (simp add: show_nat.simps [of n] parse_nat_def digit_value_digit)
  next
    case False
    then have "parse_nat (show_nat n) = 10 * int (n div 10) + int (n mod 10)"
      using 1 by (simp add: show_nat.simps [of n] parse_nat_snoc digit_value_digit)
    also have "\<dots> = int n" by presburger
    finally show ?thesis .
  qed
qed

lemma show_nat_all_digits: "list_all is_digit (show_nat n)"
  using show_nat_digits [of n] by (simp add: list_all_iff)

lemma parse_show_int: "parse_int (show_int i) = Some i"
proof (cases "i < 0")
  case True
  then show ?thesis by (simp add: show_int_def parse_int_def show_nat_all_digits parse_show_nat)
next
  case False
  obtain c ds where c: "show_nat (nat i) = c # ds" by (cases "show_nat (nat i)") auto
  then have "is_digit c" "c \<noteq> CHR ''-''" using show_nat_all_digits [of "nat i"] minus_not_digit by auto
  then show ?thesis
    using False c show_nat_all_digits [of "nat i"] parse_show_nat [of "nat i"]
    by (simp add: show_int_def parse_int_def)
qed

text \<open>
  An integer cell is exact or refused: returned as a decimal text or a \<open>bigint\<close> it is that integer
  exactly when it fits a signed 64-bit word, returned as a number exactly when it is a safe integer,
  and in no other case is another integer produced.
\<close>

theorem int_cells_are_exact:
  "materializeCell (JStr (show_int i)) MInt
      = (if sint (word_of_int i :: 64 word) = i then Inr (JBig i) else Inl (BadCell ''i64''))
   \<and> materializeCell (JBig i) MInt = materializeCell (JStr (show_int i)) MInt
   \<and> materializeCell (JInt i) MInt = (if \<bar>i\<bar> < 2 ^ 53 then Inr (JBig i) else Inl (BadCell ''unsafe number''))"
  unfolding i64_range by (auto simp: materializeCell_def parse_show_int checkI64_def)

section \<open>Resolving a declared column\<close>

type_synonym column_map = "(string \<times> (string \<times> string) list) list"
type_synonym column_resolver = "string \<Rightarrow> string \<Rightarrow> scp_error + string"

definition columnTypeResolverFromColumnMap :: "column_map \<Rightarrow> column_resolver" where
  "columnTypeResolverFromColumnMap columnTypes table column = (case map_of columnTypes table of
      None \<Rightarrow> Inl (UndeclaredTable table)
    | Some cols \<Rightarrow> (case map_of cols column of
        None \<Rightarrow> Inl (UndeclaredColumn table column)
      | Some sqlType \<Rightarrow> Inr sqlType))"

definition materializeResolverFromColumnMap :: "column_map \<Rightarrow> string \<Rightarrow> string \<Rightarrow> materialize_class option" where
  "materializeResolverFromColumnMap columnTypes table column =
     (case map_of columnTypes table of None \<Rightarrow> None
      | Some cols \<Rightarrow> (case map_of cols column of None \<Rightarrow> None | Some t \<Rightarrow> materializeClassOrUndefined t))"

definition failClosedMaterializeResolverFromColumnMap :: "column_map \<Rightarrow> string \<Rightarrow> string \<Rightarrow> scp_error + materialize_class" where
  "failClosedMaterializeResolverFromColumnMap columnTypes table column =
     bind_r (columnTypeResolverFromColumnMap columnTypes table column) sqlTypeToMaterializeClass"

text \<open>The fail-closed resolver is the lenient one, except that it never leaves a column out.\<close>

lemma fail_closed_agrees:
  "(case failClosedMaterializeResolverFromColumnMap m table column of
      Inr k \<Rightarrow> materializeResolverFromColumnMap m table column = Some k
    | Inl e \<Rightarrow> materializeResolverFromColumnMap m table column = None)"
  by (auto simp: failClosedMaterializeResolverFromColumnMap_def columnTypeResolverFromColumnMap_def
      materializeResolverFromColumnMap_def materializeClassOrUndefined_def split: option.splits sum.splits)

end
