(* ===== verification/Projection.thy ===== *)
theory Projection
  imports ColType
begin

text \<open>
  \<open>src/scp/makesql/outtype.ts\<close>: the columns of a SELECT list, read back from their texts, and the row type
  and materialisation classes derived from them.
\<close>

section \<open>Reading a projected column\<close>

datatype projection_entry =
    ColumnEntry (underlying: string) (outputKey: string) (qualifier: "string option")
  | ComputedEntry string

definition is_identifier :: "string \<Rightarrow> bool" where
  "is_identifier s \<longleftrightarrow> s \<noteq> [] \<and> list_all is_word_char s \<and> \<not> is_digit (hd s)"

definition trim_end :: "string \<Rightarrow> string" where
  "trim_end s = rev (dropWhile is_space (rev s))"

text \<open>\<open>/^(.*?)\\s+AS\\s+(identifier)$/i\<close>, read from the end.\<close>

definition split_alias :: "string \<Rightarrow> (string \<times> string) option" where
  "split_alias raw =
     (let alias = rev (takeWhile is_word_char (rev raw));
          r0 = rev (dropWhile is_word_char (rev raw));
          r1 = trim_end r0;
          r2 = take (length r1 - 2) r1;
          r3 = trim_end r2
      in if is_identifier alias \<and> r1 \<noteq> r0 \<and> map upper (drop (length r1 - 2) r1) = ''AS'' \<and> r3 \<noteq> r2
            \<and> list_all (\<lambda>c. \<not> is_newline c) r3
         then Some (trim r3, alias) else None)"

text \<open>\<open>/^(?:(identifier)\\.)?(identifier)$/\<close>.\<close>

definition column_ref :: "string \<Rightarrow> (string option \<times> string) option" where
  "column_ref expr =
     (if is_identifier expr then Some (None, expr)
      else (let q = takeWhile (\<lambda>c. c \<noteq> CHR ''.'') expr; c = drop (Suc (length q)) expr
            in if is_identifier q \<and> is_identifier c \<and> length q < length expr then Some (Some q, c) else None))"

definition ends_with :: "string \<Rightarrow> string \<Rightarrow> bool" where
  "ends_with p s \<longleftrightarrow> starts_with (rev p) (rev s)"

definition parseProjectionColumn :: "string \<Rightarrow> string \<Rightarrow> string \<Rightarrow> scp_error + projection_entry" where
  "parseProjectionColumn col table at =
     (let raw = trim col in
      if raw = ''*'' \<or> ends_with ''.*'' raw then Inl (WildcardProjection table raw)
      else (let (expr, alias) = (case split_alias raw of Some (e, al) \<Rightarrow> (e, Some al) | None \<Rightarrow> (raw, None))
            in case column_ref expr of
                 Some (q, u) \<Rightarrow> Inr (ColumnEntry u (case alias of None \<Rightarrow> u | Some al \<Rightarrow> al) q)
               | None \<Rightarrow> Inr (ComputedEntry raw)))"

section \<open>Texts without the characters that matter\<close>

lemma word_not_space: "is_word_char c \<Longrightarrow> \<not> is_space c"
  by (auto simp: is_word_char_def is_space_def Let_def)

lemma word_not_newline: "is_word_char c \<Longrightarrow> \<not> is_newline c"
  by (auto simp: is_word_char_def is_newline_def Let_def)

lemma space_char: "is_space CHR '' ''" "\<not> is_word_char CHR '' ''" "\<not> is_word_char CHR ''.''" "\<not> is_space CHR ''.''"
    "\<not> is_newline CHR ''.''" "is_word_char CHR ''S''" "is_word_char CHR ''A''" "\<not> is_space CHR ''S''"
  by (simp_all add: is_space_def is_word_char_def is_newline_def)

lemma identifier_words: "is_identifier s \<Longrightarrow> c \<in> set s \<Longrightarrow> is_word_char c"
  by (auto simp: is_identifier_def list_all_iff)

lemma takeWhile_identifier: "is_identifier s \<Longrightarrow> takeWhile is_word_char (rev s @ r) = rev s @ takeWhile is_word_char r"
  by (intro takeWhile_append2) (auto dest: identifier_words)

lemma dropWhile_identifier: "is_identifier s \<Longrightarrow> dropWhile is_word_char (rev s @ r) = dropWhile is_word_char r"
  by (intro dropWhile_append2) (auto dest: identifier_words)

lemma last_not_space: "is_identifier s \<Longrightarrow> s \<noteq> [] \<and> \<not> is_space (last s)"
  using word_not_space identifier_words [of s "last s"] by (auto simp: is_identifier_def)

lemma trim_end_keeps: "s \<noteq> [] \<Longrightarrow> \<not> is_space (last s) \<Longrightarrow> trim_end s = s"
  by (cases s rule: rev_cases) (simp_all add: trim_end_def)

lemma trim_keeps: "s \<noteq> [] \<Longrightarrow> \<not> is_space (last s) \<Longrightarrow> \<not> is_space (hd s) \<Longrightarrow> trim s = s"
  using trim_end_keeps [of s] by (cases s) (simp_all add: trim_def trim_end_def)

section \<open>Round trip\<close>

definition render_column :: "string option \<Rightarrow> string \<Rightarrow> string" where
  "render_column q u = (case q of None \<Rightarrow> u | Some t \<Rightarrow> t @ ''.'' @ u)"

definition render_entry :: "projection_entry \<Rightarrow> string" where
  "render_entry e = (case e of
      ColumnEntry u key q \<Rightarrow> render_column q u @ (if key = u then [] else '' AS '' @ key)
    | ComputedEntry text \<Rightarrow> text)"

definition wf_column :: "string option \<Rightarrow> string \<Rightarrow> bool" where
  "wf_column q u \<longleftrightarrow> is_identifier u \<and> (case q of None \<Rightarrow> True | Some t \<Rightarrow> is_identifier t)"

lemma render_column_facts:
  assumes "wf_column q u"
  shows "render_column q u \<noteq> []" and "\<not> is_space (hd (render_column q u))" and "\<not> is_space (last (render_column q u))"
    and "list_all (\<lambda>c. \<not> is_newline c) (render_column q u)" and "column_ref (render_column q u) = Some (q, u)"
    and "last (render_column q u) \<noteq> CHR ''*''"
proof -
  have u: "is_identifier u" using assms by (simp add: wf_column_def)
  note words = identifier_words [OF u]
  have star: "last u \<noteq> CHR ''*''" using words [of "last u"] u by (auto simp: is_identifier_def is_word_char_def)
  have hd_u: "\<not> is_space (hd u)" using words [of "hd u"] word_not_space u by (auto simp: is_identifier_def)
  show "render_column q u \<noteq> []" "\<not> is_space (last (render_column q u))" "last (render_column q u) \<noteq> CHR ''*''"
    using last_not_space [OF u] star by (auto simp: render_column_def split: option.splits)
  show "\<not> is_space (hd (render_column q u))"
  proof (cases q)
    case (Some t)
    then have "is_identifier t" using assms by (simp add: wf_column_def)
    then show ?thesis using Some identifier_words [of t "hd t"] word_not_space by (auto simp: render_column_def is_identifier_def)
  qed (simp add: render_column_def hd_u)
  show "list_all (\<lambda>c. \<not> is_newline c) (render_column q u)"
    using assms by (auto simp: render_column_def list_all_iff wf_column_def space_char split: option.splits
        dest!: identifier_words dest: word_not_newline)
  show "column_ref (render_column q u) = Some (q, u)"
  proof (cases q)
    case None
    then show ?thesis using u by (simp add: render_column_def column_ref_def)
  next
    case (Some t)
    then have t: "is_identifier t" using assms by (simp add: wf_column_def)
    have "takeWhile (\<lambda>c. c \<noteq> CHR ''.'') (t @ CHR ''.'' # u) = t"
      using identifier_words [OF t] space_char(3) by (subst takeWhile_append2) auto
    moreover have "\<not> is_identifier (t @ CHR ''.'' # u)"
      using space_char(3) by (simp add: is_identifier_def)
    ultimately show ?thesis using Some t u by (simp add: render_column_def column_ref_def)
  qed
qed

lemma split_alias_render:
  assumes "wf_column q u" and key: "is_identifier key"
  shows "split_alias (render_column q u @ '' AS '' @ key) = Some (render_column q u, key)"
proof -
  let ?c = "render_column q u"
  note c = render_column_facts [OF assms(1)]
  have al: "rev (takeWhile is_word_char (rev (?c @ '' AS '' @ key))) = key"
    using takeWhile_identifier [OF key, of "rev '' AS '' @ rev ?c"] by (simp add: space_char)
  have r0: "rev (dropWhile is_word_char (rev (?c @ '' AS '' @ key))) = ?c @ '' AS ''"
    using dropWhile_identifier [OF key, of "rev '' AS '' @ rev ?c"] by (simp add: space_char)
  have r1: "trim_end (?c @ '' AS '') = ?c @ '' AS''"
    by (simp add: trim_end_def space_char)
  have up: "map upper ''AS'' = ''AS''" by code_simp
  have r3: "trim_end (?c @ '' '') = ?c"
    using trim_end_keeps [OF c(1,3)] by (simp add: trim_end_def space_char)
  show ?thesis
    using key r3 c(4) trim_keeps [OF c(1,3,2)] up
    unfolding split_alias_def Let_def al r0 r1 by simp
qed

lemma split_alias_plain:
  assumes "wf_column q u"
  shows "split_alias (render_column q u) = None"
proof -
  have u: "is_identifier u" using assms by (simp add: wf_column_def)
  have "rev (dropWhile is_word_char (rev (render_column q u))) = (case q of None \<Rightarrow> [] | Some t \<Rightarrow> t @ ''.'')"
    using dropWhile_identifier [OF u, of "[]"] dropWhile_identifier [OF u]
    by (simp add: render_column_def space_char split: option.splits)
  moreover have "trim_end (t @ ''.'') = t @ ''.''" for t by (simp add: trim_end_def space_char)
  moreover have "trim_end [] = []" by (simp add: trim_end_def)
  ultimately show ?thesis by (auto simp: split_alias_def Let_def split: option.splits)
qed

text \<open>
  A projected column is read back from its text: rendering a column, with its table and its alias
  or without, and parsing the text gives that column; only a wildcard is refused, wherever it stands.
\<close>

theorem projection_round_trip:
  assumes "wf_column q u" and "is_identifier key"
  shows "parseProjectionColumn (render_entry (ColumnEntry u key q)) table at = Inr (ColumnEntry u key q)
    \<and> parseProjectionColumn (t @ ''.*'') table at = Inl (WildcardProjection table (trim (t @ ''.*'')))"
proof -
  note c = render_column_facts [OF assms(1)]
  have u: "is_identifier u" using assms by (simp add: wf_column_def)
  let ?r = "render_entry (ColumnEntry u key q)"
  have facts: "?r \<noteq> []" "\<not> is_space (hd ?r)" "\<not> is_space (last ?r)" "last ?r \<noteq> CHR ''*''"
    using c last_not_space [OF assms(2)] identifier_words [OF assms(2), of "last key"]
    by (auto simp: render_entry_def space_char is_word_char_def)
  have tr: "trim ?r = ?r" using trim_keeps facts by blast
  have "\<not> (?r = ''*'' \<or> ends_with ''.*'' ?r)"
    using facts by (cases ?r rule: rev_cases) (auto simp: ends_with_def)
  then have "parseProjectionColumn ?r table at = Inr (ColumnEntry u key q)"
    using split_alias_render [OF assms] split_alias_plain [OF assms(1)] c(5) tr
    by (simp add: parseProjectionColumn_def) (auto simp: render_entry_def)
  moreover have "ends_with ''.*'' (trim (t @ ''.*''))"
  proof -
    have "\<not> is_space CHR ''*''" by (simp add: is_space_def)
    moreover obtain v where "dropWhile is_space (t @ ''.*'') = v @ ''.*''"
      by (cases "\<exists>x \<in> set t. \<not> is_space x")
        (force simp: dropWhile_append space_char)+
    ultimately show ?thesis by (simp add: trim_def ends_with_def)
  qed
  then have "parseProjectionColumn (t @ ''.*'') table at = Inl (WildcardProjection table (trim (t @ ''.*'')))"
    by (simp add: parseProjectionColumn_def)
  ultimately show ?thesis ..
qed

theorem projection_round_trip_witness:
  "parseProjectionColumn ''p.title AS name'' ''posts'' ''q'' = Inr (ColumnEntry ''title'' ''name'' (Some ''p''))"
proof -
  have "is_identifier ''title'' \<and> is_identifier ''p'' \<and> is_identifier ''name''" by code_simp
  then show ?thesis
    using projection_round_trip [of "Some ''p''" "''title''" "''name''" "''posts''" "''q''" "[]"]
    by (simp add: wf_column_def render_entry_def render_column_def)
qed

section \<open>The row of a SELECT\<close>

datatype portable = PScalar bc_scalar | PArr portable | POpt portable | PObj "(string \<times> portable) list"

type_synonym read_row = "(string \<times> portable) list \<times> (string \<times> materialize_class) list"

definition projected_type :: "string \<Rightarrow> scp_error + portable" where
  "projected_type sqlType =
     bind_r (case arrayElementType sqlType of
         Some element \<Rightarrow> bind_r (keyArrayElemScalar element) (\<lambda>s. Inr (PArr (PScalar s)))
       | None \<Rightarrow> bind_r (keyArrayElemScalar sqlType) (\<lambda>s. Inr (PScalar s)))
       (\<lambda>p. Inr (if sqlTypeIsNotNull sqlType then p else POpt p))"

definition read_column :: "string \<Rightarrow> column_resolver \<Rightarrow> string \<Rightarrow> read_row \<Rightarrow> string \<Rightarrow> scp_error + read_row" where
  "read_column table resolve at row col =
     bind_r (parseProjectionColumn col table at) (\<lambda>entry. case entry of
       ComputedEntry _ \<Rightarrow> Inr row
     | ColumnEntry u key q \<Rightarrow>
         bind_r (resolve (case q of None \<Rightarrow> table | Some t \<Rightarrow> t) u) (\<lambda>sqlType.
         bind_r (projected_type sqlType) (\<lambda>p.
         bind_r (sqlTypeToMaterializeClass sqlType) (\<lambda>k.
           Inr (obj_set (fst row) key p, if k = MPass then snd row else obj_set (snd row) key k)))))"

fun read_columns :: "string \<Rightarrow> column_resolver \<Rightarrow> string \<Rightarrow> read_row \<Rightarrow> string list \<Rightarrow> scp_error + read_row" where
  "read_columns table resolve at row [] = Inr row"
| "read_columns table resolve at row (c # cs) =
     bind_r (read_column table resolve at row c) (\<lambda>row'. read_columns table resolve at row' cs)"

definition deriveReadRow :: "string \<Rightarrow> string list \<Rightarrow> column_resolver \<Rightarrow> string \<Rightarrow> scp_error + portable \<times> (string \<times> materialize_class) list" where
  "deriveReadRow table projection resolve at =
     bind_r (read_columns table resolve at ([], []) projection) (\<lambda>(fields, ms). Inr (PArr (PObj fields), ms))"

text \<open>
  An output name that is projected twice keeps the type of the last column, and the materialisation
  class of an earlier one when the last column has none.
\<close>

lemma repeated_output_name_keeps_class:
  "deriveReadRow ''t'' [''a AS x'', ''b AS x''] (columnTypeResolverFromColumnMap [(''t'', [(''a'', ''int''), (''b'', ''text'')])]) []
   = Inr (PArr (PObj [(''x'', POpt (PScalar BcString))]), [(''x'', MInt)])"
  by code_simp

end
