(* ===== verification/RelationOp.thy ===== *)
theory RelationOp
  imports Leaves Projection
begin

text \<open>
  \<open>src/scp/relation.ts\<close>: the compilation of a relation declaration (with the relations chained on it) to
  the op that carries its one static batch statement, and the run of an op: key set, statement, guard,
  materialised children grouped by key.  The execute seam is the one of the leaves.
\<close>

section \<open>Declarations and ops\<close>

datatype relation_kind = BelongsTo | HasMany | HasOne

record decl_fields =
  d_name :: string
  d_kind :: relation_kind
  d_targetTable :: string
  d_select :: "string list"
  d_parentKey :: "string option"
  d_targetKey :: "string option"
  d_parentKeys :: "string list option"
  d_targetKeys :: "string list option"
  d_order :: "string option"
  d_limit :: jsval
  d_hardLimit :: jsval
  d_dialect :: "dialect option"
  d_connection :: "string option"

text \<open>No chained relations and an empty list of them are the same to the code.\<close>

datatype relation_decl = RelationDecl decl_fields "relation_decl list"

record op_fields =
  o_name :: string
  o_kind :: relation_kind
  o_parentKey :: "string option"
  o_targetKey :: "string option"
  o_parentKeys :: "string list option"
  o_targetKeys :: "string list option"
  o_dialect :: dialect
  o_connection :: "string option"
  o_sql :: string
  o_targetTable :: string
  o_select :: "string list"
  o_materializers :: "(string \<times> materialize_class) list"
  o_hardLimit :: "nat option"

datatype relation_op = RelationOp (op_of: op_fields) (childRelations: "relation_op list")

section \<open>Compilation\<close>

definition isCompositeDecl :: "decl_fields \<Rightarrow> scp_error + bool" where
  "isCompositeDecl f = (case (d_parentKeys f, d_targetKeys f) of
      (None, None) \<Rightarrow>
        (if d_parentKey f = None \<or> d_targetKey f = None then Inl (InvalidRelation (d_name f) ''single keys'') else Inr False)
    | (Some ps, Some ts) \<Rightarrow>
        (if length ps = 0 \<or> length ps \<noteq> length ts then Inl (InvalidRelation (d_name f) ''key lengths'')
         else if d_parentKey f \<noteq> None \<or> d_targetKey f \<noteq> None then Inl (InvalidRelation (d_name f) ''mixed keys'')
         else Inr True)
    | _ \<Rightarrow> Inl (InvalidRelation (d_name f) ''composite keys''))"

text \<open>\<open>pgTypeSpecimen\<close> of \<open>tx.ts\<close>: a value of the class of a declared type.\<close>

definition pgTypeSpecimen :: "string \<Rightarrow> scp_error + jsval" where
  "pgTypeSpecimen sqlType = bind_r (sqlTypeToMaterializeClass sqlType) (\<lambda>k. case k of
      MInt \<Rightarrow> Inr (JBig 0)
    | MBool \<Rightarrow> Inr (JBool False)
    | MDate \<Rightarrow> Inr (JDate ''1970-01-01T00:00:00.000Z'' ''Thu Jan 01 1970'')
    | MPass \<Rightarrow> bind_r (sqlTypeToBcScalar sqlType) (\<lambda>s. Inr (if s = BcFloat then JFrac ''0.5'' else JStr [])))"

definition specimen_type :: "column_resolver \<Rightarrow> string \<Rightarrow> string \<Rightarrow> scp_error + string" where
  "specimen_type resolve table k =
     bind_r (resolve table k) (\<lambda>t. bind_r (pgTypeSpecimen t) (\<lambda>v. Inr (inferPgElementType [v])))"

definition pgKeyTypesOf :: "decl_fields \<Rightarrow> string list \<Rightarrow> column_resolver option \<Rightarrow> scp_error + string list" where
  "pgKeyTypesOf f targetKeys resolver = (case resolver of
      None \<Rightarrow> Inl (InvalidRelation (d_name f) ''column types'')
    | Some resolve \<Rightarrow> map_r (specimen_type resolve (d_targetTable f)) targetKeys)"

definition decl_base :: "decl_fields \<Rightarrow> dialect \<Rightarrow> relation_base" where
  "decl_base f d = \<lparr>rdialect = d, rtable = d_targetTable f, rselect = join '', '' (d_select f), rconditions = [],
     rorder = (case d_order f of None \<Rightarrow> [] | Some t \<Rightarrow> t), rcasts = (\<lambda>_. None), rdefer = False, rkeyTypes = []\<rparr>"

definition per_parent_limit :: "decl_fields \<Rightarrow> int option" where
  "per_parent_limit f = (case d_limit f of JInt i \<Rightarrow> Some i | _ \<Rightarrow> None)"

definition placeholder_key :: "decl_fields \<Rightarrow> string" where
  "placeholder_key f = (case d_targetKey f of Some k \<Rightarrow> k | None \<Rightarrow> ''undefined'')"

definition compiledBatchSql :: "decl_fields \<Rightarrow> dialect \<Rightarrow> column_resolver option \<Rightarrow> scp_error + string" where
  "compiledBatchSql f d resolver = (case d_parentKeys f of
      Some _ \<Rightarrow>
        (let targetKeys = (case d_targetKeys f of Some ts \<Rightarrow> ts | None \<Rightarrow> []) in
         bind_r (if d = Postgres then pgKeyTypesOf f targetKeys resolver else Inr []) (\<lambda>tys.
         let b = (decl_base f d)\<lparr>rkeyTypes := tys\<rparr> in
         bind_r (case per_parent_limit f of
             Some lim \<Rightarrow> compileCompositeKeyStaticLimited b targetKeys lim
           | None \<Rightarrow> compileCompositeKeyStaticUnlimited b targetKeys) (\<lambda>node.
         bind_r (assemble node) (\<lambda>(s, _). Inr s))))
    | None \<Rightarrow>
        (let key = placeholder_key f in
         bind_r (case resolver of
             Some resolve \<Rightarrow> (if d = Postgres then bind_r (specimen_type resolve (d_targetTable f) key) (\<lambda>t. Inr (Some t)) else Inr None)
           | None \<Rightarrow> Inr None) (\<lambda>cast.
         let b = (case cast of Some t \<Rightarrow> (decl_base f d)\<lparr>rcasts := [key \<mapsto> t]\<rparr> | None \<Rightarrow> (decl_base f d)\<lparr>rdefer := True\<rparr>) in
         bind_r (case per_parent_limit f of
             Some lim \<Rightarrow> compileSingleKeyLimited b key [JNull] lim
           | None \<Rightarrow> compileSingleKeyUnlimited b key [JNull]) (\<lambda>node.
         bind_r (assemble node) (\<lambda>(s, _). Inr s)))))"

fun child_materializers :: "string \<Rightarrow> string \<Rightarrow> column_resolver \<Rightarrow> (string \<times> materialize_class) list \<Rightarrow> string list
    \<Rightarrow> scp_error + (string \<times> materialize_class) list" where
  "child_materializers table at resolve ms [] = Inr ms"
| "child_materializers table at resolve ms (c # cs) =
     bind_r (parseProjectionColumn c table at) (\<lambda>entry. case entry of
       ComputedEntry _ \<Rightarrow> child_materializers table at resolve ms cs
     | ColumnEntry u key q \<Rightarrow>
         bind_r (resolve (case q of None \<Rightarrow> table | Some t \<Rightarrow> t) u) (\<lambda>sqlType.
         bind_r (sqlTypeToMaterializeClass sqlType) (\<lambda>k.
           child_materializers table at resolve (if k = MPass then ms else obj_set ms key k) cs)))"

definition limit_checks :: "decl_fields \<Rightarrow> scp_error + unit" where
  "limit_checks f =
     (if d_kind f \<noteq> HasMany \<and> d_limit f \<noteq> JUndef then Inl (InvalidRelation (d_name f) ''limit kind'')
      else if d_limit f \<noteq> JUndef \<and> (case d_limit f of JInt i \<Rightarrow> i < 0 | _ \<Rightarrow> True) then Inl (InvalidRelation (d_name f) ''limit value'')
      else if d_limit f \<noteq> JUndef \<and> d_order f = None then Inl (InvalidRelation (d_name f) ''limit order'')
      else Inr ())"

definition effective_cap :: "limit_state \<Rightarrow> decl_fields \<Rightarrow> scp_error + nat option" where
  "effective_cap st f =
     (if d_kind f = HasMany \<and> d_limit f = JUndef then resolveHasManyHardLimit st (d_hardLimit f) JUndef else Inr None)"

definition op_record :: "decl_fields \<Rightarrow> dialect \<Rightarrow> bool \<Rightarrow> string \<Rightarrow> (string \<times> materialize_class) list \<Rightarrow> nat option \<Rightarrow> op_fields" where
  "op_record f d composite text ms cap =
     \<lparr>o_name = d_name f, o_kind = d_kind f,
      o_parentKey = (if composite then None else d_parentKey f), o_targetKey = (if composite then None else d_targetKey f),
      o_parentKeys = (if composite then d_parentKeys f else None), o_targetKeys = (if composite then d_targetKeys f else None),
      o_dialect = d, o_connection = d_connection f, o_sql = text, o_targetTable = d_targetTable f, o_select = d_select f,
      o_materializers = ms, o_hardLimit = cap\<rparr>"

definition decl_dialect :: "decl_fields \<Rightarrow> dialect" where
  "decl_dialect f = (case d_dialect f of Some d \<Rightarrow> d | None \<Rightarrow> Sqlite)"

definition inherit_dialect :: "dialect \<Rightarrow> relation_decl \<Rightarrow> relation_decl" where
  "inherit_dialect d c = (case c of RelationDecl f cs \<Rightarrow>
     RelationDecl (f\<lparr>d_dialect := Some (case d_dialect f of Some d' \<Rightarrow> d' | None \<Rightarrow> d)\<rparr>) cs)"

lemma size_inherit [simp]: "size (inherit_dialect d c) = size c"
  by (simp add: inherit_dialect_def split: relation_decl.splits)

function compileRelationOp :: "limit_state \<Rightarrow> column_resolver option \<Rightarrow> relation_decl \<Rightarrow> scp_error + relation_op" where
  "compileRelationOp st resolver (RelationDecl f children) =
     bind_r (limit_checks f) (\<lambda>_.
     bind_r (isCompositeDecl f) (\<lambda>composite.
     bind_r (compiledBatchSql f (decl_dialect f) resolver) (\<lambda>text.
     bind_r (case resolver of None \<Rightarrow> Inr []
         | Some resolve \<Rightarrow> child_materializers (d_targetTable f) (''relation '' @ squoted (d_name f)) resolve [] (d_select f)) (\<lambda>ms.
     bind_r (map_r (\<lambda>c. compileRelationOp st resolver (inherit_dialect (decl_dialect f) c)) children) (\<lambda>cs.
     bind_r (effective_cap st f) (\<lambda>cap.
       Inr (RelationOp (op_record f (decl_dialect f) composite text ms cap) cs)))))))"
  by pat_completeness auto
termination
  by (relation "measure (\<lambda>(_, _, decl). size decl)")
    (auto simp: less_Suc_eq_le dest!: size_list_mem [of _ _ size])

section \<open>The run of an op\<close>

definition parentKeyCols :: "op_fields \<Rightarrow> string list" where
  "parentKeyCols op = (case o_parentKeys op of Some ks \<Rightarrow> ks
     | None \<Rightarrow> [case o_parentKey op of Some k \<Rightarrow> k | None \<Rightarrow> ''undefined''])"

definition targetKeyCols :: "op_fields \<Rightarrow> string list" where
  "targetKeyCols op = (case o_targetKeys op of Some ks \<Rightarrow> ks
     | None \<Rightarrow> [case o_targetKey op of Some k \<Rightarrow> k | None \<Rightarrow> ''undefined''])"

definition relationGuard :: "op_fields \<Rightarrow> relation_guard option" where
  "relationGuard op = (case o_hardLimit op of None \<Rightarrow> None
     | Some c \<Rightarrow> Some \<lparr>guard_limit = int c, guard_model = Some (o_targetTable op), guard_relation = o_name op\<rparr>)"

definition bindKeys :: "op_fields \<Rightarrow> jsval list list \<Rightarrow> jsval list" where
  "bindKeys op tuples = (case o_parentKeys op of
      Some _ \<Rightarrow> [JStr (encodeJsonParam (o_dialect op) (JArr (map JArr tuples)))]
    | None \<Rightarrow> (let keys = map (\<lambda>t. js_nth t 0) tuples
        in [if o_dialect op = Postgres then JArr keys else JStr (encodeJsonParam (o_dialect op) (JArr keys))]))"

definition materializeRow :: "(string \<times> materialize_class) list \<Rightarrow> jsobj \<Rightarrow> scp_error + jsobj" where
  "materializeRow cols row = map_r (\<lambda>(key, v). case map_of cols key of
      Some k \<Rightarrow> bind_r (materializeCell v k) (\<lambda>w. Inr (key, w))
    | None \<Rightarrow> Inr (key, v)) row"

definition materializeChildRows :: "jsobj list \<Rightarrow> (string \<times> materialize_class) list \<Rightarrow> scp_error + jsobj list" where
  "materializeChildRows rows cols = map_r (materializeRow cols) rows"

record relation_run =
  run_sql :: string
  run_keys :: "jsval list list"
  run_batch :: relation_batch

definition op_statement :: "op_fields \<Rightarrow> jsval list list \<Rightarrow> string" where
  "op_statement op keys = renderPlaceholders
     (if o_dialect op = Postgres \<and> o_parentKeys op = None
      then resolvePgArrayCast (o_sql op) (map (\<lambda>t. js_nth t 0) keys) else o_sql op) (o_dialect op)"

definition runRelationOp :: "'s seams \<Rightarrow> op_fields \<Rightarrow> jsobj list \<Rightarrow> 's \<Rightarrow> (scp_error + relation_run) \<times> 's" where
  "runRelationOp sm op parents st =
     (let keys = dedupeKeyTuples parents (parentKeyCols op); s = op_statement op keys in
      if length keys = 0 then (Inr \<lparr>run_sql = s, run_keys = keys, run_batch = []\<rparr>, st)
      else (case seam_execute sm s (bindKeys op keys) \<lparr>intent_write = False, intent_db = o_connection op\<rparr> st of
          (Inl e, st') \<Rightarrow> (Inl e, st')
        | (Inr rawRows, st') \<Rightarrow>
            (bind_r (assertRelationHardLimit rawRows (relationGuard op)) (\<lambda>_.
             bind_r (materializeChildRows rawRows (o_materializers op)) (\<lambda>rows.
               Inr \<lparr>run_sql = s, run_keys = keys, run_batch = groupByKey rows (targetKeyCols op)\<rparr>)), st')))"

definition distributeToParent :: "op_fields \<Rightarrow> jsobj \<Rightarrow> relation_batch \<Rightarrow> attached" where
  "distributeToParent op parent batch = attachToParent parent (parentKeyCols op) batch (o_kind op \<noteq> HasMany)"

section \<open>One placeholder per statement\<close>

definition one_param :: "makesql \<Rightarrow> bool" where
  "one_param m \<longleftrightarrow> balanced m \<and> length (params m) = 1 \<and> (\<forall>p \<in> set (params m). isMakeSQL p = None)"

lemma one_param_assemble: "one_param m \<Longrightarrow> assemble m = Inr (sql m, params m) \<and> qcount (sql m) = 1"
  by (simp add: one_param_def balanced_def assemble_flat)

lemma run_select_params:
  assumes "run_select desc = Inr m"
  shows "params m = (case scte desc of None \<Rightarrow> [] | Some c \<Rightarrow> cteParams c) @ joinParams desc
      @ snd (where_compile (sdialect desc) (sconditions desc) (Some (formatterFor (sdialect desc))) [])
      @ snd (page_text '' LIMIT '' (limit desc) []) @ snd (page_text '' OFFSET '' (offset desc) [])"
proof -
  obtain b where b: "compileSelect desc = Inr b" and m: "m = bundle_makesql b"
    using assms by (auto simp: run_select_def bind_r_Inr_iff)
  from b show ?thesis
    by (rule compileSelect_fields) (simp add: m bundle_makesql_def mk_def bundle_params_def)
qed

definition static_entry :: "string \<times> jsval \<Rightarrow> bool" where
  "static_entry kv \<longleftrightarrow>
     (\<exists>t vs. kv = (''__raw__'', JArr [JStr t, JArr [JArr vs]]))
     \<or> (\<exists>key. kv = (key, JArr [JNull]) \<and> \<not> starts_with ''__'' key \<and> qcount key = 0)"

lemma where_single: "where_compile d [kv] fm [] = entry_compile d kv fm []"
  by (cases "entry_compile d kv fm []") (simp add: where_compile_def Let_def)

lemma reserved_prefix: "starts_with ''__'' ''__raw__''" "starts_with ''__'' ''__or__''" "starts_with ''__'' ''__exists__''"
  by simp_all

lemma static_entry_param:
  assumes "static_entry kv"
  shows "\<exists>p. snd (where_compile d [kv] fm []) = [p] \<and> isMakeSQL p = None"
  using assms unfolding static_entry_def
proof (elim disjE exE conjE)
  fix t vs assume kv: "kv = (''__raw__'', JArr [JStr t, JArr [JArr vs]])"
  have "compileCondition kv fm [] = (t, [JArr vs])"
    by (simp add: kv compileRaw_def raw_sql_params_def)
  then have "entry_compile d kv fm [] = (t, [JArr vs])"
    by (simp add: entry_compile_def json_compileCondition_def kv del: compileCondition.simps)
  then show ?thesis by (simp only: where_single) simp
next
  fix key assume kv: "kv = (key, JArr [JNull])" and k: "\<not> starts_with ''__'' key" "qcount key = 0"
  have "compileCondition kv fm [] = (key @ '' IN (?)'', [JNull])"
    using k reserved_prefix by (auto simp: kv compilePlain_def qcount_0_iff emit_q_def)
  moreover have "entry_compile d kv fm [] = compileCondition kv fm []
      \<or> (\<exists>s. snd (entry_compile d kv fm []) = [JStr s])"
    by (auto simp: entry_compile_def json_compileCondition_def kv inListJson_def simp del: compileCondition.simps)
  ultimately show ?thesis unfolding where_single by auto
qed

lemma static_text_params: "snd (where_compile d [(''__raw__'', JStr t)] fm []) = []"
  by (simp add: where_single entry_compile_def json_compileCondition_def compileRaw_def)

lemma one_paramI: "balanced m \<Longrightarrow> params m = [p] \<Longrightarrow> isMakeSQL p = None \<Longrightarrow> one_param m"
  by (simp add: one_param_def)

lemma child_one:
  assumes "run_select (child_select b sel [kv]) = Inr m" and "static_entry kv"
  shows "\<exists>p. params m = [p] \<and> isMakeSQL p = None"
  using static_entry_param [OF assms(2)] run_select_params [OF assms(1)]
  by (force simp: child_select_def plain_select_def page_text_def)

lemma child_join_one:
  assumes "run_select ((child_select b sel [])\<lparr>joinText := j, joinParams := [JArr vs]\<rparr>) = Inr m"
  shows "params m = [JArr vs]"
  using run_select_params [OF assms] by (simp add: child_select_def plain_select_def page_text_def)

lemma ranked_one:
  assumes "ranked b keys [kv] lim = Inr m" and "static_entry kv"
  shows "\<exists>p. params m = [p] \<and> isMakeSQL p = None"
proof -
  obtain c where c: "run_select (ranked_cte b keys [kv]) = Inr c" and m: "run_select (ranked_select b lim c) = Inr m"
    using assms(1) by (auto simp: ranked_def bind_r_Inr_iff)
  have "params m = params c"
    using run_select_params [OF m] static_text_params by (simp add: ranked_select_def plain_select_def page_text_def)
  moreover have "params c = snd (where_compile (rdialect b) [kv] (Some (formatterFor (rdialect b))) [])"
    using run_select_params [OF c] by (simp add: ranked_cte_def plain_select_def page_text_def)
  ultimately show ?thesis using static_entry_param [OF assms(2)] by simp
qed

lemma lateral_one:
  assumes "lateral b keyRows pred [JArr vs] lim = Inr m" and "rconditions b = []"
  shows "params m = [JArr vs]"
proof -
  obtain inner where i: "run_select ((child_select b [] [(''__raw__'', JStr pred)])\<lparr>limit := Some (Static lim)\<rparr>) = Inr inner"
    and m: "params m = [JArr vs] @ params inner"
    using assms by (auto simp: lateral_def bind_r_Inr_iff mk_def obj_spread_def)
  have "params inner = []"
    using run_select_params [OF i] static_text_params
    by (simp add: child_select_def plain_select_def page_text_def count_text_def)
  with m show ?thesis by simp
qed


definition static_base :: "relation_base \<Rightarrow> bool" where
  "static_base b \<longleftrightarrow> wf_base b \<and> rconditions b = []"

definition key_column :: "string \<Rightarrow> bool" where
  "key_column k \<longleftrightarrow> qcount k = 0 \<and> \<not> starts_with ''__'' k"

lemma key_column_ok: "key_column k \<Longrightarrow> key_names_ok [k]"
  using reserved_prefix by (auto simp: key_column_def key_names_ok_def names_ok_def)

lemma key_columns_ok: "list_all key_column ks \<Longrightarrow> names_ok ks"
  by (auto simp: key_column_def names_ok_def list_all_iff)

lemma obj_set_empty [simp]: "obj_spread [kv] [] = [kv]" "obj_spread [] [kv] = [kv]"
  by (cases kv; simp add: obj_spread_def)+

lemma single_unlimited_one:
  assumes "static_base b" and "key_column key"
  shows "\<exists>m. compileSingleKeyUnlimited b key [JNull] = Inr m \<and> one_param m"
proof -
  note b = assms(1) [unfolded static_base_def]
  obtain m where m: "compileSingleKeyUnlimited b key [JNull] = Inr m" and bal: "balanced m"
    using single_unlimited_ok [of b key "[JNull]"] b key_column_ok [OF assms(2)] by blast
  have "\<exists>kv. static_entry kv \<and> run_select (child_select b (rselect b) [kv]) = Inr m"
  proof (cases "rdialect b = Postgres")
    case True
    let ?kv = "raw_entry (qual_col (rtable b) key @ '' = ANY(?::'' @ pgArrayCastType [JNull] (cast_of b key) (rdefer b) @ '')'') [JArr [JNull]]"
    have "run_select (child_select b (rselect b) [?kv]) = Inr m"
      using m b True by (simp add: compileSingleKeyUnlimited_def Let_def)
    moreover have "static_entry ?kv" by (simp add: static_entry_def raw_entry_def)
    ultimately show ?thesis by blast
  next
    case False
    with m b assms(2) show ?thesis
      by (intro exI [of _ "(key, JArr [JNull])"]) (simp add: compileSingleKeyUnlimited_def static_entry_def key_column_def)
  qed
  then show ?thesis using m bal child_one one_paramI by metis
qed

lemma single_limited_one:
  assumes "static_base b" and "key_column key"
  shows "\<exists>m. compileSingleKeyLimited b key [JNull] lim = Inr m \<and> one_param m"
proof -
  note b = assms(1) [unfolded static_base_def]
  obtain m where m: "compileSingleKeyLimited b key [JNull] lim = Inr m" and bal: "balanced m"
    using single_limited_ok [of b key "[JNull]" lim] b key_column_ok [OF assms(2)] by blast
  have "\<exists>p. params m = [p] \<and> isMakeSQL p = None"
  proof (cases "rdialect b = Postgres")
    case True
    with m lateral_one [where b = b and m = m] b show ?thesis
      by (force simp: compileSingleKeyLimited_def Let_def)
  next
    case False
    with m b assms(2) ranked_one [of b "[key]" "(key, JArr [JNull])" lim m] show ?thesis
      by (simp add: compileSingleKeyLimited_def static_entry_def key_column_def)
  qed
  then show ?thesis using m bal one_paramI by blast
qed

lemma placeholder_entry: "static_entry (''__raw__'', JArr [JStr t, PLACEHOLDER_TUPLES])"
  by (simp add: static_entry_def PLACEHOLDER_TUPLES_def)

lemma static_unlimited_one:
  assumes "static_base b" and "names_ok keys" and "rdialect b = Postgres \<Longrightarrow> types_declared b keys"
  shows "\<exists>m. compileCompositeKeyStaticUnlimited b keys = Inr m \<and> one_param m"
proof -
  note b = assms(1) [unfolded static_base_def]
  obtain m where m: "compileCompositeKeyStaticUnlimited b keys = Inr m" and bal: "balanced m"
    using static_unlimited_ok [of b keys] b assms(2,3) by blast
  have "\<exists>p. params m = [p] \<and> isMakeSQL p = None"
  proof (cases "rdialect b = Postgres")
    case True
    then obtain s where "pgCompositeKeyRows b keys = Inr s" using assms(3) pgCompositeKeyRows_declared by blast
    with True m b child_join_one [where b = b and m = m] show ?thesis
      by (force simp: compileCompositeKeyStaticUnlimited_def PLACEHOLDER_TUPLES_def)
  next
    case False
    with m b child_one [where b = b and m = m, OF _ placeholder_entry] show ?thesis
      by (simp add: compileCompositeKeyStaticUnlimited_def)
  qed
  then show ?thesis using m bal one_paramI by blast
qed

lemma static_limited_one:
  assumes "static_base b" and "names_ok keys" and "rdialect b = Postgres \<Longrightarrow> types_declared b keys"
  shows "\<exists>m. compileCompositeKeyStaticLimited b keys lim = Inr m \<and> one_param m"
proof -
  note b = assms(1) [unfolded static_base_def]
  obtain m where m: "compileCompositeKeyStaticLimited b keys lim = Inr m" and bal: "balanced m"
    using static_limited_ok [of b keys lim] b assms(2,3) by blast
  have "\<exists>p. params m = [p] \<and> isMakeSQL p = None"
  proof (cases "rdialect b = Postgres")
    case True
    then obtain s where "pgCompositeKeyRows b keys = Inr s" using assms(3) pgCompositeKeyRows_declared by blast
    with True m b lateral_one [where b = b and m = m] show ?thesis
      by (force simp: compileCompositeKeyStaticLimited_def PLACEHOLDER_TUPLES_def)
  next
    case False
    with m b ranked_one [where b = b and m = m, OF _ placeholder_entry] show ?thesis
      by (simp add: compileCompositeKeyStaticLimited_def)
  qed
  then show ?thesis using m bal one_paramI by blast
qed


section \<open>Every compiled op\<close>

definition decl_ok :: "decl_fields \<Rightarrow> bool" where
  "decl_ok f \<longleftrightarrow> qcount (d_targetTable f) = 0 \<and> names_ok (d_select f)
     \<and> qcount (case d_order f of None \<Rightarrow> [] | Some t \<Rightarrow> t) = 0
     \<and> list_all key_column (case d_targetKeys f of Some ts \<Rightarrow> ts | None \<Rightarrow> [placeholder_key f])"

lemma decl_base_static:
  assumes "decl_ok f" and "names_ok tys"
  shows "static_base ((decl_base f d)\<lparr>rkeyTypes := tys\<rparr>)" and "static_base ((decl_base f d)\<lparr>rdefer := True\<rparr>)"
    and "static_base ((decl_base f d)\<lparr>rcasts := [key \<mapsto> inferPgElementType vals]\<rparr>)"
  using assms by (auto simp: static_base_def wf_base_def decl_base_def decl_ok_def wf_conditions_def casts_ok_def names_ok_def qcount_join_names)

lemma inferPgElementType_nonempty: "inferPgElementType vals \<noteq> []"
  by (simp add: inferPgElementType_def split: list.splits jsval.splits)

lemma specimen_type_Inr: "specimen_type r t k = Inr ty \<Longrightarrow> \<exists>v. ty = inferPgElementType [v] \<and> ty \<noteq> []"
  using inferPgElementType_nonempty by (auto simp: specimen_type_def bind_r_Inr_iff)

lemma specimen_types:
  assumes "map_r (specimen_type r t) ks = Inr tys"
  shows "length tys = length ks" and "names_ok tys" and "\<forall>ty \<in> set tys. ty \<noteq> []"
proof -
  show len: "length tys = length ks" using assms by (rule map_r_Inr_length)
  have each: "\<exists>v. tys ! i = inferPgElementType [v] \<and> tys ! i \<noteq> []" if "i < length tys" for i
    using map_r_nth [OF assms] that len specimen_type_Inr by metis
  then show "names_ok tys" "\<forall>ty \<in> set tys. ty \<noteq> []"
    by (metis in_set_conv_nth inferPgElementType_qfree names_ok_def, metis in_set_conv_nth)
qed

lemma composite_sql_one:
  assumes "decl_ok f" and "d_parentKeys f = Some ps" and "d_targetKeys f = Some ts" and "compiledBatchSql f d r = Inr s"
  shows "qcount s = 1"
proof -
  obtain tys where tys: "(if d = Postgres then pgKeyTypesOf f ts r else Inr []) = Inr tys"
    and s: "bind_r (case per_parent_limit f of
             Some lim \<Rightarrow> compileCompositeKeyStaticLimited ((decl_base f d)\<lparr>rkeyTypes := tys\<rparr>) ts lim
           | None \<Rightarrow> compileCompositeKeyStaticUnlimited ((decl_base f d)\<lparr>rkeyTypes := tys\<rparr>) ts) (\<lambda>node.
         bind_r (assemble node) (\<lambda>(s, _). Inr s)) = Inr s"
    using assms(2-4) by (auto simp: compiledBatchSql_def bind_r_Inr_iff [of "if d = Postgres then pgKeyTypesOf f ts r else Inr []"] Let_def)
  let ?b = "(decl_base f d)\<lparr>rkeyTypes := tys\<rparr>"
  have keys: "names_ok ts" using assms(1,3) key_columns_ok by (simp add: decl_ok_def)
  have ok: "names_ok tys \<and> (d = Postgres \<longrightarrow> types_declared ?b ts)"
    using tys specimen_types [of _ "d_targetTable f" ts tys]
    by (cases r) (auto simp: pgKeyTypesOf_def types_declared_def names_ok_def split: if_splits)
  have ty: "rdialect ?b = Postgres \<Longrightarrow> types_declared ?b ts" using ok by (simp add: decl_base_def)
  have sb: "static_base ?b" using decl_base_static(1) [OF assms(1)] ok by blast
  have "\<exists>m. (case per_parent_limit f of Some lim \<Rightarrow> compileCompositeKeyStaticLimited ?b ts lim
      | None \<Rightarrow> compileCompositeKeyStaticUnlimited ?b ts) = Inr m \<and> one_param m"
    using static_limited_one [OF sb keys ty] static_unlimited_one [OF sb keys ty] by (cases "per_parent_limit f") simp_all
  with s one_param_assemble show ?thesis by auto
qed

lemma single_sql_one:
  assumes "decl_ok f" and "d_parentKeys f = None" and "d_targetKeys f = None" and "compiledBatchSql f d r = Inr s"
  shows "qcount s = 1"
proof -
  let ?key = "placeholder_key f"
  obtain c where c: "(case r of Some resolve \<Rightarrow> (if d = Postgres then bind_r (specimen_type resolve (d_targetTable f) ?key) (\<lambda>t. Inr (Some t)) else Inr None)
           | None \<Rightarrow> Inr None) = Inr c"
    and s: "(let b = (case c of Some t \<Rightarrow> (decl_base f d)\<lparr>rcasts := [?key \<mapsto> t]\<rparr> | None \<Rightarrow> (decl_base f d)\<lparr>rdefer := True\<rparr>) in
         bind_r (case per_parent_limit f of
             Some lim \<Rightarrow> compileSingleKeyLimited b ?key [JNull] lim
           | None \<Rightarrow> compileSingleKeyUnlimited b ?key [JNull]) (\<lambda>node.
         bind_r (assemble node) (\<lambda>(s, _). Inr s))) = Inr s"
    using assms(2,4) by (auto simp: compiledBatchSql_def bind_r_Inr_iff Let_def)
  let ?b = "case c of Some t \<Rightarrow> (decl_base f d)\<lparr>rcasts := [?key \<mapsto> t]\<rparr> | None \<Rightarrow> (decl_base f d)\<lparr>rdefer := True\<rparr>"
  have "static_base ?b"
    using c decl_base_static(2,3) [OF assms(1), of "[]"]
    by (auto simp: bind_r_Inr_iff names_ok_def dest!: specimen_type_Inr split: option.splits if_splits)
  moreover have "key_column ?key" using assms(1,3) by (simp add: decl_ok_def)
  ultimately have "\<exists>m. (case per_parent_limit f of Some lim \<Rightarrow> compileSingleKeyLimited ?b ?key [JNull] lim
      | None \<Rightarrow> compileSingleKeyUnlimited ?b ?key [JNull]) = Inr m \<and> one_param m"
    using single_limited_one single_unlimited_one by (cases "per_parent_limit f") simp_all
  with s one_param_assemble show ?thesis by (auto simp: Let_def)
qed

definition paired_keys :: "op_fields \<Rightarrow> bool" where
  "paired_keys op \<longleftrightarrow> (o_parentKeys op = None) = (o_targetKeys op = None)
     \<and> length (parentKeyCols op) = length (targetKeyCols op) \<and> parentKeyCols op \<noteq> []"

fun op_ok :: "relation_op \<Rightarrow> bool" where
  "op_ok (RelationOp op cs) \<longleftrightarrow>
     qcount (o_sql op) = 1 \<and> paired_keys op \<and> (o_hardLimit op = None \<or> o_kind op = HasMany) \<and> (\<forall>c \<in> set cs. op_ok c)"

fun decls_ok :: "relation_decl \<Rightarrow> bool" where
  "decls_ok (RelationDecl f cs) \<longleftrightarrow> decl_ok f \<and> (\<forall>c \<in> set cs. decls_ok c)"

lemma placeholder_key_dialect [simp]: "placeholder_key (f\<lparr>d_dialect := x\<rparr>) = placeholder_key f"
  by (simp add: placeholder_key_def)

lemma decls_ok_inherit [simp]: "decls_ok (inherit_dialect d c) = decls_ok c"
  by (cases c) (auto simp: inherit_dialect_def decl_ok_def split: option.splits)

lemma op_fields_ok:
  assumes "decl_ok f" and "isCompositeDecl f = Inr composite" and "compiledBatchSql f d r = Inr s" and "effective_cap st f = Inr cap"
  shows "qcount s = 1 \<and> paired_keys (op_record f d composite s ms cap)
    \<and> (o_hardLimit (op_record f d composite s ms cap) = None \<or> o_kind (op_record f d composite s ms cap) = HasMany)"
proof -
  have cap: "cap = None \<or> d_kind f = HasMany"
    using assms(4) by (auto simp: effective_cap_def split: if_splits)
  consider "d_parentKeys f = None" "d_targetKeys f = None" "\<not> composite"
    | ps ts where "d_parentKeys f = Some ps" "d_targetKeys f = Some ts" "length ps = length ts" "ps \<noteq> []" composite
    using assms(2) by (auto simp: isCompositeDecl_def split: option.splits if_splits)
  then show ?thesis
  proof cases
    case 1
    then show ?thesis using single_sql_one [OF assms(1) 1(1,2) assms(3)] cap
      by (simp add: op_record_def paired_keys_def parentKeyCols_def targetKeyCols_def)
  next
    case 2
    then show ?thesis using composite_sql_one [OF assms(1) 2(1,2) assms(3)] cap
      by (auto simp: op_record_def paired_keys_def parentKeyCols_def targetKeyCols_def)
  qed
qed

text \<open>
  Every compiled relation, at every depth of the chain, carries a statement with exactly one placeholder,
  parent and child key columns paired one to one, and a hard cap only where several children are loaded.
\<close>

theorem relation_ops_are_well_formed:
  assumes "decls_ok decl" and "compileRelationOp st r decl = Inr op"
  shows "op_ok op"
  using assms
proof (induction st r decl arbitrary: op rule: compileRelationOp.induct)
  case (1 st r f children)
  obtain composite s ms cs cap where c: "isCompositeDecl f = Inr composite" and s: "compiledBatchSql f (decl_dialect f) r = Inr s"
    and cs: "map_r (\<lambda>c. compileRelationOp st r (inherit_dialect (decl_dialect f) c)) children = Inr cs"
    and cap: "effective_cap st f = Inr cap" and op: "op = RelationOp (op_record f (decl_dialect f) composite s ms cap) cs"
    and lim: "limit_checks f = Inr ()"
    and ms: "(case r of None \<Rightarrow> Inr [] | Some resolve \<Rightarrow> child_materializers (d_targetTable f) (''relation '' @ squoted (d_name f)) resolve [] (d_select f)) = Inr ms"
    using "1.prems"(2) by (auto simp: bind_r_Inr_iff)
  have "decl_ok f" using "1.prems"(1) by simp
  from op_fields_ok [OF this c s cap] have own: "qcount s = 1 \<and> paired_keys (op_record f (decl_dialect f) composite s ms cap)
    \<and> (o_hardLimit (op_record f (decl_dialect f) composite s ms cap) = None \<or> o_kind (op_record f (decl_dialect f) composite s ms cap) = HasMany)" .
  have "\<forall>c \<in> set cs. op_ok c"
    using cs by (rule map_r_all) (use "1.IH" "1.prems"(1) in simp)
  with own show ?case by (simp add: op op_record_def)
qed


section \<open>The load of a relation\<close>

text \<open>Materialisation that leaves the key columns of the child rows alone.\<close>

definition keeps_keys :: "string list \<Rightarrow> (jsobj \<Rightarrow> jsobj) \<Rightarrow> jsobj \<Rightarrow> bool" where
  "keeps_keys cols g r \<longleftrightarrow> complete cols (g r) = complete cols r \<and> ident cols (g r) = ident cols r"

lemma children_of_map:
  assumes "\<forall>r \<in> set rs. keeps_keys fkCols g r"
  shows "children_of pkCols fkCols (map g rs) parent = map g (children_of pkCols fkCols rs parent)"
proof -
  have "filter (\<lambda>c. complete fkCols (g c) \<and> ident fkCols (g c) = k) rs = filter (\<lambda>c. complete fkCols c \<and> ident fkCols c = k) rs" for k
    using assms by (intro filter_cong) (simp_all add: keeps_keys_def)
  then show ?thesis by (simp add: children_of_def filter_map comp_def)
qed

lemma no_keys_no_rows: "select_by_keys table fkCols [] = []"
  by (simp add: select_by_keys_def keys_match_def [abs_def])

lemma attach_loaded:
  assumes "parent \<in> set parents" and "\<forall>r \<in> set table. keeps_keys fkCols g r"
  shows "attachToParent parent pkCols (groupByKey (map g (select_by_keys table fkCols (dedupeKeyTuples parents pkCols))) fkCols) single
    = (let rs = map g (if complete pkCols parent then select_by_keys table fkCols [key_tuple pkCols parent] else []) in
       if single then One (if rs = [] then None else Some (hd rs)) else Many rs)"
proof -
  have "\<forall>r \<in> set (select_by_keys table fkCols (dedupeKeyTuples parents pkCols)). keeps_keys fkCols g r"
    using assms(2) by (auto simp: select_by_keys_def)
  note eq = children_of_map [OF this]
  show ?thesis
    by (simp only: attach_eq eq relation_select.children_of_batch [OF assms(1)])
qed

text \<open>What the load relies on: the child statement, bound to a key set, returns the child rows of those keys.\<close>

definition fetches_children :: "'s seams \<Rightarrow> op_fields \<Rightarrow> jsobj list \<Rightarrow> bool" where
  "fetches_children sm op table \<longleftrightarrow> (\<forall>keys st. (\<forall>t \<in> set keys. length t = length (parentKeyCols op)) \<longrightarrow> fst (seam_execute sm (op_statement op keys) (bindKeys op keys)
      \<lparr>intent_write = False, intent_db = o_connection op\<rparr> st) = Inr (select_by_keys table (targetKeyCols op) keys))"


text \<open>One statement at most, with one placeholder and one value.\<close>

lemma resolve_keeps_count: "qcount (resolvePgArrayCast s vals) = qcount s"
proof -
  have rep: "qcount p = 0 \<Longrightarrow> qcount r = 0 \<Longrightarrow> qcount (replace_sub p r s) = qcount s" for p r
  proof (induction p r s rule: replace_sub.induct)
    case (2 p r c cs)
    have "starts_with p (c # cs) \<Longrightarrow> qcount (drop (length p) (c # cs)) = qcount (c # cs)"
      using "2.prems"(1) by (metis add_0 append_eq_conv_conj qcount_append starts_with_prefix)
    with 2 show ?case by auto
  qed simp
  show ?thesis by (simp add: resolvePgArrayCast_def rep PG_ARRAY_CAST_TOKEN_def array_type_qfree)
qed

definition recording :: "('s \<Rightarrow> scp_error + jsobj list) \<Rightarrow> 's seams \<Rightarrow> ('s \<times> (string \<times> jsval list) list) seams" where
  "recording answer sm = \<lparr>seam_execute = \<lambda>s ps i (st, log). (answer st, (st, log @ [(s, ps)])),
     seam_run = \<lambda>s ps i (st, log). (Inl EmptyRegistry, (st, log))\<rparr>"

text \<open>
  Whatever the number of parents, the load of a relation sends one statement with one placeholder and one
  value, and sends nothing when no parent has a complete key.
\<close>

theorem relation_load_is_one_statement:
  assumes "op_ok (RelationOp op cs)"
  shows "(case snd (snd (runRelationOp (recording answer sm) op parents (st, []))) of
      [] \<Rightarrow> \<forall>r \<in> set parents. \<not> complete (parentKeyCols op) r
    | log \<Rightarrow> (\<exists>text v. log = [(renderPlaceholders text (o_dialect op), [v])] \<and> qcount text = 1))"
proof -
  let ?keys = "dedupeKeyTuples parents (parentKeyCols op)"
  have one: "\<exists>v. bindKeys op ks = [v]" for ks by (auto simp: bindKeys_def Let_def split: option.splits)
  have stmt: "\<exists>t. op_statement op ks = renderPlaceholders t (o_dialect op) \<and> qcount t = 1" for ks
    using assms resolve_keeps_count by (auto simp: op_statement_def)
  have "?keys = [] \<Longrightarrow> filter (complete (parentKeyCols op)) parents = []"
    using dedupeKeyTuples_spec(1) [of parents "parentKeyCols op"] by (metis list.map_disc_iff set_dedup set_empty)
  then have "?keys = [] \<Longrightarrow> \<forall>r \<in> set parents. \<not> complete (parentKeyCols op) r"
    by (simp add: filter_empty_conv)
  moreover have "?keys \<noteq> [] \<Longrightarrow> snd (snd (runRelationOp (recording answer sm) op parents (st, [])))
      = [(op_statement op ?keys, bindKeys op ?keys)]"
    by (auto simp: runRelationOp_def Let_def recording_def split: sum.splits)
  moreover have "?keys = [] \<Longrightarrow> snd (snd (runRelationOp (recording answer sm) op parents (st, []))) = []"
    by (simp add: runRelationOp_def Let_def)
  ultimately show ?thesis using one [of ?keys] stmt [of ?keys] by (cases "?keys = []") auto
qed


definition example_decl :: decl_fields where
  "example_decl = \<lparr>d_name = ''posts'', d_kind = HasMany, d_targetTable = ''posts'', d_select = [''id'', ''uid''],
     d_parentKey = Some ''id'', d_targetKey = Some ''uid'', d_parentKeys = None, d_targetKeys = None, d_order = Some ''id'',
     d_limit = JUndef, d_hardLimit = JInt 5, d_dialect = Some Postgres, d_connection = None\<rparr>"

definition example_op :: op_fields where
  "example_op = op_record example_decl Postgres False ''SELECT id, uid FROM posts WHERE posts.uid = ANY(?::int[]) ORDER BY id'' [(''uid'', MInt)] (Some 5)"

definition child_rows :: "jsobj list" where
  "child_rows = [[(''id'', JInt 7), (''uid'', JBig 1)], [(''id'', JInt 8), (''uid'', JBig 2)]]"

lemma example_op_compiles:
  "compileRelationOp [] (Some (columnTypeResolverFromColumnMap [(''posts'', [(''id'', ''text''), (''uid'', ''bigint'')])])) (RelationDecl example_decl [])
    = Inr (RelationOp (example_op\<lparr>o_sql := ''SELECT id, uid FROM posts WHERE posts.uid = ANY(?::bigint[]) ORDER BY id''\<rparr>) [])"
  by code_simp

theorem relation_ops_are_well_formed_witness:
  "op_ok (RelationOp (example_op\<lparr>o_sql := ''SELECT id, uid FROM posts WHERE posts.uid = ANY(?::bigint[]) ORDER BY id''\<rparr>) [])"
proof -
  have "decls_ok (RelationDecl example_decl [])"
    by (simp add: decl_ok_def example_decl_def names_ok_def key_column_def placeholder_key_def)
  from relation_ops_are_well_formed [OF this example_op_compiles] show ?thesis .
qed

definition canned :: "jsobj list \<Rightarrow> op_fields \<Rightarrow> nat seams" where
  "canned table op = \<lparr>seam_execute = \<lambda>s ps i n. (Inr (case ps of
       [JArr ks] \<Rightarrow> select_by_keys table (targetKeyCols op) (map (\<lambda>k. [k]) ks) | _ \<Rightarrow> []), Suc n),
     seam_run = \<lambda>s ps i n. (Inl EmptyRegistry, n)\<rparr>"


lemma canned_fetches: "fetches_children (canned table example_op) example_op table"
proof -
  have "map (\<lambda>k. [k]) (map (\<lambda>t. js_nth t 0) keys) = keys" if "\<forall>t \<in> set keys. length t = 1" for keys
    using that by (induction keys) (auto simp: js_nth_def length_Suc_conv)
  then show ?thesis
    by (simp add: fetches_children_def canned_def bindKeys_def example_op_def op_record_def example_decl_def parentKeyCols_def Let_def)
qed


theorem relation_load_is_one_statement_witness:
  "length (snd (snd (runRelationOp (recording (\<lambda>_. Inr child_rows) (canned [] example_op)) example_op [[(''id'', JInt 1)]] (0 :: nat, [])))) = 1"
proof -
  have ok: "op_ok (RelationOp example_op [])" by code_simp
  have "complete (parentKeyCols example_op) [(''id'', JInt 1)]" by code_simp
  then show ?thesis
    using relation_load_is_one_statement [OF ok, where answer = "\<lambda>_. Inr child_rows" and sm = "canned [] example_op" and parents = "[[(''id'', JInt 1)]]" and st = 0]
    by (auto split: list.splits)
qed

text \<open>
  With a per-parent limit the declared columns are not projected: every column of the child table comes
  back, and off PostgreSQL the row number of the window with them.
\<close>

lemma limited_load_ignores_projection:
  "map_sum id (\<lambda>op. o_sql (op_of op)) (compileRelationOp [] None (RelationDecl (example_decl\<lparr>d_limit := JInt 2, d_dialect := Some Sqlite\<rparr>) []))
    = Inr ''WITH ranked AS (SELECT *, ROW_NUMBER() OVER (PARTITION BY uid ORDER BY id) AS _rn FROM posts WHERE uid IN (SELECT value FROM json_each(?))) SELECT * FROM ranked WHERE _rn <= 2''"
  by code_simp

text \<open>
  A key column whose name starts with two underscores is taken for a reserved entry of the condition
  object: off PostgreSQL the statement has no key predicate at all.
\<close>

lemma underscore_key_drops_predicate:
  "map_sum id (\<lambda>op. o_sql (op_of op)) (compileRelationOp [] None
      (RelationDecl (example_decl\<lparr>d_targetKey := Some ''__uid'', d_dialect := Some Sqlite, d_order := None\<rparr>) []))
    = Inr ''SELECT id, uid FROM posts''"
  by code_simp


end
