(* ===== verification/WriteNode.thy ===== *)
theory WriteNode
  imports RelationOp
begin

text \<open>
  The compilation of one authored write node (\<open>compileWriteNode\<close> of \<open>src/scp/makesql/tx.ts\<close>): its ports,
  the structured WHERE members, the conflict and RETURNING tails, and the batch forms with their deferred
  markers.  A parameter of the compiled
  operation is an expression of the behaviour-contract IR, a JSON value that is not looked into here.
\<close>

section \<open>Operations and nodes\<close>

record write_meta =
  metaTable :: string
  bindColumns :: "string list"
  metaReturning :: "string list"
  metaConflict :: "string option"
  metaBatch :: bool

record pk_desc =
  pkColumns :: "string list"
  autoInc :: "string option"

record tx_op =
  op_sql :: string
  op_params :: "jsval list"
  op_pk :: "pk_desc option"
  op_meta :: "write_meta option"

datatype write_component = InsertNode | UpdateNode | DeleteNode | SelectNode

record write_node =
  component :: write_component
  ports :: jsobj

section \<open>Ports\<close>

definition stringPort :: "jsobj \<Rightarrow> string \<Rightarrow> scp_error + string option" where
  "stringPort ps name = (case js_get ps name of
      JUndef \<Rightarrow> Inr None
    | JStr s \<Rightarrow> Inr (Some s)
    | _ \<Rightarrow> Inl (InvalidWrite name))"

definition collectFamily :: "jsobj \<Rightarrow> string \<Rightarrow> jsobj" where
  "collectFamily ps prefix =
     fold (\<lambda>(k, v) out. if starts_with (prefix @ ''.'') k then obj_set out (drop (length prefix + 1) k) v else out) ps []"

fun collectSqlCast :: "jsobj \<Rightarrow> (string \<times> string) list \<Rightarrow> scp_error + (string \<times> string) list" where
  "collectSqlCast [] m = Inr m"
| "collectSqlCast ((k, v) # ps) m =
     (if \<not> starts_with ''sqlCast.'' k then collectSqlCast ps m
      else (case v of JStr t \<Rightarrow> collectSqlCast ps (obj_set m (drop (length ''sqlCast.'') k) t) | _ \<Rightarrow> Inl (InvalidWrite k)))"

definition castPlaceholder :: "dialect \<Rightarrow> (string \<times> string) list \<Rightarrow> string \<Rightarrow> string" where
  "castPlaceholder d casts column = (case map_of casts column of
      None \<Rightarrow> ''?''
    | Some t \<Rightarrow> if d \<noteq> Postgres \<or> t = ''timestamp'' \<or> t = ''date'' then ''?'' else formatterFor Postgres ''?'' t)"

definition split_csv :: "string \<Rightarrow> string list" where
  "split_csv s = filter (\<lambda>c. c \<noteq> []) (map trim (split_on (CHR '','') s))"

definition returningColumns :: "jsobj \<Rightarrow> scp_error + string list" where
  "returningColumns ps = bind_r (stringPort ps ''returning'') (\<lambda>r. Inr (case r of None \<Rightarrow> [] | Some s \<Rightarrow> split_csv s))"

definition returningTail :: "jsobj \<Rightarrow> scp_error + string" where
  "returningTail ps = bind_r (stringPort ps ''returning'') (\<lambda>r. Inr (case r of None \<Rightarrow> [] | Some s \<Rightarrow> '' RETURNING '' @ s))"

definition pkPort :: "jsobj \<Rightarrow> scp_error + pk_desc option" where
  "pkPort ps = bind_r (stringPort ps ''pk'') (\<lambda>pk. case pk of
      None \<Rightarrow> Inr None
    | Some s \<Rightarrow> (if split_csv s = [] then Inr None
        else bind_r (stringPort ps ''autoInc'') (\<lambda>ai. Inr (Some \<lparr>pkColumns = split_csv s, autoInc = ai\<rparr>))))"

section \<open>The structured WHERE\<close>

definition opKey :: "jsval \<Rightarrow> (string \<times> jsval) option" where
  "opKey node = (case node of JObj [kv] \<Rightarrow> Some kv | _ \<Rightarrow> None)"

definition columnOf :: "jsval \<Rightarrow> string \<Rightarrow> scp_error + string" where
  "columnOf node at = (case opKey node of
      Some (op, JArr path) \<Rightarrow>
        (if op \<noteq> ''ref'' \<and> op \<noteq> ''refOpt'' then Inl (InvalidWrite at)
         else (case rev path of JStr c # _ \<Rightarrow> Inr c | _ \<Rightarrow> Inl (InvalidWrite at)))
    | _ \<Rightarrow> Inl (InvalidWrite at))"

definition binOperands :: "jsval \<Rightarrow> string \<Rightarrow> scp_error + (jsval \<times> jsval)" where
  "binOperands args at = (case args of JArr [a, b] \<Rightarrow> Inr (a, b) | _ \<Rightarrow> Inl (InvalidWrite at))"

definition cmp_op :: "string \<Rightarrow> string option" where
  "cmp_op op = map_of [(''lt'', ''<''), (''le'', ''<=''), (''gt'', ''>''), (''ge'', ''>=''), (''ne'', ''<>'')] op"

definition PROBE :: jsval where
  "PROBE = JStr ''__probe__''"

definition v1ConditionText :: "string \<Rightarrow> jsval \<Rightarrow> string" where
  "v1ConditionText key v = fst (conds_compile (and_conditions [(key, v)]) None [])"

record lowered =
  low_sql :: string
  low_params :: "jsval list"
  low_columns :: "string list"

definition with_value :: "string \<Rightarrow> jsval \<Rightarrow> string \<Rightarrow> lowered" where
  "with_value key v column = \<lparr>low_sql = v1ConditionText key PROBE, low_params = [v], low_columns = [column]\<rparr>"

definition lowerWhereMember :: "jsval \<Rightarrow> string \<Rightarrow> dialect \<Rightarrow> scp_error + lowered" where
  "lowerWhereMember node at d = (case opKey node of
      None \<Rightarrow> Inl (InvalidWrite at)
    | Some (op, args) \<Rightarrow>
        (if op = ''in'' then
           bind_r (binOperands args at) (\<lambda>(col, v). bind_r (columnOf col at) (\<lambda>column.
             Inr (with_value (inListPredicate d column) v column)))
         else if op = ''eq'' then
           bind_r (binOperands args at) (\<lambda>(col, v). bind_r (columnOf col at) (\<lambda>column.
             if v = JNull then Inr \<lparr>low_sql = v1ConditionText column JNull, low_params = [], low_columns = []\<rparr>
             else Inr (with_value column v column)))
         else (case cmp_op op of
             Some sgn_text \<Rightarrow> bind_r (binOperands args at) (\<lambda>(col, v). bind_r (columnOf col at) (\<lambda>column.
               if op = ''ne'' \<and> v = JNull
               then Inr \<lparr>low_sql = v1ConditionText (column @ '' IS NOT NULL'') (JBool True), low_params = [], low_columns = []\<rparr>
               else Inr (with_value (column @ '' '' @ sgn_text @ '' ?'') v column)))
           | None \<Rightarrow> Inl (InvalidWrite at))))"

definition lowerWherePort :: "jsobj \<Rightarrow> string \<Rightarrow> dialect \<Rightarrow> scp_error + lowered" where
  "lowerWherePort ps at d = (case js_get ps ''where'' of
      JUndef \<Rightarrow> Inr \<lparr>low_sql = [], low_params = [], low_columns = []\<rparr>
    | JObj ob \<Rightarrow> (case map_of ob ''arr'' of
        Some (JArr members) \<Rightarrow>
          bind_r (map_r (\<lambda>m. lowerWhereMember m at d) members) (\<lambda>fs.
            Inr \<lparr>low_sql = join '' AND '' (map low_sql fs), low_params = concat (map low_params fs),
                 low_columns = concat (map low_columns fs)\<rparr>)
      | _ \<Rightarrow> Inl (InvalidWrite at))
    | _ \<Rightarrow> Inl (InvalidWrite at))"

section \<open>Conflict tails\<close>

definition conflictAction :: "jsobj \<Rightarrow> scp_error + string" where
  "conflictAction ps = bind_r (stringPort ps ''onConflictAction'') (\<lambda>a. Inr (case a of None \<Rightarrow> ''update'' | Some s \<Rightarrow> s))"

definition onConflictJsonOpts :: "jsobj \<Rightarrow> insert_opts \<Rightarrow> scp_error + insert_opts" where
  "onConflictJsonOpts ps opt = bind_r (stringPort ps ''onConflict'') (\<lambda>conflict. case conflict of
      None \<Rightarrow> Inr opt
    | Some s \<Rightarrow> bind_r (conflictAction ps) (\<lambda>a.
        Inr (if a = ''ignore'' then opt\<lparr>ins_conflict := Some (split_csv s), ins_ignore := True\<rparr>
             else opt\<lparr>ins_conflict := Some (split_csv s), ins_update := Some AllColumns\<rparr>)))"

definition first_col :: "string list \<Rightarrow> string" where
  "first_col cs = (case cs of [] \<Rightarrow> ''undefined'' | c # _ \<Rightarrow> c)"

definition onConflictTail :: "dialect \<Rightarrow> jsobj \<Rightarrow> string list \<Rightarrow> scp_error + string" where
  "onConflictTail d ps cols = bind_r (stringPort ps ''onConflict'') (\<lambda>conflict. case conflict of
      None \<Rightarrow> Inr []
    | Some s \<Rightarrow> bind_r (conflictAction ps) (\<lambda>a.
        let conflictCols = split_csv s in
        Inr (if a = ''ignore''
             then (if d = Mysql then '' ON DUPLICATE KEY UPDATE '' @ first_col conflictCols @ '' = '' @ first_col conflictCols
                   else '' ON CONFLICT ('' @ join '', '' conflictCols @ '') DO NOTHING'')
             else (if d = Mysql then '' ON DUPLICATE KEY UPDATE '' @ join '', '' (map (\<lambda>c. c @ '' = VALUES('' @ c @ '')'') cols)
                   else '' ON CONFLICT ('' @ join '', '' conflictCols @ '') DO UPDATE SET ''
                        @ join '', '' (map (\<lambda>c. c @ '' = excluded.'' @ c) cols)))))"

section \<open>The batch forms\<close>

definition or_blank :: "string option \<Rightarrow> string" where
  "or_blank x = (case x of None \<Rightarrow> [] | Some s \<Rightarrow> s)"

definition dialect_name :: "dialect \<Rightarrow> string" where
  "dialect_name d = (case d of Postgres \<Rightarrow> ''postgres'' | Mysql \<Rightarrow> ''mysql'' | Sqlite \<Rightarrow> ''sqlite'')"

definition batchRows :: "string list \<Rightarrow> jsval list \<Rightarrow> dialect \<Rightarrow> jsval" where
  "batchRows columns refs d = JObj [(''__batchRows'', JObj [(''columns'', JArr (map JStr columns)), (''refs'', JArr refs),
     (''dialect'', JStr (dialect_name d))])]"

definition pgBatchArrayParams :: "string list \<Rightarrow> (string \<Rightarrow> jsval) \<Rightarrow> dialect \<Rightarrow> jsval list" where
  "pgBatchArrayParams cols ref_for d = map (\<lambda>c. JObj [(''__batchArray'', JObj [(''column'', JStr c), (''ref'', ref_for c),
     (''dialect'', JStr (dialect_name d))])]) cols"

definition specimen_row :: "column_resolver \<Rightarrow> string \<Rightarrow> string list \<Rightarrow> scp_error + jsobj" where
  "specimen_row resolve table cols =
     map_r (\<lambda>c. bind_r (resolve table c) (\<lambda>t. bind_r (pgTypeSpecimen t) (\<lambda>v. Inr (c, v)))) cols"

definition batch_insert_opts :: "string \<Rightarrow> string list \<Rightarrow> jsobj list \<Rightarrow> jsobj list option \<Rightarrow> string \<Rightarrow> insert_opts" where
  "batch_insert_opts table cols records raw ret =
     \<lparr>ins_table = table, ins_columns = cols, ins_records = records, ins_raw = raw, ins_casts = (\<lambda>_. None),
      ins_conflict = None, ins_ignore = False, ins_update = None, ins_returning = ret\<rparr>"

definition batch_update_opts :: "string \<Rightarrow> string list \<Rightarrow> string list \<Rightarrow> jsobj list \<Rightarrow> jsobj list option \<Rightarrow> string \<Rightarrow> update_opts" where
  "batch_update_opts table keyCols updateCols records raw ret =
     \<lparr>upd_table = table, upd_keys = keyCols, upd_columns = updateCols, upd_records = records, upd_raw = raw,
      upd_casts = (\<lambda>_. None), upd_skips = [], upd_returning = ret\<rparr>"

definition pgBatchInsert :: "string \<Rightarrow> string list \<Rightarrow> jsobj \<Rightarrow> jsobj \<Rightarrow> column_resolver \<Rightarrow> dialect \<Rightarrow> scp_error + tx_op" where
  "pgBatchInsert table cols vals ps resolve d =
     bind_r (specimen_row resolve table cols) (\<lambda>specimen.
     bind_r (stringPort ps ''returning'') (\<lambda>ret.
     bind_r (onConflictJsonOpts ps (batch_insert_opts table cols [specimen, specimen] (Some [specimen, specimen]) (or_blank ret))) (\<lambda>opt.
     bind_r (pg_buildInsert opt) (\<lambda>m.
       Inr \<lparr>op_sql = sql m, op_params = pgBatchArrayParams cols (js_get vals) d, op_pk = None, op_meta = None\<rparr>))))"

definition pgBatchUpdate :: "string \<Rightarrow> string list \<Rightarrow> string list \<Rightarrow> jsobj \<Rightarrow> jsobj \<Rightarrow> jsobj \<Rightarrow> column_resolver \<Rightarrow> dialect \<Rightarrow> scp_error + tx_op" where
  "pgBatchUpdate table keyCols updateCols key set_vals ps resolve d =
     (let allCols = keyCols @ updateCols in
      bind_r (specimen_row resolve table allCols) (\<lambda>cells.
      bind_r (stringPort ps ''returning'') (\<lambda>ret.
        let specimen = fold (\<lambda>(c, v) ob. obj_set ob c v) cells [];
            returning = (case ret of None \<Rightarrow> [] | Some r \<Rightarrow> or_blank (pg_buildReturning (split_csv r) ''t''))
        in bind_r (pg_buildUpdateMany (batch_update_opts table keyCols updateCols [specimen, specimen] (Some [specimen, specimen]) returning)) (\<lambda>m.
           Inr \<lparr>op_sql = sql m, op_params = pgBatchArrayParams allCols (\<lambda>c. if c \<in> set keyCols then js_get key c else js_get set_vals c) d,
                op_pk = None, op_meta = None\<rparr>))))"

section \<open>The node\<close>

definition is_batch :: "jsobj \<Rightarrow> scp_error + bool" where
  "is_batch ps = bind_r (stringPort ps ''batch'') (\<lambda>b. Inr (b = Some ''true''))"

definition compileBatchInsert :: "string \<Rightarrow> jsobj \<Rightarrow> jsobj \<Rightarrow> string list \<Rightarrow> dialect \<Rightarrow> column_resolver option \<Rightarrow> scp_error + tx_op" where
  "compileBatchInsert table ps vals cols d resolver =
     (if d = Postgres then (case resolver of
          None \<Rightarrow> Inl (InvalidWrite ''batch insert without column types'')
        | Some resolve \<Rightarrow> pgBatchInsert table cols vals ps resolve d)
      else bind_r (stringPort ps ''returning'') (\<lambda>ret.
           bind_r (onConflictJsonOpts ps (batch_insert_opts table cols [] None (or_blank ret))) (\<lambda>opt.
           bind_r (pkPort ps) (\<lambda>pk. bind_r (stringPort ps ''onConflict'') (\<lambda>conflict. bind_r (returningColumns ps) (\<lambda>rcols.
             Inr \<lparr>op_sql = sql (if d = Mysql then mysqlInsertJson opt else sqliteInsertJson opt),
                  op_params = [batchRows cols (map (js_get vals) cols) d], op_pk = pk,
                  op_meta = Some \<lparr>metaTable = table, bindColumns = cols, metaReturning = rcols, metaConflict = conflict, metaBatch = True\<rparr>\<rparr>))))))"

definition compileInsertNode :: "string \<Rightarrow> jsobj \<Rightarrow> (string \<times> string) list \<Rightarrow> dialect \<Rightarrow> column_resolver option \<Rightarrow> scp_error + tx_op" where
  "compileInsertNode table ps casts d resolver =
     (let vals = collectFamily ps ''values''; cols = sort (map fst vals) in
      if vals = [] then Inl (InvalidWrite ''values'')
      else bind_r (is_batch ps) (\<lambda>batch.
        if batch then compileBatchInsert table ps vals cols d resolver
        else bind_r (onConflictTail d ps cols) (\<lambda>ctail. bind_r (returningTail ps) (\<lambda>rtail.
             bind_r (pkPort ps) (\<lambda>pk. bind_r (stringPort ps ''onConflict'') (\<lambda>conflict. bind_r (returningColumns ps) (\<lambda>rcols.
               Inr \<lparr>op_sql = ''INSERT INTO '' @ table @ '' ('' @ join '', '' cols @ '') VALUES (''
                       @ join '', '' (map (castPlaceholder d casts) cols) @ '')'' @ ctail @ rtail,
                    op_params = map (js_get vals) cols, op_pk = pk,
                    op_meta = Some \<lparr>metaTable = table, bindColumns = cols, metaReturning = rcols, metaConflict = conflict, metaBatch = False\<rparr>\<rparr>)))))))"

definition compileBatchUpdate :: "string \<Rightarrow> jsobj \<Rightarrow> jsobj \<Rightarrow> dialect \<Rightarrow> column_resolver option \<Rightarrow> scp_error + tx_op" where
  "compileBatchUpdate table ps set_vals d resolver =
     (let key = collectFamily ps ''key''; keyCols = sort (map fst key); updateCols = sort (map fst set_vals) in
      if keyCols = [] then Inl (InvalidWrite ''key'')
      else if d = Postgres then (case resolver of
          None \<Rightarrow> Inl (InvalidWrite ''batch update without column types'')
        | Some resolve \<Rightarrow> pgBatchUpdate table keyCols updateCols key set_vals ps resolve d)
      else bind_r (stringPort ps ''returning'') (\<lambda>ret.
           let opt = batch_update_opts table keyCols updateCols [] None (or_blank ret);
               shape = sql (if d = Mysql then mysqlUpdateManyJson opt else sqliteUpdateManyJson opt);
               columns = keyCols @ updateCols
           in bind_r (pkPort ps) (\<lambda>pk. bind_r (returningColumns ps) (\<lambda>rcols.
             Inr \<lparr>op_sql = shape,
                  op_params = replicate (qcount shape) (batchRows columns (map (js_get key) keyCols @ map (js_get set_vals) updateCols) d),
                  op_pk = pk,
                  op_meta = Some \<lparr>metaTable = table, bindColumns = columns, metaReturning = rcols, metaConflict = None, metaBatch = True\<rparr>\<rparr>))))"

definition where_tail :: "lowered \<Rightarrow> string" where
  "where_tail w = opt_text '' WHERE '' (low_sql w)"

definition compileUpdateNode :: "string \<Rightarrow> jsobj \<Rightarrow> (string \<times> string) list \<Rightarrow> dialect \<Rightarrow> column_resolver option \<Rightarrow> scp_error + tx_op" where
  "compileUpdateNode table ps casts d resolver =
     (let set_vals = collectFamily ps ''set''; setCols = map fst set_vals in
      if set_vals = [] then Inl (InvalidWrite ''set'')
      else bind_r (is_batch ps) (\<lambda>batch.
        if batch then compileBatchUpdate table ps set_vals d resolver
        else bind_r (lowerWherePort ps ''Update'' d) (\<lambda>w. bind_r (returningTail ps) (\<lambda>rtail.
             bind_r (returningColumns ps) (\<lambda>rcols. bind_r (pkPort ps) (\<lambda>pk.
               Inr \<lparr>op_sql = ''UPDATE '' @ table @ '' SET '' @ join '', '' (map (\<lambda>c. c @ '' = '' @ castPlaceholder d casts c) setCols)
                       @ where_tail w @ rtail,
                    op_params = map (js_get set_vals) setCols @ low_params w, op_pk = pk,
                    op_meta = Some \<lparr>metaTable = table, bindColumns = setCols @ low_columns w, metaReturning = rcols,
                      metaConflict = None, metaBatch = False\<rparr>\<rparr>))))))"

definition compileDeleteNode :: "string \<Rightarrow> jsobj \<Rightarrow> dialect \<Rightarrow> scp_error + tx_op" where
  "compileDeleteNode table ps d =
     bind_r (lowerWherePort ps ''Delete'' d) (\<lambda>w. bind_r (returningTail ps) (\<lambda>rtail.
     bind_r (returningColumns ps) (\<lambda>rcols. bind_r (pkPort ps) (\<lambda>pk.
       Inr \<lparr>op_sql = ''DELETE FROM '' @ table @ where_tail w @ rtail, op_params = low_params w, op_pk = pk,
            op_meta = Some \<lparr>metaTable = table, bindColumns = low_columns w, metaReturning = rcols, metaConflict = None, metaBatch = False\<rparr>\<rparr>))))"

definition compileWriteNodeSql :: "write_node \<Rightarrow> dialect \<Rightarrow> column_resolver option \<Rightarrow> scp_error + tx_op" where
  "compileWriteNodeSql node d resolver =
     bind_r (stringPort (ports node) ''table'') (\<lambda>t. case t of
       None \<Rightarrow> Inl (InvalidWrite ''table'')
     | Some table \<Rightarrow> bind_r (collectSqlCast (ports node) []) (\<lambda>casts.
         case component node of
           InsertNode \<Rightarrow> compileInsertNode table (ports node) casts d resolver
         | UpdateNode \<Rightarrow> compileUpdateNode table (ports node) casts d resolver
         | DeleteNode \<Rightarrow> compileDeleteNode table (ports node) d
         | SelectNode \<Rightarrow> Inl (InvalidWrite ''component'')))"

section \<open>Balance\<close>

definition text_ports :: "string list" where
  "text_ports = [''table'', ''returning'', ''onConflict'', ''onConflictAction'', ''pk'', ''autoInc'', ''batch'']"

definition clean_text :: "jsval \<Rightarrow> bool" where
  "clean_text v \<longleftrightarrow> (case v of JStr s \<Rightarrow> qcount s = 0 | _ \<Rightarrow> True)"

definition clean_operand :: "jsval \<Rightarrow> bool" where
  "clean_operand m \<longleftrightarrow> (case opKey m of
      Some (_, JArr (col # _)) \<Rightarrow> (case columnOf col [] of Inr c \<Rightarrow> key_column c | Inl _ \<Rightarrow> True)
    | _ \<Rightarrow> True)"

definition clean_where :: "jsval \<Rightarrow> bool" where
  "clean_where v \<longleftrightarrow> (case v of JObj ob \<Rightarrow> (case map_of ob ''arr'' of Some (JArr ms) \<Rightarrow> list_all clean_operand ms | _ \<Rightarrow> True) | _ \<Rightarrow> True)"

definition wf_ports :: "jsobj \<Rightarrow> bool" where
  "wf_ports ps \<longleftrightarrow> list_all (\<lambda>(k, v). qcount k = 0 \<and> (k \<in> set text_ports \<or> starts_with ''sqlCast.'' k \<longrightarrow> clean_text v)) ps
     \<and> clean_where (js_get ps ''where'')"

lemma js_get_mem: "js_get ps k \<noteq> JUndef \<Longrightarrow> (k, js_get ps k) \<in> set ps"
  by (auto simp: js_get_def dest: map_of_SomeD split: option.splits)

lemma stringPort_clean:
  "wf_ports ps \<Longrightarrow> name \<in> set text_ports \<Longrightarrow> stringPort ps name = Inr (Some s) \<Longrightarrow> qcount s = 0"
proof -
  assume wf: "wf_ports ps" and name: "name \<in> set text_ports" and "stringPort ps name = Inr (Some s)"
  then have "js_get ps name = JStr s" by (simp add: stringPort_def split: jsval.splits)
  with js_get_mem [of ps name] have "(name, JStr s) \<in> set ps" by simp
  with wf name have "clean_text (JStr s)" by (auto simp: wf_ports_def list_all_iff)
  then show "qcount s = 0" by (simp add: clean_text_def)
qed

lemma qcount_sub: "set t \<subseteq> set s \<Longrightarrow> qcount s = 0 \<Longrightarrow> qcount t = 0"
  by (auto simp: qcount_0_iff)

lemma set_trim: "set (trim s) \<subseteq> set s"
  by (auto simp: trim_def dest!: set_dropWhileD)

lemma set_split_on: "x \<in> set (split_on c s) \<Longrightarrow> set x \<subseteq> set s"
proof (induction s arbitrary: x)
  case (Cons a s)
  then show ?case by (auto split: list.splits if_splits) (metis Cons.IH list.set_intros subset_iff)+
qed simp

lemma split_csv_clean: "qcount s = 0 \<Longrightarrow> names_ok (split_csv s)"
  using set_trim set_split_on by (fastforce simp: names_ok_def split_csv_def qcount_0_iff)

lemma collectFamily_clean:
  assumes "wf_ports ps"
  shows "names_ok (map fst (collectFamily ps prefix))"
proof -
  have "names_ok (map fst (fold (\<lambda>(k, v) out. if starts_with p k then obj_set out (drop n k) v else out) ps out))"
    if "\<forall>kv \<in> set ps. qcount (fst kv) = 0" "names_ok (map fst out)" for ps p n and out :: jsobj
    using that
  proof (induction ps arbitrary: out)
    case (Cons kv ps)
    obtain k v where kv: "kv = (k, v)" by fastforce
    have "qcount (drop n k) = 0" using Cons.prems(1) by (auto simp: kv qcount_0_iff dest: in_set_dropD)
    then have "names_ok (map fst (if starts_with p k then obj_set out (drop n k) v else out))"
      using Cons.prems(2) set_obj_set [of out "drop n k" v] by (auto simp: names_ok_def dest!: subsetD)
    with Cons show ?case by (simp add: kv)
  qed simp
  from this [of ps "[]"] assms show ?thesis
    by (simp add: collectFamily_def wf_ports_def list_all_iff names_ok_def case_prod_beta)
qed

lemma collectSqlCast_clean:
  assumes "collectSqlCast ps m = Inr casts" and "wf_ports (ps0 @ ps)" and "\<forall>(k, t) \<in> set m. qcount t = 0"
  shows "\<forall>(k, t) \<in> set casts. qcount t = 0"
  using assms
proof (induction ps m arbitrary: ps0 rule: collectSqlCast.induct)
  case (2 k v ps m)
  show ?case
  proof (cases "starts_with ''sqlCast.'' k")
    case True
    then obtain t where v: "v = JStr t" using "2.prems"(1) by (auto split: jsval.splits)
    have "qcount t = 0" using "2.prems"(2) True by (simp add: wf_ports_def v clean_text_def)
    then have "\<forall>(k', t') \<in> set (obj_set m (drop (length ''sqlCast.'') k) t). qcount t' = 0"
      using "2.prems"(3) set_obj_set [of m "drop (length ''sqlCast.'') k" t] by auto
    with "2.IH"(2) [of t "ps0 @ [(k, v)]"] "2.prems" True v show ?thesis by simp
  next
    case False
    with "2.IH"(1) [of "ps0 @ [(k, v)]"] "2.prems" show ?thesis by simp
  qed
qed simp

lemma castPlaceholder_one: "\<forall>(k, t) \<in> set casts. qcount t = 0 \<Longrightarrow> qcount (castPlaceholder d casts c) = 1"
  by (auto simp: castPlaceholder_def formatterFor_def pgCastFormatter_def dest!: map_of_SomeD split: option.splits)

lemma condition_text:
  assumes "\<not> starts_with ''__'' key" and "\<nexists>t. v = JTok t" and "\<nexists>c. v = JCond c"
  shows "v1ConditionText key v = fst (compilePlain key v [])"
proof -
  have "key \<noteq> ''__raw__'' \<and> key \<noteq> ''__or__'' \<and> key \<noteq> ''__exists__''" using assms(1) reserved_prefix by auto
  then have "compileCondition (key, v) None [] = compilePlain key v []"
    using assms by (cases v) auto
  then show ?thesis
    by (cases "compilePlain key v []") (simp add: v1ConditionText_def and_conditions_def del: compileCondition.simps)
qed

lemma not_reserved: "key_column c \<Longrightarrow> \<not> starts_with ''__'' (c @ CHR '' '' # r)"
  by (cases c; cases "tl c") (auto simp: key_column_def)

definition fits :: "lowered \<Rightarrow> bool" where
  "fits w \<longleftrightarrow> qcount (low_sql w) = length (low_params w) \<and> length (low_columns w) = length (low_params w)"

lemma probe_text: "qcount key = 1 \<Longrightarrow> \<not> starts_with ''__'' key \<Longrightarrow> fits (with_value key v c)"
  using condition_text [of key PROBE]
  by (auto simp: fits_def with_value_def PROBE_def compilePlain_def compileCustomOperator_def qcount_0_iff [symmetric])

lemma in_list_shape: "\<exists>r. inListPredicate d c = c @ CHR '' '' # r"
  by (cases d) (simp_all add: inListPredicate_def)

lemma columnOf_at: "columnOf col at = Inr c \<Longrightarrow> columnOf col at' = Inr c"
  by (auto simp: columnOf_def split: option.splits jsval.splits list.splits if_splits)

lemma operands_clean:
  assumes "opKey m = Some (op, args)" and "binOperands args at = Inr (col, v)" and "columnOf col at = Inr c" and "clean_operand m"
  shows "key_column c"
proof -
  have "args = JArr [col, v]"
    using assms(2) by (auto simp: binOperands_def split: jsval.splits list.splits)
  with assms(1,4) columnOf_at [OF assms(3), of "[]"] show ?thesis by (simp add: clean_operand_def)
qed

lemma lowered_texts:
  assumes "key_column c"
  shows "fits (with_value (inListPredicate d c) v c)" and "fits (with_value c v c)"
    and "qcount sgn_text = 0 \<Longrightarrow> fits (with_value (c @ '' '' @ sgn_text @ '' ?'') v c)"
    and "qcount (v1ConditionText c JNull) = 0" and "qcount (v1ConditionText (c @ '' IS NOT NULL'') (JBool True)) = 0"
proof -
  have c: "qcount c = 0" "\<not> starts_with ''__'' c" using assms by (simp_all add: key_column_def)
  obtain r where r: "inListPredicate d c = c @ CHR '' '' # r" using in_list_shape by blast
  show "fits (with_value (inListPredicate d c) v c)"
    using not_reserved [OF assms] c by (intro probe_text) (simp add: qcount_inListPredicate, simp add: r)
  show "qcount sgn_text = 0 \<Longrightarrow> fits (with_value (c @ '' '' @ sgn_text @ '' ?'') v c)"
    using not_reserved [OF assms, of "sgn_text @ '' ?''"] c by (intro probe_text) simp_all
  show "fits (with_value c v c)"
    using condition_text [OF c(2), of PROBE] c(1)
    by (auto simp: fits_def with_value_def PROBE_def compilePlain_def qcount_0_iff)
  show "qcount (v1ConditionText c JNull) = 0"
    using condition_text [OF c(2), of JNull] c(1) by (simp add: compilePlain_def)
  show "qcount (v1ConditionText (c @ '' IS NOT NULL'') (JBool True)) = 0"
    using condition_text [OF not_reserved [OF assms], of "JBool True" "''IS NOT NULL''"] c(1) by (simp add: compilePlain_def)
qed

lemma cmp_op_qfree: "cmp_op op = Some t \<Longrightarrow> qcount t = 0"
  by (auto simp: cmp_op_def split: if_splits)

lemma lowerWhereMember_fits:
  assumes "lowerWhereMember m at d = Inr w" and "clean_operand m"
  shows "fits w"
proof -
  obtain op args where m: "opKey m = Some (op, args)"
    using assms(1) by (auto simp: lowerWhereMember_def split: option.splits)
  have "\<exists>col v. binOperands args at = Inr (col, v) \<and> (\<exists>c. columnOf col at = Inr c)"
    using assms(1) by (auto simp: lowerWhereMember_def m bind_r_Inr_iff split: option.splits if_splits)
  then obtain col v c where b: "binOperands args at = Inr (col, v)" and c: "columnOf col at = Inr c" by blast
  have nullw: "qcount t = 0 \<Longrightarrow> fits \<lparr>low_sql = t, low_params = [], low_columns = []\<rparr>" for t by (simp add: fits_def)
  note texts = lowered_texts [OF operands_clean [OF m b c assms(2)]]
  show ?thesis
    using assms(1) texts cmp_op_qfree [of op]
    by (auto simp: lowerWhereMember_def m b c nullw split: option.splits if_splits)
qed

lemma lowerWherePort_fits:
  assumes "lowerWherePort ps at d = Inr w" and "wf_ports ps"
  shows "fits w"
proof (cases "js_get ps ''where''")
  case (JObj ob)
  then obtain ms fs where ms: "map_of ob ''arr'' = Some (JArr ms)" and fs: "map_r (\<lambda>m. lowerWhereMember m at d) ms = Inr fs"
    and w: "w = \<lparr>low_sql = join '' AND '' (map low_sql fs), low_params = concat (map low_params fs), low_columns = concat (map low_columns fs)\<rparr>"
    using assms(1) by (auto simp: lowerWherePort_def bind_r_Inr_iff split: option.splits jsval.splits)
  have "list_all clean_operand ms" using assms(2) by (simp add: wf_ports_def clean_where_def JObj ms)
  then have all: "\<forall>f \<in> set fs. fits f"
    using fs lowerWhereMember_fits by (intro map_r_all [OF fs]) (auto simp: list_all_iff)
  have "sum_list (map (qcount \<circ> low_sql) fs) = length (concat (map low_params fs)) \<and> length (concat (map low_columns fs)) = length (concat (map low_params fs))"
    using all by (induction fs) (auto simp: fits_def)
  then show ?thesis by (simp add: fits_def w qcount_join)
qed (use assms(1) in \<open>auto simp: lowerWherePort_def fits_def\<close>)

lemma where_tail_fits: "fits w \<Longrightarrow> qcount (where_tail w) = length (low_params w)"
  by (auto simp: fits_def where_tail_def opt_text_def)


definition op_fits :: "tx_op \<Rightarrow> bool" where
  "op_fits op \<longleftrightarrow> qcount (op_sql op) = length (op_params op)
     \<and> (case op_meta op of None \<Rightarrow> True | Some m \<Rightarrow> metaBatch m \<or> length (bindColumns m) = length (op_params op))"

lemma names_ok_sort [simp]: "names_ok (sort cs) = names_ok cs"
  by (simp add: names_ok_def)

lemma returningTail_clean: "wf_ports ps \<Longrightarrow> returningTail ps = Inr t \<Longrightarrow> qcount t = 0"
  using stringPort_clean [of ps "''returning''"]
  by (auto simp: returningTail_def bind_r_Inr_iff text_ports_def split: option.splits)

lemma or_blank_clean: "wf_ports ps \<Longrightarrow> stringPort ps name = Inr r \<Longrightarrow> name \<in> set text_ports \<Longrightarrow> qcount (or_blank r) = 0"
  using stringPort_clean by (auto simp: or_blank_def split: option.splits)

lemma onConflictTail_clean:
  assumes "wf_ports ps" and "names_ok cols" and "onConflictTail d ps cols = Inr t"
  shows "qcount t = 0"
proof -
  have "names_ok (split_csv s)" if "stringPort ps ''onConflict'' = Inr (Some s)" for s
    using stringPort_clean [OF assms(1) _ that] split_csv_clean by (simp add: text_ports_def)
  moreover have "names_ok cs \<Longrightarrow> qcount (first_col cs) = 0" for cs
    by (auto simp: first_col_def names_ok_def split: list.splits)
  ultimately show ?thesis
    using assms(2,3) by (auto simp: onConflictTail_def bind_r_Inr_iff Let_def arity_simps split: option.splits if_splits)
qed

lemma onConflictJsonOpts_wf:
  assumes "wf_ports ps" and "wf_insert opt" and "onConflictJsonOpts ps opt = Inr opt'"
  shows "wf_insert opt'" and "ins_columns opt' = ins_columns opt" and "ins_records opt' = ins_records opt"
proof -
  have "names_ok (split_csv s)" if "stringPort ps ''onConflict'' = Inr (Some s)" for s
    using stringPort_clean [OF assms(1) _ that] split_csv_clean by (simp add: text_ports_def)
  then show "wf_insert opt'"
    using assms(2,3) by (auto simp: onConflictJsonOpts_def bind_r_Inr_iff wf_insert_def split: option.splits if_splits)
  show "ins_columns opt' = ins_columns opt" and "ins_records opt' = ins_records opt"
    using assms(3) by (auto simp: onConflictJsonOpts_def bind_r_Inr_iff split: option.splits if_splits)
qed

lemma specimen_plain: "pgTypeSpecimen t = Inr v \<Longrightarrow> wf_val v \<and> \<not> is_token v"
proof -
  assume "pgTypeSpecimen t = Inr v"
  then obtain k where "(case k of MInt \<Rightarrow> Inr (JBig 0) | MBool \<Rightarrow> Inr (JBool False)
      | MDate \<Rightarrow> Inr (JDate ''1970-01-01T00:00:00.000Z'' ''Thu Jan 01 1970'')
      | MPass \<Rightarrow> bind_r (sqlTypeToBcScalar t) (\<lambda>s. Inr (if s = BcFloat then JFrac ''0.5'' else JStr []))) = Inr v"
    by (auto simp: pgTypeSpecimen_def bind_r_Inr_iff)
  then show "wf_val v \<and> \<not> is_token v"
    by (cases k) (auto simp: bind_r_Inr_iff wf_val_def is_token_def split: if_splits)
qed

lemma specimen_cells:
  assumes "specimen_row resolve table cols = Inr cells"
  shows "\<forall>kv \<in> set cells. wf_val (snd kv) \<and> \<not> is_token (snd kv)"
  using assms unfolding specimen_row_def by (rule map_r_all) (auto simp: bind_r_Inr_iff specimen_plain)

lemma batch_insert_wf:
  "qcount table = 0 \<Longrightarrow> names_ok cols \<Longrightarrow> \<forall>r \<in> set records. wf_record r \<Longrightarrow> qcount ret = 0 \<Longrightarrow>
     wf_insert (batch_insert_opts table cols records raw ret)"
  by (simp add: batch_insert_opts_def wf_insert_def casts_ok_def)

lemma batch_update_wf:
  "qcount table = 0 \<Longrightarrow> names_ok ks \<Longrightarrow> names_ok cs \<Longrightarrow> \<forall>r \<in> set records. wf_record r \<Longrightarrow> qcount ret = 0 \<Longrightarrow>
     wf_update (batch_update_opts table ks cs records raw ret)"
  by (simp add: batch_update_opts_def wf_update_def casts_ok_def skip_columns_def names_ok_def)

lemma no_token: "\<forall>kv \<in> set r. \<not> is_token (snd kv) \<Longrightarrow> \<not> is_token (js_get r c)"
  by (auto simp: js_get_def is_token_def split: option.splits dest!: map_of_SomeD)

lemma pgBatchInsert_fits:
  assumes wf: "wf_ports ps" "qcount table = 0" "names_ok cols" and op: "pgBatchInsert table cols vals ps resolve d = Inr op"
  shows "op_fits op"
proof -
  obtain specimen ret opt m where sp: "specimen_row resolve table cols = Inr specimen" and ret: "stringPort ps ''returning'' = Inr ret"
    and opt: "onConflictJsonOpts ps (batch_insert_opts table cols [specimen, specimen] (Some [specimen, specimen]) (or_blank ret)) = Inr opt"
    and m: "pg_buildInsert opt = Inr m"
    and o: "op = \<lparr>op_sql = sql m, op_params = pgBatchArrayParams cols (js_get vals) d, op_pk = None, op_meta = None\<rparr>"
    using op by (auto simp: pgBatchInsert_def bind_r_Inr_iff)
  note cells = specimen_cells [OF sp]
  have "wf_insert (batch_insert_opts table cols [specimen, specimen] (Some [specimen, specimen]) (or_blank ret))"
    using cells wf or_blank_clean [OF wf(1) ret] by (intro batch_insert_wf) (auto simp: wf_record_def text_ports_def)
  note opt_wf = onConflictJsonOpts_wf [OF wf(1) this opt]
  have shape: "ins_columns opt = cols" "ins_records opt = [specimen, specimen]" using opt_wf by (simp_all add: batch_insert_opts_def)
  have "balanced m" using pg_insert_balanced [OF opt_wf(1) m] .
  moreover have "\<not> (\<exists>c \<in> set (ins_columns opt). \<exists>r \<in> set (ins_records opt). is_token (js_get r c))"
    using cells no_token by (auto simp: shape)
  then obtain qs us ss where u: "unnest_columns opt cols = Inr (Some (qs, us, ss))" and "m = pg_unnest_insert opt (qs, us, ss)"
    using m shape unnest_columns_tokens [of opt cols]
    by (auto simp: pg_buildInsert_def bind_r_Inr_iff split: option.splits)
  then have "length (params m) = length cols"
    using unnest_columns_shape [OF u] by (simp add: pg_unnest_insert_def mk_def)
  ultimately show ?thesis by (simp add: o op_fits_def pgBatchArrayParams_def balanced_def)
qed


lemma pgBatchUpdate_fits:
  assumes wf: "wf_ports ps" "qcount table = 0" "names_ok ks" "names_ok cs" and op: "pgBatchUpdate table ks cs key set_vals ps resolve d = Inr op"
  shows "op_fits op"
proof -
  obtain cells ret m where sp: "specimen_row resolve table (ks @ cs) = Inr cells" and ret: "stringPort ps ''returning'' = Inr ret"
    and m: "pg_buildUpdateMany (batch_update_opts table ks cs [fold (\<lambda>(c, v) ob. obj_set ob c v) cells [], fold (\<lambda>(c, v) ob. obj_set ob c v) cells []]
        (Some [fold (\<lambda>(c, v) ob. obj_set ob c v) cells [], fold (\<lambda>(c, v) ob. obj_set ob c v) cells []])
        (case ret of None \<Rightarrow> [] | Some r \<Rightarrow> or_blank (pg_buildReturning (split_csv r) ''t''))) = Inr m"
    and o: "op_sql op = sql m" "length (op_params op) = length (ks @ cs)" "op_meta op = None"
    using op by (auto simp: pgBatchUpdate_def bind_r_Inr_iff Let_def pgBatchArrayParams_def)
  let ?sp = "fold (\<lambda>(c, v) ob. obj_set ob c v) cells []"
  let ?opt = "batch_update_opts table ks cs [?sp, ?sp] (Some [?sp, ?sp]) (case ret of None \<Rightarrow> [] | Some r \<Rightarrow> or_blank (pg_buildReturning (split_csv r) ''t''))"
  have filled: "wf_record (fold (\<lambda>(c, v) ob. obj_set ob c v) xs ob)" if "\<forall>kv \<in> set xs. wf_val (snd kv)" "wf_record ob" for xs ob
    using that
  proof (induction xs arbitrary: ob)
    case (Cons kv xs)
    then have "wf_record (obj_set ob (fst kv) (snd kv))"
      using set_obj_set [of ob "fst kv" "snd kv"] by (auto simp: wf_record_def)
    with Cons show ?case by (simp add: case_prod_beta)
  qed simp
  have "wf_record ?sp" using filled [of cells "[]"] specimen_cells [OF sp] by (simp add: wf_record_def)
  moreover have "qcount (join '', '' (map ((@) ''t.'') (split_csv r))) = 0" if "ret = Some r" for r
  proof -
    have "qcount r = 0" using stringPort_clean [OF wf(1), of "''returning''" r] ret that by (simp add: text_ports_def)
    then show ?thesis using split_csv_clean [of r] by (intro qcount_join_names) (auto simp: names_ok_def)
  qed
  then have "qcount (case ret of None \<Rightarrow> [] | Some r \<Rightarrow> or_blank (pg_buildReturning (split_csv r) ''t'')) = 0"
    by (simp add: pg_buildReturning_def or_blank_def split: option.splits)
  ultimately have "wf_update ?opt" using wf(2-4) by (intro batch_update_wf) simp_all
  from pg_update_balanced [OF this m] have "balanced m" .
  moreover have "length (params m) = length (ks @ cs)"
    using m by (auto simp: pg_buildUpdateMany_def Let_def bind_r_Inr_iff mk_def batch_update_opts_def skip_columns_def dest: map_r_Inr_length)
  ultimately show ?thesis using o by (simp add: op_fits_def balanced_def)
qed

lemma one_each: "\<forall>x \<in> set xs. qcount (f x) = 1 \<Longrightarrow> qcount (join '', '' (map f xs)) = length xs"
  using join_ones [of "'', ''" "map f xs"] by simp

lemma insert_node_fits:
  assumes wf: "wf_ports ps" "qcount table = 0" "\<forall>(k, t) \<in> set casts. qcount t = 0"
    and op: "compileInsertNode table ps casts d resolver = Inr op"
  shows "op_fits op"
proof -
  let ?vals = "collectFamily ps ''values''"
  let ?cols = "sort (map fst ?vals)"
  have cols: "names_ok ?cols" using collectFamily_clean [OF wf(1)] by simp
  obtain batch where b: "is_batch ps = Inr batch"
    and body: "(if batch then compileBatchInsert table ps ?vals ?cols d resolver
        else bind_r (onConflictTail d ps ?cols) (\<lambda>ctail. bind_r (returningTail ps) (\<lambda>rtail.
             bind_r (pkPort ps) (\<lambda>pk. bind_r (stringPort ps ''onConflict'') (\<lambda>conflict. bind_r (returningColumns ps) (\<lambda>rcols.
               Inr \<lparr>op_sql = ''INSERT INTO '' @ table @ '' ('' @ join '', '' ?cols @ '') VALUES (''
                       @ join '', '' (map (castPlaceholder d casts) ?cols) @ '')'' @ ctail @ rtail,
                    op_params = map (js_get ?vals) ?cols, op_pk = pk,
                    op_meta = Some \<lparr>metaTable = table, bindColumns = ?cols, metaReturning = rcols, metaConflict = conflict, metaBatch = False\<rparr>\<rparr>)))))) = Inr op"
    using op by (auto simp: compileInsertNode_def Let_def bind_r_Inr_iff split: if_splits)
  show ?thesis
  proof (cases batch)
    case False
    have "\<forall>c \<in> set ?cols. qcount (castPlaceholder d casts c) = 1" using castPlaceholder_one [OF wf(3)] by blast
    from one_each [OF this] show ?thesis
      using body False cols wf(2) onConflictTail_clean [OF wf(1) cols] returningTail_clean [OF wf(1)]
      by (auto simp: bind_r_Inr_iff op_fits_def arity_simps)
  next
    case True
    show ?thesis
    proof (cases "d = Postgres")
      case True
      with body \<open>batch\<close> pgBatchInsert_fits [OF wf(1,2) cols] show ?thesis
        by (auto simp: compileBatchInsert_def split: option.splits)
    next
      case False
      obtain ret opt where ret: "stringPort ps ''returning'' = Inr ret"
        and opt: "onConflictJsonOpts ps (batch_insert_opts table ?cols [] None (or_blank ret)) = Inr opt"
        and o: "op_sql op = sql (if d = Mysql then mysqlInsertJson opt else sqliteInsertJson opt)" "length (op_params op) = 1"
          "(case op_meta op of None \<Rightarrow> False | Some m \<Rightarrow> metaBatch m)"
        using body \<open>batch\<close> False by (auto simp: compileBatchInsert_def bind_r_Inr_iff)
      have "wf_insert (batch_insert_opts table ?cols [] None (or_blank ret))"
        using cols wf(2) or_blank_clean [OF wf(1) ret] by (intro batch_insert_wf) (simp_all add: text_ports_def)
      note w = onConflictJsonOpts_wf(1) [OF wf(1) this opt]
      have "length (params (mysqlInsertJson opt)) = 1" "length (params (sqliteInsertJson opt)) = 1"
        by (simp_all add: mysqlInsertJson_def sqliteInsertJson_def Let_def mk_def)
      with o mysqlInsertJson_balanced [OF w] sqliteInsertJson_balanced [OF w] show ?thesis
        by (auto simp: op_fits_def balanced_def split: option.splits if_splits)
    qed
  qed
qed

lemma update_node_fits:
  assumes wf: "wf_ports ps" "qcount table = 0" "\<forall>(k, t) \<in> set casts. qcount t = 0"
    and op: "compileUpdateNode table ps casts d resolver = Inr op"
  shows "op_fits op"
proof -
  let ?vals = "collectFamily ps ''set''"
  have cols: "names_ok (map fst ?vals)" by (rule collectFamily_clean [OF wf(1)])
  obtain batch where b: "is_batch ps = Inr batch"
    and body: "(if batch then compileBatchUpdate table ps ?vals d resolver
        else bind_r (lowerWherePort ps ''Update'' d) (\<lambda>w. bind_r (returningTail ps) (\<lambda>rtail.
             bind_r (returningColumns ps) (\<lambda>rcols. bind_r (pkPort ps) (\<lambda>pk.
               Inr \<lparr>op_sql = ''UPDATE '' @ table @ '' SET '' @ join '', '' (map (\<lambda>c. c @ '' = '' @ castPlaceholder d casts c) (map fst ?vals))
                       @ where_tail w @ rtail,
                    op_params = map (js_get ?vals) (map fst ?vals) @ low_params w, op_pk = pk,
                    op_meta = Some \<lparr>metaTable = table, bindColumns = map fst ?vals @ low_columns w, metaReturning = rcols,
                      metaConflict = None, metaBatch = False\<rparr>\<rparr>))))) = Inr op"
    using op by (auto simp: compileUpdateNode_def Let_def bind_r_Inr_iff split: if_splits)
  show ?thesis
  proof (cases batch)
    case False
    have "\<forall>c \<in> set (map fst ?vals). qcount (c @ '' = '' @ castPlaceholder d casts c) = 1"
      using cols castPlaceholder_one [OF wf(3)] by (simp add: names_ok_def)
    from one_each [OF this] show ?thesis
      using body False wf(2) lowerWherePort_fits [OF _ wf(1)] where_tail_fits returningTail_clean [OF wf(1)]
      by (auto simp: bind_r_Inr_iff op_fits_def fits_def arity_simps)
  next
    case True
    let ?ks = "sort (map fst (collectFamily ps ''key''))" and ?cs = "sort (map fst ?vals)"
    have ks: "names_ok ?ks" "names_ok ?cs" using collectFamily_clean [OF wf(1)] by simp_all
    have b2: "compileBatchUpdate table ps ?vals d resolver = Inr op" using body True by simp
    show ?thesis
    proof (cases "d = Postgres")
      case True
      with b2 pgBatchUpdate_fits [OF wf(1,2) ks] show ?thesis
        by (auto simp: compileBatchUpdate_def Let_def split: option.splits if_splits)
    next
      case False
      with b2 show ?thesis
        by (auto simp: compileBatchUpdate_def Let_def bind_r_Inr_iff op_fits_def split: if_splits)
    qed
  qed
qed

lemma delete_node_fits:
  assumes "wf_ports ps" and "qcount table = 0" and "compileDeleteNode table ps d = Inr op"
  shows "op_fits op"
proof -
  obtain w rtail where w: "lowerWherePort ps ''Delete'' d = Inr w" and r: "returningTail ps = Inr rtail"
    and o: "op_sql op = ''DELETE FROM '' @ table @ where_tail w @ rtail" "op_params op = low_params w"
      "\<exists>m. op_meta op = Some m \<and> bindColumns m = low_columns w"
    using assms(3) by (auto simp: compileDeleteNode_def bind_r_Inr_iff)
  note f = lowerWherePort_fits [OF w assms(1)]
  show ?thesis
    using o assms(2) f where_tail_fits [OF f] returningTail_clean [OF assms(1) r] by (auto simp: op_fits_def fits_def)
qed


lemma write_node_fits:
  assumes "wf_ports (ports node)" and "compileWriteNodeSql node d resolver = Inr op"
  shows "op_fits op"
proof -
  obtain table casts where t: "stringPort (ports node) ''table'' = Inr (Some table)" and c: "collectSqlCast (ports node) [] = Inr casts"
    and op: "(case component node of
           InsertNode \<Rightarrow> compileInsertNode table (ports node) casts d resolver
         | UpdateNode \<Rightarrow> compileUpdateNode table (ports node) casts d resolver
         | DeleteNode \<Rightarrow> compileDeleteNode table (ports node) d
         | SelectNode \<Rightarrow> Inl (InvalidWrite ''component'')) = Inr op"
    using assms(2) by (auto simp: compileWriteNodeSql_def bind_r_Inr_iff split: option.splits)
  have "qcount table = 0" using stringPort_clean [OF assms(1) _ t] by (simp add: text_ports_def)
  moreover have "\<forall>(k, t) \<in> set casts. qcount t = 0"
    using collectSqlCast_clean [OF c, of "[]"] assms(1) by simp
  ultimately show ?thesis
    using op insert_node_fits update_node_fits delete_node_fits assms(1)
    by (cases "component node") simp_all
qed


end
