(* ===== verification/MysqlReturning.thy ===== *)
theory MysqlReturning
  imports WriteNode
begin

text \<open>
  \<open>src/scp/makesql/mysql-returning.ts\<close>: MySQL has no RETURNING, so a write that carries one is split into
  the write and a SELECT that reads the written rows back.  The regular expressions that take the
  statement apart are written out; the hint is a comment that names the primary key.  The connection
  adapter that runs the pair is \<open>mysqlConnection\<close> of \<open>pool-executor.ts\<close>.
\<close>

section \<open>Scanning\<close>

text \<open>A literal in any case at this place; one or more white spaces; the first place where a scan succeeds.\<close>

definition match_ci :: "string \<Rightarrow> string \<Rightarrow> string option" where
  "match_ci w s = (if map lower (take (length w) s) = w then Some (drop (length w) s) else None)"

definition skip_space :: "string \<Rightarrow> string option" where
  "skip_space s = (case s of [] \<Rightarrow> None | c # _ \<Rightarrow> if is_space c then Some (dropWhile is_space s) else None)"

fun scan :: "(bool \<Rightarrow> string \<Rightarrow> 'a option) \<Rightarrow> bool \<Rightarrow> string \<Rightarrow> 'a option" where
  "scan f prev [] = f prev []"
| "scan f prev (c # s) = (case f prev (c # s) of Some x \<Rightarrow> Some x | None \<Rightarrow> scan f (is_word_char c) s)"

definition obind :: "'a option \<Rightarrow> ('a \<Rightarrow> 'b option) \<Rightarrow> 'b option" where
  "obind x f = (case x of None \<Rightarrow> None | Some y \<Rightarrow> f y)"

lemma obind_simps [simp]: "obind None f = None" "obind (Some x) f = f x"
  by (simp_all add: obind_def)

lemma obind_Some: "obind x f = Some y \<longleftrightarrow> (\<exists>z. x = Some z \<and> f z = Some y)"
  by (cases x) simp_all

fun lastIndexOf :: "string \<Rightarrow> string \<Rightarrow> nat option" where
  "lastIndexOf p [] = (if p = [] then Some 0 else None)"
| "lastIndexOf p (c # s) = (case lastIndexOf p s of
      Some i \<Rightarrow> Some (Suc i)
    | None \<Rightarrow> if starts_with p (c # s) then Some 0 else None)"

fun index_of :: "string \<Rightarrow> string list \<Rightarrow> nat option" where
  "index_of x [] = None"
| "index_of x (y # ys) = (if x = y then Some 0 else map_option Suc (index_of x ys))"

section \<open>The primary-key hint\<close>

definition hint_open :: string where "hint_open = ''/*scp:pk=''"

text \<open>\<open>MYSQL_PK_HINT_RE\<close> at this place: what follows the hint.\<close>

definition hint_at :: "string \<Rightarrow> string option" where
  "hint_at s = (let r = dropWhile is_space s in
     if starts_with hint_open r
     then (let rest = dropWhile (\<lambda>c. c \<noteq> CHR ''*'') (drop (length hint_open) r) in
           if starts_with ''*/'' rest then Some (drop 2 rest) else None)
     else None)"

definition has_hint :: "string \<Rightarrow> bool" where
  "has_hint s \<longleftrightarrow> scan (\<lambda>_. hint_at) False s \<noteq> None"

fun stripMysqlPkHint :: "string \<Rightarrow> string" where
  "stripMysqlPkHint [] = []"
| "stripMysqlPkHint (c # s) = (case hint_at (c # s) of Some r \<Rightarrow> r | None \<Rightarrow> c # stripMysqlPkHint s)"

definition hint_text :: "pk_desc \<Rightarrow> string option \<Rightarrow> string" where
  "hint_text pk conflict =
     '' /*scp:pk='' @ join '','' (pkColumns pk) @ '';ai='' @ or_blank (autoInc pk)
     @ (case conflict of None \<Rightarrow> [] | Some c \<Rightarrow> opt_text '';conflict='' c) @ ''*/''"

definition mysqlPkHint :: "tx_op \<Rightarrow> string option \<Rightarrow> tx_op" where
  "mysqlPkHint op onConflict = (case op_pk op of
      None \<Rightarrow> op
    | Some pk \<Rightarrow>
        (if \<not> contains_keyword [''returning''] (op_sql op) then op
         else if has_hint (op_sql op) then op
         else (let conflict = (case onConflict of Some c \<Rightarrow> Some c | None \<Rightarrow> (case op_meta op of None \<Rightarrow> None | Some m \<Rightarrow> metaConflict m))
               in op\<lparr>op_sql := op_sql op @ hint_text pk conflict\<rparr>)))"

definition compileWriteNode :: "write_node \<Rightarrow> dialect \<Rightarrow> column_resolver option \<Rightarrow> scp_error + tx_op" where
  "compileWriteNode node d resolver =
     bind_r (compileWriteNodeSql node d resolver) (\<lambda>op. Inr (if d = Mysql then mysqlPkHint op None else op))"

definition pk_hint_tail :: "string \<Rightarrow> (string \<times> string) option" where
  "pk_hint_tail r = (let pk = takeWhile (\<lambda>c. c \<noteq> CHR '';'' \<and> c \<noteq> CHR ''*'') r in
     obind (match_ci '';ai='' (drop (length pk) r)) (\<lambda>r2. Some (pk, takeWhile (\<lambda>c. c \<noteq> CHR '';'' \<and> c \<noteq> CHR ''*'') r2)))"

definition pk_hint_at :: "string \<Rightarrow> (string \<times> string) option" where
  "pk_hint_at s = obind (match_ci hint_open s) pk_hint_tail"

definition parsePkHint :: "string \<Rightarrow> string list \<times> string" where
  "parsePkHint region = (case scan (\<lambda>_. pk_hint_at) False region of
      None \<Rightarrow> ([], [])
    | Some (pk, ai) \<Rightarrow> (split_csv pk, trim ai))"

definition conflict_hint_tail :: "string \<Rightarrow> string option" where
  "conflict_hint_tail r = (let c = takeWhile (\<lambda>c. c \<noteq> CHR ''*'') r in if starts_with ''*/'' (drop (length c) r) then Some c else None)"

definition conflict_hint_at :: "string \<Rightarrow> string option" where
  "conflict_hint_at s = obind (match_ci '';conflict='' s) conflict_hint_tail"

definition parseConflictHint :: "string \<Rightarrow> string list" where
  "parseConflictHint region = (case scan (\<lambda>_. conflict_hint_at) False region of
      None \<Rightarrow> []
    | Some c \<Rightarrow> split_csv c)"

section \<open>The parts of a written statement\<close>

definition is_name_char :: "char \<Rightarrow> bool" where
  "is_name_char c \<longleftrightarrow> is_word_char c \<or> c = CHR ''.'' \<or> c = CHR 0x22 \<or> c = CHR 0x60"

text \<open>\<open>INSERT\\s+(?:IGNORE\\s+)?INTO\<close>, \<open>UPDATE\<close>, \<open>DELETE\\s+FROM\<close>, each followed by white space and a name.\<close>

definition insert_head :: "string \<Rightarrow> string option" where
  "insert_head s = obind (match_ci ''insert'' s) (\<lambda>r. obind (skip_space r) (\<lambda>r1.
     case obind (match_ci ''ignore'' r1) (\<lambda>r2. obind (skip_space r2) (match_ci ''into'')) of
       Some r3 \<Rightarrow> Some r3
     | None \<Rightarrow> match_ci ''into'' r1))"

definition write_head :: "string \<Rightarrow> string option" where
  "write_head s = (case insert_head s of
      Some r \<Rightarrow> Some r
    | None \<Rightarrow> (case match_ci ''update'' s of
        Some r \<Rightarrow> Some r
      | None \<Rightarrow> obind (match_ci ''delete'' s) (\<lambda>r. obind (skip_space r) (match_ci ''from''))))"

definition name_after :: "string \<Rightarrow> (string \<times> string) option" where
  "name_after s = obind (skip_space s) (\<lambda>r. let n = takeWhile is_name_char r in
     if n = [] then None else Some (n, drop (length n) r))"

definition table_at :: "bool \<Rightarrow> string \<Rightarrow> string option" where
  "table_at prev s = (if prev then None else obind (write_head s) (\<lambda>r. obind (name_after r) (\<lambda>(n, _). Some n)))"

definition tableOf :: "string \<Rightarrow> string option" where
  "tableOf = scan table_at False"

definition cols_at :: "bool \<Rightarrow> string \<Rightarrow> string option" where
  "cols_at prev s = (if prev then None else obind (insert_head s) (\<lambda>r. obind (name_after r) (\<lambda>(_, r2).
     case dropWhile is_space r2 of
       [] \<Rightarrow> None
     | c # r3 \<Rightarrow> (if c = CHR ''('' \<and> CHR '')'' \<in> set r3 then Some (takeWhile (\<lambda>c. c \<noteq> CHR '')'') r3) else None))))"

definition insertCols :: "string \<Rightarrow> string list" where
  "insertCols q = (case scan cols_at False q of None \<Rightarrow> [] | Some cols \<Rightarrow> map trim (split_on (CHR '','') cols))"

text \<open>
  \<open>\\sON\\s+[A-Za-z0-9_]*\\.?([A-Za-z0-9_]+)\\s*=\<close>: the name after the dot; without a dot the first part
  takes all but the last character.
\<close>

definition key_after_on :: "string \<Rightarrow> string option" where
  "key_after_on r = (let w = takeWhile is_word_char r; rest = drop (length w) r in
     case rest of
       [] \<Rightarrow> None
     | c # rest' \<Rightarrow>
         (if c = CHR ''.'' then (let g = takeWhile is_word_char rest' in
            if g \<noteq> [] \<and> starts_with ''='' (dropWhile is_space (drop (length g) rest')) then Some g else None)
          else if w \<noteq> [] \<and> starts_with ''='' (dropWhile is_space rest) then Some [last w] else None))"

fun on_key_at :: "bool \<Rightarrow> string \<Rightarrow> string option" where
  "on_key_at _ [] = None"
| "on_key_at _ (c # s) = (if is_space c then obind (match_ci ''on'' s) (\<lambda>r. obind (skip_space r) key_after_on) else None)"

definition updateBatchKey :: "string \<Rightarrow> string option" where
  "updateBatchKey = scan on_key_at False"

section \<open>The reading SELECT\<close>

datatype reselect_bind = LastId | HighId | JsonBind | ParamBind nat

record reselect =
  writeSql :: string
  selectSql :: string
  binds :: "reselect_bind list"
  runsBefore :: bool

fun pk_binds :: "string list \<Rightarrow> string list \<Rightarrow> scp_error + reselect_bind list" where
  "pk_binds cols [] = Inr []"
| "pk_binds cols (c # pk) = (case index_of c cols of
      None \<Rightarrow> Inl (UnrecoverableWrite ''pk column'')
    | Some i \<Rightarrow> bind_r (pk_binds cols pk) (\<lambda>bs. Inr (ParamBind i # bs)))"

definition json_select :: "string \<Rightarrow> string \<Rightarrow> string \<Rightarrow> string \<Rightarrow> string" where
  "json_select cols table key orderBy =
     ''SELECT '' @ cols @ '' FROM '' @ table @ '' WHERE '' @ key @ '' IN (SELECT JSON_UNQUOTE(jt.'' @ key
     @ '') FROM JSON_TABLE(?, '' @ squoted ''$[*]'' @ '' COLUMNS('' @ key @ '' JSON PATH '' @ squoted (''$.'' @ key) @ '')) jt)'' @ orderBy"

definition where_select :: "string \<Rightarrow> string \<Rightarrow> string \<Rightarrow> string \<Rightarrow> string" where
  "where_select cols table w orderBy = ''SELECT '' @ cols @ '' FROM '' @ table @ '' WHERE '' @ w @ orderBy"

text \<open>The cases on the write, with its parsed parts.\<close>

record parsed_write =
  pw_sql :: string
  pw_cols :: string
  pw_table :: string
  pw_pk :: "string list"
  pw_autoInc :: string
  pw_conflict :: "string list"

definition pw_order :: "parsed_write \<Rightarrow> string" where
  "pw_order w = (if pw_pk w = [] then [] else '' ORDER BY '' @ join '', '' (pw_pk w))"

definition reselect_of :: "parsed_write \<Rightarrow> string \<Rightarrow> reselect_bind list \<Rightarrow> bool \<Rightarrow> reselect" where
  "reselect_of w q bs first = \<lparr>writeSql = pw_sql w, selectSql = q, binds = bs, runsBefore = first\<rparr>"

definition reselect_upsert :: "parsed_write \<Rightarrow> bool \<Rightarrow> scp_error + reselect" where
  "reselect_upsert w isBatch = (case pw_conflict w of
      [] \<Rightarrow> Inl (UnrecoverableWrite ''conflict key'')
    | key # _ \<Rightarrow>
        (if isBatch then Inr (reselect_of w (json_select (pw_cols w) (pw_table w) key (pw_order w)) [JsonBind] False)
         else (case index_of key (insertCols (pw_sql w)) of
             None \<Rightarrow> Inl (UnrecoverableWrite ''conflict column'')
           | Some i \<Rightarrow> Inr (reselect_of w (where_select (pw_cols w) (pw_table w) (key @ '' = ?'') (pw_order w)) [ParamBind i] False))))"

definition reselect_insert :: "parsed_write \<Rightarrow> bool \<Rightarrow> scp_error + reselect" where
  "reselect_insert w isBatch =
     (if pw_autoInc w \<noteq> [] \<and> pw_pk w = [pw_autoInc w]
      then Inr (reselect_of w (where_select (pw_cols w) (pw_table w)
             (pw_autoInc w @ '' >= ? AND '' @ pw_autoInc w @ '' < ?'') (pw_order w)) [LastId, HighId] False)
      else if pw_pk w = [] then Inl (UnrecoverableWrite ''no pk hint'')
      else if isBatch then
        (if length (pw_pk w) \<noteq> 1 then Inl (UnrecoverableWrite ''composite batch'')
         else Inr (reselect_of w (json_select (pw_cols w) (pw_table w) (hd (pw_pk w)) (pw_order w)) [JsonBind] False))
      else bind_r (pk_binds (insertCols (pw_sql w)) (pw_pk w)) (\<lambda>bs.
        Inr (reselect_of w (where_select (pw_cols w) (pw_table w) (join '' AND '' (map (\<lambda>c. c @ '' = ?'') (pw_pk w))) (pw_order w)) bs False)))"

definition reselect_where :: "parsed_write \<Rightarrow> scp_error + reselect" where
  "reselect_where w = (let low = map lower (pw_sql w) in case lastIndexOf '' where '' low of
      None \<Rightarrow> Inl (UnrecoverableWrite ''no WHERE'')
    | Some p \<Rightarrow>
        (let whereSql = trim (drop (p + length '' where '') (pw_sql w)); n = qcount (take p (pw_sql w))
         in Inr (reselect_of w (where_select (pw_cols w) (pw_table w) whereSql (pw_order w))
                  (map (\<lambda>i. ParamBind (n + i)) [0..<qcount whereSql]) (starts_with ''delete'' low))))"

definition reselect_write :: "parsed_write \<Rightarrow> scp_error + reselect" where
  "reselect_write w =
     (let low = map lower (pw_sql w); isBatch = str_includes low ''json_table('' in
      if starts_with ''insert'' low \<and> str_includes low ''on duplicate key update'' then reselect_upsert w isBatch
      else if starts_with ''insert'' low then reselect_insert w isBatch
      else if starts_with ''update'' low \<and> isBatch then
        (case updateBatchKey (pw_sql w) of
           None \<Rightarrow> Inl (UnrecoverableWrite ''batch key'')
         | Some key \<Rightarrow> Inr (reselect_of w (json_select (pw_cols w) (pw_table w) key (pw_order w)) [JsonBind] False))
      else reselect_where w)"

definition buildMysqlReselect :: "string \<Rightarrow> scp_error + reselect option" where
  "buildMysqlReselect q = (case lastIndexOf '' returning '' (map lower q) of
      None \<Rightarrow> Inr None
    | Some p \<Rightarrow>
        (let region = drop p q; w = trim (stripMysqlPkHint (take p q)); (pk, ai) = parsePkHint region in
         case tableOf w of
           None \<Rightarrow> Inl (UnrecoverableWrite ''target table'')
         | Some table \<Rightarrow> bind_r (reselect_write
             \<lparr>pw_sql = w, pw_cols = trim (stripMysqlPkHint (drop (p + length '' returning '') q)), pw_table = table,
              pw_pk = pk, pw_autoInc = ai, pw_conflict = parseConflictHint region\<rparr>) (\<lambda>r. Inr (Some r))))"

definition bindReselect :: "reselect_bind list \<Rightarrow> jsval list \<Rightarrow> int \<Rightarrow> int \<Rightarrow> jsval list" where
  "bindReselect bs ps lastInsertId affected = map (\<lambda>b. case b of
      LastId \<Rightarrow> JInt lastInsertId
    | HighId \<Rightarrow> JInt (lastInsertId + max 1 affected)
    | JsonBind \<Rightarrow> js_nth ps 0
    | ParamBind i \<Rightarrow> js_nth ps i) bs"

section \<open>The connection adapter\<close>

text \<open>
  \<open>mysqlConnection\<close>: \<open>query\<close> is the driver's, answering rows or a write summary.
\<close>

datatype mysql_result = Rows "jsobj list" | Summary (affectedRows: int) (insertId: int)

definition rows_of :: "mysql_result \<Rightarrow> jsobj list" where
  "rows_of r = (case r of Rows rs \<Rightarrow> rs | Summary _ _ \<Rightarrow> [])"

definition summary_of :: "mysql_result \<Rightarrow> int \<times> int" where
  "summary_of r = (case r of Rows _ \<Rightarrow> (0, 0) | Summary a i \<Rightarrow> (a, i))"

type_synonym 's mysql_query = "string \<Rightarrow> jsval list \<Rightarrow> 's \<Rightarrow> (scp_error + mysql_result) \<times> 's"

definition then_query :: "(scp_error + 'a) \<times> 's \<Rightarrow> ('a \<Rightarrow> 's \<Rightarrow> (scp_error + 'b) \<times> 's) \<Rightarrow> (scp_error + 'b) \<times> 's" where
  "then_query m f = (case m of (Inl e, s) \<Rightarrow> (Inl e, s) | (Inr x, s) \<Rightarrow> f x s)"

definition mysql_execute :: "'s mysql_query \<Rightarrow> string \<Rightarrow> jsval list \<Rightarrow> 's \<Rightarrow> (scp_error + jsobj list) \<times> 's" where
  "mysql_execute query q ps st = (case buildMysqlReselect q of
      Inl e \<Rightarrow> (Inl e, st)
    | Inr None \<Rightarrow> then_query (query q ps st) (\<lambda>r s. (Inr (rows_of r), s))
    | Inr (Some re) \<Rightarrow>
        (if runsBefore re
         then then_query (query (selectSql re) (bindReselect (binds re) ps 0 0) st) (\<lambda>pre s.
              then_query (query (writeSql re) ps s) (\<lambda>_ s'. (Inr (rows_of pre), s')))
         else then_query (query (writeSql re) ps st) (\<lambda>res s. let (affected, lastId) = summary_of res in
              then_query (query (selectSql re) (bindReselect (binds re) ps lastId affected) s) (\<lambda>rs s'. (Inr (rows_of rs), s')))))"

definition mysql_run :: "'s mysql_query \<Rightarrow> string \<Rightarrow> jsval list \<Rightarrow> 's \<Rightarrow> (scp_error + run_info) \<times> 's" where
  "mysql_run query q ps st = then_query (query q ps st) (\<lambda>r s.
     (Inr \<lparr>changes = fst (summary_of r), lastInsertRowid = snd (summary_of r)\<rparr>, s))"

section \<open>What a scan finds\<close>

lemma match_ci_Some: "match_ci w s = Some r \<Longrightarrow> r = drop (length w) s"
  by (simp add: match_ci_def split: if_splits)

lemma skip_space_Some: "skip_space s = Some r \<Longrightarrow> r = dropWhile is_space s"
  by (simp add: skip_space_def split: list.splits if_splits)

lemma scan_Some:
  assumes "scan f b s = Some x"
  obtains b' u v where "s = u @ v" and "f b' v = Some x"
proof -
  have "\<exists>b' u v. s = u @ v \<and> f b' v = Some x"
    using assms
  proof (induction s arbitrary: b)
    case Nil
    then show ?case by auto
  next
    case (Cons c s)
    show ?case
    proof (cases "f b (c # s)")
      case None
      then have "scan f (is_word_char c) s = Some x" using Cons.prems by simp
      then obtain b' u v where "s = u @ v" "f b' v = Some x" using Cons.IH by blast
      then have "c # s = (c # u) @ v \<and> f b' v = Some x" by simp
      then show ?thesis by blast
    next
      case (Some y)
      then have "c # s = [] @ (c # s) \<and> f b (c # s) = Some x" using Cons.prems by simp
      then show ?thesis by blast
    qed
  qed
  then show ?thesis using that by blast
qed

lemma scan_skip: "\<forall>b' u v. u \<noteq> [] \<and> s = v @ u \<longrightarrow> f b' (u @ t) = None \<Longrightarrow> \<exists>b'. scan f b (s @ t) = scan f b' t"
proof (induction s arbitrary: b)
  case Nil
  then show ?case by auto
next
  case (Cons c s)
  have "f b (c # s @ t) = None" using spec [OF Cons.prems, of b] by (auto dest: spec [of _ "c # s"])
  moreover have "\<forall>b' u v. u \<noteq> [] \<and> s = v @ u \<longrightarrow> f b' (u @ t) = None"
  proof (intro allI impI)
    fix b' u v
    assume u: "u \<noteq> [] \<and> s = v @ u"
    then have "c # s = (c # v) @ u" by simp
    then show "f b' (u @ t) = None" using Cons.prems u by blast
  qed
  then have "\<exists>b'. scan f (is_word_char c) (s @ t) = scan f b' t" by (rule Cons.IH)
  ultimately show ?case by simp
qed

lemma name_char_not_question: "n = takeWhile is_name_char s \<Longrightarrow> qcount n = 0"
  by (auto simp: qcount_0_iff is_name_char_def is_word_char_def dest: set_takeWhileD)

lemma tableOf_clean: "tableOf q = Some t \<Longrightarrow> qcount t = 0"
  unfolding tableOf_def
  by (erule scan_Some) (auto simp: table_at_def obind_Some name_after_def Let_def name_char_not_question split: if_splits)

lemma word_chars_clean: "qcount (takeWhile is_word_char s) = 0"
  by (auto simp: qcount_0_iff is_word_char_def dest: set_takeWhileD)

lemma key_after_on_clean: "key_after_on r = Some k \<Longrightarrow> qcount k = 0"
proof -
  have "takeWhile is_word_char r \<noteq> [] \<Longrightarrow> last (takeWhile is_word_char r) \<noteq> CHR ''?''"
    using word_chars_clean [of r] last_in_set [of "takeWhile is_word_char r"] unfolding qcount_0_iff by metis
  then show "key_after_on r = Some k \<Longrightarrow> qcount k = 0"
    by (auto simp: key_after_on_def Let_def word_chars_clean split: list.splits if_splits)
qed

lemma updateBatchKey_clean: "updateBatchKey q = Some k \<Longrightarrow> qcount k = 0"
  unfolding updateBatchKey_def
proof (erule scan_Some)
  fix b v
  show "on_key_at b v = Some k \<Longrightarrow> qcount k = 0"
    by (cases v) (auto simp: obind_Some key_after_on_clean split: if_splits)
qed

lemma set_hint_at: "hint_at s = Some r \<Longrightarrow> set r \<subseteq> set s"
  unfolding hint_at_def Let_def
  by (auto split: if_splits dest!: in_set_dropD set_dropWhileD)

lemma set_strip: "set (stripMysqlPkHint s) \<subseteq> set s"
  by (induction s rule: stripMysqlPkHint.induct) (auto split: option.splits dest!: set_hint_at)

lemma split_csv_set: "c \<in> set (split_csv s) \<Longrightarrow> set c \<subseteq> set s"
  using set_trim set_split_on by (fastforce simp: split_csv_def)

lemma pk_hint_at_set: "pk_hint_at s = Some (p, a) \<Longrightarrow> set p \<subseteq> set s \<and> set a \<subseteq> set s"
  by (auto simp: pk_hint_at_def pk_hint_tail_def obind_Some Let_def dest!: match_ci_Some set_takeWhileD in_set_dropD)

lemma parsePkHint_set:
  assumes "parsePkHint s = (pk, ai)"
  shows "(\<forall>c \<in> set pk. set c \<subseteq> set s) \<and> set ai \<subseteq> set s"
proof (cases "scan (\<lambda>_. pk_hint_at) False s")
  case None
  then show ?thesis using assms by (simp add: parsePkHint_def)
next
  case (Some pa)
  then obtain p a where pa: "scan (\<lambda>_. pk_hint_at) False s = Some (p, a)" by (cases pa) simp
  then obtain u v where "s = u @ v" "pk_hint_at v = Some (p, a)" using scan_Some [OF pa] by metis
  then have "set p \<subseteq> set s" "set a \<subseteq> set s" using pk_hint_at_set by fastforce+
  moreover have "pk = split_csv p" "ai = trim a" using assms pa by (auto simp: parsePkHint_def)
  ultimately show ?thesis using split_csv_set set_trim by blast
qed

lemma conflict_hint_at_set: "conflict_hint_at s = Some c \<Longrightarrow> set c \<subseteq> set s"
  by (auto simp: conflict_hint_at_def conflict_hint_tail_def obind_Some Let_def dest!: match_ci_Some set_takeWhileD in_set_dropD split: if_splits)

lemma parseConflictHint_set: "c \<in> set (parseConflictHint s) \<Longrightarrow> set c \<subseteq> set s"
proof (cases "scan (\<lambda>_. conflict_hint_at) False s")
  case (Some x)
  assume "c \<in> set (parseConflictHint s)"
  then have "set c \<subseteq> set x" using Some split_csv_set by (simp add: parseConflictHint_def)
  moreover have "set x \<subseteq> set s" using scan_Some [OF Some] conflict_hint_at_set by (metis Un_upper2 set_append subset_trans)
  ultimately show ?thesis by simp
qed (simp add: parseConflictHint_def)

section \<open>The reading SELECT binds what it asks for\<close>

definition clean_write :: "parsed_write \<Rightarrow> bool" where
  "clean_write w \<longleftrightarrow> qcount (pw_cols w) = 0 \<and> qcount (pw_table w) = 0 \<and> names_ok (pw_pk w)
     \<and> qcount (pw_autoInc w) = 0 \<and> names_ok (pw_conflict w)"

lemma clean_writeD:
  assumes "clean_write w"
  shows "qcount (pw_cols w) = 0" and "qcount (pw_table w) = 0" and "names_ok (pw_pk w)" and "qcount (pw_autoInc w) = 0"
    and "names_ok (pw_conflict w)" and "qcount (pw_order w) = 0"
  using assms by (auto simp: clean_write_def pw_order_def names_ok_def intro!: qcount_join_names)

lemma json_select_one: "clean_write w \<Longrightarrow> qcount key = 0 \<Longrightarrow> qcount (json_select (pw_cols w) (pw_table w) key (pw_order w)) = 1"
  by (simp add: json_select_def clean_writeD)

lemma where_select_count: "clean_write w \<Longrightarrow> qcount (where_select (pw_cols w) (pw_table w) q (pw_order w)) = qcount q"
  by (simp add: where_select_def clean_writeD)

lemma pk_binds_params: "pk_binds cols pk = Inr bs \<Longrightarrow> length bs = length pk \<and> (\<forall>b \<in> set bs. \<exists>i < length cols. b = ParamBind i)"
proof -
  have bound: "index_of c cs = Some i \<Longrightarrow> i < length cs" for c cs i
    by (induction c cs arbitrary: i rule: index_of.induct) (auto split: if_splits)
  show "pk_binds cols pk = Inr bs \<Longrightarrow> length bs = length pk \<and> (\<forall>b \<in> set bs. \<exists>i < length cols. b = ParamBind i)"
    by (induction pk arbitrary: bs) (auto simp: bind_r_Inr_iff bound split: option.splits)
qed

lemma equalities_count: "names_ok pk \<Longrightarrow> qcount (join '' AND '' (map (\<lambda>c. c @ '' = ?'') pk)) = length pk"
  by (induction pk) (auto simp: names_ok_def join_Cons)

lemma upsert_balanced:
  assumes "clean_write w" and "reselect_upsert w b = Inr r"
  shows "qcount (selectSql r) = length (binds r)"
proof -
  obtain key rest where key: "pw_conflict w = key # rest" "qcount key = 0"
    using assms clean_writeD(5) [OF assms(1)] by (auto simp: reselect_upsert_def names_ok_def split: list.splits)
  show ?thesis
    using assms(2) key json_select_one [OF assms(1) key(2)] where_select_count [OF assms(1), of "key @ '' = ?''"]
    by (auto simp: reselect_upsert_def reselect_of_def split: if_splits option.splits)
qed

lemma insert_balanced:
  assumes clean: "clean_write w" and r: "reselect_insert w b = Inr r"
  shows "qcount (selectSql r) = length (binds r)"
proof -
  note parts = clean_writeD [OF clean]
  consider "r = reselect_of w (where_select (pw_cols w) (pw_table w)
             (pw_autoInc w @ '' >= ? AND '' @ pw_autoInc w @ '' < ?'') (pw_order w)) [LastId, HighId] False"
    | "length (pw_pk w) = 1" "r = reselect_of w (json_select (pw_cols w) (pw_table w) (hd (pw_pk w)) (pw_order w)) [JsonBind] False"
    | bs where "pk_binds (insertCols (pw_sql w)) (pw_pk w) = Inr bs"
        "r = reselect_of w (where_select (pw_cols w) (pw_table w) (join '' AND '' (map (\<lambda>c. c @ '' = ?'') (pw_pk w))) (pw_order w)) bs False"
    using r by (auto simp: reselect_insert_def bind_r_Inr_iff split: if_splits)
  then show ?thesis
  proof cases
    case 1
    then show ?thesis by (simp add: reselect_of_def where_select_count [OF clean] parts)
  next
    case 2
    then have "qcount (hd (pw_pk w)) = 0" using parts(3) by (cases "pw_pk w") (auto simp: names_ok_def)
    with 2 show ?thesis by (simp add: reselect_of_def json_select_one [OF clean])
  next
    case 3
    then show ?thesis
      by (simp add: reselect_of_def where_select_count [OF clean] equalities_count [OF parts(3)] pk_binds_params)
  qed
qed

lemma reselect_write_balanced:
  assumes "clean_write w" and "reselect_write w = Inr r"
  shows "qcount (selectSql r) = length (binds r)"
  using assms(2) upsert_balanced [OF assms(1)] insert_balanced [OF assms(1)] updateBatchKey_clean json_select_one [OF assms(1)]
  by (auto simp: reselect_write_def reselect_where_def Let_def reselect_of_def where_select_count [OF assms(1)]
      split: if_splits option.splits)

definition returning_pos :: "string \<Rightarrow> nat option" where
  "returning_pos q = lastIndexOf '' returning '' (map lower q)"

lemma build_parts:
  assumes "buildMysqlReselect q = Inr (Some r)"
  obtains p w where "returning_pos q = Some p" and "reselect_write w = Inr r" and "pw_sql w = trim (stripMysqlPkHint (take p q))"
    and "pw_cols w = trim (stripMysqlPkHint (drop (p + length '' returning '') q))"
    and "(pw_pk w, pw_autoInc w) = parsePkHint (drop p q)" and "pw_conflict w = parseConflictHint (drop p q)"
    and "tableOf (pw_sql w) = Some (pw_table w)"
  using assms by (force simp: buildMysqlReselect_def returning_pos_def Let_def bind_r_Inr_iff split: option.splits prod.splits)

lemma build_clean:
  assumes "(pk, ai) = parsePkHint (drop p q)" and "qcount (drop p q) = 0"
  shows "names_ok pk \<and> qcount ai = 0 \<and> names_ok (parseConflictHint (drop p q)) \<and> qcount (trim (stripMysqlPkHint (drop (p + k) q))) = 0"
proof -
  have "set (drop (p + k) q) \<subseteq> set (drop p q)" by (simp add: add.commute set_drop_subset_set_drop)
  then have "set (trim (stripMysqlPkHint (drop (p + k) q))) \<subseteq> set (drop p q)"
    using set_trim set_strip by blast
  then show ?thesis
    using assms parsePkHint_set [of "drop p q" pk ai] parseConflictHint_set [of _ "drop p q"]
    by (auto simp: names_ok_def qcount_0_iff)
qed

lemma reselect_is_balanced:
  assumes "buildMysqlReselect q = Inr (Some r)" and "returning_pos q = Some p" and "qcount (drop p q) = 0"
  shows "qcount (selectSql r) = length (binds r)"
proof -
  obtain w where w: "reselect_write w = Inr r" "(pw_pk w, pw_autoInc w) = parsePkHint (drop p q)"
      "pw_conflict w = parseConflictHint (drop p q)" "tableOf (pw_sql w) = Some (pw_table w)"
      "pw_cols w = trim (stripMysqlPkHint (drop (p + length '' returning '') q))"
    using build_parts [OF assms(1)] assms(2) by (metis option.inject)
  have "clean_write w"
    using build_clean [OF w(2) assms(3)] tableOf_clean [OF w(4)] w(3,5) by (simp only: clean_write_def)
  then show ?thesis using reselect_write_balanced w(1) by blast
qed
section \<open>The hint\<close>

text \<open>Column texts the hint can carry: not empty, trimmed, none of its own marks inside.\<close>

definition hint_name :: "string \<Rightarrow> bool" where
  "hint_name c \<longleftrightarrow> c \<noteq> [] \<and> trim c = c \<and> CHR '','' \<notin> set c \<and> CHR '';'' \<notin> set c \<and> CHR ''*'' \<notin> set c"

lemma split_csv_join: "\<forall>c \<in> set cs. hint_name c \<Longrightarrow> split_csv (join '','' cs) = cs"
proof (cases "cs = []")
  case True
  then show ?thesis by (simp add: split_csv_def trim_def)
next
  case False
  assume ok: "\<forall>c \<in> set cs. hint_name c"
  then have "split_on (CHR '','') (join '','' cs) = cs" using False by (intro split_on_join) (auto simp: hint_name_def)
  moreover have "map trim cs = cs" "filter (\<lambda>c. c \<noteq> []) cs = cs"
    using ok by (auto simp: hint_name_def map_idI)
  ultimately show ?thesis by (simp add: split_csv_def)
qed

lemma lower_punct: "\<not> is_word_char d \<Longrightarrow> lower c = d \<longleftrightarrow> c = d"
proof -
  have keep: "\<not> is_word_char c \<Longrightarrow> lower c = c" for c by (auto simp: lower_def is_word_char_def Let_def)
  assume "\<not> is_word_char d"
  then show "lower c = d \<longleftrightarrow> c = d" using is_word_lower [of c] keep by metis
qed

lemma match_ci_cons: "match_ci (d # w) (c # s) = (if lower c = d then match_ci w s else None)"
  by (simp add: match_ci_def)

lemma match_ci_Nil [simp]: "match_ci [] s = Some s"
  by (simp add: match_ci_def)

lemma match_ci_append: "map lower w = w \<Longrightarrow> match_ci w (w @ s) = Some s"
  by (simp add: match_ci_def)

lemma takeWhile_stop: "\<forall>c \<in> set s. P c \<Longrightarrow> \<not> P d \<Longrightarrow> takeWhile P (s @ d # t) = s"
  by (simp add: takeWhile_append2)

lemma hint_names_join: "\<forall>c \<in> set cs. hint_name c \<Longrightarrow> CHR '';'' \<notin> set (join '','' cs) \<and> CHR ''*'' \<notin> set (join '','' cs)"
  using set_join [of "'',''" cs] by (fastforce simp: hint_name_def)

lemma pk_hint_here:
  assumes "CHR '';'' \<notin> set p \<and> CHR ''*'' \<notin> set p" and "CHR '';'' \<notin> set a \<and> CHR ''*'' \<notin> set a"
    and d: "d = CHR '';'' \<or> d = CHR ''*''"
  shows "pk_hint_at (hint_open @ p @ '';ai='' @ a @ d # t) = Some (p, a)"
proof -
  have p: "takeWhile (\<lambda>c. c \<noteq> CHR '';'' \<and> c \<noteq> CHR ''*'') (p @ CHR '';'' # r) = p" for r
    using assms(1) by (intro takeWhile_stop) auto
  have a: "takeWhile (\<lambda>c. c \<noteq> CHR '';'' \<and> c \<noteq> CHR ''*'') (a @ d # t) = a"
    using assms(2) d by (intro takeWhile_stop) auto
  have "match_ci hint_open (hint_open @ r) = Some r" for r by (rule match_ci_append) (simp add: hint_open_def lower_def)
  moreover have "match_ci '';ai='' ('';ai='' @ a @ d # t) = Some (a @ d # t)" by (rule match_ci_append) (simp add: lower_def)
  ultimately show ?thesis using p [of "''ai='' @ a @ d # t"] a by (simp add: pk_hint_at_def pk_hint_tail_def)
qed

lemma pk_hint_none: "c \<noteq> CHR ''/'' \<Longrightarrow> pk_hint_at (c # s) = None"
  by (simp add: pk_hint_at_def hint_open_def match_ci_cons lower_punct is_word_char_def)

lemma scan_past: "\<forall>c \<in> set s. \<forall>r. f (c # r) = None \<Longrightarrow> \<exists>b'. scan (\<lambda>_. f) b (s @ t) = scan (\<lambda>_. f) b' t"
  by (induction s arbitrary: b) auto

lemma scan_here: "f s = Some x \<Longrightarrow> scan (\<lambda>_. f) b s = Some x"
  by (cases s) auto

definition hint_rest :: "string option \<Rightarrow> string" where
  "hint_rest conflict = (case conflict of None \<Rightarrow> [] | Some c \<Rightarrow> opt_text '';conflict='' c) @ ''*/''"

lemma hint_rest_stop: "\<exists>d t. hint_rest conflict = d # t \<and> (d = CHR '';'' \<or> d = CHR ''*'')"
  by (cases conflict) (auto simp: hint_rest_def opt_text_def)

lemma hint_shape: "hint_text pk conflict
    = '' '' @ hint_open @ join '','' (pkColumns pk) @ '';ai='' @ or_blank (autoInc pk) @ hint_rest conflict"
  by (simp add: hint_text_def hint_open_def hint_rest_def)

definition hint_ok :: "pk_desc \<Rightarrow> bool" where
  "hint_ok pk \<longleftrightarrow> (\<forall>c \<in> set (pkColumns pk). hint_name c) \<and> (case autoInc pk of None \<Rightarrow> True | Some a \<Rightarrow> hint_name a)"

lemma or_blank_hint: "hint_ok pk \<Longrightarrow> CHR '';'' \<notin> set (or_blank (autoInc pk)) \<and> CHR ''*'' \<notin> set (or_blank (autoInc pk))
    \<and> trim (or_blank (autoInc pk)) = or_blank (autoInc pk)"
  by (auto simp: hint_ok_def or_blank_def hint_name_def trim_def split: option.splits)

lemma parsePkHint_text:
  assumes region: "CHR ''/'' \<notin> set s" and ok: "hint_ok pk"
  shows "parsePkHint (s @ hint_text pk conflict) = (pkColumns pk, or_blank (autoInc pk))"
proof -
  let ?p = "join '','' (pkColumns pk)" and ?a = "or_blank (autoInc pk)"
  have names: "\<forall>c \<in> set (pkColumns pk). hint_name c" using ok by (simp add: hint_ok_def)
  obtain d t where d: "hint_rest conflict = d # t" "d = CHR '';'' \<or> d = CHR ''*''" using hint_rest_stop by blast
  have here: "pk_hint_at (hint_open @ ?p @ '';ai='' @ ?a @ hint_rest conflict) = Some (?p, ?a)"
    unfolding d(1) by (rule pk_hint_here) (use hint_names_join [OF names] or_blank_hint [OF ok] d(2) in auto)
  have past: "\<forall>c \<in> set (s @ '' ''). \<forall>r. pk_hint_at (c # r) = None"
    using region by (auto intro!: pk_hint_none)
  obtain b where "scan (\<lambda>_. pk_hint_at) False ((s @ '' '') @ hint_open @ ?p @ '';ai='' @ ?a @ hint_rest conflict)
      = scan (\<lambda>_. pk_hint_at) b (hint_open @ ?p @ '';ai='' @ ?a @ hint_rest conflict)"
    using scan_past [OF past] by blast
  then have "scan (\<lambda>_. pk_hint_at) False (s @ hint_text pk conflict) = Some (?p, ?a)"
    using scan_here [of pk_hint_at, OF here] by (simp add: hint_shape)
  then show ?thesis using split_csv_join [OF names] or_blank_hint [OF ok] by (simp add: parsePkHint_def)
qed

lemma conflict_hint_none: "c \<noteq> CHR '';'' \<Longrightarrow> conflict_hint_at (c # s) = None"
  by (simp add: conflict_hint_at_def match_ci_cons lower_punct is_word_char_def)

lemma ai_is_no_conflict: "conflict_hint_at ('';ai='' @ s) = None"
  by (simp add: conflict_hint_at_def match_ci_cons lower_def)

lemma conflict_hint_here:
  assumes "CHR ''*'' \<notin> set c"
  shows "conflict_hint_at ('';conflict='' @ c @ ''*/'') = Some c"
proof -
  have "takeWhile (\<lambda>x. x \<noteq> CHR ''*'') (c @ CHR ''*'' # ''/'') = c" using assms by (intro takeWhile_stop) auto
  moreover have "match_ci '';conflict='' ('';conflict='' @ c @ ''*/'') = Some (c @ ''*/'')" by (rule match_ci_append) (simp add: lower_def)
  ultimately show ?thesis by (simp add: conflict_hint_at_def conflict_hint_tail_def)
qed

lemma parseConflictHint_text:
  assumes region: "CHR '';'' \<notin> set s" and ok: "hint_ok pk" and cs: "\<forall>c \<in> set cs. hint_name c"
  shows "parseConflictHint (s @ hint_text pk (Some (join '','' cs))) = cs"
proof -
  let ?p = "join '','' (pkColumns pk)" and ?a = "or_blank (autoInc pk)" and ?r = "hint_rest (Some (join '','' cs))"
  have names: "\<forall>c \<in> set (pkColumns pk). hint_name c" using ok by (simp add: hint_ok_def)
  have past1: "\<forall>c \<in> set (s @ '' '' @ hint_open @ ?p). \<forall>r. conflict_hint_at (c # r) = None"
    using region hint_names_join [OF names] by (auto simp: hint_open_def intro!: conflict_hint_none)
  have past2: "\<forall>c \<in> set (''ai='' @ ?a). \<forall>r. conflict_hint_at (c # r) = None"
    using or_blank_hint [OF ok] by (auto intro!: conflict_hint_none)
  obtain b where b: "scan (\<lambda>_. conflict_hint_at) False ((s @ '' '' @ hint_open @ ?p) @ '';ai='' @ ?a @ ?r)
      = scan (\<lambda>_. conflict_hint_at) b ('';ai='' @ ?a @ ?r)"
    using scan_past [OF past1] by blast
  obtain b' where b': "scan (\<lambda>_. conflict_hint_at) (is_word_char (CHR '';'')) ((''ai='' @ ?a) @ ?r) = scan (\<lambda>_. conflict_hint_at) b' ?r"
    using scan_past [OF past2] by blast
  have "scan (\<lambda>_. conflict_hint_at) False (s @ hint_text pk (Some (join '','' cs))) = scan (\<lambda>_. conflict_hint_at) b' ?r"
    using b b' ai_is_no_conflict [of "?a @ ?r"] by (simp add: hint_shape)
  moreover have "parseConflictHint r = (case scan (\<lambda>_. conflict_hint_at) False r of None \<Rightarrow> [] | Some c \<Rightarrow> split_csv c)" for r
    by (simp add: parseConflictHint_def)
  moreover have "(case scan (\<lambda>_. conflict_hint_at) b' ?r of None \<Rightarrow> [] | Some c \<Rightarrow> split_csv c) = cs"
  proof (cases "join '','' cs = []")
    case True
    have none: "conflict_hint_at (''*/'') = None" "conflict_hint_at (''/'') = None" "conflict_hint_at [] = None"
      by (simp_all add: conflict_hint_at_def match_ci_cons lower_punct is_word_char_def match_ci_def)
    have "cs = []" using True cs by (auto simp: join_eq_Nil hint_name_def)
    then show ?thesis using True none by (simp add: hint_rest_def opt_text_def)
  next
    case False
    have "conflict_hint_at ?r = Some (join '','' cs)"
      using conflict_hint_here [of "join '','' cs"] hint_names_join [OF cs] False by (simp add: hint_rest_def opt_text_def)
    then show ?thesis using scan_here [of conflict_hint_at ?r] split_csv_join [OF cs] by simp
  qed
  ultimately show ?thesis by simp
qed

lemma hint_at_text:
  assumes "hint_ok pk" and "case conflict of None \<Rightarrow> True | Some c \<Rightarrow> CHR ''*'' \<notin> set c"
  shows "hint_at (hint_text pk conflict) = Some []"
proof -
  let ?inner = "join '','' (pkColumns pk) @ '';ai='' @ or_blank (autoInc pk) @ (case conflict of None \<Rightarrow> [] | Some c \<Rightarrow> opt_text '';conflict='' c)"
  have shape: "hint_text pk conflict = '' '' @ hint_open @ ?inner @ ''*/''" by (simp add: hint_text_def hint_open_def)
  have "CHR ''*'' \<notin> set ?inner"
    using assms hint_names_join [of "pkColumns pk"] or_blank_hint [of pk]
    by (auto simp: hint_ok_def opt_text_def split: option.splits)
  then have "dropWhile (\<lambda>c. c \<noteq> CHR ''*'') (?inner @ CHR ''*'' # ''/'') = CHR ''*'' # ''/''"
    by (subst dropWhile_append2) auto
  moreover have "dropWhile is_space ('' '' @ hint_open @ ?inner @ ''*/'') = hint_open @ ?inner @ ''*/''"
    by (simp add: is_space_def hint_open_def)
  ultimately show ?thesis by (simp add: hint_at_def shape starts_with_prefix)
qed

lemma hint_at_before:
  assumes no: "\<not> str_includes s hint_open" and last: "s \<noteq> [] \<Longrightarrow> \<not> is_space (last s)" and u: "s = v @ u" "u \<noteq> []"
  shows "hint_at (u @ hint_text pk conflict) = None"
proof -
  have "last u \<in> set u" "\<not> is_space (last u)" using last u by auto
  then have "\<exists>x \<in> set u. \<not> is_space x" by blast
  then have dw: "dropWhile is_space (u @ hint_text pk conflict) = dropWhile is_space u @ hint_text pk conflict"
    by (metis dropWhile_append1)
  have no_prefix: "\<not> str_includes (dropWhile is_space u) hint_open"
    using no u(1) str_includes_append2 by (metis takeWhile_dropWhile_id)
  have "\<not> starts_with hint_open (dropWhile is_space u @ hint_text pk conflict)"
  proof
    assume "starts_with hint_open (dropWhile is_space u @ hint_text pk conflict)"
    then obtain r where "dropWhile is_space u @ hint_text pk conflict = hint_open @ r" by (auto simp: starts_with_prefix)
    then obtain us where "dropWhile is_space u = hint_open @ us \<or> hint_open = dropWhile is_space u @ us \<and> us @ r = hint_text pk conflict"
      by (metis append_eq_append_conv2)
    then show False
    proof
      assume "dropWhile is_space u = hint_open @ us"
      then show False using no_prefix str_includes_sublist [of _ hint_open] by (metis append_Nil)
    next
      assume split: "hint_open = dropWhile is_space u @ us \<and> us @ r = hint_text pk conflict"
      show False
      proof (cases us)
        case Nil
        then have "dropWhile is_space u = hint_open" using split by simp
        then show False using no_prefix by (metis append_Nil append_Nil2 str_includes_sublist)
      next
        case (Cons c us')
        then have "c = CHR '' ''" using split by (simp add: hint_shape)
        moreover have "c \<in> set hint_open" using split Cons by (metis in_set_conv_decomp)
        ultimately show False by (simp add: hint_open_def)
      qed
    qed
  qed
  then show ?thesis by (simp add: hint_at_def dw)
qed

lemma strip_text:
  assumes no: "\<not> str_includes s hint_open" and last: "s \<noteq> [] \<Longrightarrow> \<not> is_space (last s)"
    and ok: "hint_ok pk" "case conflict of None \<Rightarrow> True | Some c \<Rightarrow> CHR ''*'' \<notin> set c"
  shows "stripMysqlPkHint (s @ hint_text pk conflict) = s"
proof -
  have "stripMysqlPkHint (u @ hint_text pk conflict) = u" if "s = v @ u" for u v
    using that
  proof (induction u arbitrary: v)
    case Nil
    obtain c r where "hint_text pk conflict = c # r" by (simp add: hint_shape)
    then show ?case using hint_at_text [OF ok] by simp
  next
    case (Cons c u)
    have "s = (v @ [c]) @ u" using Cons.prems by simp
    then have "stripMysqlPkHint (u @ hint_text pk conflict) = u" by (rule Cons.IH)
    moreover have "hint_at (c # u @ hint_text pk conflict) = None"
      using hint_at_before [OF no last Cons.prems, of pk conflict] by simp
    ultimately show ?case by simp
  qed
  then show ?thesis by simp
qed

text \<open>
  C22. The primary key written into a MySQL statement is the primary key read back from it: appended to a
  RETURNING list, the hint parses to the columns, the identity and the conflict target it was made from,
  and stripping it restores the statement.
\<close>

theorem mysql_hint_round_trip:
  assumes "hint_ok pk" and "\<forall>c \<in> set conflict. hint_name c"
    and "CHR ''/'' \<notin> set region" and "CHR '';'' \<notin> set region" and "region \<noteq> []" and "\<not> is_space (last region)"
  shows "let s = region @ hint_text pk (Some (join '','' conflict)) in
     parsePkHint s = (pkColumns pk, or_blank (autoInc pk)) \<and> parseConflictHint s = conflict \<and> stripMysqlPkHint s = region"
proof -
  have "\<not> str_includes region hint_open"
    using assms(3) by (auto simp: str_includes_sublist hint_open_def)
  moreover have "CHR ''*'' \<notin> set (join '','' conflict)" using hint_names_join [OF assms(2)] by simp
  ultimately show ?thesis
    using parsePkHint_text [OF assms(3,1)] parseConflictHint_text [OF assms(4,1,2)] strip_text [of region pk] assms
    by (simp add: Let_def)
qed

lemma mysql_hint_round_trip_witness:
  "parsePkHint ('' RETURNING id, name'' @ hint_text \<lparr>pkColumns = [''id'', ''org''], autoInc = Some ''id''\<rparr> (Some ''email,org''))
     = ([''id'', ''org''], ''id'')
   \<and> stripMysqlPkHint ('' RETURNING id, name'' @ hint_text \<lparr>pkColumns = [''id'', ''org''], autoInc = Some ''id''\<rparr> (Some ''email,org''))
     = '' RETURNING id, name''"
  using mysql_hint_round_trip [of "\<lparr>pkColumns = [''id'', ''org''], autoInc = Some ''id''\<rparr>" "[''email'', ''org'']" "'' RETURNING id, name''"]
  by (simp add: hint_ok_def hint_name_def trim_def is_space_def or_blank_def Let_def)

section \<open>Theorems\<close>

text \<open>Nothing in the hint is a placeholder.\<close>

lemma hint_text_clean:
  assumes "names_ok (pkColumns pk)" and "qcount (or_blank (autoInc pk)) = 0" and "case conflict of None \<Rightarrow> True | Some c \<Rightarrow> qcount c = 0"
  shows "qcount (hint_text pk conflict) = 0"
  using assms qcount_join_names [of "'',''" "pkColumns pk"]
  by (auto simp: hint_text_def names_ok_def opt_text_def split: option.splits)

definition clean_pk :: "pk_desc option \<Rightarrow> bool" where
  "clean_pk p \<longleftrightarrow> (case p of None \<Rightarrow> True | Some pk \<Rightarrow> names_ok (pkColumns pk) \<and> qcount (or_blank (autoInc pk)) = 0)"

lemma pkPort_clean:
  assumes wf: "wf_ports ps" and p: "pkPort ps = Inr p"
  shows "clean_pk p"
proof (cases p)
  case (Some pk)
  then obtain s ai where "stringPort ps ''pk'' = Inr (Some s)" "stringPort ps ''autoInc'' = Inr ai"
      and pk: "pk = \<lparr>pkColumns = split_csv s, autoInc = ai\<rparr>"
    using p by (auto simp: pkPort_def bind_r_Inr_iff split: option.splits if_splits)
  then have "qcount s = 0" "qcount (or_blank ai) = 0"
    using stringPort_clean [OF wf, of "''pk''" s] or_blank_clean [OF wf, of "''autoInc''" ai] by (simp_all add: text_ports_def)
  then show ?thesis using Some pk by (simp add: clean_pk_def split_csv_clean)
qed (simp add: clean_pk_def)

definition clean_op :: "tx_op \<Rightarrow> bool" where
  "clean_op op \<longleftrightarrow> clean_pk (op_pk op) \<and> (case op_meta op of None \<Rightarrow> True | Some m \<Rightarrow>
     (case metaConflict m of None \<Rightarrow> True | Some c \<Rightarrow> qcount c = 0))"

lemma node_clean:
  assumes wf: "wf_ports (ports node)" and op: "compileWriteNodeSql node d resolver = Inr op"
  shows "clean_op op"
proof -
  have conflict: "case c of None \<Rightarrow> True | Some s \<Rightarrow> qcount s = 0" if "stringPort (ports node) ''onConflict'' = Inr c" for c
    using stringPort_clean [OF wf] that by (auto simp: text_ports_def split: option.splits)
  have none: "clean_pk None" by (simp add: clean_pk_def)
  note step = clean_op_def bind_r_Inr_iff Let_def pkPort_clean [OF wf] conflict none
  have ins: "clean_op op" if "compileInsertNode t (ports node) casts d resolver = Inr op" for t casts
    using that by (auto simp: compileInsertNode_def compileBatchInsert_def pgBatchInsert_def step split: if_splits option.split_asm)
  have upd: "clean_op op" if "compileUpdateNode t (ports node) casts d resolver = Inr op" for t casts
    using that by (auto simp: compileUpdateNode_def compileBatchUpdate_def pgBatchUpdate_def step split: if_splits option.split_asm)
  have del: "clean_op op" if "compileDeleteNode t (ports node) d = Inr op" for t
    using that by (auto simp: compileDeleteNode_def step)
  show ?thesis
    using op ins upd del
    by (cases "component node") (auto simp: compileWriteNodeSql_def bind_r_Inr_iff split: option.split_asm)
qed


definition write_node_example :: write_node where
  "write_node_example = \<lparr>component = InsertNode, ports = [(''table'', JStr ''t''), (''values.id'', JStr ''u''),
     (''returning'', JStr ''id''), (''pk'', JStr ''id'')]\<rparr>"

lemma write_node_example_wf: "wf_ports (ports write_node_example)"
  by code_simp

lemma write_node_example_compiles: "compileWriteNode write_node_example Mysql None
    = Inr \<lparr>op_sql = ''INSERT INTO t (id) VALUES (?) RETURNING id /*scp:pk=id;ai=*/'',
        op_params = [JStr ''u''], op_pk = Some \<lparr>pkColumns = [''id''], autoInc = None\<rparr>,
        op_meta = Some \<lparr>metaTable = ''t'', bindColumns = [''id''], metaReturning = [''id''],
          metaConflict = None, metaBatch = False\<rparr>\<rparr>"
  by code_simp


text \<open>
  The SELECT that stands in for RETURNING on MySQL binds one value per placeholder, whatever the
  write: single or batch, insert, upsert, update or delete.
\<close>

theorem mysql_reselect_is_balanced:
  assumes "buildMysqlReselect q = Inr (Some r)" and "returning_pos q = Some p" and "qcount (drop p q) = 0"
  shows "qcount (selectSql r) = length (bindReselect (binds r) ps lastId affected)"
  using reselect_is_balanced [OF assms] by (simp add: bindReselect_def)

definition reselect_example :: string where
  "reselect_example = ''UPDATE t SET n = ? WHERE id = ? RETURNING id''"

lemma reselect_example_result: "buildMysqlReselect reselect_example
    = Inr (Some \<lparr>writeSql = ''UPDATE t SET n = ? WHERE id = ?'',
        selectSql = ''SELECT id FROM t WHERE id = ?'', binds = [ParamBind 1], runsBefore = False\<rparr>)"
  by code_simp

lemma reselect_example_pos: "returning_pos reselect_example = Some 31 \<and> qcount (drop 31 reselect_example) = 0"
  by code_simp

lemma mysql_reselect_is_balanced_witness:
  "qcount ''SELECT id FROM t WHERE id = ?''
     = length (bindReselect [ParamBind 1] [JStr ''n'', JStr ''u''] 0 1)"
  using mysql_reselect_is_balanced [OF reselect_example_result conjunct1 [OF reselect_example_pos] conjunct2 [OF reselect_example_pos]]
  by simp

lemma qcount_lower: "qcount (map lower s) = qcount s"
  by (induction s) (auto simp: lower_punct is_word_char_def)

lemma qcount_dropWhile_space: "qcount (dropWhile is_space s) = qcount s"
  by (induction s) (auto simp: is_space_def)

lemma qcount_rev: "qcount (rev s) = qcount s"
  by (simp add: qcount_def rev_filter [symmetric])

lemma qcount_trim: "qcount (trim s) = qcount s"
  by (simp add: trim_def qcount_rev qcount_dropWhile_space)

lemma lastIndexOf_at: "lastIndexOf p s = Some i \<Longrightarrow> starts_with p (drop i s)"
  by (induction p s arbitrary: i rule: lastIndexOf.induct) (auto split: option.splits if_splits)

lemma split_at_word:
  assumes "lastIndexOf m (map lower s) = Some p" and "qcount m = 0"
  shows "qcount s = qcount (take p s) + qcount (drop (p + length m) s)"
proof -
  obtain r where r: "map lower (drop p s) = m @ r" using lastIndexOf_at [OF assms(1)] by (auto simp: starts_with_prefix drop_map)
  then have "map lower (take (length m) (drop p s)) = m" by (metis append_eq_conv_conj take_map)
  then have "qcount (take (length m) (drop p s)) = 0" using qcount_lower assms(2) by metis
  moreover have "s = take p s @ take (length m) (drop p s) @ drop (p + length m) s"
    by (metis append_take_drop_id drop_drop add.commute)
  ultimately show ?thesis by (metis qcount_append add_0)
qed

text \<open>
  An UPDATE or DELETE that is read back by its own condition is read with its own values: the SELECT
  repeats the text after the last WHERE and binds exactly the values the write binds there, in order.
\<close>

theorem reselect_repeats_condition:
  assumes "reselect_where w = Inr r" and "lastIndexOf '' where '' (map lower (pw_sql w)) = Some p" and "length ps = qcount (pw_sql w)"
  shows "selectSql r = where_select (pw_cols w) (pw_table w) (trim (drop (p + length '' where '') (pw_sql w))) (pw_order w)
    \<and> bindReselect (binds r) ps lastId affected = drop (qcount (take p (pw_sql w))) ps
    \<and> runsBefore r = starts_with ''delete'' (map lower (pw_sql w))"
proof -
  let ?c = "trim (drop (p + length '' where '') (pw_sql w))" and ?n = "qcount (take p (pw_sql w))"
  have r: "r = reselect_of w (where_select (pw_cols w) (pw_table w) ?c (pw_order w)) (map (\<lambda>i. ParamBind (?n + i)) [0..<qcount ?c])
      (starts_with ''delete'' (map lower (pw_sql w)))"
    using assms(1,2) by (simp add: reselect_where_def Let_def)
  have "qcount ?c = length ps - ?n"
    using split_at_word [OF assms(2)] assms(3) by (simp add: qcount_trim)
  then have "bindReselect (binds r) ps lastId affected = map (\<lambda>i. js_nth ps (?n + i)) [0..<length ps - ?n]"
    by (simp add: r reselect_of_def bindReselect_def comp_def)
  also have "\<dots> = drop ?n ps"
    by (rule nth_equalityI) (simp_all add: js_nth_def less_diff_conv add.commute)
  finally show ?thesis using r by (simp add: reselect_of_def)
qed

definition delete_example :: parsed_write where
  "delete_example = \<lparr>pw_sql = ''DELETE FROM t WHERE a = ? AND b > ?'', pw_cols = ''id'', pw_table = ''t'', pw_pk = [''id''], pw_autoInc = [], pw_conflict = []\<rparr>"

lemma delete_example_result: "reselect_where delete_example = Inr \<lparr>writeSql = ''DELETE FROM t WHERE a = ? AND b > ?'',
    selectSql = ''SELECT id FROM t WHERE a = ? AND b > ? ORDER BY id'', binds = [ParamBind 0, ParamBind 1], runsBefore = True\<rparr>"
  by code_simp

lemma delete_example_where: "lastIndexOf '' where '' (map lower (pw_sql delete_example)) = Some 13"
  by code_simp

lemma delete_example_params: "length [JInt 4, JInt 5] = qcount (pw_sql delete_example)"
  by code_simp

lemma reselect_repeats_condition_witness:
  "bindReselect [ParamBind 0, ParamBind 1] [JInt 4, JInt 5] 0 0 = drop (qcount (take 13 (pw_sql delete_example))) [JInt 4, JInt 5]"
  using reselect_repeats_condition [OF delete_example_result delete_example_where delete_example_params, of 0 0] by simp

section \<open>The statements a connection runs\<close>

text \<open>A driver that records the statements it is given, in order.\<close>

definition logged :: "'s mysql_query \<Rightarrow> ('s \<times> (string \<times> jsval list) list) mysql_query" where
  "logged query q ps = (\<lambda>(s, l). let (r, s') = query q ps s in (r, (s', l @ [(q, ps)])))"

lemma two_logged:
  assumes "then_query (logged query q1 p1 (s, [])) (\<lambda>x st. then_query (logged query q2 (p2 x) st) (\<lambda>y st'. (Inr (g x y), st'))) = (res, (s', l))"
  shows "(case res of Inr _ \<Rightarrow> map fst l = [q1, q2] | Inl _ \<Rightarrow> map fst l = [q1] \<or> map fst l = [q1, q2])"
proof (cases "query q1 p1 s")
  case first: (Pair r1 s1)
  show ?thesis
  proof (cases r1)
    case (Inl e)
    then show ?thesis using assms first by (auto simp: then_query_def logged_def)
  next
    case (Inr x)
    show ?thesis
    proof (cases "query q2 (p2 x) s1")
      case (Pair r2 s2)
      then show ?thesis using assms first Inr by (cases r2) (auto simp: then_query_def logged_def)
    qed
  qed
qed


definition summary_driver :: "unit mysql_query" where
  "summary_driver q ps s = (Inr (if starts_with ''SELECT'' q then Rows [[(''id'', JStr ''u1'')]] else Summary 1 0), s)"

lemma mysql_execute_example: "mysql_execute (logged summary_driver) reselect_example [JStr ''n'', JStr ''u1''] ((), [])
    = (Inr [[(''id'', JStr ''u1'')]], ((), [(''UPDATE t SET n = ? WHERE id = ?'', [JStr ''n'', JStr ''u1'']),
       (''SELECT id FROM t WHERE id = ?'', [JStr ''u1''])]))"
  by (simp add: mysql_execute_def reselect_example_result then_query_def logged_def summary_driver_def bindReselect_def js_nth_def
      summary_of_def rows_of_def)


text \<open>
  A statement MySQL would not understand never reaches it half way: when the RETURNING of a write
  cannot be emulated, nothing is run.
\<close>

theorem unrecoverable_write_runs_nothing:
  assumes "buildMysqlReselect q = Inl e"
  shows "mysql_execute query q ps s = (Inl e, s)"
  by (simp add: mysql_execute_def assms)

section \<open>What the emulation misses\<close>

text \<open>An UPDATE whose condition is an IN list is taken for a batch and refused, though it is compiled here.\<close>

definition update_in_example :: write_node where
  "update_in_example = \<lparr>component = UpdateNode, ports = [(''table'', JStr ''t''), (''set.n'', JStr ''x''), (''returning'', JStr ''id''),
     (''where'', JObj [(''arr'', JArr [JObj [(''in'', JArr [JObj [(''ref'', JArr [JStr ''id''])], JObj [(''ref'', JArr [JStr ''ids''])]])]])])]\<rparr>"

definition update_in_text :: string where
  "update_in_text = ''UPDATE t SET n = ? WHERE id IN (SELECT JSON_UNQUOTE(v) FROM JSON_TABLE(?, ''
     @ squoted ''$[*]'' @ '' COLUMNS(v JSON PATH '' @ squoted ''$'' @ '')) jt)''"

lemma update_in_compiles:
  "map_sum id op_sql (compileWriteNode update_in_example Mysql None) = Inr (update_in_text @ '' RETURNING id'')"
  by code_simp

definition parsed_example :: "string \<Rightarrow> string list \<Rightarrow> parsed_write" where
  "parsed_example q conflict = \<lparr>pw_sql = q, pw_cols = ''id'', pw_table = ''t'', pw_pk = [''id''], pw_autoInc = [], pw_conflict = conflict\<rparr>"

lemma update_in_list_is_refused: "reselect_write (parsed_example update_in_text []) = Inl (UnrecoverableWrite ''batch key'')"
  by code_simp

text \<open>A composite conflict key is read back by its first column only.\<close>

lemma upsert_reads_first_key:
  "map_sum id selectSql (reselect_upsert (parsed_example ''INSERT INTO t (a, b, v) VALUES (?, ?, ?)'' [''a'', ''b'']) False)
   = Inr ''SELECT id FROM t WHERE a = ? ORDER BY id''"
  by code_simp

text \<open>An UPDATE that changes a column of its own condition is read back by the old value, after the write.\<close>

lemma update_reads_old_condition:
  "reselect_where (parsed_example ''UPDATE t SET s = ? WHERE s = ?'' [])
   = Inr \<lparr>writeSql = ''UPDATE t SET s = ? WHERE s = ?'', selectSql = ''SELECT id FROM t WHERE s = ? ORDER BY id'',
       binds = [ParamBind 1], runsBefore = False\<rparr>"
  by code_simp
end
