(* ===== verification/ConnErrors.thy ===== *)
theory ConnErrors
  imports MakeSQL
begin

text \<open>
  The error values a transaction meets and the decisions taken on them: \<open>src/connection-errors.ts\<close>
  (connection errors, nested connections, leased clients) and \<open>src/scp/tx-options.ts\<close> (isolation,
  BEGIN texts, option defaults, retryable errors, the write guard).  A thrown value is a \<open>js_error\<close>:
  an \<open>Error\<close> object with the fields the code reads, or any other value, on which every test is false.
  \<open>code\<close> may be a text or a number, as the drivers set it; an \<open>errno\<close> or \<open>sqlState\<close> of another type than
  the one tested for is \<open>None\<close>.
\<close>

section \<open>Thrown values\<close>

datatype error_code = NoCode | CodeText string | CodeNumber int

datatype js_error =
    JsError (error_name: string) (message: string) (code: error_code) (errno: "int option")
      (sqlState: "string option") (cause: "js_error option")
  | NotAnError string

definition plain_error :: "string \<Rightarrow> js_error" where
  "plain_error msg = JsError ''Error'' msg NoCode None None None"

definition transactionClosed :: "bool \<Rightarrow> js_error option \<Rightarrow> js_error" where
  "transactionClosed unfinished c =
     JsError ''TransactionClosedError''
       ((if unfinished
         then ''A query started inside the transaction had not finished when the transaction function settled. ''
         else ''Query issued after the transaction function settled. '')
        @ ''Await every query started inside DBModel.transaction() before returning.'')
       NoCode None None c"

definition includes_any :: "string \<Rightarrow> string list \<Rightarrow> bool" where
  "includes_any msg pats \<longleftrightarrow> list_ex (str_includes msg) pats"

section \<open>Connection errors\<close>

definition isConnectionError :: "js_error \<Rightarrow> bool" where
  "isConnectionError e = (case e of
      NotAnError _ \<Rightarrow> False
    | JsError _ msg cd _ _ _ \<Rightarrow>
        includes_any msg
          [''Connection terminated unexpectedly'', ''Connection terminated'', ''Client has encountered a connection error'',
           ''read ECONNRESET'', ''connect ECONNREFUSED'', ''Connection lost'',
           ''This socket has been ended by the other party'']
        \<or> cd \<in> CodeText ` {''ECONNRESET'', ''ECONNREFUSED'', ''EPIPE'', ''EAI_AGAIN'', ''PROTOCOL_CONNECTION_LOST''})"

definition is_error_object :: "js_error \<Rightarrow> bool" where
  "is_error_object e = (case e of JsError _ _ _ _ _ _ \<Rightarrow> True | NotAnError _ \<Rightarrow> False)"

definition isUnretriedConnectionError :: "js_error \<Rightarrow> bool \<Rightarrow> bool \<Rightarrow> (js_error \<Rightarrow> bool) \<Rightarrow> bool" where
  "isUnretriedConnectionError e committing givenConnection isConn
     \<longleftrightarrow> (committing \<or> givenConnection) \<and> is_error_object e \<and> isConn e"

text \<open>The connections are compared by identity.\<close>

definition assertNestedConnection :: "'c option \<Rightarrow> 'c option \<Rightarrow> js_error + unit" where
  "assertNestedConnection given opened =
     (if given \<noteq> None \<and> given \<noteq> opened
      then Inl (plain_error ''transaction(): the connection option is a different connection from the enclosing transaction's'')
      else Inr ())"

section \<open>Leased clients\<close>

text \<open>
  A client is checked out with \<open>guardLeasedClient\<close>, may emit \<open>error\<close> events, and is released.  An
  \<open>error\<close> event of a client nobody listens to is an unhandled event and ends the process.
\<close>

datatype release_arg = Keep | Flag bool | DropFor js_error

record lease =
  listening :: bool
  leaseError :: "js_error option"
  warnings :: "js_error list"
  crashed :: bool

definition lease_open :: lease where
  "lease_open = \<lparr>listening = True, leaseError = None, warnings = [], crashed = False\<rparr>"

definition lease_on_error :: "js_error \<Rightarrow> lease \<Rightarrow> lease" where
  "lease_on_error e l =
     (if listening l
      then l\<lparr>leaseError := (case leaseError l of None \<Rightarrow> Some e | Some e0 \<Rightarrow> Some e0), warnings := warnings l @ [e]\<rparr>
      else l\<lparr>crashed := True\<rparr>)"

definition lease_release :: "release_arg \<Rightarrow> lease \<Rightarrow> release_arg \<times> lease" where
  "lease_release destroy l =
     ((case destroy of
         Flag True \<Rightarrow> Flag True
       | DropFor e \<Rightarrow> DropFor e
       | _ \<Rightarrow> (case leaseError l of None \<Rightarrow> Keep | Some e \<Rightarrow> DropFor e)),
      l\<lparr>listening := False\<rparr>)"

lemma lease_errors_fold:
  "listening l \<Longrightarrow> fold lease_on_error es l
     = l\<lparr>leaseError := (case leaseError l of Some e0 \<Rightarrow> Some e0 | None \<Rightarrow> (case es of [] \<Rightarrow> None | e # _ \<Rightarrow> Some e)),
         warnings := warnings l @ es\<rparr>"
  by (induction es arbitrary: l) (auto simp: lease_on_error_def split: option.splits list.splits)

text \<open>
  Whatever errors a leased client emits, the process survives them, every one is logged, and on
  release the client is dropped exactly when the caller asks for it or an error was seen, with the
  first error as the reason; a clean lease returns the client.
\<close>

theorem leased_client_is_guarded:
  "(let l = fold lease_on_error es lease_open in
     \<not> crashed l \<and> warnings l = es
     \<and> fst (lease_release Keep l) = (case es of [] \<Rightarrow> Keep | e # _ \<Rightarrow> DropFor e)
     \<and> fst (lease_release (Flag False) l) = fst (lease_release Keep l)
     \<and> fst (lease_release (Flag True) l) = Flag True
     \<and> fst (lease_release (DropFor e) l) = DropFor e)"
  by (cases es) (simp_all add: lease_errors_fold lease_open_def lease_release_def lease_on_error_def Let_def)

section \<open>Transaction options\<close>

datatype isolation_level = ReadCommitted | RepeatableRead | Serializable

definition isolationPhrase :: "isolation_level \<Rightarrow> string" where
  "isolationPhrase level = (case level of
      ReadCommitted \<Rightarrow> ''READ COMMITTED'' | RepeatableRead \<Rightarrow> ''REPEATABLE READ'' | Serializable \<Rightarrow> ''SERIALIZABLE'')"

definition beginStatements :: "dialect \<Rightarrow> isolation_level option \<Rightarrow> scp_error + string list" where
  "beginStatements d isolation = (case isolation of
      None \<Rightarrow> Inr [''BEGIN'']
    | Some level \<Rightarrow> (case d of
        Postgres \<Rightarrow> Inr [''BEGIN ISOLATION LEVEL '' @ isolationPhrase level]
      | Mysql \<Rightarrow> Inr [''SET TRANSACTION ISOLATION LEVEL '' @ isolationPhrase level, ''BEGIN'']
      | Sqlite \<Rightarrow> Inl (UnsupportedIsolation (isolationPhrase level))))"

record 'c tx_opts =
  opt_isolation :: "isolation_level option"
  opt_retryOnError :: "bool option"
  opt_retryLimit :: "int option"
  opt_retryDuration :: "int option"
  opt_rollbackOnly :: "bool option"
  opt_useWriter :: "bool option"
  opt_connection :: "'c option"

record resolved_opts =
  tx_isolation :: "isolation_level option"
  retryOnError :: bool
  retryLimit :: int
  retryDuration :: int
  rollbackOnly :: bool
  useWriterAfterTransaction :: bool

definition or_default :: "'a option \<Rightarrow> 'a \<Rightarrow> 'a" where
  "or_default v d = (case v of None \<Rightarrow> d | Some x \<Rightarrow> x)"

definition resolveTxOptions :: "'c tx_opts \<Rightarrow> resolved_opts" where
  "resolveTxOptions opts =
     \<lparr>tx_isolation = opt_isolation opts, retryOnError = or_default (opt_retryOnError opts) True,
      retryLimit = or_default (opt_retryLimit opts) 3, retryDuration = or_default (opt_retryDuration opts) 200,
      rollbackOnly = or_default (opt_rollbackOnly opts) False,
      useWriterAfterTransaction = or_default (opt_useWriter opts) True\<rparr>"

definition no_options :: "'c tx_opts" where
  "no_options = \<lparr>opt_isolation = None, opt_retryOnError = None, opt_retryLimit = None, opt_retryDuration = None,
     opt_rollbackOnly = None, opt_useWriter = None, opt_connection = None\<rparr>"

section \<open>Retryable errors\<close>

definition pg_state :: "error_code \<Rightarrow> string option \<Rightarrow> string" where
  "pg_state cd st = (case cd of CodeText c \<Rightarrow> c | _ \<Rightarrow> or_default st [])"

definition my_errno :: "int option \<Rightarrow> error_code \<Rightarrow> int option" where
  "my_errno en cd = (case en of Some n \<Rightarrow> Some n | None \<Rightarrow> (case cd of CodeNumber n \<Rightarrow> Some n | _ \<Rightarrow> None))"

definition isRetryableTxError :: "js_error \<Rightarrow> (js_error \<Rightarrow> bool) \<Rightarrow> bool" where
  "isRetryableTxError e isConn = (case e of
      NotAnError _ \<Rightarrow> False
    | JsError _ msg cd en st _ \<Rightarrow>
        isConn e
        \<or> pg_state cd st \<in> {''40001'', ''40P01''}
        \<or> my_errno en cd \<in> {Some 1213, Some 1205}
        \<or> includes_any msg
            [''The transaction might succeed if retried'', ''try restarting transaction'',
             ''could not serialize access due to concurrent update'', ''could not serialize access'',
             ''Deadlock found'', ''deadlock detected'', ''Lock wait timeout exceeded''])"

lemma closed_error_is_final:
  "\<not> isConnectionError (transactionClosed u c) \<and> \<not> isRetryableTxError (transactionClosed u c) isConnectionError"
proof -
  have "\<not> isConnectionError (transactionClosed True c)" "\<not> isRetryableTxError (transactionClosed True c) isConnectionError"
    "\<not> isConnectionError (transactionClosed False c)" "\<not> isRetryableTxError (transactionClosed False c) isConnectionError"
    by code_simp+
  then show ?thesis by (cases u) simp_all
qed

section \<open>The write guard\<close>

record tx_scope =
  inTransaction :: bool
  readOnly :: bool

datatype write_guard_error = WriteInReadOnlyContext string "string option" | WriteOutsideTransaction string "string option"

definition runInTransactionScope :: "tx_scope \<Rightarrow> tx_scope" where
  "runInTransactionScope sc = sc\<lparr>inTransaction := True\<rparr>"

definition withReadOnly :: "tx_scope \<Rightarrow> tx_scope" where
  "withReadOnly sc = sc\<lparr>readOnly := True\<rparr>"

definition checkWriteAllowed :: "tx_scope \<Rightarrow> string \<Rightarrow> string option \<Rightarrow> write_guard_error + unit" where
  "checkWriteAllowed sc operation modelName =
     (if readOnly sc then Inl (WriteInReadOnlyContext operation modelName)
      else if \<not> inTransaction sc then Inl (WriteOutsideTransaction operation modelName)
      else Inr ())"

lemma checkWriteAllowed_iff: "checkWriteAllowed sc op m = Inr () \<longleftrightarrow> inTransaction sc \<and> \<not> readOnly sc"
  by (simp add: checkWriteAllowed_def)

text \<open>The BEGIN statements: exactly the last one opens the transaction.\<close>

lemma begin_opens_once:
  "beginStatements d level = Inr ss \<Longrightarrow>
     ss \<noteq> [] \<and> starts_with ''BEGIN'' (last ss) \<and> (\<forall>s \<in> set (butlast ss). \<not> starts_with ''BEGIN'' s)"
  by (auto simp: beginStatements_def split: option.splits dialect.splits)

end
