(* ===== verification/TxGuard.thy ===== *)
theory TxGuard
  imports ConnErrors
begin

text \<open>
  The gate through which a transaction body reaches its connection: \<open>createTransactionGuard\<close> of
  \<open>src/connection-errors.ts\<close>, as a step relation.  The state is the closure of the source (\<open>closed\<close>,
  \<open>unfinished\<close>) with the progress of \<open>settle\<close>; \<open>started\<close> and \<open>rejected\<close> record which queries were sent
  to the connection and which were refused.  Steps are the points where control returns to the event
  loop: a call of \<open>run\<close>, a started query that settles, the body settling (the outcome is stored, the
  gate closes and the unfinished queries are collected without an \<open>await\<close> in between), and the end of
  \<open>Promise.allSettled\<close>.
\<close>

type_synonym 'r outcome = "js_error + 'r"

datatype 'r progress = Running | Waiting "nat list" "'r outcome" | Settled "'r outcome"

record 'r gate =
  closed :: bool
  unfinished :: "nat list"
  progress :: "'r progress"
  started :: "nat list"
  rejected :: "nat list"

datatype 'r gate_event = Run nat | Finish nat | BodySettles "'r outcome" | AllSettled

definition gate_open :: "'r gate" where
  "gate_open = \<lparr>closed = False, unfinished = [], progress = Running, started = [], rejected = []\<rparr>"

definition settle_outcome :: "bool \<Rightarrow> 'r outcome \<Rightarrow> 'r outcome" where
  "settle_outcome pending outc =
     (if pending then Inl (transactionClosed True (case outc of Inl e \<Rightarrow> Some e | Inr _ \<Rightarrow> None)) else outc)"

text \<open>Each call of \<open>run\<close> is a query of its own, so its identity is fresh.\<close>

inductive gate_step :: "'r gate \<Rightarrow> 'r gate_event \<Rightarrow> 'r gate \<Rightarrow> bool" where
  run_refused: "closed g \<Longrightarrow> q \<notin> set (started g) \<Longrightarrow> gate_step g (Run q) (g\<lparr>rejected := rejected g @ [q]\<rparr>)"
| run_started: "\<not> closed g \<Longrightarrow> q \<notin> set (started g) \<Longrightarrow>
    gate_step g (Run q) (g\<lparr>unfinished := unfinished g @ [q], started := started g @ [q]\<rparr>)"
| finishes: "q \<in> set (unfinished g) \<Longrightarrow> gate_step g (Finish q) (g\<lparr>unfinished := removeAll q (unfinished g)\<rparr>)"
| body_settles: "progress g = Running \<Longrightarrow>
    gate_step g (BodySettles r) (g\<lparr>closed := True, progress := Waiting (unfinished g) r\<rparr>)"
| all_settled: "progress g = Waiting pending r \<Longrightarrow> set pending \<inter> set (unfinished g) = {} \<Longrightarrow>
    gate_step g AllSettled (g\<lparr>progress := Settled (settle_outcome (pending \<noteq> []) r)\<rparr>)"

inductive gate_run :: "'r gate \<Rightarrow> 'r gate_event list \<Rightarrow> 'r gate \<Rightarrow> bool" where
  run_done: "gate_run g [] g"
| run_more: "gate_step g e g' \<Longrightarrow> gate_run g' es g'' \<Longrightarrow> gate_run g (e # es) g''"

inductive_cases gate_step_elim: "gate_step g e g'"
inductive_simps gate_run_simps [simp]: "gate_run g [] g'" "gate_run g (e # es) g'"
inductive_simps Run_simps: "gate_step g (Run q) g'"
inductive_simps Finish_simps: "gate_step g (Finish q) g'"
inductive_simps BodySettles_simps: "gate_step g (BodySettles r) g'"
inductive_simps AllSettled_simps: "gate_step g AllSettled g'"
lemmas gate_step_simps = Run_simps Finish_simps BodySettles_simps AllSettled_simps

section \<open>The invariant\<close>

definition gate_inv :: "'r gate \<Rightarrow> bool" where
  "gate_inv g \<longleftrightarrow> set (unfinished g) \<subseteq> set (started g) \<and> (closed g \<longleftrightarrow> progress g \<noteq> Running)
     \<and> (case progress g of Running \<Rightarrow> True
        | Waiting pending r \<Rightarrow> set (unfinished g) \<subseteq> set pending
        | Settled r \<Rightarrow> unfinished g = [])"

lemma gate_inv_open: "gate_inv gate_open"
  by (simp add: gate_inv_def gate_open_def)

lemma none_in_flight: "set ps \<inter> set us = {} \<Longrightarrow> set us \<subseteq> set ps \<Longrightarrow> us = []"
  by (cases us) auto

lemma gate_inv_step: "gate_step g e g' \<Longrightarrow> gate_inv g \<Longrightarrow> gate_inv g'"
  by (erule gate_step_elim) (auto simp: gate_inv_def none_in_flight split: progress.splits)

lemma gate_inv_run: "gate_run g es g' \<Longrightarrow> gate_inv g \<Longrightarrow> gate_inv g'"
  by (induction rule: gate_run.induct) (auto intro: gate_inv_step)

lemma gate_run_append: "gate_run g (es @ fs) h \<longleftrightarrow> (\<exists>g'. gate_run g es g' \<and> gate_run g' fs h)"
  by (induction es arbitrary: g) auto

lemma gate_run_unique: "gate_step g e g' \<Longrightarrow> gate_step g e g'' \<Longrightarrow> g' = g''"
  by (cases e) (auto simp: gate_step_simps)

lemma closed_keeps_started:
  "gate_step g e g' \<Longrightarrow> closed g \<Longrightarrow> started g' = started g \<and> closed g' \<and> set (unfinished g') \<subseteq> set (unfinished g)"
  by (erule gate_step_elim) auto

lemma closed_run_keeps_started:
  "gate_run g es g' \<Longrightarrow> closed g \<Longrightarrow> started g' = started g \<and> closed g' \<and> set (unfinished g') \<subseteq> set (unfinished g)"
proof (induction rule: gate_run.induct)
  case (run_more g e g' es g'')
  then show ?case using closed_keeps_started [of g e g'] by auto
qed simp

text \<open>The run of a closed gate ends in the outcome fixed when the body settled.\<close>

definition fixed_outcome :: "nat list \<Rightarrow> 'r outcome \<Rightarrow> 'r gate \<Rightarrow> bool" where
  "fixed_outcome pending r g \<longleftrightarrow> progress g = Waiting pending r \<or> progress g = Settled (settle_outcome (pending \<noteq> []) r)"

lemma fixed_outcome_step: "gate_step g e g' \<Longrightarrow> fixed_outcome p r g \<Longrightarrow> fixed_outcome p r g'"
  by (erule gate_step_elim) (auto simp: fixed_outcome_def)

lemma fixed_outcome_run: "gate_run g es g' \<Longrightarrow> fixed_outcome p r g \<Longrightarrow> fixed_outcome p r g'"
  by (induction rule: gate_run.induct) (auto intro: fixed_outcome_step)

text \<open>
  C4. However the queries of a body interleave with its settling, the gate returns only when every
  query it let through has finished, sends nothing after the body settled, and returns the body's own
  outcome exactly when no query was in flight at that point; otherwise the transaction fails with the
  body's error as the cause.
\<close>

theorem guard_returns_idle:
  assumes "gate_run gate_open es g" and "gate_step g (BodySettles r) g'" and "gate_run g' fs h"
    and "progress h = Settled out"
  shows "unfinished h = [] \<and> started h = started g
    \<and> out = (if unfinished g = [] then r
             else Inl (transactionClosed True (case r of Inl e \<Rightarrow> Some e | Inr _ \<Rightarrow> None)))"
proof -
  have "gate_inv h"
    using assms gate_inv_run gate_inv_step gate_inv_open by metis
  then have "unfinished h = []"
    using assms(4) by (simp add: gate_inv_def)
  moreover have g': "g' = g\<lparr>closed := True, progress := Waiting (unfinished g) r\<rparr>"
    using assms(2) by (simp add: BodySettles_simps)
  then have "started h = started g"
    using closed_run_keeps_started [OF assms(3)] by simp
  moreover have "fixed_outcome (unfinished g) r h"
    using fixed_outcome_run [OF assms(3)] g' by (simp add: fixed_outcome_def)
  then have "out = settle_outcome (unfinished g \<noteq> []) r"
    using assms(4) by (simp add: fixed_outcome_def)
  ultimately show ?thesis by (simp add: settle_outcome_def)
qed

text \<open>A body that returns while its second query is in flight; a third query comes too late.\<close>

definition late_gate :: "nat gate" where
  "late_gate = \<lparr>closed = True, unfinished = [], progress = Settled (Inl (transactionClosed True None)),
     started = [1, 2], rejected = [3]\<rparr>"

theorem guard_returns_idle_witness:
  "unfinished late_gate = [] \<and> started late_gate = [1, 2]
   \<and> progress late_gate = Settled (Inl (transactionClosed True None))"
proof -
  have a: "gate_run gate_open [Run 1, Run 2, Finish 1] (gate_open\<lparr>unfinished := [2], started := [1, 2 :: nat]\<rparr> :: nat gate)"
    by (simp add: gate_step_simps gate_open_def)
  have b: "gate_step (gate_open\<lparr>unfinished := [2], started := [1, 2]\<rparr>) (BodySettles (Inr 7))
      (gate_open\<lparr>closed := True, unfinished := [2], progress := Waiting [2] (Inr 7), started := [1, 2]\<rparr> :: nat gate)"
    by (simp add: gate_step_simps gate_open_def)
  have c: "gate_run (gate_open\<lparr>closed := True, unfinished := [2], progress := Waiting [2] (Inr 7), started := [1, 2]\<rparr>)
      [Run 3, Finish 2, AllSettled] late_gate"
    by (simp add: gate_step_simps gate_open_def late_gate_def settle_outcome_def)
  show ?thesis
    using guard_returns_idle [OF a b c] by (simp add: late_gate_def gate_open_def)
qed

section \<open>The gate always returns\<close>

lemma finish_all:
  "progress g = Waiting pending r \<Longrightarrow> set (unfinished g) \<subseteq> set qs \<Longrightarrow> distinct qs \<Longrightarrow> set qs \<subseteq> set (unfinished g) \<Longrightarrow>
     gate_run g (map Finish qs) (g\<lparr>unfinished := []\<rparr>)"
proof (induction qs arbitrary: g)
  case (Cons q qs)
  let ?g = "g\<lparr>unfinished := removeAll q (unfinished g)\<rparr>"
  have "gate_run ?g (map Finish qs) (?g\<lparr>unfinished := []\<rparr>)"
    using Cons.prems by (intro Cons.IH) auto
  then show ?case
    using Cons.prems by (auto simp: gate_step_simps)
qed simp

text \<open>
  From every state the guard can reach after the body settled, letting the queries in flight
  finish makes it return, with no other step needed: it cannot wait for a query that never started or
  for one started afterwards.
\<close>

theorem guard_eventually_returns:
  assumes "gate_run gate_open es g" and "progress g = Waiting pending r"
  shows "\<exists>h. gate_run g (map Finish (remdups (unfinished g)) @ [AllSettled]) h
    \<and> progress h = Settled (settle_outcome (pending \<noteq> []) r) \<and> unfinished h = [] \<and> started h = started g"
proof -
  let ?g = "g\<lparr>unfinished := []\<rparr>"
  let ?h = "?g\<lparr>progress := Settled (settle_outcome (pending \<noteq> []) r)\<rparr>"
  have "gate_run g (map Finish (remdups (unfinished g))) ?g"
    using assms(2) by (intro finish_all) auto
  moreover have "gate_step ?g AllSettled ?h"
    using all_settled [of ?g pending r] assms(2) by simp
  ultimately have "gate_run g (map Finish (remdups (unfinished g)) @ [AllSettled]) ?h"
    by (auto simp: gate_run_append)
  then show ?thesis by (intro exI [of _ ?h]) simp
qed

theorem guard_eventually_returns_witness:
  "\<exists>h. gate_run (gate_open\<lparr>closed := True, unfinished := [2], progress := Waiting [2] (Inr 7), started := [2]\<rparr> :: nat gate)
      [Finish 2, AllSettled] h
    \<and> progress h = Settled (Inl (transactionClosed True None)) \<and> unfinished h = [] \<and> started h = [2]"
proof -
  let ?g = "gate_open\<lparr>closed := True, unfinished := [2], progress := Waiting [2] (Inr 7), started := [2]\<rparr> :: nat gate"
  have "gate_run gate_open [Run 2, BodySettles (Inr 7)] ?g"
    by (simp add: gate_step_simps gate_open_def)
  from guard_eventually_returns [OF this] show ?thesis
    by (simp add: gate_open_def settle_outcome_def)
qed

end
