(* ===== verification/Pools.thy ===== *)
theory Pools
  imports ConnErrors
begin

text \<open>
  Connection pools: the session statements of a configured connection and the wrapper
  \<open>configuredPool\<close> (\<open>src/scp/connection-routing.ts\<close>), and the PostgreSQL pool adapter
  (\<open>src/scp/makesql/pool-executor.ts\<close>).  An operation that awaits is a function of the state that
  returns a value or the error it rejects with, and the next state.  The locale \<open>lease_pool\<close> is the
  contract of \<open>AsyncConnectionPool\<close>: what is checked out is exclusive and comes back on release.
\<close>

type_synonym ('s, 'a) io = "'s \<Rightarrow> (js_error + 'a) \<times> 's"

fun run_all :: "('c \<Rightarrow> string \<Rightarrow> ('s, unit) io) \<Rightarrow> 'c \<Rightarrow> string list \<Rightarrow> ('s, unit) io" where
  "run_all run c [] s = (Inr (), s)"
| "run_all run c (stmt # stmts) s = (case run c stmt s of
      (Inl e, s') \<Rightarrow> (Inl e, s')
    | (Inr _, s') \<Rightarrow> run_all run c stmts s')"

record ('c, 's) pool =
  acquire :: "('s, 'c) io"
  release :: "'c \<Rightarrow> bool \<Rightarrow> ('s, unit) io"

section \<open>Connection configuration\<close>

record connection_config =
  cfg_driver :: "dialect option"
  cfg_host :: "string option"
  cfg_port :: "int option"
  cfg_database :: "string option"
  cfg_user :: "string option"
  cfg_password :: "string option"
  cfg_queryTimeout :: "int option"
  cfg_keepAlive :: "bool option"
  cfg_keepAliveInitialDelayMillis :: "int option"
  cfg_minPool :: "int option"
  cfg_maxPool :: "int option"
  cfg_connectTimeoutMillis :: "int option"
  cfg_idleTimeoutMillis :: "int option"
  cfg_searchPath :: "string option"
  cfg_charset :: "string option"

record resolved_config =
  driver :: dialect
  host :: "string option"
  port :: "int option"
  database :: "string option"
  user :: "string option"
  password :: "string option"
  queryTimeout :: int
  keepAlive :: bool
  keepAliveInitialDelayMillis :: int
  minPool :: int
  maxPool :: int
  connectTimeoutMillis :: int
  idleTimeoutMillis :: int
  searchPath :: "string option"
  charset :: "string option"

definition resolveConnectionConfig :: "connection_config \<Rightarrow> resolved_config" where
  "resolveConnectionConfig c =
     \<lparr>driver = or_default (cfg_driver c) Postgres, host = cfg_host c, port = cfg_port c, database = cfg_database c,
      user = cfg_user c, password = cfg_password c, queryTimeout = or_default (cfg_queryTimeout c) 0,
      keepAlive = or_default (cfg_keepAlive c) False,
      keepAliveInitialDelayMillis = or_default (cfg_keepAliveInitialDelayMillis c) 10000,
      minPool = or_default (cfg_minPool c) 0, maxPool = or_default (cfg_maxPool c) 10,
      connectTimeoutMillis = or_default (cfg_connectTimeoutMillis c) 30000,
      idleTimeoutMillis = or_default (cfg_idleTimeoutMillis c) 10000,
      searchPath = cfg_searchPath c, charset = cfg_charset c\<rparr>"

definition opt_stmt :: "'a option \<Rightarrow> ('a \<Rightarrow> string) \<Rightarrow> string list" where
  "opt_stmt v f = (case v of None \<Rightarrow> [] | Some x \<Rightarrow> [f x])"

definition sessionStatements :: "resolved_config \<Rightarrow> string list" where
  "sessionStatements c =
     (if driver c = Sqlite then []
      else (if queryTimeout c > 0 \<and> driver c = Mysql
            then [''SET SESSION max_execution_time = '' @ show_int (queryTimeout c)] else [])
        @ (if driver c = Postgres then opt_stmt (searchPath c) (\<lambda>p. ''SET search_path TO '' @ p) else [])
        @ opt_stmt (charset c) (\<lambda>cs. if driver c = Mysql then ''SET NAMES '' @ cs else ''SET client_encoding TO '' @ cs))"

definition sessionResetStatements :: "resolved_config \<Rightarrow> string list" where
  "sessionResetStatements c =
     (if driver c = Sqlite then []
      else (if queryTimeout c > 0 \<and> driver c = Mysql then [''SET SESSION max_execution_time = DEFAULT''] else [])
        @ (if driver c = Postgres then opt_stmt (searchPath c) (\<lambda>p. ''RESET search_path'') else [])
        @ opt_stmt (charset c) (\<lambda>cs. if driver c = Mysql then ''SET NAMES DEFAULT'' else ''RESET client_encoding''))"

text \<open>The session setting a statement of either list is about.\<close>

definition session_knob :: "string \<Rightarrow> string option" where
  "session_knob stmt =
     (if starts_with ''SET SESSION max_execution_time = '' stmt then Some ''max_execution_time''
      else if starts_with ''SET search_path TO '' stmt \<or> stmt = ''RESET search_path'' then Some ''search_path''
      else if starts_with ''SET NAMES '' stmt then Some ''names''
      else if starts_with ''SET client_encoding TO '' stmt \<or> stmt = ''RESET client_encoding'' then Some ''client_encoding''
      else None)"

definition is_reset :: "string \<Rightarrow> bool" where
  "is_reset stmt \<longleftrightarrow> stmt \<in> {''SET SESSION max_execution_time = DEFAULT'', ''RESET search_path'', ''SET NAMES DEFAULT'', ''RESET client_encoding''}"

text \<open>
  Releasing a connection resets exactly the settings that were set on it at checkout, one reset
  statement for each, so nothing of one configuration reaches the next user of the connection.
\<close>

theorem reset_undoes_session:
  "map session_knob (sessionResetStatements c) = map session_knob (sessionStatements c)
   \<and> distinct (map session_knob (sessionStatements c)) \<and> None \<notin> set (map session_knob (sessionStatements c))
   \<and> list_all is_reset (sessionResetStatements c)"
  by (cases "driver c")
    (simp_all add: sessionResetStatements_def sessionStatements_def opt_stmt_def session_knob_def is_reset_def split: option.splits)

section \<open>The configured pool\<close>

definition configuredPool ::
  "('c \<Rightarrow> string \<Rightarrow> ('s, unit) io) \<Rightarrow> ('c, 's) pool \<Rightarrow> resolved_config \<Rightarrow> ('c, 's) pool" where
  "configuredPool run p c =
     (if sessionStatements c = [] then p
      else \<lparr>acquire = (\<lambda>s. case acquire p s of
               (Inl e, s1) \<Rightarrow> (Inl e, s1)
             | (Inr conn, s1) \<Rightarrow> (case run_all run conn (sessionStatements c) s1 of
                 (Inr _, s2) \<Rightarrow> (Inr conn, s2)
               | (Inl e, s2) \<Rightarrow> (case release p conn True s2 of
                   (Inl e', s3) \<Rightarrow> (Inl e', s3)
                 | (Inr _, s3) \<Rightarrow> (Inl e, s3)))),
            release = (\<lambda>conn destroy s. if destroy then release p conn True s
               else (case run_all run conn (sessionResetStatements c) s of
                   (Inl _, s1) \<Rightarrow> release p conn True s1
                 | (Inr _, s1) \<Rightarrow> release p conn False s1))\<rparr>)"

section \<open>The contract of a pool\<close>

locale lease_pool =
  fixes leased :: "'s \<Rightarrow> 'c set"
    and p :: "('c, 's) pool"
    and run :: "'c \<Rightarrow> string \<Rightarrow> ('s, unit) io"
  assumes acquire_leases: "acquire p s = (Inr c, s') \<Longrightarrow> c \<notin> leased s \<and> leased s' = insert c (leased s)"
    and acquire_fails: "acquire p s = (Inl e, s') \<Longrightarrow> leased s' = leased s"
    and release_returns: "c \<in> leased s \<Longrightarrow> leased (snd (release p c d s)) = leased s - {c}"
    and run_keeps: "leased (snd (run c q s)) = leased s"
begin

lemma run_all_keeps: "leased (snd (run_all run c qs s)) = leased s"
proof (induction qs arbitrary: s)
  case (Cons q qs)
  then show ?case using run_keeps [of c q s] by (auto split: prod.splits sum.splits)
qed simp

lemma run_all_keeps': "run_all run c qs s = (r, s') \<Longrightarrow> leased s' = leased s"
  using run_all_keeps [of c qs s] by simp

lemma release_returns': "release p c d s = (r, s') \<Longrightarrow> c \<in> leased s \<Longrightarrow> leased s' = leased s - {c}"
  using release_returns [of c s d] by simp

lemma configured_contract: "lease_pool leased (configuredPool run p cfg) run"
proof (cases "sessionStatements cfg = []")
  case True
  then show ?thesis by (simp add: configuredPool_def lease_pool_axioms)
next
  case False
  show ?thesis
  proof
    have cases: "(\<forall>c. r = Inr c \<longrightarrow> c \<notin> leased s \<and> leased s' = insert c (leased s))
        \<and> (\<forall>e. r = Inl e \<longrightarrow> leased s' = leased s)"
      if acq: "acquire (configuredPool run p cfg) s = (r, s')" for s r s'
    proof -
      obtain r0 s1 where a: "acquire p s = (r0, s1)" by fastforce
      show ?thesis
      proof (cases r0)
        case (Inl e)
        then show ?thesis using acq a False acquire_fails [of s e s1] by (auto simp: configuredPool_def)
      next
        case (Inr c)
        from acquire_leases a Inr have c: "c \<notin> leased s" "leased s1 = insert c (leased s)" by blast+
        obtain r1 s2 where r: "run_all run c (sessionStatements cfg) s1 = (r1, s2)" by fastforce
        have s2: "leased s2 = insert c (leased s)" using run_all_keeps' [OF r] c(2) by simp
        obtain r3 s3 where rel: "release p c True s2 = (r3, s3)" by fastforce
        have s3: "leased s3 = leased s" using release_returns' [OF rel] c(1) s2 by simp
        have "(r, s') = (case r1 of Inr _ \<Rightarrow> (Inr c, s2) | Inl e \<Rightarrow> (case r3 of Inl e' \<Rightarrow> (Inl e', s3) | Inr _ \<Rightarrow> (Inl e, s3)))"
          using acq [symmetric] a Inr r rel False by (cases r1; cases r3) (simp_all add: configuredPool_def)
        then show ?thesis using c(1) s2 s3 by (cases r1; cases r3) simp_all
      qed
    qed
    show "c \<notin> leased s \<and> leased s' = insert c (leased s)"
      if "acquire (configuredPool run p cfg) s = (Inr c, s')" for s c s'
      using cases [OF that] by simp
    show "leased s' = leased s" if "acquire (configuredPool run p cfg) s = (Inl e, s')" for s e s'
      using cases [OF that] by simp
    show "leased (snd (release (configuredPool run p cfg) c d s)) = leased s - {c}" if "c \<in> leased s" for c s d
    proof (cases d)
      case True
      then show ?thesis using that False by (simp add: configuredPool_def release_returns)
    next
      case no_destroy: False
      obtain r1 s1 where r: "run_all run c (sessionResetStatements cfg) s = (r1, s1)" by fastforce
      have s1: "leased s1 = leased s" by (rule run_all_keeps' [OF r])
      have "leased (snd (release p c d' s1)) = leased s - {c}" for d'
        using release_returns [of c s1 d'] that s1 by simp
      then show ?thesis using no_destroy False r by (cases r1) (simp_all add: configuredPool_def)
    qed
    show "leased (snd (run c q s)) = leased s" for c q s
      by (rule run_keeps)
  qed
qed

end

section \<open>The PostgreSQL pool adapter\<close>

text \<open>
  The driver is its answers: \<open>connects\<close> is what the coming \<open>pool.connect()\<close> calls resolve to (a client or
  an error; none left is an error), \<open>replies\<close> what the coming calls on a client throw, if anything.  A
  handle is the connection object made at checkout, a new one for each; \<open>handles\<close> is the \<open>WeakMap\<close> of
  the source with the lease of each client, \<open>sent\<close> and \<open>returned\<close> record the traffic.
\<close>

record pg_driver =
  connects :: "(js_error + nat) list"
  replies :: "js_error option list"
  nextHandle :: nat
  handles :: "nat \<Rightarrow> (nat \<times> lease) option"
  sent :: "(nat \<times> string) list"
  returned :: "(nat \<times> release_arg) list"

definition driver_reply :: "(pg_driver, unit) io" where
  "driver_reply s = (case replies s of
      Some e # rs \<Rightarrow> (Inl e, s\<lparr>replies := rs\<rparr>)
    | None # rs \<Rightarrow> (Inr (), s\<lparr>replies := rs\<rparr>)
    | [] \<Rightarrow> (Inr (), s))"

definition pg_connect :: "(pg_driver, nat) io" where
  "pg_connect s = (case connects s of
      [] \<Rightarrow> (Inl (plain_error ''timeout exceeded when trying to connect''), s)
    | r # rs \<Rightarrow> (r, s\<lparr>connects := rs\<rparr>))"

definition pg_acquire :: "(pg_driver, nat) io" where
  "pg_acquire s = (case pg_connect s of
      (Inl e, s1) \<Rightarrow> (Inl e, s1)
    | (Inr client, s1) \<Rightarrow>
        (Inr (nextHandle s1), s1\<lparr>nextHandle := Suc (nextHandle s1), handles := (handles s1)(nextHandle s1 \<mapsto> (client, lease_open))\<rparr>))"

definition pg_release :: "nat \<Rightarrow> bool \<Rightarrow> (pg_driver, unit) io" where
  "pg_release conn destroy s = (case handles s conn of
      None \<Rightarrow> (Inr (), s)
    | Some (client, l) \<Rightarrow> (let (arg, l') = lease_release (Flag destroy) l
        in driver_reply (s\<lparr>handles := (handles s)(conn \<mapsto> (client, l')), returned := returned s @ [(client, arg)]\<rparr>)))"

definition pg_run :: "nat \<Rightarrow> string \<Rightarrow> (pg_driver, unit) io" where
  "pg_run conn q s = (case handles s conn of
      None \<Rightarrow> (Inr (), s)
    | Some (client, l) \<Rightarrow> driver_reply (s\<lparr>sent := sent s @ [(client, q)]\<rparr>))"

text \<open>A leased client may report an error at any time.\<close>

definition pg_client_error :: "nat \<Rightarrow> js_error \<Rightarrow> pg_driver \<Rightarrow> pg_driver" where
  "pg_client_error conn e s = (case handles s conn of
      None \<Rightarrow> s
    | Some (client, l) \<Rightarrow> s\<lparr>handles := (handles s)(conn \<mapsto> (client, lease_on_error e l))\<rparr>)"

definition pgConnectionPool :: "(nat, pg_driver) pool" where
  "pgConnectionPool = \<lparr>acquire = pg_acquire, release = pg_release\<rparr>"

text \<open>A connection is checked out while its client is listened to; handles are given out in order.\<close>

definition pg_leased :: "pg_driver \<Rightarrow> nat set" where
  "pg_leased s = {h. h < nextHandle s \<and> (\<exists>c l. handles s h = Some (c, l) \<and> listening l)}"

lemma driver_reply_state: "driver_reply s = (r, s') \<Longrightarrow> nextHandle s' = nextHandle s \<and> handles s' = handles s \<and> returned s' = returned s"
  by (auto simp: driver_reply_def split: list.splits option.splits)

lemma pg_leased_reply [simp]: "pg_leased (snd (driver_reply s)) = pg_leased s"
  using driver_reply_state [of s] by (cases "driver_reply s") (simp add: pg_leased_def)

interpretation pg_pool: lease_pool pg_leased pgConnectionPool pg_run
proof
  show "c \<notin> pg_leased s \<and> pg_leased s' = insert c (pg_leased s)"
    if "acquire pgConnectionPool s = (Inr c, s')" for s c s'
    using that
    by (auto simp: pgConnectionPool_def pg_acquire_def pg_connect_def pg_leased_def lease_open_def less_Suc_eq split: list.splits sum.splits prod.splits)
  show "pg_leased s' = pg_leased s" if "acquire pgConnectionPool s = (Inl e, s')" for s e s'
    using that
    by (auto simp: pgConnectionPool_def pg_acquire_def pg_connect_def pg_leased_def split: list.splits sum.splits prod.splits)
  show "pg_leased (snd (release pgConnectionPool c d s)) = pg_leased s - {c}" if "c \<in> pg_leased s" for c s d
  proof -
    from that obtain client l where h: "handles s c = Some (client, l)" by (auto simp: pg_leased_def)
    obtain arg l' where r: "lease_release (Flag d) l = (arg, l')" "\<not> listening l'"
      by (simp add: lease_release_def)
    have "pg_leased (snd (pg_release c d s))
        = pg_leased (s\<lparr>handles := (handles s)(c \<mapsto> (client, l')), returned := returned s @ [(client, arg)]\<rparr>)"
      by (simp add: pg_release_def h r)
    also have "\<dots> = pg_leased s - {c}"
      using r(2) by (auto simp: pg_leased_def)
    finally show ?thesis by (simp add: pgConnectionPool_def)
  qed
  show "pg_leased (snd (pg_run c q s)) = pg_leased s" for c q s
  proof (cases "handles s c")
    case (Some h)
    then show ?thesis by (cases h) (simp add: pg_run_def, simp add: pg_leased_def)
  qed (simp add: pg_run_def)
qed

text \<open>The pool of a configured PostgreSQL connection keeps the contract.\<close>

lemma pg_configured: "lease_pool pg_leased (configuredPool pg_run pgConnectionPool cfg) pg_run"
  by (rule pg_pool.configured_contract)

section \<open>What a checkout did\<close>

lemma pg_run_all:
  "run_all pg_run h qs s = (r, s') \<Longrightarrow> handles s h = Some (client, l) \<Longrightarrow>
     handles s' = handles s \<and> returned s' = returned s \<and> nextHandle s' = nextHandle s
     \<and> (\<exists>n \<le> length qs. sent s' = sent s @ map (Pair client) (take n qs))
     \<and> (r = Inr () \<longrightarrow> sent s' = sent s @ map (Pair client) qs)"
proof (induction qs arbitrary: s)
  case (Cons q qs)
  obtain r1 s1 where q: "pg_run h q s = (r1, s1)" by (cases "pg_run h q s")
  then have s1: "handles s1 = handles s" "returned s1 = returned s" "nextHandle s1 = nextHandle s" "sent s1 = sent s @ [(client, q)]"
    using Cons.prems(2) by (auto simp: pg_run_def driver_reply_def split: list.splits option.splits)
  show ?case
  proof (cases r1)
    case (Inl e)
    then have "s' = s1" "r = Inl e" using Cons.prems(1) q by auto
    then show ?thesis using s1 by (auto intro!: exI [of _ "Suc 0"])
  next
    case (Inr u)
    then have "run_all pg_run h qs s1 = (r, s')" using Cons.prems(1) q by simp
    from Cons.IH [OF this] Cons.prems(2) s1 obtain n where
      "handles s' = handles s" "returned s' = returned s" "nextHandle s' = nextHandle s" "n \<le> length qs"
      "sent s' = sent s @ map (Pair client) (take (Suc n) (q # qs))"
      "r = Inr () \<longrightarrow> sent s' = sent s @ map (Pair client) (q # qs)"
      by auto
    then show ?thesis by (auto intro!: exI [of _ "Suc n"])
  qed
qed simp

lemma pg_acquire_ok:
  "pg_acquire s = (Inr h, s') \<Longrightarrow> h = nextHandle s \<and> sent s' = sent s \<and> returned s' = returned s
     \<and> pg_leased s' = insert h (pg_leased s) \<and> h \<notin> pg_leased s \<and> (\<exists>client. handles s' h = Some (client, lease_open))"
  using pg_pool.acquire_leases [of s h s']
  by (auto simp: pgConnectionPool_def pg_acquire_def pg_connect_def split: list.splits sum.splits prod.splits)

lemma pg_acquire_fails:
  "pg_acquire s = (Inl e, s') \<Longrightarrow> pg_leased s' = pg_leased s \<and> sent s' = sent s \<and> returned s' = returned s"
  using pg_pool.acquire_fails [of s e s']
  by (auto simp: pgConnectionPool_def pg_acquire_def pg_connect_def split: list.splits sum.splits prod.splits)

lemma pg_release_destroys:
  "pg_release h True s = (r, s') \<Longrightarrow> handles s h = Some (client, l) \<Longrightarrow> returned s' = returned s @ [(client, Flag True)]"
  by (auto simp: pg_release_def lease_release_def Let_def dest!: driver_reply_state)

text \<open>
  A configured connection is handed out only after all its session statements ran on its client,
  in order and with nothing else in between; when one of them fails the caller gets the error, the
  client is destroyed, never reused, and no connection stays checked out.
\<close>

theorem checkout_applies_session:
  "(case acquire (configuredPool pg_run pgConnectionPool cfg) s of
      (Inr h, s') \<Rightarrow> h = nextHandle s \<and> returned s' = returned s
        \<and> (\<exists>client. handles s' h = Some (client, lease_open) \<and> sent s' = sent s @ map (Pair client) (sessionStatements cfg))
    | (Inl e, s') \<Rightarrow> pg_leased s' = pg_leased s
        \<and> (sent s' = sent s \<or> (\<exists>client. returned s' = returned s @ [(client, Flag True)])))"
    (is "case ?acq of (Inr h, s') \<Rightarrow> ?ok h s' | (Inl e, s') \<Rightarrow> ?bad s'")
proof (cases "pg_acquire s")
  case (Pair r0 s1)
  note a = Pair
  show ?thesis
  proof (cases r0)
    case (Inl e)
    then show ?thesis using a pg_acquire_fails [of s e s1]
      by (simp add: configuredPool_def pgConnectionPool_def)
  next
    case (Inr h)
    then obtain client where s1: "h = nextHandle s" "handles s1 h = Some (client, lease_open)"
        "sent s1 = sent s" "returned s1 = returned s" "pg_leased s1 = insert h (pg_leased s)" "h \<notin> pg_leased s"
      using a pg_acquire_ok [of s h s1] by blast
    obtain r s2 where r: "run_all pg_run h (sessionStatements cfg) s1 = (r, s2)" by fastforce
    note s2 = pg_run_all [OF r s1(2)]
    show ?thesis
    proof (cases r)
      case (Inr u)
      then show ?thesis
        using a \<open>r0 = Inr h\<close> r s1 s2 by (simp add: configuredPool_def pgConnectionPool_def)
    next
      case (Inl e)
      then have ne: "sessionStatements cfg \<noteq> []" using r by auto
      obtain r3 s3 where rel: "pg_release h True s2 = (r3, s3)" by fastforce
      have "handles s2 h = Some (client, lease_open)" using s2 s1 by simp
      from pg_release_destroys [OF rel this] s1 s2
      have "returned s3 = returned s @ [(client, Flag True)]" by simp
      moreover have "pg_leased s3 = pg_leased s"
      proof -
        have "pg_leased s2 = insert h (pg_leased s)"
          using s1 s2 by (simp add: pg_leased_def)
        then show ?thesis
          using pg_pool.release_returns [of h s2 True] rel s1 by (simp add: pgConnectionPool_def)
      qed
      moreover have "?acq = ((case r3 of Inl e' \<Rightarrow> Inl e' | Inr _ \<Rightarrow> Inl e), s3)"
        using a \<open>r0 = Inr h\<close> Inl r rel ne by (cases r3) (simp_all add: configuredPool_def pgConnectionPool_def)
      ultimately show ?thesis by (cases r3) simp_all
    qed
  qed
qed

end
