(* ===== verification/Routing.thy ===== *)
theory Routing
  imports Pools
begin

text \<open>
  Which connection a statement runs on: the registry of named connections, the writer-sticky clock
  and the resolution order of \<open>src/scp/connection-routing.ts\<close>, the request scope of
  \<open>src/RequestScope.ts\<close>, and \<open>connectionFor\<close> of the two contexts of \<open>src/scp/exec-context.ts\<close>.  Pools and
  connections are any values; the ambient scopes (\<open>AsyncLocalStorage\<close>) are the record \<open>ambient\<close>.
\<close>

section \<open>The registry\<close>

record 'p rw_pair =
  reader :: 'p
  writer :: 'p

definition singlePoolPair :: "'p \<Rightarrow> 'p rw_pair" where
  "singlePoolPair p = \<lparr>reader = p, writer = p\<rparr>"

definition readerWriterPair :: "'p \<Rightarrow> 'p \<Rightarrow> 'p rw_pair" where
  "readerWriterPair r w = \<lparr>reader = r, writer = w\<rparr>"

type_synonym 'p registry = "(string \<times> 'p rw_pair) list"

definition DEFAULT_CONNECTION :: string where "DEFAULT_CONNECTION = ''default''"

definition effectiveConnection :: "string option \<Rightarrow> string" where
  "effectiveConnection db = (case db of None \<Rightarrow> DEFAULT_CONNECTION | Some n \<Rightarrow> n)"

definition assertRoutableNamedDb :: "string option \<Rightarrow> scp_error + unit" where
  "assertRoutableNamedDb db =
     (if effectiveConnection db = DEFAULT_CONNECTION then Inr () else Inl (NoRegistry (effectiveConnection db)))"

definition assertTxDbAgrees :: "string option \<Rightarrow> string option \<Rightarrow> scp_error + unit" where
  "assertTxDbAgrees db txDb = (case db of None \<Rightarrow> Inr ()
     | Some _ \<Rightarrow> (if effectiveConnection db = effectiveConnection txDb then Inr ()
                  else Inl (TxConnectionMismatch (effectiveConnection db) (effectiveConnection txDb))))"

definition pairFor :: "'p registry \<Rightarrow> string option \<Rightarrow> scp_error + 'p rw_pair" where
  "pairFor reg name = (case map_of reg (effectiveConnection name) of
      None \<Rightarrow> Inl (UnknownConnection (effectiveConnection name))
    | Some pair \<Rightarrow> Inr pair)"

definition registry_names :: "'p registry \<Rightarrow> string list" where
  "registry_names reg = map fst reg"

definition distinctPools :: "'p registry \<Rightarrow> 'p list" where
  "distinctPools reg = dedup (concat (map (\<lambda>(_, pair). [reader pair, writer pair]) reg))"

definition singleDefault :: "'p \<Rightarrow> 'p registry" where
  "singleDefault p = [(DEFAULT_CONNECTION, singlePoolPair p)]"

text \<open>The builder: adding a name again overwrites its pair and keeps its place.\<close>

definition registry_add :: "string \<Rightarrow> 'p rw_pair \<Rightarrow> 'p registry \<Rightarrow> 'p registry" where
  "registry_add name pair reg = obj_set reg name pair"

definition registry_build :: "'p registry \<Rightarrow> scp_error + 'p registry" where
  "registry_build reg = (if reg = [] then Inl EmptyRegistry else Inr reg)"

definition fromDefault :: "'p rw_pair \<Rightarrow> 'p registry" where
  "fromDefault pair = registry_add DEFAULT_CONNECTION pair []"

section \<open>Request scope and the writer-sticky clock\<close>

text \<open>
  A clock is an object with an identity; the commit times of a request are kept per clock.  The store
  holds the scope of every open request.
\<close>

record sticky_clock =
  clock_id :: nat
  enabled :: bool
  stickyDurationMs :: int

type_synonym commits = "nat \<Rightarrow> int option"
type_synonym request_store = "nat \<Rightarrow> commits option"

definition sticky_clock_new :: "nat \<Rightarrow> bool option \<Rightarrow> int option \<Rightarrow> sticky_clock" where
  "sticky_clock_new i useWriter duration =
     \<lparr>clock_id = i, enabled = or_default useWriter True, stickyDurationMs = or_default duration 5000\<rparr>"

record ambient =
  now :: int
  request :: "nat option"
  requests :: request_store
  writerScope :: bool
  scope :: tx_scope

definition currentRequestScope :: "ambient \<Rightarrow> commits option" where
  "currentRequestScope a = (case request a of None \<Rightarrow> None | Some r \<Rightarrow> requests a r)"

definition clock_mark :: "sticky_clock \<Rightarrow> ambient \<Rightarrow> ambient" where
  "clock_mark clk a =
     (if enabled clk
      then (case (request a, currentRequestScope a) of
              (Some r, Some cs) \<Rightarrow> a\<lparr>requests := (requests a)(r \<mapsto> cs(clock_id clk \<mapsto> now a))\<rparr>
            | _ \<Rightarrow> a)
      else a)"

definition isSticky :: "sticky_clock \<Rightarrow> ambient \<Rightarrow> bool" where
  "isSticky clk a \<longleftrightarrow> enabled clk \<and>
     (case currentRequestScope a of None \<Rightarrow> False
      | Some cs \<Rightarrow> (case cs (clock_id clk) of None \<Rightarrow> False | Some at \<Rightarrow> now a - at < stickyDurationMs clk))"

definition withWriter :: "ambient \<Rightarrow> ambient" where
  "withWriter a = (if writerScope a then a else a\<lparr>writerScope := True, scope := withReadOnly (scope a)\<rparr>)"

text \<open>
  After a request commits, its own reads stick to the writer until the sticky duration has passed
  and not longer; no other request and no other clock is affected, and outside a request nothing is.
\<close>

theorem sticky_is_per_request:
  "isSticky clk ((clock_mark clk a)\<lparr>now := t, request := r\<rparr>)
   = (if enabled clk \<and> r = request a \<and> currentRequestScope a \<noteq> None then t - now a < stickyDurationMs clk
      else isSticky clk (a\<lparr>now := t, request := r\<rparr>))"
  by (auto simp: isSticky_def clock_mark_def currentRequestScope_def split: option.splits)

lemma other_clock_unaffected:
  "clock_id c \<noteq> clock_id clk \<Longrightarrow> isSticky c ((clock_mark clk a)\<lparr>now := t, request := r\<rparr>) = isSticky c (a\<lparr>now := t, request := r\<rparr>)"
  by (auto simp: isSticky_def clock_mark_def currentRequestScope_def split: option.splits)

section \<open>Resolving a pool\<close>

record 'p routing_config =
  rc_registry :: "'p registry"
  rc_sticky :: sticky_clock

record intent =
  int_write :: bool
  int_db :: "string option"

definition resolvePool :: "intent \<Rightarrow> 'p routing_config \<Rightarrow> ambient \<Rightarrow> scp_error + 'p" where
  "resolvePool i rc a = bind_r (pairFor (rc_registry rc) (int_db i)) (\<lambda>pair.
     Inr (if int_write i then writer pair
          else if writerScope a \<or> isSticky (rc_sticky rc) a then writer pair
          else reader pair))"

definition single_pool_routing :: "'p \<Rightarrow> nat \<Rightarrow> 'p routing_config" where
  "single_pool_routing p i = \<lparr>rc_registry = singleDefault p, rc_sticky = sticky_clock_new i (Some False) None\<rparr>"

section \<open>The contexts\<close>

record 'c pinned_tx =
  pin_db :: "string option"
  opened :: 'c

datatype ('c, 'p) target = OnPin 'c | PerStatement 'p

text \<open>\<open>PooledAsyncContext.connectionFor\<close>: the pin of the current transaction, else a pool to draw from.\<close>

definition connectionFor ::
  "'c pinned_tx option \<Rightarrow> 'p routing_config \<Rightarrow> ambient \<Rightarrow> intent \<Rightarrow> scp_error + ('c, 'p) target" where
  "connectionFor pin rc a i = (case pin of
      Some p \<Rightarrow> bind_r (assertTxDbAgrees (int_db i) (pin_db p)) (\<lambda>_. Inr (OnPin (opened p)))
    | None \<Rightarrow> bind_r (resolvePool i rc a) (\<lambda>pool. Inr (PerStatement pool)))"

definition connectionPoolFor :: "'p routing_config \<Rightarrow> string option \<Rightarrow> scp_error + 'p" where
  "connectionPoolFor rc db = bind_r (pairFor (rc_registry rc) db) (\<lambda>pair. Inr (writer pair))"

text \<open>\<open>BasicContext\<close>: one connection and no registry; \<open>withConnection\<close> pins one.\<close>

record 'c basic_context =
  base :: 'c
  pinned :: "'c option"

definition basic_connectionFor :: "'c basic_context \<Rightarrow> intent \<Rightarrow> scp_error + 'c" where
  "basic_connectionFor ctx i = (case pinned ctx of
      Some c \<Rightarrow> bind_r (assertTxDbAgrees (int_db i) None) (\<lambda>_. Inr c)
    | None \<Rightarrow> bind_r (assertRoutableNamedDb (int_db i)) (\<lambda>_. Inr (base ctx)))"

definition basic_withConnection :: "'c basic_context \<Rightarrow> 'c \<Rightarrow> bool \<Rightarrow> 'c basic_context" where
  "basic_withConnection ctx c tx = ctx\<lparr>pinned := (if tx then Some c else None)\<rparr>"

text \<open>
  C11. A statement reaches the connection its intent calls for or is refused: inside a transaction it
  runs on the transaction's own connection, exactly when it names no other database; outside, on the
  named connection, a write on its writer and a read on its reader unless the writer scope or the
  request's own commit sends it to the writer.  An unknown name is always an error.
\<close>

theorem statement_routing:
  "(case connectionFor pin rc a i of
      Inr (OnPin c) \<Rightarrow> (\<exists>p. pin = Some p \<and> c = opened p
          \<and> (int_db i = None \<or> effectiveConnection (int_db i) = effectiveConnection (pin_db p)))
    | Inr (PerStatement pool) \<Rightarrow> pin = None
        \<and> (\<exists>pair. map_of (rc_registry rc) (effectiveConnection (int_db i)) = Some pair
             \<and> pool = (if int_write i \<or> writerScope a \<or> isSticky (rc_sticky rc) a then writer pair else reader pair))
    | Inl e \<Rightarrow> (case pin of
        None \<Rightarrow> map_of (rc_registry rc) (effectiveConnection (int_db i)) = None
      | Some p \<Rightarrow> int_db i \<noteq> None \<and> effectiveConnection (int_db i) \<noteq> effectiveConnection (pin_db p)))"
  by (auto simp: connectionFor_def resolvePool_def pairFor_def assertTxDbAgrees_def split: option.splits)

text \<open>
  One pool is the special case of routing: for an unnamed statement, the context built from a
  single pool routes like the one-connection context, whatever the scopes, and its clock never sticks.
\<close>

theorem single_pool_equivalence:
  "connectionFor (map_option (\<lambda>c. \<lparr>pin_db = None, opened = c\<rparr>) (pinned ctx)) (single_pool_routing (base ctx) k) a i
   = (case pinned ctx of
        None \<Rightarrow> (case basic_connectionFor ctx i of
            Inr c \<Rightarrow> Inr (PerStatement c) | Inl e \<Rightarrow> Inl (UnknownConnection (effectiveConnection (int_db i))))
      | Some _ \<Rightarrow> map_sum id OnPin (basic_connectionFor ctx i))"
  by (auto simp: connectionFor_def basic_connectionFor_def resolvePool_def pairFor_def single_pool_routing_def
      singleDefault_def singlePoolPair_def assertRoutableNamedDb_def assertTxDbAgrees_def isSticky_def sticky_clock_new_def
      or_default_def split: option.splits)

section \<open>A statement outside a transaction\<close>

text \<open>
  The per-statement connection acquires, runs and releases; the release is in a \<open>finally\<close> and does not
  say whether the statement failed.  An error of the release replaces the statement's outcome.
\<close>

definition per_statement :: "('c, 's) pool \<Rightarrow> ('c \<Rightarrow> ('s, 'a) io) \<Rightarrow> ('s, 'a) io" where
  "per_statement p stmt s = (case acquire p s of
      (Inl e, s1) \<Rightarrow> (Inl e, s1)
    | (Inr c, s1) \<Rightarrow> (case stmt c s1 of (r, s2) \<Rightarrow> (case release p c False s2 of
        (Inl e, s3) \<Rightarrow> (Inl e, s3)
      | (Inr _, s3) \<Rightarrow> (r, s3))))"

text \<open>
  A failed statement is released like a clean one: the session reset is attempted and, if it
  succeeds, the client returns to the pool.
\<close>

definition failing_driver :: pg_driver where
  "failing_driver = \<lparr>connects = [Inr 7], replies = [None, Some (plain_error ''canceling statement due to statement timeout'')],
     nextHandle = 0, handles = (\<lambda>_. None), sent = [], returned = []\<rparr>"

definition search_path_config :: resolved_config where
  "search_path_config = (resolveConnectionConfig \<lparr>cfg_driver = None, cfg_host = None, cfg_port = None, cfg_database = None,
     cfg_user = None, cfg_password = None, cfg_queryTimeout = None, cfg_keepAlive = None,
     cfg_keepAliveInitialDelayMillis = None, cfg_minPool = None, cfg_maxPool = None, cfg_connectTimeoutMillis = None,
     cfg_idleTimeoutMillis = None, cfg_searchPath = Some ''app'', cfg_charset = None\<rparr>)"

lemma failed_statement_returns_client:
  "(let (r, s) = per_statement (configuredPool pg_run pgConnectionPool search_path_config) (\<lambda>c. pg_run c ''SELECT 1'') failing_driver
    in (isl r, map snd (sent s), returned s))
   = (True, [''SET search_path TO app'', ''SELECT 1'', ''RESET search_path''], [(7, Keep)])"
  by code_simp

section \<open>Building and closing\<close>

datatype pool_role = ReaderRole | WriterRole

record ('c, 's) connection_setup =
  su_name :: "string option"
  su_config :: connection_config
  poolFactory :: "resolved_config \<Rightarrow> pool_role \<Rightarrow> ('c, 's) pool \<times> nat"
  separateWriter :: bool

definition setup_pair ::
  "('c \<Rightarrow> string \<Rightarrow> ('s, unit) io) \<Rightarrow> ('c, 's) connection_setup \<Rightarrow> ('c, 's) pool rw_pair \<times> nat list" where
  "setup_pair run su =
     (let resolved = resolveConnectionConfig (su_config su);
          (rp, rclose) = poolFactory su resolved ReaderRole;
          reader = configuredPool run rp resolved
      in if separateWriter su
         then (let (wp, wclose) = poolFactory su resolved WriterRole
               in (readerWriterPair reader (configuredPool run wp resolved), [rclose, wclose]))
         else (singlePoolPair reader, [rclose]))"

fun add_setup ::
  "('c \<Rightarrow> string \<Rightarrow> ('s, unit) io) \<Rightarrow> ('c, 's) connection_setup \<Rightarrow> ('c, 's) pool registry \<times> nat list
     \<Rightarrow> ('c, 's) pool registry \<times> nat list" where
  "add_setup run su (reg, closers) =
     (let (pair, cs) = setup_pair run su
      in (registry_add (effectiveConnection (su_name su)) pair reg, closers @ cs))"

definition buildRoutingConfig ::
  "('c \<Rightarrow> string \<Rightarrow> ('s, unit) io) \<Rightarrow> nat \<Rightarrow> ('c, 's) connection_setup list \<Rightarrow> bool option \<Rightarrow> int option
     \<Rightarrow> scp_error + ('c, 's) pool routing_config \<times> nat list" where
  "buildRoutingConfig run clk setups useWriter duration =
     (if setups = [] then Inl EmptyRegistry
      else (let (reg, closers) = fold (add_setup run) setups ([], [])
            in bind_r (registry_build reg) (\<lambda>reg.
                 Inr (\<lparr>rc_registry = reg, rc_sticky = sticky_clock_new clk useWriter duration\<rparr>, closers))))"

text \<open>Closing: each closer once, a failing one does not stop the others.\<close>

fun close_loop :: "(nat \<Rightarrow> ('s, unit) io) \<Rightarrow> nat list \<Rightarrow> nat list \<Rightarrow> 's \<Rightarrow> 's" where
  "close_loop close seen [] s = s"
| "close_loop close seen (c # cs) s =
     (if c \<in> set seen then close_loop close seen cs s else close_loop close (c # seen) cs (snd (close c s)))"

definition closeRouting :: "(nat \<Rightarrow> ('s, unit) io) \<Rightarrow> nat list \<Rightarrow> 's \<Rightarrow> 's" where
  "closeRouting close closers s = close_loop close [] closers s"

lemma close_loop_dedup:
  "close_loop close seen cs s = fold (\<lambda>c s. snd (close c s)) (filter (\<lambda>c. c \<notin> set seen) (dedup cs)) s"
proof (induction cs arbitrary: seen s)
  case (Cons c cs)
  show ?case
  proof (cases "c \<in> set seen")
    case True
    then have "filter (\<lambda>x. x \<notin> set seen) (filter (\<lambda>y. y \<noteq> c) (dedup cs)) = filter (\<lambda>x. x \<notin> set seen) (dedup cs)"
      by (auto intro!: filter_cong)
    then show ?thesis using True Cons.IH by (simp del: filter_filter)
  next
    case False
    have "filter (\<lambda>x. x \<notin> set (c # seen)) (dedup cs) = filter (\<lambda>x. x \<notin> set seen) (filter (\<lambda>y. y \<noteq> c) (dedup cs))"
      by (auto intro!: filter_cong)
    then show ?thesis using False Cons.IH by (simp del: filter_filter)
  qed
qed simp

lemma routing_fold:
  "fold (add_setup run) sus (reg, cl)
   = (fold (\<lambda>su reg. registry_add (effectiveConnection (su_name su)) (fst (setup_pair run su)) reg) sus reg,
      cl @ concat (map (\<lambda>su. snd (setup_pair run su)) sus))"
  by (induction sus arbitrary: reg cl) (simp_all add: split_beta Let_def)

lemma map_of_registry_fold:
  "map_of (fold (\<lambda>su reg. registry_add (n su) (f su) reg) sus reg) k
   = (case find (\<lambda>su. n su = k) (rev sus) of Some su \<Rightarrow> Some (f su) | None \<Rightarrow> map_of reg k)"
proof (induction sus rule: rev_induct)
  case (snoc su sus)
  then show ?case by (simp add: registry_add_def map_of_obj_set)
qed simp

text \<open>
  The configured routing has exactly the connections it was given: a name resolves to the pools of
  the last setup under it, any other name is an error, and closing it closes every pool that was built,
  each once.
\<close>

theorem routing_config_is_complete:
  assumes "buildRoutingConfig run clk setups uw dur = Inr (rc, closers)"
  shows "pairFor (rc_registry rc) name
      = (case find (\<lambda>su. effectiveConnection (su_name su) = effectiveConnection name) (rev setups) of
           Some su \<Rightarrow> Inr (fst (setup_pair run su)) | None \<Rightarrow> Inl (UnknownConnection (effectiveConnection name)))
    \<and> closeRouting close closers s
      = fold (\<lambda>c s. snd (close c s)) (dedup (concat (map (\<lambda>su. snd (setup_pair run su)) setups))) s"
proof -
  have rc: "rc_registry rc = fold (\<lambda>su reg. registry_add (effectiveConnection (su_name su)) (fst (setup_pair run su)) reg) setups []"
    "closers = concat (map (\<lambda>su. snd (setup_pair run su)) setups)"
    using assms by (auto simp: buildRoutingConfig_def routing_fold registry_build_def bind_r_Inr_iff split: if_splits)
  show ?thesis
    unfolding pairFor_def rc map_of_registry_fold closeRouting_def close_loop_dedup
    by (simp split: option.splits)
qed

definition example_setup :: "(nat, pg_driver) connection_setup" where
  "example_setup = \<lparr>su_name = None, su_config = \<lparr>cfg_driver = None, cfg_host = None, cfg_port = None, cfg_database = None,
     cfg_user = None, cfg_password = None, cfg_queryTimeout = None, cfg_keepAlive = None,
     cfg_keepAliveInitialDelayMillis = None, cfg_minPool = None, cfg_maxPool = None, cfg_connectTimeoutMillis = None,
     cfg_idleTimeoutMillis = None, cfg_searchPath = None, cfg_charset = None\<rparr>,
     poolFactory = (\<lambda>_ role. (pgConnectionPool, if role = ReaderRole then 1 else 2)), separateWriter = True\<rparr>"

theorem routing_config_is_complete_witness:
  "\<exists>rc. buildRoutingConfig pg_run 0 [example_setup] None None = Inr (rc, [1, 2])
    \<and> pairFor (rc_registry rc) None = Inr (readerWriterPair pgConnectionPool pgConnectionPool)
    \<and> closeRouting (\<lambda>c s. (Inr (), s @ [c])) [1, 2] [] = [1, 2]"
proof -
  have pair: "setup_pair pg_run example_setup = (readerWriterPair pgConnectionPool pgConnectionPool, [1, 2])"
    by (simp add: setup_pair_def example_setup_def configuredPool_def sessionStatements_def resolveConnectionConfig_def
        or_default_def opt_stmt_def)
  have name: "su_name example_setup = None" by (simp add: example_setup_def)
  have "buildRoutingConfig pg_run 0 [example_setup] None None
      = Inr (\<lparr>rc_registry = [(''default'', readerWriterPair pgConnectionPool pgConnectionPool)],
              rc_sticky = sticky_clock_new 0 None None\<rparr>, [1, 2])" (is "_ = Inr (?rc, _)")
    by (simp add: buildRoutingConfig_def pair registry_add_def registry_build_def effectiveConnection_def
        DEFAULT_CONNECTION_def name)
  moreover from routing_config_is_complete [OF this, of None "\<lambda>c s. (Inr (), s @ [c])" "[]"]
  have "pairFor (rc_registry ?rc) None = Inr (readerWriterPair pgConnectionPool pgConnectionPool)
      \<and> closeRouting (\<lambda>c s. (Inr (), s @ [c])) [1, 2] [] = [1, 2]"
    by (simp add: pair name)
  ultimately show ?thesis by blast
qed

end
