(* ===== verification/Transaction.thy ===== *)
theory Transaction
  imports TxGuard Routing
begin

text \<open>
  Transactions on an owned connection: \<open>withTransactionAsync\<close> and \<open>transaction\<close>
  of \<open>src/scp/exec-context.ts\<close>.  What a transaction runs on is the record
  \<open>tx_run\<close>: the pool, the control statements (sent through the middleware chain onto the connection),
  the body, which reports its outcome and whether queries it started were still in flight when it
  settled, and the resolved options.  Every operation returns the events it caused; the world \<open>'s\<close> they
  act on is arbitrary.
\<close>

datatype 'c tx_event =
    Acquired 'c
  | AcquireFailed js_error
  | Control 'c string "js_error option"
  | BodyRan 'c "js_error option"
  | Released 'c bool "js_error option"
  | Slept int
  | Marked

record ('c, 's, 'r) tx_run =
  tr_pool :: "('c, 's) pool"
  tr_control :: "'c \<Rightarrow> string \<Rightarrow> ('s, unit) io"
  tr_body :: "'c \<Rightarrow> 's \<Rightarrow> 'r outcome \<times> bool \<times> 's"
  tr_isConn :: "js_error \<Rightarrow> bool"
  tr_begins :: "string list"
  tr_opts :: resolved_opts
  tr_given :: "'c option"

section \<open>One attempt\<close>

definition error_of :: "js_error + 'a \<Rightarrow> js_error option" where
  "error_of r = (case r of Inl e \<Rightarrow> Some e | Inr _ \<Rightarrow> None)"

definition control ::
  "('c \<Rightarrow> string \<Rightarrow> ('s, unit) io) \<Rightarrow> 'c \<Rightarrow> string \<Rightarrow> 's \<Rightarrow> (js_error + unit) \<times> 'c tx_event list \<times> 's" where
  "control ctl c stmt s = (case ctl c stmt s of (r, s') \<Rightarrow> (r, [Control c stmt (error_of r)], s'))"

fun controls ::
  "('c \<Rightarrow> string \<Rightarrow> ('s, unit) io) \<Rightarrow> 'c \<Rightarrow> string list \<Rightarrow> 's \<Rightarrow> (js_error + unit) \<times> 'c tx_event list \<times> 's" where
  "controls ctl c [] s = (Inr (), [], s)"
| "controls ctl c (stmt # stmts) s = (case control ctl c stmt s of
      (Inl e, ev, s') \<Rightarrow> (Inl e, ev, s')
    | (Inr _, ev, s') \<Rightarrow> (case controls ctl c stmts s' of (r, ev', s'') \<Rightarrow> (r, ev @ ev', s'')))"

definition body_settled :: "('c, 's, 'r) tx_run \<Rightarrow> 'c \<Rightarrow> 's \<Rightarrow> 'r outcome \<times> 'c tx_event list \<times> 's" where
  "body_settled t c s = (case tr_body t c s of (out, pending, s') \<Rightarrow>
     (let r = settle_outcome pending out in (r, [BodyRan c (error_of r)], s')))"

text \<open>The failure of an attempt: its error, whether it was committing, whether the rollback failed.\<close>

type_synonym 'r attempt_result = "js_error \<times> bool \<times> bool + 'r"

definition rolled_back ::
  "('c, 's, 'r) tx_run \<Rightarrow> 'c \<Rightarrow> js_error \<Rightarrow> bool \<Rightarrow> 'c tx_event list \<Rightarrow> 's \<Rightarrow> 'r attempt_result \<times> 'c tx_event list \<times> 's" where
  "rolled_back t c e committing ev s = (case control (tr_control t) c ''ROLLBACK'' s of (r, ev', s') \<Rightarrow>
     (Inl (e, committing, error_of r \<noteq> None), ev @ ev', s'))"

definition tx_attempt :: "('c, 's, 'r) tx_run \<Rightarrow> 'c \<Rightarrow> 's \<Rightarrow> 'r attempt_result \<times> 'c tx_event list \<times> 's" where
  "tx_attempt t c s = (case controls (tr_control t) c (tr_begins t) s of
      (Inl e, ev1, s1) \<Rightarrow> rolled_back t c e False ev1 s1
    | (Inr _, ev1, s1) \<Rightarrow> (case body_settled t c s1 of
        (Inl e, ev2, s2) \<Rightarrow> rolled_back t c e False (ev1 @ ev2) s2
      | (Inr v, ev2, s2) \<Rightarrow>
          (case control (tr_control t) c (if rollbackOnly (tr_opts t) then ''ROLLBACK'' else ''COMMIT'') s2 of
            (Inl e, ev3, s3) \<Rightarrow> rolled_back t c e (\<not> rollbackOnly (tr_opts t)) (ev1 @ ev2 @ ev3) s3
          | (Inr _, ev3, s3) \<Rightarrow> (Inr v, ev1 @ ev2 @ ev3, s3))))"

text \<open>The flags an attempt leaves behind: \<open>ok\<close> of its result, and \<open>poisoned\<close>.\<close>

definition at_ok :: "'r attempt_result \<Rightarrow> bool" where
  "at_ok res = (case res of Inl _ \<Rightarrow> False | Inr _ \<Rightarrow> True)"

definition at_poisoned :: "'r attempt_result \<Rightarrow> bool" where
  "at_poisoned res = (case res of Inl (_, _, poisoned) \<Rightarrow> poisoned | Inr _ \<Rightarrow> False)"

section \<open>One round: checkout, attempt, release\<close>

datatype 'r round_result = Finished 'r | GaveUp js_error | Failed js_error bool

definition checkout :: "('c, 's, 'r) tx_run \<Rightarrow> 's \<Rightarrow> (js_error + 'c) \<times> 'c tx_event list \<times> 's" where
  "checkout t s = (case tr_given t of
      Some c \<Rightarrow> (Inr c, [], s)
    | None \<Rightarrow> (case acquire (tr_pool t) s of
        (Inl e, s') \<Rightarrow> (Inl e, [AcquireFailed e], s')
      | (Inr c, s') \<Rightarrow> (Inr c, [Acquired c], s')))"

definition checkin :: "('c, 's, 'r) tx_run \<Rightarrow> 'c \<Rightarrow> bool \<Rightarrow> 's \<Rightarrow> (js_error + unit) \<times> 'c tx_event list \<times> 's" where
  "checkin t c destroy s = (case tr_given t of
      Some _ \<Rightarrow> (Inr (), [], s)
    | None \<Rightarrow> (case release (tr_pool t) c destroy s of (r, s') \<Rightarrow> (r, [Released c destroy (error_of r)], s')))"

definition tx_round :: "('c, 's, 'r) tx_run \<Rightarrow> 's \<Rightarrow> 'r round_result \<times> 'c tx_event list \<times> 's" where
  "tx_round t s = (case checkout t s of
      (Inl e, ev0, s0) \<Rightarrow> (GaveUp e, ev0, s0)
    | (Inr c, ev0, s0) \<Rightarrow> (case tx_attempt t c s0 of (res, ev1, s1) \<Rightarrow>
        (case checkin t c (at_poisoned res \<or> \<not> at_ok res) s1 of
          (Inl e, ev2, s2) \<Rightarrow> (GaveUp e, ev0 @ ev1 @ ev2, s2)
        | (Inr _, ev2, s2) \<Rightarrow> (case res of
            Inr v \<Rightarrow> (Finished v,
              ev0 @ ev1 @ ev2 @ (if \<not> rollbackOnly (tr_opts t) \<and> useWriterAfterTransaction (tr_opts t) then [Marked] else []), s2)
          | Inl (e, committing, _) \<Rightarrow> (Failed e committing, ev0 @ ev1 @ ev2, s2)))))"

section \<open>The retry loop\<close>

definition retries :: "('c, 's, 'r) tx_run \<Rightarrow> js_error \<Rightarrow> bool \<Rightarrow> bool" where
  "retries t e committing \<longleftrightarrow>
     \<not> isUnretriedConnectionError e committing (tr_given t \<noteq> None) (tr_isConn t) \<and> isRetryableTxError e (tr_isConn t)"

function tx_loop :: "('c, 's, 'r) tx_run \<Rightarrow> nat \<Rightarrow> 's \<Rightarrow> 'r outcome \<times> 'c tx_event list \<times> 's" where
  "tx_loop t attempt s = (case tx_round t s of
      (Finished v, ev, s') \<Rightarrow> (Inr v, ev, s')
    | (GaveUp e, ev, s') \<Rightarrow> (Inl e, ev, s')
    | (Failed e committing, ev, s') \<Rightarrow>
        if retryOnError (tr_opts t) \<and> int attempt < retryLimit (tr_opts t) \<and> retries t e committing
        then (case tx_loop t (Suc attempt) s' of
          (r, ev', s'') \<Rightarrow> (r, ev @ Slept (retryDuration (tr_opts t) * 2 ^ (attempt - 1)) # ev', s''))
        else (Inl e, ev, s'))"
  by pat_completeness auto
termination
  by (relation "measure (\<lambda>(t, attempt, s). nat (retryLimit (tr_opts t) - int attempt))") auto

declare tx_loop.simps [simp del]

section \<open>The entry points\<close>

datatype tx_failure = Refused scp_error | Thrown js_error

definition withTransactionAsync ::
  "'c pinned_tx option \<Rightarrow> ('c, 's) pool routing_config \<Rightarrow> ('c \<Rightarrow> string \<Rightarrow> ('s, unit) io) \<Rightarrow> (js_error \<Rightarrow> bool)
     \<Rightarrow> ('c \<Rightarrow> 's \<Rightarrow> 'r outcome \<times> bool \<times> 's) \<Rightarrow> 'c tx_opts \<Rightarrow> dialect \<Rightarrow> string option
     \<Rightarrow> ambient \<Rightarrow> 's \<Rightarrow> (tx_failure + 'r) \<times> 'c tx_event list \<times> ambient \<times> 's" where
  "withTransactionAsync pin rc ctl isConn body opts d connection a s = (case pin of
      Some p \<Rightarrow> (case assertNestedConnection (opt_connection opts) (Some (opened p)) of
          Inl e \<Rightarrow> (Inl (Thrown e), [], a, s)
        | Inr _ \<Rightarrow> (case body (opened p) s of (out, _, s') \<Rightarrow> (map_sum Thrown id out, [], a, s')))
    | None \<Rightarrow> (case beginStatements d (opt_isolation opts) of
          Inl e \<Rightarrow> (Inl (Refused e), [], a, s)
        | Inr begins \<Rightarrow> (case connectionPoolFor rc connection of
            Inl e \<Rightarrow> (Inl (Refused e), [], a, s)
          | Inr pool \<Rightarrow> (case tx_loop \<lparr>tr_pool = pool, tr_control = ctl, tr_body = body, tr_isConn = isConn,
                 tr_begins = begins, tr_opts = resolveTxOptions opts, tr_given = opt_connection opts\<rparr> 1 s of
              (r, ev, s') \<Rightarrow> (map_sum Thrown id r, ev, (if Marked \<in> set ev then clock_mark (rc_sticky rc) a else a), s')))))"

section \<open>What the events say\<close>

fun is_commit :: "'c tx_event \<Rightarrow> bool" where
  "is_commit (Control _ q None) \<longleftrightarrow> q = ''COMMIT''"
| "is_commit _ \<longleftrightarrow> False"

definition commits :: "'c tx_event list \<Rightarrow> nat" where
  "commits ev = length (filter is_commit ev)"

fun acquired_by :: "'c tx_event \<Rightarrow> 'c list" where
  "acquired_by (Acquired c) = [c]"
| "acquired_by _ = []"

fun released_by :: "'c tx_event \<Rightarrow> ('c \<times> bool) list" where
  "released_by (Released c destroy _) = [(c, destroy)]"
| "released_by _ = []"

fun slept_by :: "'c tx_event \<Rightarrow> int list" where
  "slept_by (Slept ms) = [ms]"
| "slept_by _ = []"

definition acquired :: "'c tx_event list \<Rightarrow> 'c list" where "acquired ev = concat (map acquired_by ev)"
definition released :: "'c tx_event list \<Rightarrow> ('c \<times> bool) list" where "released ev = concat (map released_by ev)"
definition sleeps :: "'c tx_event list \<Rightarrow> int list" where "sleeps ev = concat (map slept_by ev)"

lemmas event_defs = commits_def acquired_def released_def sleeps_def

lemma event_append [simp]:
  "commits (ev @ ev') = commits ev + commits ev'" "acquired (ev @ ev') = acquired ev @ acquired ev'"
  "released (ev @ ev') = released ev @ released ev'" "sleeps (ev @ ev') = sleeps ev @ sleeps ev'"
  by (simp_all add: event_defs)

lemma event_Nil [simp]: "commits [] = 0" "acquired [] = []" "released [] = []" "sleeps [] = []"
  by (simp_all add: event_defs)

lemma event_Cons [simp]:
  "commits (x # ev) = (if is_commit x then 1 else 0) + commits ev" "acquired (x # ev) = acquired_by x @ acquired ev"
  "released (x # ev) = released_by x @ released ev" "sleeps (x # ev) = slept_by x @ sleeps ev"
  by (simp_all add: event_defs)

text \<open>The events of an attempt are control statements and the body, on its connection.\<close>

definition on_conn :: "'c \<Rightarrow> 'c tx_event \<Rightarrow> bool" where
  "on_conn c x \<longleftrightarrow> (case x of Control c' _ _ \<Rightarrow> c' = c | BodyRan c' _ \<Rightarrow> c' = c | _ \<Rightarrow> False)"

lemma on_conn_events: "list_all (on_conn c) ev \<Longrightarrow> acquired ev = [] \<and> released ev = [] \<and> sleeps ev = [] \<and> Marked \<notin> set ev"
  by (induction ev) (auto simp: on_conn_def split: tx_event.splits)

lemma control_events: "control ctl c q s = (r, ev, s') \<Longrightarrow> ev = [Control c q (error_of r)]"
  by (auto simp: control_def split: prod.splits)

lemma controls_events:
  "controls ctl c qs s = (r, ev, s') \<Longrightarrow>
     list_all (on_conn c) ev \<and> list_all (\<lambda>x. \<exists>q \<in> set qs. \<exists>e. x = Control c q e) ev
     \<and> (r = Inr () \<longrightarrow> ev = map (\<lambda>q. Control c q None) qs)"
proof (induction qs arbitrary: s r ev s')
  case (Cons q qs)
  obtain r1 ev1 s1 where q: "control ctl c q s = (r1, ev1, s1)" by (cases "control ctl c q s")
  note ev1 = control_events [OF q]
  show ?case
  proof (cases r1)
    case (Inl e)
    then show ?thesis using Cons.prems q ev1 by (auto simp: on_conn_def)
  next
    case (Inr u)
    obtain r2 ev2 s2 where qs: "controls ctl c qs s1 = (r2, ev2, s2)" by (cases "controls ctl c qs s1")
    have "r = r2" "ev = ev1 @ ev2" using Cons.prems q qs Inr by auto
    moreover note Cons.IH [OF qs]
    ultimately show ?thesis using ev1 Inr
      by (auto simp: on_conn_def error_of_def list_all_iff)
  qed
qed simp

lemma body_events: "body_settled t c s = (r, ev, s') \<Longrightarrow> ev = [BodyRan c (error_of r)]"
  by (auto simp: body_settled_def Let_def split: prod.splits)

lemma begins_no_commit: "beginStatements d level = Inr qs \<Longrightarrow> ''COMMIT'' \<notin> set qs \<and> ''ROLLBACK'' \<notin> set qs"
  by (auto simp: beginStatements_def split: option.splits dialect.splits)

text \<open>The four ways an attempt can go.\<close>

lemma rolled_back_events:
  "rolled_back t c e committing ev s = (res, ev', s') \<Longrightarrow>
     \<exists>x. res = Inl (e, committing, x \<noteq> None) \<and> ev' = ev @ [Control c ''ROLLBACK'' x]"
  by (auto simp: rolled_back_def dest!: control_events split: prod.splits)

definition final_statement :: "('c, 's, 'r) tx_run \<Rightarrow> string" where
  "final_statement t = (if rollbackOnly (tr_opts t) then ''ROLLBACK'' else ''COMMIT'')"

lemma attempt_cases:
  assumes "tx_attempt t c s = (res, ev, s')"
  obtains (begin_failed) e bs x where "res = Inl (e, False, x \<noteq> None)" "ev = bs @ [Control c ''ROLLBACK'' x]"
      "list_all (on_conn c) bs" "list_all (\<lambda>y. \<exists>q \<in> set (tr_begins t). \<exists>e. y = Control c q e) bs"
    | (body_failed) e x where "res = Inl (e, False, x \<noteq> None)"
      "ev = map (\<lambda>q. Control c q None) (tr_begins t) @ [BodyRan c (Some e), Control c ''ROLLBACK'' x]"
    | (commit_failed) e x where "res = Inl (e, \<not> rollbackOnly (tr_opts t), x \<noteq> None)"
      "ev = map (\<lambda>q. Control c q None) (tr_begins t)
         @ [BodyRan c None, Control c (final_statement t) (Some e), Control c ''ROLLBACK'' x]"
    | (succeeded) v where "res = Inr v"
      "ev = map (\<lambda>q. Control c q None) (tr_begins t) @ [BodyRan c None, Control c (final_statement t) None]"
proof -
  obtain r1 ev1 s1 where b: "controls (tr_control t) c (tr_begins t) s = (r1, ev1, s1)" by (cases "controls (tr_control t) c (tr_begins t) s")
  note ev1 = controls_events [OF b]
  show ?thesis
  proof (cases r1)
    case (Inl e)
    then show ?thesis using assms b ev1 rolled_back_events [of t c e False ev1 s1 res ev s'] begin_failed
      by (auto simp: tx_attempt_def)
  next
    case (Inr u)
    obtain r2 ev2 s2 where bd: "body_settled t c s1 = (r2, ev2, s2)" by (cases "body_settled t c s1")
    note ev2 = body_events [OF bd]
    have ev1': "ev1 = map (\<lambda>q. Control c q None) (tr_begins t)" using ev1 Inr by simp
    show ?thesis
    proof (cases r2)
      case (Inl e)
      then show ?thesis
        using assms b bd ev1' ev2 \<open>r1 = Inr u\<close> rolled_back_events [of t c e False "ev1 @ ev2" s2 res ev s'] body_failed
        by (auto simp: tx_attempt_def error_of_def)
    next
      case (Inr v)
      obtain r3 ev3 s3 where f: "control (tr_control t) c (final_statement t) s2 = (r3, ev3, s3)" by (cases "control (tr_control t) c (final_statement t) s2")
      note ev3 = control_events [OF f]
      show ?thesis
      proof (cases r3)
        case (Inl e)
        then have "rolled_back t c e (\<not> rollbackOnly (tr_opts t)) (ev1 @ ev2 @ ev3) s3 = (res, ev, s')"
          using assms b bd f \<open>r1 = Inr u\<close> \<open>r2 = Inr v\<close> by (simp add: tx_attempt_def final_statement_def)
        from rolled_back_events [OF this] show ?thesis
          using ev1' ev2 ev3 Inl \<open>r2 = Inr v\<close> commit_failed by (auto simp: error_of_def)
      next
        case (Inr w)
        then have "res = Inr v" "ev = ev1 @ ev2 @ ev3"
          using assms b bd f \<open>r1 = Inr u\<close> \<open>r2 = Inr v\<close> by (simp_all add: tx_attempt_def final_statement_def)
        then show ?thesis using ev1' ev2 ev3 Inr \<open>r2 = Inr v\<close> succeeded by (auto simp: error_of_def)
      qed
    qed
  qed
qed

lemma list_all_on_conn_begins: "list_all (on_conn c) (map (\<lambda>q. Control c q None) qs)"
  by (simp add: list_all_iff on_conn_def)

lemma attempt_on_conn: "tx_attempt t c s = (res, ev, s') \<Longrightarrow> list_all (on_conn c) ev"
  by (erule attempt_cases) (auto simp: list_all_on_conn_begins, auto simp: on_conn_def list_all_iff)

lemma commits_of_controls:
  "''COMMIT'' \<notin> set qs \<Longrightarrow> list_all (\<lambda>y. \<exists>q \<in> set qs. \<exists>e. y = Control c q e) ev \<Longrightarrow> commits ev = 0"
proof (induction ev)
  case (Cons x ev)
  then have "\<not> is_commit x" by (auto elim: is_commit.elims)
  then show ?case using Cons by simp
qed simp

lemma commits_of_begins: "''COMMIT'' \<notin> set qs \<Longrightarrow> commits (map (\<lambda>q. Control c q None) qs) = 0"
  by (erule commits_of_controls) (auto simp: list_all_iff)

lemma attempt_commits:
  assumes "tx_attempt t c s = (res, ev, s')" and "''COMMIT'' \<notin> set (tr_begins t)"
  shows "commits ev = (if at_ok res \<and> \<not> rollbackOnly (tr_opts t) then 1 else 0)"
  using assms(1)
proof (cases rule: attempt_cases)
  case (begin_failed e bs x)
  then show ?thesis using commits_of_controls [OF assms(2), of c bs] by (cases x) (simp_all add: at_ok_def)
next
  case (body_failed e x)
  then show ?thesis using commits_of_begins [OF assms(2), of c] by (cases x) (simp_all add: at_ok_def)
next
  case (commit_failed e x)
  then show ?thesis using commits_of_begins [OF assms(2), of c] by (cases x) (simp_all add: at_ok_def)
next
  case (succeeded v)
  then show ?thesis using commits_of_begins [OF assms(2), of c] by (simp add: at_ok_def final_statement_def)
qed

section \<open>Rounds\<close>

lemma destroy_flag: "at_poisoned res \<or> \<not> at_ok res \<longleftrightarrow> \<not> at_ok res"
  by (auto simp: at_poisoned_def at_ok_def split: sum.splits)

definition round_outcome :: "'r attempt_result \<Rightarrow> js_error option \<Rightarrow> 'r round_result" where
  "round_outcome res rl = (case rl of Some e \<Rightarrow> GaveUp e
     | None \<Rightarrow> (case res of Inr v \<Rightarrow> Finished v | Inl (e, committing, _) \<Rightarrow> Failed e committing))"

lemma round_cases:
  fixes t :: "('c, 's, 'r) tx_run"
  assumes "tx_round t s = (rr, ev, s')"
  obtains (no_connection) e where "tr_given t = None" "rr = GaveUp e" "ev = [AcquireFailed e]"
    | (given) c res s1 s2 ev1 mrk where "tr_given t = Some c" "tx_attempt t c s1 = (res, ev1, s2)"
      "rr = round_outcome res None" "ev = ev1 @ mrk" "mrk = [] \<or> mrk = [Marked] \<and> at_ok res"
    | (owned) c res s1 s2 ev1 mrk rl where "tr_given t = None" "tx_attempt t c s1 = (res, ev1, s2)"
      "rr = round_outcome res rl" "ev = Acquired c # ev1 @ Released c (\<not> at_ok res) rl # mrk" "mrk = [] \<or> mrk = [Marked] \<and> at_ok res"
proof -
  obtain r0 ev0 s0 where co: "checkout t s = (r0, ev0, s0)" by (cases "checkout t s")
  show ?thesis
  proof (cases r0)
    case (Inl e)
    then have "tr_given t = None" "ev0 = [AcquireFailed e]"
      using co by (auto simp: checkout_def split: option.splits prod.splits sum.splits)
    then show ?thesis using assms co Inl no_connection [of e] by (simp add: tx_round_def)
  next
    case (Inr c)
    obtain res ev1 s1 where att: "tx_attempt t c s0 = (res, ev1, s1)" by (cases "tx_attempt t c s0")
    obtain r2 ev2 s2 where ci: "checkin t c (at_poisoned res \<or> \<not> at_ok res) s1 = (r2, ev2, s2)"
      by (cases "checkin t c (at_poisoned res \<or> \<not> at_ok res) s1")
    define mrk :: "'c tx_event list" where
      "mrk = (if r2 = Inr () \<and> at_ok res \<and> \<not> rollbackOnly (tr_opts t) \<and> useWriterAfterTransaction (tr_opts t) then [Marked] else [])"
    have mrk: "mrk = [] \<or> mrk = [Marked] \<and> at_ok res" by (simp add: mrk_def)
    have "(rr, ev, s') = (case r2 of Inl e \<Rightarrow> (GaveUp e, ev0 @ ev1 @ ev2, s2)
        | Inr _ \<Rightarrow> (case res of
            Inr v \<Rightarrow> (Finished v,
              ev0 @ ev1 @ ev2 @ (if \<not> rollbackOnly (tr_opts t) \<and> useWriterAfterTransaction (tr_opts t) then [Marked] else []), s2)
          | Inl (e, committing, _) \<Rightarrow> (Failed e committing, ev0 @ ev1 @ ev2, s2)))"
      using assms co Inr by (cases r2) (simp_all add: tx_round_def att ci)
    then have rr: "rr = round_outcome res (error_of r2)" "ev = ev0 @ ev1 @ ev2 @ mrk"
      by (auto simp: mrk_def round_outcome_def error_of_def at_ok_def split: sum.splits prod.splits)
    show ?thesis
    proof (cases "tr_given t")
      case (Some c')
      then have "c' = c" "ev0 = []" "ev2 = []" "r2 = Inr ()" using co ci Inr by (simp_all add: checkout_def checkin_def)
      then show ?thesis using given [OF _ att _ _ mrk] Some rr by (simp add: error_of_def)
    next
      case None
      then have "ev0 = [Acquired c]" "ev2 = [Released c (\<not> at_ok res) (error_of r2)]"
        using co ci Inr by (auto simp: destroy_flag checkout_def checkin_def split: prod.splits sum.splits)
      then show ?thesis using owned [OF None att rr(1) _ mrk] rr by simp
    qed
  qed
qed

lemma mark_events: "mrk = [] \<or> mrk = [Marked] \<and> P \<Longrightarrow> commits mrk = 0 \<and> acquired mrk = [] \<and> released mrk = [] \<and> sleeps mrk = []"
  by auto

lemma round_leases:
  assumes "tx_round t s = (rr, ev, s')"
  shows "map fst (released ev) = acquired ev \<and> length (acquired ev) \<le> 1 \<and> sleeps ev = []
    \<and> (tr_given t \<noteq> None \<longrightarrow> acquired ev = [])"
  using assms
proof (cases rule: round_cases)
  case (given c res s1 s2 ev1 mrk)
  then show ?thesis using on_conn_events [OF attempt_on_conn [OF given(2)]] mark_events [OF given(5)] by simp
next
  case (owned c res s1 s2 ev1 mrk rl)
  then show ?thesis using on_conn_events [OF attempt_on_conn [OF owned(2)]] mark_events [OF owned(5)] by simp
qed simp

lemma round_flags:
  assumes "tx_round t s = (rr, ev, s')"
  shows "list_all (\<lambda>(_, destroy). destroy = (case rr of Failed _ _ \<Rightarrow> True | Finished _ \<Rightarrow> False | GaveUp _ \<Rightarrow> destroy)) (released ev)"
  using assms
proof (cases rule: round_cases)
  case (given c res s1 s2 ev1 mrk)
  then show ?thesis using on_conn_events [OF attempt_on_conn [OF given(2)]] mark_events [OF given(5)] by simp
next
  case (owned c res s1 s2 ev1 mrk rl)
  then show ?thesis using on_conn_events [OF attempt_on_conn [OF owned(2)]] mark_events [OF owned(5)]
    by (auto simp: round_outcome_def at_ok_def split: option.splits sum.splits)
qed simp

lemma round_commits:
  assumes "tx_round t s = (rr, ev, s')" and "''COMMIT'' \<notin> set (tr_begins t)"
  shows "case rr of Finished v \<Rightarrow> commits ev = (if rollbackOnly (tr_opts t) then 0 else 1)
    | Failed e cm \<Rightarrow> commits ev = 0
    | GaveUp e \<Rightarrow> commits ev = 0 \<or> commits ev = 1 \<and> (\<exists>c. Released c False (Some e) \<in> set ev)"
  using assms(1)
proof (cases rule: round_cases)
  case (given c res s1 s2 ev1 mrk)
  then show ?thesis using attempt_commits [OF given(2) assms(2)] mark_events [OF given(5)]
    by (auto simp: round_outcome_def at_ok_def split: sum.splits)
next
  case (owned c res s1 s2 ev1 mrk rl)
  then show ?thesis using attempt_commits [OF owned(2) assms(2)] mark_events [OF owned(5)]
    by (auto simp: round_outcome_def at_ok_def split: option.splits sum.splits)
qed simp

section \<open>The loop\<close>

lemma tx_loop_unfold:
  assumes "tx_loop t n s = (r, ev, s')"
  obtains (stops) rr where "tx_round t s = (rr, ev, s')"
      "case rr of Finished v \<Rightarrow> r = Inr v | GaveUp e \<Rightarrow> r = Inl e
       | Failed e cm \<Rightarrow> r = Inl e \<and> \<not> (retryOnError (tr_opts t) \<and> int n < retryLimit (tr_opts t) \<and> retries t e cm)"
    | (retried) e cm ev1 s1 ev2 where "tx_round t s = (Failed e cm, ev1, s1)" "tx_loop t (Suc n) s1 = (r, ev2, s')"
      "ev = ev1 @ Slept (retryDuration (tr_opts t) * 2 ^ (n - 1)) # ev2"
      "retryOnError (tr_opts t)" "int n < retryLimit (tr_opts t)" "retries t e cm"
proof -
  obtain rr ev1 s1 where rd: "tx_round t s = (rr, ev1, s1)" by (cases "tx_round t s")
  show ?thesis
  proof (cases "\<exists>e cm. rr = Failed e cm \<and> retryOnError (tr_opts t) \<and> int n < retryLimit (tr_opts t) \<and> retries t e cm")
    case True
    then obtain e cm where rr: "rr = Failed e cm" "retryOnError (tr_opts t)" "int n < retryLimit (tr_opts t)" "retries t e cm"
      by blast
    obtain r2 ev2 s2 where "tx_loop t (Suc n) s1 = (r2, ev2, s2)" by (cases "tx_loop t (Suc n) s1")
    then show ?thesis using retried [of e cm ev1 s1 ev2] assms rd rr by (simp add: tx_loop.simps [of t n])
  next
    case False
    then show ?thesis using stops [of rr] assms rd
      by (auto simp: tx_loop.simps [of t n] split: round_result.splits if_splits)
  qed
qed

lemma loop_induct [consumes 1, case_names stops retried]:
  assumes "tx_loop t n s = (r, ev, s')"
    and "\<And>n s r ev s' rr. tx_round t s = (rr, ev, s') \<Longrightarrow>
      (case rr of Finished v \<Rightarrow> r = Inr v | GaveUp e \<Rightarrow> r = Inl e
       | Failed e cm \<Rightarrow> r = Inl e \<and> \<not> (retryOnError (tr_opts t) \<and> int n < retryLimit (tr_opts t) \<and> retries t e cm)) \<Longrightarrow> P n s r ev s'"
    and "\<And>n s r s' e cm ev1 s1 ev2. tx_round t s = (Failed e cm, ev1, s1) \<Longrightarrow> P (Suc n) s1 r ev2 s' \<Longrightarrow>
      int n < retryLimit (tr_opts t) \<Longrightarrow> retries t e cm \<Longrightarrow>
      P n s r (ev1 @ Slept (retryDuration (tr_opts t) * 2 ^ (n - 1)) # ev2) s'"
  shows "P n s r ev s'"
  using assms(1)
proof (induction "nat (retryLimit (tr_opts t) - int n)" arbitrary: n s r ev s' rule: less_induct)
  case less
  from less.prems show ?case
  proof (cases rule: tx_loop_unfold)
    case (stops rr)
    then show ?thesis using assms(2) by blast
  next
    case (retried e cm ev1 s1 ev2)
    then have "P (Suc n) s1 r ev2 s'" by (intro less.hyps) auto
    then show ?thesis using assms(3) retried by blast
  qed
qed

lemma loop_commits:
  assumes "tx_loop t n s = (r, ev, s')" and begins: "''COMMIT'' \<notin> set (tr_begins t)"
  shows "case r of Inr v \<Rightarrow> commits ev = (if rollbackOnly (tr_opts t) then 0 else 1)
    | Inl e \<Rightarrow> commits ev = 0 \<or> commits ev = 1 \<and> (\<exists>c. Released c False (Some e) \<in> set ev)"
  using assms(1)
proof (induction rule: loop_induct)
  case (stops n s r ev s' rr)
  then show ?case using round_commits [OF stops(1) begins] by (cases rr) auto
next
  case (retried n s r s' e cm ev1 s1 ev2)
  then show ?case using round_commits [OF retried(1) begins] by (auto split: sum.splits)
qed

lemma loop_leases:
  assumes "tx_loop t n s = (r, ev, s')"
  shows "map fst (released ev) = acquired ev \<and> (tr_given t \<noteq> None \<longrightarrow> acquired ev = [])
    \<and> length (acquired ev) \<le> Suc (length (sleeps ev))"
  using assms
proof (induction rule: loop_induct)
  case (stops n s r ev s' rr)
  then show ?case using round_leases [OF stops(1)] by simp
next
  case (retried n s r s' e cm ev1 s1 ev2)
  then show ?case using round_leases [OF retried(1)] by auto
qed

lemma upt_Suc_shift: "n \<le> k \<Longrightarrow> n # [Suc n..<Suc k] = [n..<Suc k]"
  by (simp add: upt_conv_Cons)

lemma loop_sleeps:
  assumes "tx_loop t n s = (r, ev, s')" and "n > 0"
  shows "sleeps ev = map (\<lambda>k. retryDuration (tr_opts t) * 2 ^ k) [n - 1..<n - 1 + length (sleeps ev)]
    \<and> int (n - 1 + length (sleeps ev)) < max (int n) (retryLimit (tr_opts t))"
  using assms
proof (induction rule: loop_induct)
  case (stops n s r ev s' rr)
  then show ?case using round_leases [OF stops(1)] by simp
next
  case (retried n s r s' e cm ev1 s1 ev2)
  then have s: "sleeps (ev1 @ Slept (retryDuration (tr_opts t) * 2 ^ (n - 1)) # ev2)
      = retryDuration (tr_opts t) * 2 ^ (n - 1) # sleeps ev2"
    using round_leases [OF retried(1)] by simp
  have IH: "sleeps ev2 = map (\<lambda>k. retryDuration (tr_opts t) * 2 ^ k) [n..<n + length (sleeps ev2)]"
    "int (n + length (sleeps ev2)) < max (int (Suc n)) (retryLimit (tr_opts t))"
    using retried.IH by simp_all
  have "[n - 1..<n - 1 + Suc (length (sleeps ev2))] = (n - 1) # [n..<n + length (sleeps ev2)]"
    using retried.prems by (cases n) (simp_all add: upt_conv_Cons del: upt_Suc)
  then show ?case unfolding s using IH retried.hyps retried.prems by auto
qed

end
