(* ===== verification/TxProperties.thy ===== *)
theory TxProperties
  imports Transaction
begin

text \<open>
  What a transaction guarantees, over the model of \<open>withTransactionAsync\<close> in \<open>Transaction\<close>: atomicity,
  the return of every connection, the bound on retries, no repetition of a COMMIT whose outcome is
  unknown, survival of transient failures, and, through the pool contract, no leaked client.
\<close>

section \<open>Properties of transactions\<close>

lemma withTransaction_cases:
  assumes "withTransactionAsync pin rc ctl isConn body opts d connection a s = (r, ev, a', s')"
  obtains (joined) p where "pin = Some p" "ev = []" "a' = a"
    | (refused) e where "pin = None" "r = Inl (Refused e)" "ev = []" "a' = a" "s' = s"
    | (ran) begins pool r0 where "pin = None" "beginStatements d (opt_isolation opts) = Inr begins"
      "connectionPoolFor rc connection = Inr pool" "r = map_sum Thrown id r0"
      "tx_loop \<lparr>tr_pool = pool, tr_control = ctl, tr_body = body, tr_isConn = isConn,
                 tr_begins = begins, tr_opts = resolveTxOptions opts, tr_given = opt_connection opts\<rparr> 1 s = (r0, ev, s')"
      "a' = (if Marked \<in> set ev then clock_mark (rc_sticky rc) a else a)"
  using assms
  by (auto simp: withTransactionAsync_def split: option.splits sum.splits prod.splits)

lemma transaction_commits:
  assumes "withTransactionAsync pin rc ctl isConn body opts d connection a s = (r, ev, a', s')"
  shows "case r of Inr v \<Rightarrow> commits ev = (if pin = None \<and> \<not> rollbackOnly (resolveTxOptions opts) then 1 else 0)
    | Inl e \<Rightarrow> commits ev = 0 \<or> commits ev = 1 \<and> (\<exists>c e'. e = Thrown e' \<and> Released c False (Some e') \<in> set ev)"
  using assms
proof (cases rule: withTransaction_cases)
  case (ran begins pool r0)
  then show ?thesis using loop_commits [OF ran(5)] begins_no_commit [OF ran(2)] by (cases r0) auto
qed (auto split: sum.splits)

text \<open>
  C2. A transaction is all or nothing: a call that returns a value sent exactly one successful COMMIT
  (none when it is a dry run or joined an enclosing transaction), and a call that throws sent none,
  unless giving the connection back failed after the COMMIT, and then that is the error.
\<close>

theorem transaction_all_or_nothing:
  "(case withTransactionAsync pin rc ctl isConn body opts d connection a s of
      (Inr v, ev, _) \<Rightarrow> commits ev = (if pin = None \<and> \<not> rollbackOnly (resolveTxOptions opts) then 1 else 0)
    | (Inl e, ev, _) \<Rightarrow> commits ev = 0 \<or> commits ev = 1 \<and> (\<exists>c e'. e = Thrown e' \<and> Released c False (Some e') \<in> set ev))"
proof -
  obtain r ev a' s' where w: "withTransactionAsync pin rc ctl isConn body opts d connection a s = (r, ev, a', s')" by (rule prod_cases4)
  from transaction_commits [OF w] show ?thesis using w by (cases r) simp_all
qed

text \<open>
  C7. Every connection a transaction takes from the pool is given back exactly once, in order, whatever
  fails; a given connection and a joined transaction take none.
\<close>

theorem every_connection_is_returned:
  "(case withTransactionAsync pin rc ctl isConn body opts d connection a s of (r, ev, _) \<Rightarrow>
      map fst (released ev) = acquired ev
      \<and> (pin = None \<and> opt_connection opts = None \<or> acquired ev = []))"
    (is "case ?w of (r, ev, _) \<Rightarrow> ?ok ev")
proof -
  obtain r ev a' s' where w: "?w = (r, ev, a', s')" by (cases ?w) auto
  then have "?ok ev"
  proof (cases rule: withTransaction_cases)
    case (ran begins pool r0)
    then show ?thesis using loop_leases [OF ran(5)] by auto
  qed auto
  then show ?thesis using w by simp
qed

text \<open>
  C9. The retry loop ends: it makes at most \<open>max 1 retryLimit\<close> attempts, waits between two of them only,
  and the waits double from \<open>retryDuration\<close> on.
\<close>

theorem retries_are_bounded:
  "(case withTransactionAsync pin rc ctl isConn body opts d connection a s of (r, ev, _) \<Rightarrow>
      sleeps ev = map (\<lambda>k. retryDuration (resolveTxOptions opts) * 2 ^ k) [0..<length (sleeps ev)]
      \<and> int (length (sleeps ev)) < max 1 (retryLimit (resolveTxOptions opts))
      \<and> length (acquired ev) \<le> Suc (length (sleeps ev)))"
    (is "case ?w of (r, ev, _) \<Rightarrow> ?ok ev")
proof -
  obtain r ev a' s' where w: "?w = (r, ev, a', s')" by (cases ?w) auto
  then have "?ok ev"
  proof (cases rule: withTransaction_cases)
    case (ran begins pool r0)
    then show ?thesis using loop_leases [OF ran(5)] loop_sleeps [OF ran(5)] by auto
  qed auto
  then show ?thesis using w by simp
qed

section \<open>A lost COMMIT is not repeated\<close>

fun lost_commit :: "(js_error \<Rightarrow> bool) \<Rightarrow> 'c tx_event \<Rightarrow> bool" where
  "lost_commit isConn (Control _ q (Some e)) \<longleftrightarrow> q = ''COMMIT'' \<and> is_error_object e \<and> isConn e"
| "lost_commit isConn _ \<longleftrightarrow> False"

fun after_lost_commit :: "(js_error \<Rightarrow> bool) \<Rightarrow> 'c tx_event list \<Rightarrow> 'c tx_event list" where
  "after_lost_commit isConn [] = []"
| "after_lost_commit isConn (x # xs) = (if lost_commit isConn x then xs else after_lost_commit isConn xs)"

definition only_cleanup :: "'c tx_event \<Rightarrow> bool" where
  "only_cleanup x \<longleftrightarrow> (case x of Control _ q _ \<Rightarrow> q = ''ROLLBACK'' | Released _ _ _ \<Rightarrow> True | _ \<Rightarrow> False)"

lemma after_lost_append:
  "list_all (\<lambda>x. \<not> lost_commit f x) xs \<Longrightarrow> after_lost_commit f (xs @ ys) = after_lost_commit f ys"
  by (induction xs) auto

lemma controls_not_lost:
  "''COMMIT'' \<notin> set qs \<Longrightarrow> list_all (\<lambda>y. \<exists>q \<in> set qs. \<exists>e. y = Control c q e) ev \<Longrightarrow> list_all (\<lambda>x. \<not> lost_commit f x) ev"
  by (auto simp: list_all_iff elim!: lost_commit.elims)

lemma begins_not_lost: "list_all (\<lambda>x. \<not> lost_commit f x) (map (\<lambda>q. Control c q None) qs)"
  by (simp add: list_all_iff)

text \<open>
  An attempt either loses no COMMIT, or fails with the lost one as its error, after which only the
  rollback follows.
\<close>

lemma attempt_lost_commit:
  assumes "tx_attempt t c s = (res, ev, s')" and "''COMMIT'' \<notin> set (tr_begins t)"
  shows "list_all (\<lambda>x. \<not> lost_commit (tr_isConn t) x) ev
    \<or> (\<exists>pre x e p. ev = pre @ [x, Control c ''ROLLBACK'' p] \<and> list_all (\<lambda>x. \<not> lost_commit (tr_isConn t) x) pre
         \<and> lost_commit (tr_isConn t) x \<and> res = Inl (e, True, p \<noteq> None) \<and> is_error_object e \<and> tr_isConn t e)"
  using assms(1)
proof (cases rule: attempt_cases)
  case (begin_failed e bs x)
  then show ?thesis using controls_not_lost [OF assms(2), of c bs] by (cases x) simp_all
next
  case (body_failed e x)
  then show ?thesis by (cases x) (simp_all add: begins_not_lost)
next
  case (commit_failed e x)
  show ?thesis
  proof (cases "lost_commit (tr_isConn t) (Control c (final_statement t) (Some e))")
    case True
    then have "\<not> rollbackOnly (tr_opts t)" "is_error_object e" "tr_isConn t e"
      by (auto simp: final_statement_def split: if_splits)
    then show ?thesis using commit_failed True
      by (intro disjI2 exI [of _ "map (\<lambda>q. Control c q None) (tr_begins t) @ [BodyRan c None]"]
          exI [of _ "Control c (final_statement t) (Some e)"] exI [of _ e] exI [of _ x])
        (simp add: begins_not_lost)
  next
    case False
    then show ?thesis using commit_failed by (cases x) (simp_all add: begins_not_lost del: lost_commit.simps(1), simp_all)
  qed
next
  case (succeeded v)
  then show ?thesis by (simp add: begins_not_lost)
qed

lemma after_lost_at:
  "list_all (\<lambda>x. \<not> lost_commit f x) pre \<Longrightarrow> lost_commit f x \<Longrightarrow> after_lost_commit f (pre @ x # post) = post"
  by (simp add: after_lost_append)

lemma after_none_lost: "list_all (\<lambda>x. \<not> lost_commit f x) xs \<Longrightarrow> after_lost_commit f xs = []"
  using after_lost_append [of f xs "[]"] by simp

lemma mark_not_lost: "mrk = [] \<or> mrk = [Marked] \<and> P \<Longrightarrow> list_all (\<lambda>x. \<not> lost_commit f x) mrk"
  by auto

lemma attempt_after_lost:
  assumes "tx_attempt t c s = (res, ev, s')" and "''COMMIT'' \<notin> set (tr_begins t)"
    and "\<not> list_all (\<lambda>x. \<not> lost_commit (tr_isConn t) x) ev"
  shows "(\<exists>p. after_lost_commit (tr_isConn t) (ev @ post) = Control c ''ROLLBACK'' p # post)
    \<and> (\<exists>e p. res = Inl (e, True, p) \<and> is_error_object e \<and> tr_isConn t e)"
proof -
  from attempt_lost_commit [OF assms(1,2)] assms(3) obtain pre x e p where
    l: "ev = pre @ [x, Control c ''ROLLBACK'' p]" "list_all (\<lambda>x. \<not> lost_commit (tr_isConn t) x) pre"
      "lost_commit (tr_isConn t) x" "res = Inl (e, True, p \<noteq> None)" "is_error_object e" "tr_isConn t e"
    by blast
  then show ?thesis using after_lost_at [OF l(2,3), of "Control c ''ROLLBACK'' p # post"] by auto
qed

lemma round_lost_commit:
  assumes "tx_round t s = (rr, ev, s')" and "''COMMIT'' \<notin> set (tr_begins t)"
  shows "list_all (\<lambda>x. \<not> lost_commit (tr_isConn t) x) ev
    \<or> list_all only_cleanup (after_lost_commit (tr_isConn t) ev) \<and> (\<forall>e cm. rr = Failed e cm \<longrightarrow> \<not> retries t e cm)"
  using assms(1)
proof (cases rule: round_cases)
  case (given c res s1 s2 ev1 mrk)
  show ?thesis
  proof (cases "list_all (\<lambda>x. \<not> lost_commit (tr_isConn t) x) ev1")
    case True
    then show ?thesis using given(4) mark_not_lost [OF given(5)] by simp
  next
    case False
    from attempt_after_lost [OF given(2) assms(2) False, of "[]"] obtain p e q where
      l: "after_lost_commit (tr_isConn t) ev1 = [Control c ''ROLLBACK'' p]" "res = Inl (e, True, q)" "is_error_object e" "tr_isConn t e"
      by auto
    then have "mrk = []" using given(5) by (simp add: at_ok_def)
    then show ?thesis using l given
      by (auto simp: only_cleanup_def round_outcome_def retries_def isUnretriedConnectionError_def)
  qed
next
  case (owned c res s1 s2 ev1 mrk rl)
  show ?thesis
  proof (cases "list_all (\<lambda>x. \<not> lost_commit (tr_isConn t) x) ev1")
    case True
    then show ?thesis using owned(4) mark_not_lost [OF owned(5)] by simp
  next
    case False
    from attempt_after_lost [OF owned(2) assms(2) False, of "Released c (\<not> at_ok res) rl # mrk"] obtain p e q where
      l: "after_lost_commit (tr_isConn t) (ev1 @ Released c (\<not> at_ok res) rl # mrk)
            = Control c ''ROLLBACK'' p # Released c (\<not> at_ok res) rl # mrk"
        "res = Inl (e, True, q)" "is_error_object e" "tr_isConn t e"
      by auto
    then have "mrk = []" using owned(5) by (simp add: at_ok_def)
    then show ?thesis using l owned
      by (auto simp: only_cleanup_def round_outcome_def retries_def isUnretriedConnectionError_def split: option.splits)
  qed
qed simp

lemma loop_lost_commit:
  assumes "tx_loop t n s = (r, ev, s')" and begins: "''COMMIT'' \<notin> set (tr_begins t)"
  shows "list_all only_cleanup (after_lost_commit (tr_isConn t) ev)"
  using assms(1)
proof (induction rule: loop_induct)
  case (stops n s r ev s' rr)
  then show ?case using round_lost_commit [OF stops(1) begins] after_none_lost [of "tr_isConn t" ev] by auto
next
  case (retried n s r s' e cm ev1 s1 ev2)
  then have "list_all (\<lambda>x. \<not> lost_commit (tr_isConn t) x) ev1"
    using round_lost_commit [OF retried(1) begins] by auto
  then show ?case using retried by (simp add: after_lost_append)
qed

text \<open>
  C3. When the connection is lost while a COMMIT is under way, whether it took effect is unknown: after
  such an error the transaction only rolls back and gives the connection back; it never runs the body,
  begins, commits or takes a connection again.
\<close>

theorem lost_commit_is_not_repeated:
  "(case withTransactionAsync pin rc ctl isConn body opts d connection a s of
      (r, ev, _) \<Rightarrow> list_all only_cleanup (after_lost_commit isConn ev))"
    (is "case ?w of (r, ev, _) \<Rightarrow> ?ok ev")
proof -
  obtain r ev a' s' where w: "?w = (r, ev, a', s')" by (cases ?w) auto
  then have "?ok ev"
  proof (cases rule: withTransaction_cases)
    case (ran begins pool r0)
    then show ?thesis using loop_lost_commit [OF ran(5)] begins_no_commit [OF ran(2)] by simp
  qed auto
  then show ?thesis using w by simp
qed

section \<open>Transient failures\<close>

text \<open>\<open>k\<close> rounds that fail with an error worth retrying, then one that succeeds.\<close>

fun recovers :: "('c, 's, 'r) tx_run \<Rightarrow> nat \<Rightarrow> 's \<Rightarrow> 'r \<Rightarrow> bool" where
  "recovers t 0 s v = (\<exists>ev s'. tx_round t s = (Finished v, ev, s'))"
| "recovers t (Suc k) s v = (\<exists>e cm ev s'. tx_round t s = (Failed e cm, ev, s') \<and> retries t e cm \<and> recovers t k s' v)"

lemma loop_recovers:
  "recovers t k s v \<Longrightarrow> retryOnError (tr_opts t) \<Longrightarrow> int (n + k) \<le> max (int n) (retryLimit (tr_opts t)) \<Longrightarrow>
     \<exists>ev s'. tx_loop t n s = (Inr v, ev, s') \<and> length (sleeps ev) = k"
proof (induction k arbitrary: n s)
  case 0
  then obtain ev s' where rd: "tx_round t s = (Finished v, ev, s')" by auto
  then show ?case using round_leases [OF rd] by (simp add: tx_loop.simps [of t n])
next
  case (Suc k)
  then obtain e cm ev s' where rd: "tx_round t s = (Failed e cm, ev, s')" "retries t e cm" "recovers t k s' v" by auto
  moreover have "int n < retryLimit (tr_opts t)" "int (Suc n + k) \<le> max (int (Suc n)) (retryLimit (tr_opts t))"
    using Suc.prems(3) by auto
  moreover obtain ev' s'' where "tx_loop t (Suc n) s' = (Inr v, ev', s'')" "length (sleeps ev') = k"
    using Suc.IH [OF rd(3) Suc.prems(2), of "Suc n"] calculation by blast
  ultimately show ?case using Suc.prems(2) round_leases [OF rd(1)] by (simp add: tx_loop.simps [of t n])
qed

text \<open>
  C10. A transaction survives transient failures: if its first \<open>k\<close> attempts fail with retryable errors
  and the next one would succeed, with \<open>k\<close> below the retry limit, the call returns that value.
\<close>

theorem transient_failures_are_survived:
  assumes "beginStatements d (opt_isolation opts) = Inr begins" and "connectionPoolFor rc connection = Inr pool"
    and "recovers \<lparr>tr_pool = pool, tr_control = ctl, tr_body = body, tr_isConn = isConn, tr_begins = begins,
           tr_opts = resolveTxOptions opts, tr_given = opt_connection opts\<rparr> k s v"
    and "retryOnError (resolveTxOptions opts)" and "int k < max 1 (retryLimit (resolveTxOptions opts))"
  shows "\<exists>ev a' s'. withTransactionAsync None rc ctl isConn body opts d connection a s = (Inr v, ev, a', s')
    \<and> length (sleeps ev) = k"
proof -
  obtain ev s' where "tx_loop \<lparr>tr_pool = pool, tr_control = ctl, tr_body = body, tr_isConn = isConn, tr_begins = begins,
           tr_opts = resolveTxOptions opts, tr_given = opt_connection opts\<rparr> 1 s = (Inr v, ev, s')" "length (sleeps ev) = k"
    using loop_recovers [OF assms(3), of 1] assms(4,5) by auto
  then show ?thesis using assms(1,2) by (simp add: withTransactionAsync_def)
qed

definition steady_pool :: "(nat, nat) pool" where
  "steady_pool = \<lparr>acquire = (\<lambda>s. (Inr s, s)), release = (\<lambda>c destroy s. (Inr (), s))\<rparr>"

definition deadlock :: js_error where
  "deadlock = JsError ''DatabaseError'' ''deadlock detected'' (CodeText ''40P01'') None None None"

text \<open>A body that deadlocks until the world has reached 2.\<close>

definition contended_body :: "nat \<Rightarrow> nat \<Rightarrow> nat outcome \<times> bool \<times> nat" where
  "contended_body c s = (if s < 2 then (Inl deadlock, False, Suc s) else (Inr s, False, s))"

definition quiet :: ambient where
  "quiet = \<lparr>now = 0, request = None, requests = (\<lambda>_. None), writerScope = False, scope = \<lparr>inTransaction = False, readOnly = False\<rparr>\<rparr>"

definition steady_ctl :: "nat \<Rightarrow> string \<Rightarrow> nat \<Rightarrow> (js_error + unit) \<times> nat" where
  "steady_ctl c q s = (Inr (), s)"

definition steady_run :: "(nat, nat, nat) tx_run" where
  "steady_run = \<lparr>tr_pool = steady_pool, tr_control = steady_ctl, tr_body = contended_body, tr_isConn = isConnectionError,
     tr_begins = [''BEGIN''], tr_opts = resolveTxOptions (no_options :: nat tx_opts), tr_given = None\<rparr>"

lemma steady_fields:
  "tr_pool steady_run = steady_pool" "tr_control steady_run = steady_ctl" "tr_body steady_run = contended_body"
  "tr_isConn steady_run = isConnectionError" "tr_begins steady_run = [''BEGIN'']" "tr_given steady_run = None"
  "\<not> rollbackOnly (tr_opts steady_run)" "useWriterAfterTransaction (tr_opts steady_run)"
  by (simp_all add: steady_run_def resolveTxOptions_def no_options_def or_default_def)

lemma steady_round:
  "tx_round steady_run s
   = (if s < 2 then (Failed deadlock False, [Acquired s, Control s ''BEGIN'' None, BodyRan s (Some deadlock),
        Control s ''ROLLBACK'' None, Released s True None], Suc s)
      else (Finished s, [Acquired s, Control s ''BEGIN'' None, BodyRan s None, Control s ''COMMIT'' None,
        Released s False None, Marked], s))"
proof -
  have "tx_attempt steady_run c s
   = (if s < 2
      then (Inl (deadlock, False, False),
        [Control c ''BEGIN'' None, BodyRan c (Some deadlock), Control c ''ROLLBACK'' None], Suc s)
      else (Inr s, [Control c ''BEGIN'' None, BodyRan c None, Control c ''COMMIT'' None], s))" for c
    by (simp add: tx_attempt_def control_def error_of_def body_settled_def contended_body_def settle_outcome_def
        rolled_back_def steady_ctl_def steady_fields)
  then show ?thesis
    by (simp add: tx_round_def checkout_def checkin_def steady_fields steady_pool_def at_poisoned_def at_ok_def error_of_def)
qed

lemma deadlock_retries: "isRetryableTxError deadlock isConnectionError \<and> is_error_object deadlock"
  by (simp add: isRetryableTxError_def deadlock_def pg_state_def is_error_object_def)

theorem transient_failures_are_survived_witness:
  "\<exists>ev a' s'. withTransactionAsync None (single_pool_routing steady_pool 0) steady_ctl isConnectionError contended_body
      no_options Postgres None quiet 0 = (Inr 2, ev, a', s') \<and> length (sleeps ev) = 2"
proof (rule transient_failures_are_survived)
  show "beginStatements Postgres (opt_isolation no_options) = Inr [''BEGIN'']"
    by (simp add: beginStatements_def no_options_def)
  show "connectionPoolFor (single_pool_routing steady_pool 0) None = Inr steady_pool"
    by (simp add: connectionPoolFor_def single_pool_routing_def pairFor_def singleDefault_def singlePoolPair_def
        effectiveConnection_def)
  have "recovers steady_run 2 0 2"
    by (simp add: numeral_2_eq_2 steady_round retries_def deadlock_retries isUnretriedConnectionError_def steady_fields)
      blast
  then show "recovers \<lparr>tr_pool = steady_pool, tr_control = steady_ctl, tr_body = contended_body, tr_isConn = isConnectionError,
      tr_begins = [''BEGIN''], tr_opts = resolveTxOptions (no_options :: nat tx_opts), tr_given = opt_connection (no_options :: nat tx_opts)\<rparr> 2 0 2"
    by (simp add: steady_run_def no_options_def)
qed (simp_all add: resolveTxOptions_def no_options_def or_default_def)

section \<open>Connections are not leaked\<close>

context lease_pool
begin

lemma control_keeps: "control run c q s = (r, ev, s') \<Longrightarrow> leased s' = leased s"
  using run_keeps [of c q s] by (auto simp: control_def split: prod.splits)

lemma controls_keeps: "controls run c qs s = (r, ev, s') \<Longrightarrow> leased s' = leased s"
proof (induction qs arbitrary: s r ev s')
  case (Cons q qs)
  obtain r1 ev1 s1 where q: "control run c q s = (r1, ev1, s1)" by (cases "control run c q s")
  obtain r2 ev2 s2 where qs: "controls run c qs s1 = (r2, ev2, s2)" by (cases "controls run c qs s1")
  show ?case using Cons.prems q qs control_keeps [OF q] Cons.IH [OF qs] by (cases r1) auto
qed simp

lemma rolled_back_keeps: "tr_control t = run \<Longrightarrow> rolled_back t c e cm ev s = (res, ev', s') \<Longrightarrow> leased s' = leased s"
  using control_keeps [of c "''ROLLBACK''" s] by (cases "control run c ''ROLLBACK'' s") (auto simp: rolled_back_def)

lemma body_keeps:
  "(\<And>c s. leased (snd (snd (tr_body t c s))) = leased s) \<Longrightarrow> body_settled t c s = (r, ev, s') \<Longrightarrow> leased s' = leased s"
  by (auto simp: body_settled_def Let_def split: prod.splits) (metis snd_conv)+

lemma attempt_keeps:
  assumes run: "tr_control t = run" and body: "\<And>c s. leased (snd (snd (tr_body t c s))) = leased s"
    and att: "tx_attempt t c s = (res, ev, s')"
  shows "leased s' = leased s"
proof -
  obtain r1 ev1 s1 where b: "controls run c (tr_begins t) s = (r1, ev1, s1)" by (cases "controls run c (tr_begins t) s")
  obtain r2 ev2 s2 where bd: "body_settled t c s1 = (r2, ev2, s2)" by (cases "body_settled t c s1")
  obtain r3 ev3 s3 where f: "control run c (if rollbackOnly (tr_opts t) then ''ROLLBACK'' else ''COMMIT'') s2 = (r3, ev3, s3)"
    by (cases "control run c (if rollbackOnly (tr_opts t) then ''ROLLBACK'' else ''COMMIT'') s2")
  have k: "leased s1 = leased s" "leased s2 = leased s" "leased s3 = leased s"
    using controls_keeps [OF b] body_keeps [OF body bd] control_keeps [OF f] by simp_all
  show ?thesis
    using att b bd f run k
    by (cases r1; cases r2; cases r3) (auto simp: tx_attempt_def dest!: rolled_back_keeps [OF run])
qed

lemma round_keeps:
  assumes run: "tr_control t = run" and body: "\<And>c s. leased (snd (snd (tr_body t c s))) = leased s"
    and p: "tr_pool t = p" and rd: "tx_round t s = (rr, ev, s')"
  shows "leased s' = leased s"
proof -
  obtain r0 ev0 s0 where co: "checkout t s = (r0, ev0, s0)" by (cases "checkout t s")
  show ?thesis
  proof (cases r0)
    case (Inl e)
    then show ?thesis using rd co p acquire_fails
      by (auto simp: tx_round_def checkout_def split: option.splits prod.splits sum.splits)
  next
    case (Inr c)
    obtain res ev1 s1 where att: "tx_attempt t c s0 = (res, ev1, s1)" by (cases "tx_attempt t c s0")
    note s1 = attempt_keeps [OF run body att]
    obtain r2 ev2 s2 where ci: "checkin t c (at_poisoned res \<or> \<not> at_ok res) s1 = (r2, ev2, s2)"
      by (cases "checkin t c (at_poisoned res \<or> \<not> at_ok res) s1")
    have "s' = s2"
      using rd co Inr by (auto simp: tx_round_def att ci split: sum.splits)
    moreover have "leased s2 = leased s"
    proof (cases "tr_given t")
      case None
      then have acq: "acquire p s = (Inr c, s0)" using co Inr p by (auto simp: checkout_def split: prod.splits sum.splits)
      obtain u where "release p c (at_poisoned res \<or> \<not> at_ok res) s1 = (u, s2)"
        using ci None p by (auto simp: checkin_def split: prod.splits)
      then show ?thesis using release_returns' acquire_leases [OF acq] s1 by force
    next
      case (Some c')
      then show ?thesis using co ci s1 by (simp add: checkout_def checkin_def)
    qed
    ultimately show ?thesis by simp
  qed
qed

lemma loop_keeps:
  assumes run: "tr_control t = run" and body: "\<And>c s. leased (snd (snd (tr_body t c s))) = leased s"
    and p: "tr_pool t = p" and loop: "tx_loop t n s = (r, ev, s')"
  shows "leased s' = leased s"
  using loop
proof (induction rule: loop_induct)
  case (stops n s r ev s' rr)
  then show ?case using round_keeps [OF run body p stops(1)] by simp
next
  case (retried n s r s' e cm ev1 s1 ev2)
  then show ?case using round_keeps [OF run body p retried(1)] by simp
qed

end

text \<open>
  C8. Transactions over the PostgreSQL pool leak no client: whatever the driver answers, when the call
  returns exactly the connections are checked out that were before it.
\<close>

theorem transactions_leak_no_client:
  assumes body: "\<And>c s. pg_leased (snd (snd (body c s))) = pg_leased s"
    and pools: "\<forall>(n, pair) \<in> set (rc_registry rc). \<exists>cfg. writer pair = configuredPool pg_run pgConnectionPool cfg"
  shows "pg_leased (snd (snd (snd (withTransactionAsync pin rc pg_run isConn body opts d connection a s)))) = pg_leased s"
proof (cases pin)
  case (Some p)
  obtain out pending s' where b: "body (opened p) s = (out, pending, s')" by (cases "body (opened p) s")
  have "snd (snd (snd (withTransactionAsync pin rc pg_run isConn body opts d connection a s))) \<in> {s, s'}"
    by (cases "assertNestedConnection (opt_connection opts) (Some (opened p))") (simp_all add: withTransactionAsync_def Some b)
  moreover have "pg_leased s' = pg_leased s" using body [of "opened p" s] by (simp add: b)
  ultimately show ?thesis by (elim insertE emptyE) simp_all
next
  case None
  obtain r ev a' s' where w: "withTransactionAsync pin rc pg_run isConn body opts d connection a s = (r, ev, a', s')"
    by (cases "withTransactionAsync pin rc pg_run isConn body opts d connection a s") auto
  then have "pg_leased s' = pg_leased s"
  proof (cases rule: withTransaction_cases)
    case (ran begins pool r0)
    from ran(3) obtain pair where "map_of (rc_registry rc) (effectiveConnection connection) = Some pair" "pool = writer pair"
      by (auto simp: connectionPoolFor_def pairFor_def split: option.splits)
    then obtain cfg where "pool = configuredPool pg_run pgConnectionPool cfg"
      using pools by (auto dest!: map_of_SomeD)
    then show ?thesis
      by (intro lease_pool.loop_keeps [OF pg_configured _ _ _ ran(5)]) (simp_all add: body)
  qed (use None in auto)
  then show ?thesis using w by simp
qed

definition insert_body :: "nat \<Rightarrow> pg_driver \<Rightarrow> nat outcome \<times> bool \<times> pg_driver" where
  "insert_body c s = (case pg_run c ''INSERT INTO t DEFAULT VALUES'' s of (r, s') \<Rightarrow> (map_sum id (\<lambda>_. 7) r, False, s'))"

theorem transactions_leak_no_client_witness:
  "pg_leased (snd (snd (snd (withTransactionAsync None
      (single_pool_routing (configuredPool pg_run pgConnectionPool search_path_config) 0) pg_run isConnectionError insert_body
      no_options Postgres None quiet failing_driver)))) = {}"
proof -
  have "pg_leased (snd (snd (insert_body c s))) = pg_leased s" for c s
    using pg_pool.run_keeps [of c "''INSERT INTO t DEFAULT VALUES''" s]
    by (cases "pg_run c ''INSERT INTO t DEFAULT VALUES'' s") (simp add: insert_body_def)
  moreover have "\<forall>(n, pair) \<in> set (rc_registry (single_pool_routing (configuredPool pg_run pgConnectionPool search_path_config) 0)).
      \<exists>cfg. writer pair = configuredPool pg_run pgConnectionPool cfg"
    by (auto simp: single_pool_routing_def singleDefault_def singlePoolPair_def)
  moreover have "pg_leased failing_driver = {}" by (simp add: pg_leased_def failing_driver_def)
  ultimately show ?thesis
    using transactions_leak_no_client [of insert_body "single_pool_routing (configuredPool pg_run pgConnectionPool search_path_config) 0"
        None isConnectionError no_options Postgres None quiet failing_driver] by simp
qed

section \<open>Nested calls\<close>

text \<open>A nested call runs its body on the enclosing transaction and nothing else, or is refused before it.\<close>

lemma nested_joins:
  "withTransactionAsync (Some p) rc ctl isConn body opts d connection a s
   = (if opt_connection opts \<noteq> None \<and> opt_connection opts \<noteq> Some (opened p)
      then (Inl (Thrown (plain_error ''transaction(): the connection option is a different connection from the enclosing transaction's'')), [], a, s)
      else (case body (opened p) s of (out, _, s') \<Rightarrow> (map_sum Thrown id out, [], a, s')))"
  by (simp add: withTransactionAsync_def assertNestedConnection_def)

end
