(* ===== verification/TxPlan.thy ===== *)
theory TxPlan
  imports MysqlReturning TxProperties Leaves
begin

text \<open>
  The transaction plans of \<open>src/scp/makesql/tx.ts\<close>: the lowering of a batch write into a plan, the
  evaluation and execution of its statements, and the write entry \<open>executeTransactionAsync\<close>, which runs a
  plan inside \<open>withTransactionAsync\<close>; with \<open>mapSqliteError\<close> of \<open>src/scp/errors.ts\<close>.  The evaluator of
  expressions belongs to the behaviour-contract runtime, a dependency: it is an argument.
\<close>

section \<open>Literals\<close>

text \<open>
  \<open>literalize\<close>.  A date is an object without fields of its own.  Wrappers and condition trees are compiled
  away before this point; they stand for themselves.
\<close>

fun literalize :: "jsval \<Rightarrow> jsval" where
  "literalize JUndef = JNull"
| "literalize JNull = JNull"
| "literalize (JArr vs) = JObj [(''arr'', JArr (map literalize vs))]"
| "literalize (JBig i) = JObj [(''int'', JStr (show_int i))]"
| "literalize (JObj ob) = JObj [(''obj'', JObj (map (\<lambda>(k, v). (k, literalize v)) ob))]"
| "literalize (JDate _ _) = JObj [(''obj'', JObj [])]"
| "literalize v = v"

section \<open>Plans\<close>

datatype statement_role = BodyRole | DeriveRole | EdgeRole | EmitRole

datatype write_phase = CreatePhase | UpdatePhase | RemovePhase

record tx_statement =
  st_id :: string
  st_role :: statement_role
  st_op :: tx_op
  st_binds :: "string option"
  st_label :: string

record tx_plan =
  plan_phase :: write_phase
  entityFrom :: "string option"
  statements :: "tx_statement list"

definition ENTITY_ROOT :: string where
  "ENTITY_ROOT = ''__entity''"

definition isBatchPlan :: "tx_plan \<Rightarrow> bool" where
  "isBatchPlan plan \<longleftrightarrow> entityFrom plan = None \<and> list_all (\<lambda>s. st_binds s = None \<and> st_role s = BodyRole) (statements plan)"

text \<open>The operations of a batch: text, values, label.\<close>

record batch_op =
  b_sql :: string
  b_params :: "jsval list"
  b_label :: "string option"

definition statement_id :: "nat \<Rightarrow> string" where
  "statement_id i = ''tx_body_'' @ show_nat i"

definition batch_statement :: "nat \<Rightarrow> batch_op \<Rightarrow> tx_statement" where
  "batch_statement i op = \<lparr>st_id = statement_id i, st_role = BodyRole,
     st_op = \<lparr>op_sql = b_sql op, op_params = map literalize (b_params op), op_pk = None, op_meta = None\<rparr>,
     st_binds = None, st_label = (case b_label op of Some l \<Rightarrow> l | None \<Rightarrow> ''batch['' @ show_nat i @ '']'')\<rparr>"

definition deriveBatchPlan :: "write_phase \<Rightarrow> batch_op list \<Rightarrow> scp_error + tx_plan" where
  "deriveBatchPlan phase ops =
     (if ops = [] then Inl (InvalidWrite ''batch without statements'')
      else Inr \<lparr>plan_phase = phase, entityFrom = None, statements = map_index batch_statement ops\<rparr>)"

section \<open>One statement\<close>

type_synonym evaluator = "jsval \<Rightarrow> jsobj \<Rightarrow> scp_error + jsval"

text \<open>\<open>Number.MAX_SAFE_INTEGER\<close>; a plain object is neither an array nor a date.\<close>

definition MAX_SAFE :: int where
  "MAX_SAFE = 2 ^ 53 - 1"

definition toDriverParam :: "dialect \<Rightarrow> jsval \<Rightarrow> jsval" where
  "toDriverParam d v = (case v of
      JBig i \<Rightarrow> if - MAX_SAFE \<le> i \<and> i \<le> MAX_SAFE then JInt i else JBig i
    | JObj ob \<Rightarrow> JStr (encodeJsonParam d (JObj ob))
    | JDate it disp \<Rightarrow> JStr (encodeJsonParam d (JDate it disp))
    | _ \<Rightarrow> v)"

definition evalAssemble :: "evaluator \<Rightarrow> tx_op \<Rightarrow> jsobj \<Rightarrow> dialect \<Rightarrow> scp_error + string \<times> jsval list" where
  "evalAssemble eval op sc d =
     bind_r (map_r (\<lambda>p. eval p sc) (op_params op)) (\<lambda>concrete.
     bind_r (assemble (mk (op_sql op) concrete)) (\<lambda>(s, ps). Inr (s, map (toDriverParam d) ps)))"

definition renderTxStatement :: "evaluator \<Rightarrow> tx_op \<Rightarrow> jsobj \<Rightarrow> dialect \<Rightarrow> scp_error + string \<times> jsval list" where
  "renderTxStatement eval op sc d = bind_r (evalAssemble eval op sc d) (\<lambda>(s, ps). Inr (renderPlaceholders s d, ps))"

definition hasReturn :: "string \<Rightarrow> bool" where
  "hasReturn s \<longleftrightarrow> contains_keyword [''select''] (take 8 s) \<or> contains_keyword [''returning''] s"

definition changes_of :: "jsobj list \<Rightarrow> int" where
  "changes_of out = (case out of [] \<Rightarrow> 0 | r # _ \<Rightarrow> (case js_get r ''changes'' of JBig i \<Rightarrow> i | JInt i \<Rightarrow> i | _ \<Rightarrow> 0))"

record statement_result =
  res_rows :: "jsobj list"
  res_changes :: int

definition statement_ports :: "string \<Rightarrow> jsval list \<Rightarrow> exec_ports" where
  "statement_ports s ps = \<lparr>port_sql = s, port_params = ps, port_db = None, port_write = Some (hasReturn s), port_where = None, port_guard = None\<rparr>"

definition execStatement ::
  "evaluator \<Rightarrow> 's seams \<Rightarrow> dialect \<Rightarrow> tx_op \<Rightarrow> jsobj \<Rightarrow> 's \<Rightarrow> (scp_error + statement_result) \<times> 's" where
  "execStatement eval sm d op sc st = (case evalAssemble eval op sc d of
      Inl e \<Rightarrow> (Inl e, st)
    | Inr (s, ps) \<Rightarrow> (case executeSQL sm d (statement_ports s ps) st of
        (Inl e, st') \<Rightarrow> (Inl e, st')
      | (Inr out, st') \<Rightarrow>
          (Inr (if hasReturn s then \<lparr>res_rows = out, res_changes = int (length out)\<rparr>
                else \<lparr>res_rows = [], res_changes = changes_of out\<rparr>), st')))"

section \<open>The body of a plan\<close>

record plan_state =
  executed :: "string list"
  plan_scope :: jsobj
  entity :: "jsobj option"
  returned :: "jsobj list list"

definition first_row :: "jsobj list \<Rightarrow> jsobj option" where
  "first_row rows = (case rows of [] \<Rightarrow> None | r # _ \<Rightarrow> Some r)"

definition scope_row :: "string \<Rightarrow> jsobj option \<Rightarrow> jsobj \<Rightarrow> jsobj" where
  "scope_row name r sc = (case r of None \<Rightarrow> sc | Some ob \<Rightarrow> obj_set sc name (JObj ob))"

definition after_statement :: "bool \<Rightarrow> string option \<Rightarrow> tx_statement \<Rightarrow> jsobj list \<Rightarrow> plan_state \<Rightarrow> plan_state" where
  "after_statement batch from_id stmt rows p =
     (let r = first_row rows;
          isEntity = (Some (st_id stmt) = from_id);
          sc1 = (if isEntity then scope_row ENTITY_ROOT r (plan_scope p) else plan_scope p);
          sc2 = (case st_binds stmt of None \<Rightarrow> sc1 | Some b \<Rightarrow> scope_row b r sc1)
      in \<lparr>executed = executed p @ [st_id stmt], plan_scope = sc2, entity = (if isEntity then r else entity p),
          returned = (if batch \<and> st_role stmt = BodyRole \<and> rows \<noteq> [] then returned p @ [rows] else returned p)\<rparr>)"

fun run_statements ::
  "evaluator \<Rightarrow> 's seams \<Rightarrow> dialect \<Rightarrow> bool \<Rightarrow> string option \<Rightarrow> tx_statement list \<Rightarrow> plan_state \<Rightarrow> 's \<Rightarrow> (scp_error + plan_state) \<times> 's" where
  "run_statements eval sm d batch from_id [] p st = (Inr p, st)"
| "run_statements eval sm d batch from_id (stmt # stmts) p st =
     (case execStatement eval sm d (st_op stmt) (plan_scope p) st of
        (Inl e, st') \<Rightarrow> (Inl e, st')
      | (Inr res, st') \<Rightarrow> run_statements eval sm d batch from_id stmts (after_statement batch from_id stmt (res_rows res) p) st')"

record tx_result =
  committed :: bool
  result_entity :: "jsobj option"
  result_executed :: "string list"
  returnedRows :: "jsobj list list option"

definition plan_body ::
  "evaluator \<Rightarrow> 's seams \<Rightarrow> dialect \<Rightarrow> tx_plan \<Rightarrow> jsobj \<Rightarrow> 's \<Rightarrow> (scp_error + tx_result) \<times> 's" where
  "plan_body eval sm d plan input st =
     (case run_statements eval sm d (isBatchPlan plan) (entityFrom plan) (statements plan)
        \<lparr>executed = [], plan_scope = input, entity = None, returned = []\<rparr> st of
        (Inl e, st') \<Rightarrow> (Inl e, st')
      | (Inr p, st') \<Rightarrow> (Inr \<lparr>committed = True, result_entity = entity p, result_executed = executed p,
           returnedRows = (if returned p \<noteq> [] then Some (returned p) else None)\<rparr>, st'))"

section \<open>The driver errors of a plan\<close>

datatype failure_kind = ConstraintViolation | ForeignKeyViolation | Retryable | DriverError

datatype policy_kind = FailPolicy | RetryPolicy

record sql_failure =
  failure_kind :: failure_kind
  policy :: policy_kind
  sqliteCode :: "string option"
  failure_message :: string

definition sqlite_error :: "js_error \<Rightarrow> (string \<times> string) option" where
  "sqlite_error e = (case e of
      JsError _ msg (CodeText c) _ _ _ \<Rightarrow> if starts_with ''SQLITE_'' c then Some (c, msg) else None
    | _ \<Rightarrow> None)"

definition thrown_text :: "js_error \<Rightarrow> string" where
  "thrown_text e = (case e of JsError _ msg _ _ _ _ \<Rightarrow> msg | NotAnError s \<Rightarrow> s)"

definition mapSqliteError :: "js_error \<Rightarrow> sql_failure" where
  "mapSqliteError e = (case sqlite_error e of
      None \<Rightarrow> \<lparr>failure_kind = DriverError, policy = FailPolicy, sqliteCode = None,
         failure_message = ''non-SQLite driver error: '' @ thrown_text e\<rparr>
    | Some (c, msg) \<Rightarrow>
        (let failure = (\<lambda>k p. \<lparr>failure_kind = k, policy = p, sqliteCode = Some c, failure_message = CHR ''['' # c @ ''] '' @ msg\<rparr>) in
         if c = ''SQLITE_CONSTRAINT_FOREIGNKEY'' then failure ForeignKeyViolation FailPolicy
         else if starts_with ''SQLITE_CONSTRAINT'' c then failure ConstraintViolation FailPolicy
         else if c = ''SQLITE_BUSY'' \<or> c = ''SQLITE_LOCKED'' then failure Retryable RetryPolicy
         else failure DriverError FailPolicy))"

text \<open>A failure is itself an \<open>Error\<close> object, with the message and none of the driver's fields.\<close>

definition failure_error :: "sql_failure \<Rightarrow> js_error" where
  "failure_error f = JsError ''SqlFailure'' (failure_message f) NoCode None None None"

section \<open>The write entry\<close>

text \<open>
  The seams of the transaction context are those of its connection.  \<open>thrown\<close> is the \<open>Error\<close> object an
  error value of the leaves stands for.
\<close>

datatype write_failure = WriteRefused write_guard_error | WriteFailed sql_failure

definition plan_on ::
  "evaluator \<Rightarrow> ('c \<Rightarrow> 's seams) \<Rightarrow> (scp_error \<Rightarrow> js_error) \<Rightarrow> dialect \<Rightarrow> tx_plan \<Rightarrow> jsobj \<Rightarrow> 'c \<Rightarrow> 's \<Rightarrow> tx_result outcome \<times> bool \<times> 's" where
  "plan_on eval sm thrown d plan input c st =
     (case plan_body eval (sm c) d plan input st of (r, st') \<Rightarrow> (map_sum thrown id r, False, st'))"

definition failed_with :: "(scp_error \<Rightarrow> js_error) \<Rightarrow> tx_failure \<Rightarrow> write_failure" where
  "failed_with thrown f = WriteFailed (mapSqliteError (case f of Refused e \<Rightarrow> thrown e | Thrown e \<Rightarrow> e))"

definition runTransactionPlanAsync ::
  "evaluator \<Rightarrow> ('c \<Rightarrow> 's seams) \<Rightarrow> (scp_error \<Rightarrow> js_error) \<Rightarrow> 'c pinned_tx option \<Rightarrow> ('c, 's) pool routing_config
     \<Rightarrow> ('c \<Rightarrow> string \<Rightarrow> ('s, unit) io) \<Rightarrow> tx_plan \<Rightarrow> jsobj \<Rightarrow> dialect \<Rightarrow> 'c tx_opts \<Rightarrow> ambient \<Rightarrow> 's
     \<Rightarrow> (write_failure + tx_result) \<times> 'c tx_event list \<times> ambient \<times> 's" where
  "runTransactionPlanAsync eval sm thrown pin rc ctl plan input d opts a st =
     (case withTransactionAsync pin rc ctl isConnectionError (plan_on eval sm thrown d plan input) opts
         (if d = Sqlite then Postgres else d) None a st of
        (r, ev, a', st') \<Rightarrow> (map_sum (failed_with thrown) id r, ev, a', st'))"

definition first_id :: "tx_plan \<Rightarrow> string option" where
  "first_id plan = (case statements plan of [] \<Rightarrow> None | s # _ \<Rightarrow> Some (st_id s))"

definition executeTransactionAsync ::
  "evaluator \<Rightarrow> ('c \<Rightarrow> 's seams) \<Rightarrow> (scp_error \<Rightarrow> js_error) \<Rightarrow> 'c pinned_tx option \<Rightarrow> ('c, 's) pool routing_config
     \<Rightarrow> ('c \<Rightarrow> string \<Rightarrow> ('s, unit) io) \<Rightarrow> tx_plan \<Rightarrow> jsobj \<Rightarrow> dialect \<Rightarrow> 'c tx_opts \<Rightarrow> bool option \<Rightarrow> ambient \<Rightarrow> 's
     \<Rightarrow> (write_failure + tx_result) \<times> 'c tx_event list \<times> ambient \<times> 's" where
  "executeTransactionAsync eval sm thrown pin rc ctl plan input d opts guard a st =
     (if guard \<noteq> Some False
      then (case checkWriteAllowed (scope a) ''WRITE'' (first_id plan) of
          Inl e \<Rightarrow> (Inl (WriteRefused e), [], a, st)
        | Inr _ \<Rightarrow> runTransactionPlanAsync eval sm thrown pin rc ctl plan input d opts a st)
      else runTransactionPlanAsync eval sm thrown pin rc ctl plan input d opts a st)"

section \<open>Literals survive evaluation\<close>

text \<open>What evaluating a literal yields: an integer becomes a \<open>bigint\<close>, an absent value null.\<close>

fun normal :: "jsval \<Rightarrow> jsval" where
  "normal JUndef = JNull"
| "normal (JInt i) = JBig i"
| "normal (JArr vs) = JArr (map normal vs)"
| "normal (JObj ob) = JObj (map (\<lambda>(k, v). (k, normal v)) ob)"
| "normal v = v"

text \<open>The values a literal carries exactly.\<close>

fun literal_ok :: "jsval \<Rightarrow> bool" where
  "literal_ok (JInt i) \<longleftrightarrow> - MAX_SAFE \<le> i \<and> i \<le> MAX_SAFE"
| "literal_ok (JArr vs) \<longleftrightarrow> list_all literal_ok vs"
| "literal_ok (JObj ob) \<longleftrightarrow> list_all (\<lambda>(k, v). literal_ok v) ob"
| "literal_ok (JDate _ _) \<longleftrightarrow> False"
| "literal_ok (JNonFin _) \<longleftrightarrow> False"
| "literal_ok (JTok _) \<longleftrightarrow> False"
| "literal_ok (JCond _) \<longleftrightarrow> False"
| "literal_ok _ \<longleftrightarrow> True"

text \<open>
  The documented behaviour of the evaluator on literals: scalars are themselves, integers become
  \<open>bigint\<close>s, the carriers evaluate what they hold, left to right.
\<close>

definition evaluates_literals :: "evaluator \<Rightarrow> bool" where
  "evaluates_literals eval \<longleftrightarrow> (\<forall>sc.
     eval JNull sc = Inr JNull \<and> (\<forall>b. eval (JBool b) sc = Inr (JBool b)) \<and> (\<forall>s. eval (JStr s) sc = Inr (JStr s))
     \<and> (\<forall>t. eval (JFrac t) sc = Inr (JFrac t)) \<and> (\<forall>i. - MAX_SAFE \<le> i \<and> i \<le> MAX_SAFE \<longrightarrow> eval (JInt i) sc = Inr (JBig i))
     \<and> (\<forall>i. eval (JObj [(''int'', JStr (show_int i))]) sc = Inr (JBig i))
     \<and> (\<forall>es. eval (JObj [(''arr'', JArr es)]) sc = bind_r (map_r (\<lambda>e. eval e sc) es) (\<lambda>vs. Inr (JArr vs)))
     \<and> (\<forall>fs. eval (JObj [(''obj'', JObj fs)]) sc
          = bind_r (map_r (\<lambda>(k, e). bind_r (eval e sc) (\<lambda>v. Inr (k, v))) fs) (\<lambda>kvs. Inr (JObj kvs))))"

lemma map_r_map: "map_r f (map g xs) = map_r (\<lambda>x. f (g x)) xs"
  by (induction xs) simp_all

lemma literal_evaluates:
  assumes "evaluates_literals eval"
  shows "literal_ok v \<Longrightarrow> eval (literalize v) sc = Inr (normal v)"
proof (induction v rule: literalize.induct)
  case (3 vs)
  then have "map_r (\<lambda>v. eval (literalize v) sc) vs = Inr (map normal vs)"
    by (intro map_r_Inr) (auto simp: list_all_iff)
  then show ?case using assms by (simp add: evaluates_literals_def map_r_map)
next
  case (5 ob)
  have "map_r (\<lambda>kv. bind_r (eval (literalize (snd kv)) sc) (\<lambda>v. Inr (fst kv, v))) ob = Inr (map (\<lambda>kv. (fst kv, normal (snd kv))) ob)"
    using 5 by (intro map_r_Inr) (auto simp: list_all_iff)
  then show ?case using assms by (simp add: evaluates_literals_def map_r_map case_prod_beta)
qed (use assms in \<open>auto simp: evaluates_literals_def\<close>)

section \<open>Batch plans\<close>

lemma derived_is_batch: "deriveBatchPlan phase ops = Inr plan \<Longrightarrow> isBatchPlan plan"
  by (auto simp: deriveBatchPlan_def isBatchPlan_def map_index_def list_all_iff batch_statement_def split: if_splits)

text \<open>The reference: each operation sent as compiled, in order, up to the first failure.\<close>

definition sent_params :: "dialect \<Rightarrow> batch_op \<Rightarrow> jsval list" where
  "sent_params d op = map (\<lambda>v. toDriverParam d (normal v)) (b_params op)"

fun send_all :: "'s seams \<Rightarrow> dialect \<Rightarrow> batch_op list \<Rightarrow> 's \<Rightarrow> (scp_error + jsobj list list) \<times> 's" where
  "send_all sm d [] st = (Inr [], st)"
| "send_all sm d (op # ops) st = (case executeSQL sm d (statement_ports (b_sql op) (sent_params d op)) st of
      (Inl e, st') \<Rightarrow> (Inl e, st')
    | (Inr out, st') \<Rightarrow> (case send_all sm d ops st' of
        (Inl e, st'') \<Rightarrow> (Inl e, st'')
      | (Inr outs, st'') \<Rightarrow> (Inr ((if hasReturn (b_sql op) then out else []) # outs), st'')))"

definition literal_op :: "batch_op \<Rightarrow> bool" where
  "literal_op op \<longleftrightarrow> list_all (\<lambda>v. literal_ok v \<and> isMakeSQL (normal v) = None) (b_params op) \<and> qcount (b_sql op) = length (b_params op)"

lemma batch_eval:
  assumes "evaluates_literals eval" and "literal_op op"
  shows "evalAssemble eval (st_op (batch_statement i op)) sc d = Inr (b_sql op, sent_params d op)"
proof -
  have "map_r (\<lambda>p. eval p sc) (map literalize (b_params op)) = Inr (map normal (b_params op))"
    using assms unfolding map_r_map by (intro map_r_Inr) (auto simp: literal_op_def list_all_iff literal_evaluates)
  moreover have "assemble (mk (b_sql op) (map normal (b_params op))) = Inr (b_sql op, map normal (b_params op))"
    using assms(2) by (subst assemble_flat) (auto simp: mk_def literal_op_def list_all_iff)
  ultimately show ?thesis by (simp add: evalAssemble_def batch_statement_def sent_params_def comp_def)
qed

lemma run_batch:
  assumes "evaluates_literals eval" and "list_all literal_op ops"
  shows "run_statements eval sm d True None (map (\<lambda>i. batch_statement (n + i) (ops ! i)) [0..<length ops]) p st
    = (case send_all sm d ops st of
        (Inl e, st') \<Rightarrow> (Inl e, st')
      | (Inr outs, st') \<Rightarrow> (Inr \<lparr>executed = executed p @ map statement_id [n..<n + length ops], plan_scope = plan_scope p,
          entity = entity p, returned = returned p @ filter (\<lambda>rows. rows \<noteq> []) outs\<rparr>, st'))"
  using assms(2)
proof (induction ops arbitrary: n p st)
  case (Cons op ops)
  have ops: "map (\<lambda>i. batch_statement (n + i) ((op # ops) ! i)) [0..<length (op # ops)]
      = batch_statement n op # map (\<lambda>i. batch_statement (Suc n + i) (ops ! i)) [0..<length ops]"
    by (simp add: upt_conv_Cons map_Suc_upt [symmetric] comp_def del: upt_Suc)
  have ev: "evalAssemble eval (st_op (batch_statement n op)) sc d = Inr (b_sql op, sent_params d op)" for sc
    using batch_eval [OF assms(1)] Cons.prems by simp
  have ids: "[n..<Suc (n + length ops)] = n # [Suc n..<Suc (n + length ops)]" by (simp add: upt_conv_Cons del: upt_Suc)
  show ?case
  proof (cases "executeSQL sm d (statement_ports (b_sql op) (sent_params d op)) st")
    case (Pair r st1)
    show ?thesis
    proof (cases r)
      case (Inl e)
      then show ?thesis unfolding ops using Pair by (simp add: execStatement_def ev)
    next
      case (Inr out)
      let ?rows = "if hasReturn (b_sql op) then out else []"
      let ?p = "after_statement True None (batch_statement n op) ?rows p"
      have run: "run_statements eval sm d True None (map (\<lambda>i. batch_statement (n + i) ((op # ops) ! i)) [0..<length (op # ops)]) p st
          = run_statements eval sm d True None (map (\<lambda>i. batch_statement (Suc n + i) (ops ! i)) [0..<length ops]) ?p st1"
        unfolding ops using Pair Inr by (simp add: execStatement_def ev)
      have p: "executed ?p = executed p @ [statement_id n]" "plan_scope ?p = plan_scope p" "entity ?p = entity p"
          "returned ?p = returned p @ (if ?rows \<noteq> [] then [?rows] else [])"
        by (simp_all add: after_statement_def batch_statement_def Let_def)
      show ?thesis
        unfolding run using Cons.IH [of "Suc n" ?p st1] Cons.prems Pair Inr
        by (cases "send_all sm d ops st1"; cases "fst (send_all sm d ops st1)") (auto simp: p ids simp del: upt_Suc)
    qed
  qed
qed simp

text \<open>
  C6. A batch write sends exactly what was compiled: run through plan, literal encoding, evaluation and
  assembly, its statements reach the driver in order with their own texts and values, up to the first
  failure, and the result reports every statement and every non-empty set of returned rows.
\<close>

theorem batch_write_sends_what_was_compiled:
  assumes "evaluates_literals eval" and "list_all literal_op ops" and "deriveBatchPlan phase ops = Inr plan"
  shows "plan_body eval sm d plan input st = (case send_all sm d ops st of
      (Inl e, st') \<Rightarrow> (Inl e, st')
    | (Inr outs, st') \<Rightarrow> (let rs = filter (\<lambda>rows. rows \<noteq> []) outs in
        (Inr \<lparr>committed = True, result_entity = None, result_executed = map statement_id [0..<length ops],
           returnedRows = (if rs = [] then None else Some rs)\<rparr>, st')))"
proof -
  have plan: "statements plan = map (\<lambda>i. batch_statement (0 + i) (ops ! i)) [0..<length ops]" "entityFrom plan = None"
    using assms(3) by (auto simp: deriveBatchPlan_def map_index_def split: if_splits)
  have "isBatchPlan plan = True" using derived_is_batch [OF assms(3)] by simp
  then show ?thesis
    unfolding plan_body_def plan
    by (simp only: run_batch [OF assms(1,2)]) (auto simp: Let_def split: prod.splits sum.splits)
qed

section \<open>The value a transaction returns\<close>

lemma loop_value: "tx_loop t n s = (r, ev, s') \<Longrightarrow> r = Inr v \<Longrightarrow> \<exists>c s1 s2. tr_body t c s1 = (Inr v, False, s2)"
proof (induction rule: loop_induct)
  case (stops n s r ev s' rr)
  then have "rr = Finished v" by (cases rr) auto
  then obtain c s0 s1 s2 ev1 where "tx_attempt t c s0 = (Inr v, ev1, s2)"
    using stops(1) by (auto simp: tx_round_def split: prod.splits sum.splits)
  then obtain s3 ev3 s4 where "body_settled t c s3 = (Inr v, ev3, s4)"
    by (auto simp: tx_attempt_def rolled_back_def split: prod.splits sum.splits)
  then show ?case
    by (auto simp: body_settled_def Let_def settle_outcome_def split: prod.splits if_splits)
qed

lemma map_sum_Inr: "map_sum f id r = Inr v \<longleftrightarrow> r = Inr v"
  by (cases r) auto

lemma transaction_value:
  assumes "withTransactionAsync pin rc ctl isConn body opts d connection a s = (Inr v, ev, a', s')"
  shows "\<exists>c s1 b s2. body c s1 = (Inr v, b, s2)"
  using assms
proof (cases rule: withTransaction_cases)
  case (joined p)
  then show ?thesis
    using assms by (auto simp: withTransactionAsync_def map_sum_Inr split: sum.splits prod.splits)
next
  case (ran begins pool r0)
  then have "r0 = Inr v" using map_sum_Inr [of Thrown r0 v] by simp
  from loop_value [OF ran(5) this] show ?thesis by auto
qed simp

lemma run_statements_ids:
  "run_statements eval sm d batch from_id stmts p st = (Inr q, st') \<Longrightarrow> executed q = executed p @ map st_id stmts"
proof (induction stmts arbitrary: p st)
  case (Cons stmt stmts)
  obtain r st1 where x: "execStatement eval sm d (st_op stmt) (plan_scope p) st = (r, st1)"
    by (cases "execStatement eval sm d (st_op stmt) (plan_scope p) st")
  with Cons.prems obtain res where "r = Inr res" by (cases r) auto
  then have "run_statements eval sm d batch from_id stmts (after_statement batch from_id stmt (res_rows res) p) st1 = (Inr q, st')"
    using Cons.prems x by simp
  from Cons.IH [OF this] show ?case by (simp add: after_statement_def Let_def)
qed simp

lemma plan_result: "plan_body eval sm d plan input st = (Inr r, st') \<Longrightarrow> committed r \<and> result_executed r = map st_id (statements plan)"
  by (auto simp: plan_body_def dest!: run_statements_ids split: prod.splits sum.splits)

lemma run_plan_outcome:
  assumes "runTransactionPlanAsync eval sm thrown pin rc ctl plan input d opts a st = (r, ev, a', st')"
  shows "case r of
      Inr v \<Rightarrow> result_executed v = map st_id (statements plan)
        \<and> commits ev = (if pin = None \<and> \<not> rollbackOnly (resolveTxOptions opts) then 1 else 0)
    | Inl (WriteFailed f) \<Rightarrow> commits ev = 0 \<or> commits ev = 1 \<and> (\<exists>c e. f = mapSqliteError e \<and> Released c False (Some e) \<in> set ev)
    | Inl (WriteRefused _) \<Rightarrow> False"
proof -
  let ?w = "withTransactionAsync pin rc ctl isConnectionError (plan_on eval sm thrown d plan input) opts (if d = Sqlite then Postgres else d) None a st"
  obtain r1 where w: "?w = (r1, ev, a', st')" and r: "r = map_sum (failed_with thrown) id r1"
    using assms by (auto simp: runTransactionPlanAsync_def split: prod.splits)
  have commits: "case r1 of Inr v \<Rightarrow> commits ev = (if pin = None \<and> \<not> rollbackOnly (resolveTxOptions opts) then 1 else 0)
      | Inl e \<Rightarrow> commits ev = 0 \<or> commits ev = 1 \<and> (\<exists>c e'. e = Thrown e' \<and> Released c False (Some e') \<in> set ev)"
    by (rule transaction_commits [OF w])
  show ?thesis
  proof (cases r1)
    case (Inl e)
    then show ?thesis using commits r by (fastforce simp: failed_with_def)
  next
    case (Inr v)
    then obtain c s1 b s2 where "plan_on eval sm thrown d plan input c s1 = (Inr v, b, s2)" using transaction_value [OF w [unfolded Inr]] by blast
    then have "\<exists>s3. plan_body eval (sm c) d plan input s1 = (Inr v, s3)"
      by (auto simp: plan_on_def map_sum_Inr split: prod.splits)
    then show ?thesis using plan_result Inr commits r by fastforce
  qed
qed

definition write_allowed :: "bool option \<Rightarrow> tx_scope \<Rightarrow> bool" where
  "write_allowed guard sc \<longleftrightarrow> guard = Some False \<or> checkWriteAllowed sc [] None = Inr ()"

lemma write_allowed_iff: "write_allowed guard sc \<longleftrightarrow> guard = Some False \<or> inTransaction sc \<and> \<not> readOnly sc"
  by (simp add: write_allowed_def checkWriteAllowed_iff)


section \<open>What a plan reports\<close>

text \<open>A dry run reports \<open>committed\<close> though nothing was.\<close>

lemma dry_run_reports_committed:
  assumes "runTransactionPlanAsync eval sm thrown None rc ctl plan input d opts a st = (Inr v, ev, a', st')"
    and "rollbackOnly (resolveTxOptions opts)"
  shows "committed v \<and> commits ev = 0"
proof -
  have "commits ev = 0" using run_plan_outcome [OF assms(1)] assms(2) by simp
  have w: "withTransactionAsync None rc ctl isConnectionError (plan_on eval sm thrown d plan input) opts
      (if d = Sqlite then Postgres else d) None a st = (Inr v, ev, a', st')"
    using assms(1) by (auto simp: runTransactionPlanAsync_def map_sum_Inr split: prod.splits)
  obtain c s1 b s2 where "plan_on eval sm thrown d plan input c s1 = (Inr v, b, s2)" using transaction_value [OF w] by blast
  then obtain s3 where pb: "plan_body eval (sm c) d plan input s1 = (Inr v, s3)"
    by (auto simp: plan_on_def map_sum_Inr split: prod.splits)
  show ?thesis using plan_result [OF pb] \<open>commits ev = 0\<close> by simp
qed

text \<open>A date in a batch write reaches the driver as the text of an empty object.\<close>

lemma date_is_sent_as_empty_object:
  "evaluates_literals eval \<Longrightarrow> eval (literalize (JDate it shown)) sc = Inr (JObj []) \<and> toDriverParam Postgres (JObj []) = JStr ''{}''"
proof -
  have "toDriverParam Postgres (JObj []) = JStr ''{}''" by code_simp
  then show "evaluates_literals eval \<Longrightarrow> eval (literalize (JDate it shown)) sc = Inr (JObj []) \<and> toDriverParam Postgres (JObj []) = JStr ''{}''"
    by (simp add: evaluates_literals_def)
qed

text \<open>
  A write inside an enclosing transaction hides the driver's code: the mapped error of a broken pipe is not
  retryable for the enclosing transaction, though the error is.
\<close>

definition broken_pipe :: js_error where
  "broken_pipe = JsError ''Error'' ''write EPIPE'' (CodeText ''EPIPE'') None None None"

lemma mapped_error_is_not_retried:
  "isRetryableTxError broken_pipe isConnectionError
   \<and> \<not> isRetryableTxError (failure_error (mapSqliteError broken_pipe)) isConnectionError"
proof -
  have "isRetryableTxError broken_pipe isConnectionError"
    "\<not> isRetryableTxError (failure_error (mapSqliteError broken_pipe)) isConnectionError" by code_simp+
  then show ?thesis by simp
qed

section \<open>A batch, run\<close>

fun literal_eval :: "jsval \<Rightarrow> scp_error + jsval" where
  "literal_eval (JInt i) = Inr (JBig i)"
| "literal_eval (JObj [(k, JStr s)]) = (case parse_int s of
      Some i \<Rightarrow> if k = ''int'' then Inr (JBig i) else Inl (OtherError ''node'')
    | None \<Rightarrow> Inl (OtherError ''node''))"
| "literal_eval (JObj [(k, JArr es)]) = (if k = ''arr'' then bind_r (map_r literal_eval es) (\<lambda>vs. Inr (JArr vs)) else Inl (OtherError ''node''))"
| "literal_eval (JObj [(k, JObj fs)]) =
     (if k = ''obj'' then bind_r (map_r (\<lambda>(k, e). bind_r (literal_eval e) (\<lambda>v. Inr (k, v))) fs) (\<lambda>kvs. Inr (JObj kvs)) else Inl (OtherError ''node''))"
| "literal_eval v = Inr v"

lemma literal_eval_ok: "evaluates_literals (\<lambda>e sc. literal_eval e)"
  by (simp add: evaluates_literals_def parse_show_int)

definition example_ops :: "batch_op list" where
  "example_ops = [\<lparr>b_sql = ''INSERT INTO t VALUES (?, ?) RETURNING a'', b_params = [JInt 7, JArr [JBig 8, JUndef]], b_label = None\<rparr>,
     \<lparr>b_sql = ''DELETE FROM u WHERE x = ?'', b_params = [JStr ''y''], b_label = None\<rparr>]"

definition example_plan :: tx_plan where
  "example_plan = \<lparr>plan_phase = CreatePhase, entityFrom = None, statements = map_index batch_statement example_ops\<rparr>"

definition echo_seams :: "(string \<times> jsval list) list seams" where
  "echo_seams = \<lparr>seam_execute = (\<lambda>q ps _ l. (Inr [[(''a'', JInt 7)]], l @ [(q, ps)])),
     seam_run = (\<lambda>q ps _ l. (Inr \<lparr>changes = 1, lastInsertRowid = 0\<rparr>, l @ [(q, ps)]))\<rparr>"

lemma example_literal: "list_all literal_op example_ops"
  by code_simp

lemma example_derived: "deriveBatchPlan CreatePhase example_ops = Inr example_plan"
  by (simp add: deriveBatchPlan_def example_plan_def example_ops_def)

lemma example_sent: "send_all echo_seams Postgres example_ops []
    = (Inr [[[(''a'', JInt 7)]], []], [(''INSERT INTO t VALUES ($1, $2) RETURNING a'', [JInt 7, JArr [JBig 8, JNull]]),
        (''DELETE FROM u WHERE x = $1'', [JStr ''y''])])"
  by code_simp

lemma example_ids: "map statement_id [0..<length example_ops] = [''tx_body_0'', ''tx_body_1'']"
  by (simp add: example_ops_def statement_id_def show_nat.simps digit_simps)

lemma batch_write_sends_what_was_compiled_witness:
  "plan_body (\<lambda>e sc. literal_eval e) echo_seams Postgres example_plan [] []
    = (Inr \<lparr>committed = True, result_entity = None, result_executed = [''tx_body_0'', ''tx_body_1''],
         returnedRows = Some [[[(''a'', JInt 7)]]]\<rparr>,
       [(''INSERT INTO t VALUES ($1, $2) RETURNING a'', [JInt 7, JArr [JBig 8, JNull]]), (''DELETE FROM u WHERE x = $1'', [JStr ''y''])])"
  using batch_write_sends_what_was_compiled [OF literal_eval_ok example_literal example_derived, of echo_seams Postgres "[]" "[]"]
  by (simp add: example_sent example_ids Let_def)
end
