(* ===== verification/WriteBundle.thy ===== *)
theory WriteBundle
  imports TxPlan Projection
begin

text \<open>
  \<open>src/scp/write-bundle.ts\<close>: the bundles of createMany, updateMany and deleteMany, each a batch plan over
  the statements of the write compilers; \<open>src/scp/makesql/writeouttype.ts\<close>: the type of the result a
  bundle's plan returns, read off its statements; \<open>executeWriteAsync\<close> of \<open>src/scp/dbmodel-runtime.ts\<close>.
\<close>

section \<open>The type of a result\<close>

text \<open>\<open>/^INSERT\\s+(?:IGNORE\\s+|OR\\s+IGNORE\\s+)?INTO\\s+/i\<close>, \<open>/^UPDATE\\s+/i\<close>, \<open>/^DELETE\\s+FROM\\s+/i\<close>, each with its table.\<close>

definition then_word :: "string \<Rightarrow> string \<Rightarrow> string option" where
  "then_word w s = obind (match_ci w s) skip_space"

definition insert_start :: "string \<Rightarrow> string option" where
  "insert_start s = obind (then_word ''insert'' s) (\<lambda>r.
     case obind (then_word ''ignore'' r) (then_word ''into'') of
       Some r' \<Rightarrow> Some r'
     | None \<Rightarrow> (case obind (then_word ''or'' r) (\<lambda>r1. obind (then_word ''ignore'' r1) (then_word ''into'')) of
         Some r' \<Rightarrow> Some r'
       | None \<Rightarrow> then_word ''into'' r))"

definition identifier_at :: "string \<Rightarrow> string option" where
  "identifier_at s = (let n = takeWhile is_word_char s in if is_identifier n then Some n else None)"

definition write_target :: "string \<Rightarrow> string option" where
  "write_target s = (case obind (insert_start s) identifier_at of
      Some t \<Rightarrow> Some t
    | None \<Rightarrow> (case obind (then_word ''update'' s) identifier_at of
        Some t \<Rightarrow> Some t
      | None \<Rightarrow> obind (obind (then_word ''delete'' s) (then_word ''from'')) identifier_at))"

text \<open>
  \<open>/\\bRETURNING\\s+(.+?)\\s*$/i\<close>: the rest of the text from the first place where it is one line.
\<close>

definition returning_at :: "bool \<Rightarrow> string \<Rightarrow> string option" where
  "returning_at prev s = (if prev then None else obind (then_word ''returning'' s) (\<lambda>r.
     if trim_end r \<noteq> [] \<and> list_all (\<lambda>c. \<not> is_newline c) (trim_end r) then Some (trim_end r) else None))"

text \<open>The hint, in any case.\<close>

fun strip_hint_ci :: "string \<Rightarrow> string" where
  "strip_hint_ci [] = []"
| "strip_hint_ci (c # s) = (case hint_at (map lower (c # s)) of
      Some r \<Rightarrow> drop (length (c # s) - length r) (c # s)
    | None \<Rightarrow> c # strip_hint_ci s)"

definition targetAndReturning :: "string \<Rightarrow> scp_error + string \<times> string list option" where
  "targetAndReturning q = (let s = trim q in case write_target s of
      None \<Rightarrow> Inl (InvalidWrite ''target'')
    | Some table \<Rightarrow> Inr (table, map_option split_csv (scan returning_at False (strip_hint_ci s))))"

fun row_fields :: "string \<Rightarrow> string list \<Rightarrow> column_resolver \<Rightarrow> (string \<times> portable) list \<Rightarrow> scp_error + (string \<times> portable) list" where
  "row_fields table [] resolve ob = Inr ob"
| "row_fields table (col # cols) resolve ob =
     (if \<not> is_identifier col then Inl (InvalidWrite ''returning column'')
      else if col \<in> fst ` set ob then Inl (InvalidWrite ''duplicate returning column'')
      else bind_r (resolve table col) (\<lambda>t. bind_r (sqlTypeToBcScalar t) (\<lambda>s. row_fields table cols resolve (obj_set ob col (PScalar s)))))"

definition rowObjType :: "string \<Rightarrow> string list \<Rightarrow> column_resolver \<Rightarrow> scp_error + portable" where
  "rowObjType table cols resolve = bind_r (row_fields table cols resolve []) (\<lambda>fs. Inr (PObj fs))"

definition bodyStatements :: "tx_plan \<Rightarrow> tx_statement list" where
  "bodyStatements plan = filter (\<lambda>s. st_role s = BodyRole) (statements plan)"

text \<open>Every body statement writes the same table and returns the same columns.\<close>

fun same_target :: "string \<times> string list option \<Rightarrow> tx_statement list \<Rightarrow> scp_error + string \<times> string list option" where
  "same_target tr [] = Inr tr"
| "same_target tr (b # bs) = bind_r (targetAndReturning (op_sql (st_op b))) (\<lambda>tr'.
     if fst tr' \<noteq> fst tr then Inl (InvalidWrite ''different tables'')
     else if snd tr' \<noteq> snd tr then Inl (InvalidWrite ''different returning'')
     else same_target tr bs)"

definition writeTargetReturning :: "tx_plan \<Rightarrow> scp_error + string \<times> string list option" where
  "writeTargetReturning plan = (case bodyStatements plan of
      [] \<Rightarrow> Inl (InvalidWrite ''no body statement'')
    | b # bs \<Rightarrow> bind_r (targetAndReturning (op_sql (st_op b))) (\<lambda>tr. same_target tr bs))"

definition deriveWriteOutputType :: "tx_plan \<Rightarrow> column_resolver \<Rightarrow> scp_error + portable" where
  "deriveWriteOutputType plan resolve = bind_r (writeTargetReturning plan) (\<lambda>(table, returning).
     bind_r (case returning of None \<Rightarrow> Inr (PScalar BcNull) | Some cols \<Rightarrow> rowObjType table cols resolve) (\<lambda>row.
       Inr (PObj ([(''committed'', PScalar BcBool), (''executed'', PArr (PScalar BcString)), (''entity'', POpt row)]
         @ (if isBatchPlan plan \<and> returning \<noteq> None then [(''returnedRows'', POpt (PArr (PArr row)))] else [])))))"

section \<open>Bundles\<close>

record sql_bundle =
  bnd_dialect :: dialect
  bnd_name :: string
  bnd_sql :: string
  bnd_params :: "jsval list"
  bnd_plan :: tx_plan
  bnd_type :: "portable option"

definition annotateWriteBundleOutType :: "sql_bundle \<Rightarrow> column_resolver \<Rightarrow> scp_error + sql_bundle" where
  "annotateWriteBundleOutType b resolve = bind_r (deriveWriteOutputType (bnd_plan b) resolve) (\<lambda>t. Inr (b\<lparr>bnd_type := Some t\<rparr>))"

definition flattenBatchOp :: "makesql \<Rightarrow> string \<Rightarrow> scp_error + batch_op" where
  "flattenBatchOp node label = bind_r (assemble node) (\<lambda>(s, ps). Inr \<lparr>b_sql = s, b_params = ps, b_label = Some label\<rparr>)"

definition bundle_of :: "dialect \<Rightarrow> string \<Rightarrow> write_phase \<Rightarrow> batch_op list \<Rightarrow> scp_error + sql_bundle" where
  "bundle_of d name phase ops = bind_r (deriveBatchPlan phase ops) (\<lambda>plan.
     Inr \<lparr>bnd_dialect = d, bnd_name = name, bnd_sql = b_sql (hd ops), bnd_params = b_params (hd ops), bnd_plan = plan, bnd_type = None\<rparr>)"

text \<open>\<open>returning\<close> is empty when absent, as in the write compilers.\<close>

definition create_op :: "dialect \<Rightarrow> insert_opts \<Rightarrow> pk_desc option \<Rightarrow> nat \<Rightarrow> makesql \<Rightarrow> scp_error + batch_op" where
  "create_op d opt pk i node = bind_r (flattenBatchOp node (''createMany group '' @ show_nat i)) (\<lambda>flat.
     Inr (case pk of
       Some k \<Rightarrow>
         (if d = Mysql \<and> ins_returning opt \<noteq> []
          then flat\<lparr>b_sql := op_sql (mysqlPkHint \<lparr>op_sql = b_sql flat, op_params = b_params flat, op_pk = Some k, op_meta = None\<rparr>
                 (case ins_conflict opt of Some (c # cs) \<Rightarrow> Some (join '','' (c # cs)) | _ \<Rightarrow> None))\<rparr>
          else flat)
     | None \<Rightarrow> flat))"

definition compileCreateManyBundle ::
  "string \<Rightarrow> insert_opts \<Rightarrow> pk_desc option \<Rightarrow> dialect \<Rightarrow> column_resolver option \<Rightarrow> scp_error + sql_bundle" where
  "compileCreateManyBundle name opt pk d resolver =
     bind_r (compileInsertMany d opt) (\<lambda>nodes.
     bind_r (map_r (\<lambda>(i, node). create_op d opt pk i node) (enumerate 0 nodes)) (\<lambda>ops.
     bind_r (bundle_of d name CreatePhase ops) (\<lambda>b.
       case resolver of None \<Rightarrow> Inr b | Some resolve \<Rightarrow> annotateWriteBundleOutType b resolve)))"

definition compileUpdateManyBundle :: "string \<Rightarrow> update_opts \<Rightarrow> dialect \<Rightarrow> scp_error + sql_bundle" where
  "compileUpdateManyBundle name opt d =
     bind_r (compileUpdateMany d opt) (\<lambda>node. bind_r (flattenBatchOp node ''updateMany'') (\<lambda>op. bundle_of d name UpdatePhase [op]))"

definition compileDeleteManyBundle ::
  "string \<Rightarrow> string \<Rightarrow> string list \<Rightarrow> jsobj list \<Rightarrow> string \<Rightarrow> dialect \<Rightarrow> scp_error + sql_bundle" where
  "compileDeleteManyBundle name table keyColumns keys returning d =
     bind_r (compileDeleteMany d table keyColumns keys returning) (\<lambda>nodes.
     bind_r (map_r (\<lambda>(i, node). flattenBatchOp node (''deleteMany group '' @ show_nat i)) (enumerate 0 nodes)) (\<lambda>ops.
       if ops = []
       then Inr \<lparr>bnd_dialect = d, bnd_name = name, bnd_sql = [], bnd_params = [],
              bnd_plan = \<lparr>plan_phase = RemovePhase, entityFrom = None, statements = []\<rparr>, bnd_type = None\<rparr>
       else bundle_of d name RemovePhase ops))"

section \<open>Properties\<close>

lemma flatten_balanced: "flattenBatchOp node label = Inr op \<Longrightarrow> qcount (b_sql op) = length (b_params op)"
  by (auto simp: flattenBatchOp_def bind_r_Inr_iff assemble_arity)

lemma hint_op: "op_sql (mysqlPkHint \<lparr>op_sql = s, op_params = ps, op_pk = Some k, op_meta = None\<rparr> c) \<in> {s, s @ hint_text k c}"
  by (cases c) (simp_all add: mysqlPkHint_def Let_def)

lemma create_op_balanced:
  assumes "create_op d opt pk i node = Inr op" and "clean_pk pk" and "case ins_conflict opt of None \<Rightarrow> True | Some cs \<Rightarrow> names_ok cs"
  shows "qcount (b_sql op) = length (b_params op)"
proof -
  obtain flat where flat: "flattenBatchOp node (''createMany group '' @ show_nat i) = Inr flat"
      and op: "Inr op = (Inr (case pk of
       Some k \<Rightarrow>
         (if d = Mysql \<and> ins_returning opt \<noteq> []
          then flat\<lparr>b_sql := op_sql (mysqlPkHint \<lparr>op_sql = b_sql flat, op_params = b_params flat, op_pk = Some k, op_meta = None\<rparr>
                 (case ins_conflict opt of Some (c # cs) \<Rightarrow> Some (join '','' (c # cs)) | _ \<Rightarrow> None))\<rparr>
          else flat)
     | None \<Rightarrow> flat) :: scp_error + batch_op)"
    using assms(1) by (auto simp: create_op_def bind_r_Inr_iff)
  note balanced = flatten_balanced [OF flat]
  show ?thesis
  proof (cases pk)
    case (Some k)
    let ?c = "(case ins_conflict opt of Some (c # cs) \<Rightarrow> Some (join '','' (c # cs)) | _ \<Rightarrow> None)"
    have "case ?c of None \<Rightarrow> True | Some t \<Rightarrow> qcount t = 0"
      using assms(3) qcount_join_names [of "'',''"] by (auto simp: names_ok_def split: option.splits list.splits)
    then have "qcount (hint_text k ?c) = 0"
      using assms(2) Some by (intro hint_text_clean) (auto simp: clean_pk_def)
    then show ?thesis
      using op Some balanced hint_op [of "b_sql flat" "b_params flat" k ?c] by (cases "d = Mysql \<and> ins_returning opt \<noteq> []") auto
  qed (use op balanced in simp)
qed

definition plan_balanced :: "tx_plan \<Rightarrow> bool" where
  "plan_balanced plan \<longleftrightarrow> isBatchPlan plan \<and> list_all (\<lambda>s. qcount (op_sql (st_op s)) = length (op_params (st_op s))) (statements plan)"

lemma bundle_balanced:
  assumes "bundle_of d name phase ops = Inr b" and "\<forall>op \<in> set ops. qcount (b_sql op) = length (b_params op)"
  shows "plan_balanced (bnd_plan b) \<and> map (op_sql \<circ> st_op) (statements (bnd_plan b)) = map b_sql ops"
proof -
  have plan: "deriveBatchPlan phase ops = Inr (bnd_plan b)" using assms(1) by (auto simp: bundle_of_def bind_r_Inr_iff)
  then have "statements (bnd_plan b) = map_index batch_statement ops" 
    by (auto simp: deriveBatchPlan_def split: if_splits dest!: sym [of _ "bnd_plan b"])
  moreover have "map (op_sql \<circ> st_op) (map_index batch_statement ops) = map b_sql ops"
    by (rule nth_equalityI) (simp_all add: map_index_def batch_statement_def)
  moreover have "list_all (\<lambda>s. qcount (op_sql (st_op s)) = length (op_params (st_op s))) (map_index batch_statement ops)"
    using assms(2) by (auto simp: map_index_def list_all_iff batch_statement_def)
  ultimately show ?thesis using derived_is_batch [OF plan] by (simp add: plan_balanced_def)
qed

text \<open>
  Every bundle of a batch write carries a batch plan whose statements all bind exactly what their
  texts ask for, whatever the dialect and with the key hint of MySQL.
\<close>

theorem write_bundles_are_balanced:
  "(clean_pk pk \<and> (case ins_conflict opt of None \<Rightarrow> True | Some cs \<Rightarrow> names_ok cs)
      \<longrightarrow> (case compileCreateManyBundle name opt pk d resolver of Inl _ \<Rightarrow> True | Inr b \<Rightarrow> plan_balanced (bnd_plan b)))
    \<and> (case compileUpdateManyBundle name uopt d of Inl _ \<Rightarrow> True | Inr b \<Rightarrow> plan_balanced (bnd_plan b))
    \<and> (case compileDeleteManyBundle name table keyColumns keys returning d of Inl _ \<Rightarrow> True | Inr b \<Rightarrow> plan_balanced (bnd_plan b))"
proof (intro conjI impI)
  assume clean: "clean_pk pk \<and> (case ins_conflict opt of None \<Rightarrow> True | Some cs \<Rightarrow> names_ok cs)"
  show "case compileCreateManyBundle name opt pk d resolver of Inl _ \<Rightarrow> True | Inr b \<Rightarrow> plan_balanced (bnd_plan b)"
  proof (cases "compileCreateManyBundle name opt pk d resolver")
    case (Inr b)
    then obtain nodes ops b0 where ops: "map_r (\<lambda>(i, node). create_op d opt pk i node) (enumerate 0 nodes) = Inr ops"
        and b0: "bundle_of d name CreatePhase ops = Inr b0" and b: "bnd_plan b = bnd_plan b0"
      by (auto simp: compileCreateManyBundle_def annotateWriteBundleOutType_def bind_r_Inr_iff split: option.splits)
    have "\<forall>op \<in> set ops. qcount (b_sql op) = length (b_params op)"
      by (rule map_r_all [OF ops]) (use clean in \<open>auto intro: create_op_balanced\<close>)
    then show ?thesis using bundle_balanced [OF b0] b Inr by simp
  qed simp
next
  show "case compileUpdateManyBundle name uopt d of Inl _ \<Rightarrow> True | Inr b \<Rightarrow> plan_balanced (bnd_plan b)"
  proof (cases "compileUpdateManyBundle name uopt d")
    case (Inr b)
    then obtain node op where "flattenBatchOp node ''updateMany'' = Inr op" "bundle_of d name UpdatePhase [op] = Inr b"
      by (auto simp: compileUpdateManyBundle_def bind_r_Inr_iff)
    then show ?thesis using bundle_balanced flatten_balanced Inr by fastforce
  qed simp
next
  show "case compileDeleteManyBundle name table keyColumns keys returning d of Inl _ \<Rightarrow> True | Inr b \<Rightarrow> plan_balanced (bnd_plan b)"
  proof (cases "compileDeleteManyBundle name table keyColumns keys returning d")
    case (Inr b)
    then obtain nodes ops where ops: "map_r (\<lambda>(i, node). flattenBatchOp node (''deleteMany group '' @ show_nat i)) (enumerate 0 nodes) = Inr ops"
        and b: "ops = [] \<and> statements (bnd_plan b) = [] \<and> entityFrom (bnd_plan b) = None \<or> bundle_of d name RemovePhase ops = Inr b"
      by (auto simp: compileDeleteManyBundle_def bind_r_Inr_iff split: if_splits)
    have "\<forall>op \<in> set ops. qcount (b_sql op) = length (b_params op)"
      by (rule map_r_all [OF ops]) (auto intro: flatten_balanced)
    then show ?thesis using b bundle_balanced Inr by (auto simp: plan_balanced_def isBatchPlan_def)
  qed simp
qed

definition create_example :: insert_opts where
  "create_example = \<lparr>ins_table = ''t'', ins_columns = [], ins_records = [[(''a'', JInt 1)]], ins_raw = None, ins_casts = (\<lambda>_. None),
     ins_conflict = None, ins_ignore = False, ins_update = None, ins_returning = ''a''\<rparr>"

definition create_example_pk :: pk_desc where
  "create_example_pk = \<lparr>pkColumns = [''a''], autoInc = None\<rparr>"

lemma create_example_compiles:
  "map_sum id (\<lambda>b. length (statements (bnd_plan b))) (compileCreateManyBundle ''create'' create_example (Some create_example_pk) Mysql None) = Inr 1"
  by code_simp

lemma write_bundles_are_balanced_witness:
  "\<exists>b. compileCreateManyBundle ''create'' create_example (Some create_example_pk) Mysql None = Inr b \<and> plan_balanced (bnd_plan b)"
proof -
  obtain b where b: "compileCreateManyBundle ''create'' create_example (Some create_example_pk) Mysql None = Inr b"
    using create_example_compiles
    by (cases "compileCreateManyBundle ''create'' create_example (Some create_example_pk) Mysql None") auto
  have "clean_pk (Some create_example_pk) \<and> (case ins_conflict create_example of None \<Rightarrow> True | Some cs \<Rightarrow> names_ok cs)"
    by (simp add: clean_pk_def create_example_pk_def create_example_def or_blank_def names_ok_def)
  then show ?thesis
    using write_bundles_are_balanced [of "Some create_example_pk" create_example "''create''" Mysql None] b by simp
qed

text \<open>
  Deleting nothing is a plan without statements: run, it sends nothing and reports success.
\<close>

theorem delete_nothing_sends_nothing:
  assumes "keyColumns \<noteq> []"
  shows "\<exists>b. compileDeleteManyBundle name table keyColumns [] returning d = Inr b
    \<and> plan_body eval sm d (bnd_plan b) input st
      = (Inr \<lparr>committed = True, result_entity = None, result_executed = [], returnedRows = None\<rparr>, st)"
  using assms by (simp add: compileDeleteManyBundle_def compileDeleteMany_def plan_body_def)

lemma delete_nothing_sends_nothing_witness:
  "\<exists>b. compileDeleteManyBundle ''d'' ''t'' [''id''] [] [] Sqlite = Inr b
    \<and> plan_body (\<lambda>e sc. literal_eval e) echo_seams Sqlite (bnd_plan b) [] []
      = (Inr \<lparr>committed = True, result_entity = None, result_executed = [], returnedRows = None\<rparr>, [])"
  by (rule delete_nothing_sends_nothing) simp

section \<open>The row type of a result\<close>

text \<open>The row has one field per returned column, in order; no field is optional, whether or not its column may be null.\<close>

lemma row_fields_columns:
  assumes "row_fields table cols resolve ob = Inr ob'"
  shows "\<exists>fs. ob' = ob @ fs \<and> map fst fs = cols \<and> list_all (\<lambda>(_, p). \<exists>s. p = PScalar s) fs"
  using assms
proof (induction cols arbitrary: ob)
  case (Cons c cs)
  then obtain t s where new: "c \<notin> fst ` set ob" and rest: "row_fields table cs resolve (obj_set ob c (PScalar s)) = Inr ob'"
    by (auto simp: bind_r_Inr_iff split: if_splits)
  obtain fs where fs: "ob' = obj_set ob c (PScalar s) @ fs" "map fst fs = cs" "list_all (\<lambda>(_, p). \<exists>s. p = PScalar s) fs"
    using Cons.IH [OF rest] by blast
  show ?case
  proof (intro exI conjI)
    show "ob' = ob @ (c, PScalar s) # fs" unfolding fs(1) obj_set_new [OF new] by simp
  qed (use fs in simp_all)
qed simp

lemma nullable_column_types:
  "rowObjType ''t'' [''a''] (\<lambda>_ _. Inr ''TEXT'') = Inr (PObj [(''a'', PScalar BcString)])
   \<and> projected_type ''TEXT'' = Inr (POpt (PScalar BcString))"
proof -
  have "rowObjType ''t'' [''a''] (\<lambda>_ _. Inr ''TEXT'') = Inr (PObj [(''a'', PScalar BcString)])"
    "projected_type ''TEXT'' = Inr (POpt (PScalar BcString))" by code_simp+
  then show ?thesis by simp
qed

text \<open>A RETURNING list over two lines is read by the runtime and missed by the type.\<close>

lemma multiline_returning_is_missed:
  "scan returning_at False (''RETURNING a,'' @ [CHR 0x0A] @ ''b'') = None \<and> hasReturn (''RETURNING a,'' @ [CHR 0x0A] @ ''b'')"
proof -
  have "scan returning_at False (''RETURNING a,'' @ [CHR 0x0A] @ ''b'') = None"
    "hasReturn (''RETURNING a,'' @ [CHR 0x0A] @ ''b'')" by code_simp+
  then show ?thesis by simp
qed

end
