(* ===== verification/DbRuntime.thy ===== *)
theory DbRuntime
  imports WriteBundle
begin

text \<open>
  \<open>src/scp/dbmodel-runtime.ts\<close>: the context a configuration builds, the registry of the pool sets built and
  not yet closed, with its generation, and the execution of a write bundle; and the cache of contexts
  that \<open>DBModel\<close> keeps in the static fields of each model class (\<open>_getScpRuntime\<close>, \<open>setConfig\<close>).  The
  factories of the driver pools are arguments.
\<close>

section \<open>Configuration\<close>

record db_config =
  db_host :: "string option"
  db_port :: "int option"
  db_database :: "string option"
  db_user :: "string option"
  db_password :: "string option"
  db_max :: "int option"
  db_timeout :: "int option"
  db_queryTimeout :: "int option"
  db_idleTimeoutMillis :: "int option"
  db_keepAlive :: "bool option"
  db_keepAliveInitialDelayMillis :: "int option"
  db_driver :: "dialect option"

record context_options =
  co_writerConfig :: "db_config option"
  co_useWriter :: "bool option"
  co_stickyDuration :: "int option"

definition PG_DEFAULT_QUERY_TIMEOUT_MS :: int where
  "PG_DEFAULT_QUERY_TIMEOUT_MS = 30000"

text \<open>A number is false when it is absent or 0.\<close>

definition truthy_number :: "int option \<Rightarrow> int option" where
  "truthy_number v = (if v = Some 0 then None else v)"

definition toConnectionConfig :: "db_config \<Rightarrow> connection_config" where
  "toConnectionConfig c =
     \<lparr>cfg_driver = None, cfg_host = db_host c, cfg_port = db_port c, cfg_database = db_database c, cfg_user = db_user c,
      cfg_password = db_password c, cfg_queryTimeout = map_option (\<lambda>s. s * 1000) (truthy_number (db_queryTimeout c)),
      cfg_keepAlive = db_keepAlive c, cfg_keepAliveInitialDelayMillis = db_keepAliveInitialDelayMillis c, cfg_minPool = None,
      cfg_maxPool = db_max c, cfg_connectTimeoutMillis = map_option (\<lambda>s. s * 1000) (db_timeout c),
      cfg_idleTimeoutMillis = db_idleTimeoutMillis c, cfg_searchPath = None, cfg_charset = None\<rparr>"

text \<open>\<open>{...resolved, ...toConnectionConfig(writerConfig)}\<close>: a field the writer sets wins.\<close>

definition overlay_opt :: "'a option \<Rightarrow> 'a option \<Rightarrow> 'a option" where
  "overlay_opt lo hi = (case hi of None \<Rightarrow> lo | Some _ \<Rightarrow> hi)"

definition overlay :: "resolved_config \<Rightarrow> connection_config \<Rightarrow> resolved_config" where
  "overlay r c = r\<lparr>host := overlay_opt (host r) (cfg_host c), port := overlay_opt (port r) (cfg_port c),
     database := overlay_opt (database r) (cfg_database c), user := overlay_opt (user r) (cfg_user c),
     password := overlay_opt (password r) (cfg_password c), queryTimeout := or_default (cfg_queryTimeout c) (queryTimeout r),
     keepAlive := or_default (cfg_keepAlive c) (keepAlive r),
     keepAliveInitialDelayMillis := or_default (cfg_keepAliveInitialDelayMillis c) (keepAliveInitialDelayMillis r),
     maxPool := or_default (cfg_maxPool c) (maxPool r),
     connectTimeoutMillis := or_default (cfg_connectTimeoutMillis c) (connectTimeoutMillis r),
     idleTimeoutMillis := or_default (cfg_idleTimeoutMillis c) (idleTimeoutMillis r)\<rparr>"

type_synonym ('c, 's) pool_factory = "resolved_config \<Rightarrow> pool_role \<Rightarrow> ('c, 's) pool \<times> nat"

definition splitPoolFactory :: "('c, 's) pool_factory \<Rightarrow> db_config option \<Rightarrow> ('c, 's) pool_factory" where
  "splitPoolFactory factory writerConfig resolved role = (case (role, writerConfig) of
      (WriterRole, Some w) \<Rightarrow> factory (overlay resolved (toConnectionConfig w)) WriterRole
    | _ \<Rightarrow> factory resolved role)"

section \<open>The context and the registry of open pool sets\<close>

text \<open>\<open>rt_close\<close> is the identity of the context's closer, \<open>rt_closers\<close> the pools it closes.\<close>

record ('c, 's) runtime_context =
  rt_routing :: "('c, 's) pool routing_config"
  rt_dialect :: dialect
  rt_close :: nat
  rt_closers :: "nat list"

record runtime_registry =
  liveClosers :: "(nat \<times> nat list) list"
  scpRuntimeGen :: nat

definition base_config :: "db_config \<Rightarrow> dialect \<Rightarrow> connection_config" where
  "base_config config d =
     (let c = (toConnectionConfig config)\<lparr>cfg_driver := Some d\<rparr>
      in if d = Postgres \<and> truthy_number (db_queryTimeout config) = None then c\<lparr>cfg_queryTimeout := Some PG_DEFAULT_QUERY_TIMEOUT_MS\<rparr> else c)"

definition context_setup ::
  "(dialect \<Rightarrow> ('c, 's) pool_factory) \<Rightarrow> db_config \<Rightarrow> context_options \<Rightarrow> dialect \<Rightarrow> ('c, 's) connection_setup" where
  "context_setup factories config opts d =
     \<lparr>su_name = None, su_config = base_config config d,
      poolFactory = (if co_writerConfig opts \<noteq> None then splitPoolFactory (factories d) (co_writerConfig opts) else factories d),
      separateWriter = (co_writerConfig opts \<noteq> None)\<rparr>"

text \<open>\<open>fresh\<close> identifies the closer made by this call, \<open>clk\<close> its sticky clock.\<close>

definition buildContextFromConfig ::
  "(dialect \<Rightarrow> ('c, 's) pool_factory) \<Rightarrow> ('c \<Rightarrow> string \<Rightarrow> ('s, unit) io) \<Rightarrow> nat \<Rightarrow> nat \<Rightarrow> db_config \<Rightarrow> context_options
     \<Rightarrow> runtime_registry \<Rightarrow> scp_error + ('c, 's) runtime_context \<times> runtime_registry" where
  "buildContextFromConfig factories run clk fresh config opts reg =
     (if db_driver config = Some Sqlite then Inl (UnknownDialect ''sqlite'')
      else let d = (if db_driver config = Some Mysql then Mysql else Postgres) in
        bind_r (buildRoutingConfig run clk [context_setup factories config opts d] (co_useWriter opts) (co_stickyDuration opts)) (\<lambda>(rc, closers).
          Inr (\<lparr>rt_routing = rc, rt_dialect = d, rt_close = fresh, rt_closers = closers\<rparr>,
               reg\<lparr>liveClosers := liveClosers reg @ [(fresh, closers)]\<rparr>)))"

text \<open>\<open>close\<close> of a context, and \<open>closeAllScpRuntimes\<close>.\<close>

definition close_context ::
  "(nat \<Rightarrow> ('s, unit) io) \<Rightarrow> ('c, 's) runtime_context \<Rightarrow> runtime_registry \<times> 's \<Rightarrow> runtime_registry \<times> 's" where
  "close_context cl rt st = (case st of (reg, s) \<Rightarrow>
     (reg\<lparr>liveClosers := filter (\<lambda>(k, _). k \<noteq> rt_close rt) (liveClosers reg)\<rparr>, closeRouting cl (rt_closers rt) s))"

definition closeAllScpRuntimes :: "(nat \<Rightarrow> ('s, unit) io) \<Rightarrow> runtime_registry \<times> 's \<Rightarrow> runtime_registry \<times> 's" where
  "closeAllScpRuntimes cl st = (case st of (reg, s) \<Rightarrow>
     (reg\<lparr>liveClosers := [], scpRuntimeGen := Suc (scpRuntimeGen reg)\<rparr>, fold (\<lambda>(_, closers). closeRouting cl closers) (liveClosers reg) s))"

definition executeWriteAsync where
  "executeWriteAsync eval sm thrown pin rt ctl b input opts a st =
     executeTransactionAsync eval sm thrown pin (rt_routing rt) ctl (bnd_plan b) input (rt_dialect rt) opts None a st"

definition renderRawSql :: "string \<Rightarrow> dialect \<Rightarrow> string" where
  "renderRawSql q d = renderPlaceholders q (if d = Postgres then Postgres else if d = Mysql then Mysql else Sqlite)"

section \<open>The context of a model class\<close>

text \<open>
  A static field that a class has not assigned is read from the nearest ancestor that has; an assignment
  makes it the class's own.  A class is given by its chain, itself first.
\<close>

datatype 'r cached = NotBuilt | Fallback | Cached 'r

record ('c, 's) model_statics =
  own_runtime :: "string \<Rightarrow> ('c, 's) runtime_context cached option"
  own_gen :: "string \<Rightarrow> nat option"
  own_config :: "string \<Rightarrow> db_config option option"
  own_options :: "string \<Rightarrow> context_options option"
  registry :: runtime_registry
  next_close :: nat

fun inherited :: "(string \<Rightarrow> 'a option) \<Rightarrow> 'a \<Rightarrow> string list \<Rightarrow> 'a" where
  "inherited own dflt [] = dflt"
| "inherited own dflt (c # cs) = (case own c of Some v \<Rightarrow> v | None \<Rightarrow> inherited own dflt cs)"

definition inherited_gen :: "(string \<Rightarrow> nat option) \<Rightarrow> string list \<Rightarrow> nat option" where
  "inherited_gen own chain = inherited (\<lambda>c. map_option Some (own c)) None chain"

definition no_context_options :: context_options where
  "no_context_options = \<lparr>co_writerConfig = None, co_useWriter = None, co_stickyDuration = None\<rparr>"

text \<open>\<open>_getScpRuntime\<close>; \<open>build\<close> is \<open>buildContextFromConfig\<close> with the driver modules, which may be missing.\<close>

type_synonym ('c, 's) context_builder =
  "nat \<Rightarrow> db_config \<Rightarrow> context_options \<Rightarrow> runtime_registry \<Rightarrow> scp_error + ('c, 's) runtime_context \<times> runtime_registry"

definition build_runtime ::
  "('c, 's) context_builder \<Rightarrow> string \<Rightarrow> string list \<Rightarrow> ('c, 's) model_statics \<Rightarrow> ('c, 's) runtime_context option \<times> ('c, 's) model_statics" where
  "build_runtime build cls chain st =
     (case inherited (own_config st) None chain of
        None \<Rightarrow> (None, st\<lparr>own_runtime := (own_runtime st)(cls \<mapsto> Fallback)\<rparr>)
      | Some config \<Rightarrow>
          (if db_driver config = Some Sqlite then (None, st\<lparr>own_runtime := (own_runtime st)(cls \<mapsto> Fallback)\<rparr>)
           else (case build (next_close st) config (inherited (own_options st) no_context_options chain) (registry st) of
               Inl _ \<Rightarrow> (None, st\<lparr>own_runtime := (own_runtime st)(cls \<mapsto> Fallback)\<rparr>)
             | Inr (rt, reg) \<Rightarrow> (Some rt, st\<lparr>own_runtime := (own_runtime st)(cls \<mapsto> Cached rt),
                   own_gen := (own_gen st)(cls \<mapsto> scpRuntimeGen reg), registry := reg, next_close := Suc (next_close st)\<rparr>))))"

definition getScpRuntime ::
  "('c, 's) context_builder \<Rightarrow> string list \<Rightarrow> ('c, 's) model_statics \<Rightarrow> ('c, 's) runtime_context option \<times> ('c, 's) model_statics" where
  "getScpRuntime build chain st = (case chain of
      [] \<Rightarrow> (None, st)
    | cls # _ \<Rightarrow> (case inherited (own_runtime st) NotBuilt chain of
        Fallback \<Rightarrow> (None, st)
      | Cached rt \<Rightarrow>
          (if inherited_gen (own_gen st) chain = Some (scpRuntimeGen (registry st)) then (Some rt, st)
           else build_runtime build cls chain st)
      | NotBuilt \<Rightarrow> build_runtime build cls chain st))"

text \<open>\<open>{...this._configOptions, ...options}\<close>\<close>

definition merge_options :: "context_options \<Rightarrow> context_options \<Rightarrow> context_options" where
  "merge_options old new = \<lparr>co_writerConfig = overlay_opt (co_writerConfig old) (co_writerConfig new),
     co_useWriter = overlay_opt (co_useWriter old) (co_useWriter new),
     co_stickyDuration = overlay_opt (co_stickyDuration old) (co_stickyDuration new)\<rparr>"

text \<open>The part of \<open>setConfig\<close> the contexts depend on: the configuration, the options, \<open>_resetScpRuntime\<close>.\<close>

definition setConfig :: "string list \<Rightarrow> db_config \<Rightarrow> context_options \<Rightarrow> ('c, 's) model_statics \<Rightarrow> ('c, 's) model_statics" where
  "setConfig chain config opts st = (case chain of
      [] \<Rightarrow> st
    | cls # _ \<Rightarrow> st\<lparr>own_config := (own_config st)(cls \<mapsto> Some config),
        own_options := (own_options st)(cls \<mapsto> merge_options (inherited (own_options st) no_context_options chain) opts),
        own_runtime := (own_runtime st)(cls \<mapsto> NotBuilt)\<rparr>)"

section \<open>Contexts are never stale\<close>

text \<open>
  A provider of contexts registers what it builds: the context it returns carries the closer it was
  given, the registry gains exactly that closer with its pools, and the generation stays.
\<close>

locale context_provider =
  fixes build :: "('c, 's) context_builder"
  assumes build_registers: "build fresh config opts reg = Inr (rt, reg') \<Longrightarrow>
    rt_close rt = fresh \<and> reg' = reg\<lparr>liveClosers := liveClosers reg @ [(fresh, rt_closers rt)]\<rparr>"

interpretation driver_pools: context_provider "buildContextFromConfig factories run clk"
  by unfold_locales (auto simp: buildContextFromConfig_def Let_def bind_r_Inr_iff split: if_splits)

text \<open>
  The life of the model classes of a program: a class asks for its context, reconfigures itself, or
  all pools are closed.  \<open>gone\<close> collects the closers of the pool sets closed so far.
\<close>

inductive model_run ::
  "('c, 's) context_builder \<Rightarrow> (nat \<Rightarrow> ('s, unit) io) \<Rightarrow> ('c, 's) model_statics \<Rightarrow> nat list \<Rightarrow> 's \<Rightarrow> bool"
  for build cl where
  started: "model_run build cl \<lparr>own_runtime = r, own_gen = Map.empty, own_config = g, own_options = op,
      registry = \<lparr>liveClosers = [], scpRuntimeGen = 0\<rparr>, next_close = 0\<rparr> [] s" if "\<forall>c. r c = None \<or> r c = Some NotBuilt"
| asked: "model_run build cl (snd (getScpRuntime build chain st)) gone s" if "model_run build cl st gone s"
| configured: "model_run build cl (setConfig chain config opts st) gone s" if "model_run build cl st gone s"
| all_closed: "model_run build cl (st\<lparr>registry := fst (closeAllScpRuntimes cl (registry st, s))\<rparr>)
      (gone @ map fst (liveClosers (registry st))) (snd (closeAllScpRuntimes cl (registry st, s)))" if "model_run build cl st gone s"

text \<open>
  A class that has a generation has a context slot of its own; a cached context of the current
  generation is registered as open; every closer made is open or gone, not both.
\<close>

definition model_inv :: "('c, 's) model_statics \<Rightarrow> nat list \<Rightarrow> bool" where
  "model_inv st gone \<longleftrightarrow>
     (\<forall>c. own_gen st c \<noteq> None \<longrightarrow> own_runtime st c \<noteq> None)
   \<and> (\<forall>c rt. own_runtime st c = Some (Cached rt) \<longrightarrow> (\<exists>g. own_gen st c = Some g \<and> g \<le> scpRuntimeGen (registry st)
        \<and> (g = scpRuntimeGen (registry st) \<longrightarrow> (rt_close rt, rt_closers rt) \<in> set (liveClosers (registry st)))))
   \<and> distinct (map fst (liveClosers (registry st)) @ gone)
   \<and> set (map fst (liveClosers (registry st)) @ gone) = {0..<next_close st}"

lemma inherited_cached:
  assumes "model_inv st gone" and "inherited (own_runtime st) NotBuilt chain = Cached rt"
  shows "\<exists>g. inherited_gen (own_gen st) chain = Some g
    \<and> (g = scpRuntimeGen (registry st) \<longrightarrow> (rt_close rt, rt_closers rt) \<in> set (liveClosers (registry st)))"
  using assms(2)
proof (induction chain)
  case (Cons c cs)
  show ?case
  proof (cases "own_runtime st c")
    case None
    then have "own_gen st c = None" using assms(1) by (auto simp: model_inv_def)
    then show ?thesis using Cons None by (simp add: inherited_gen_def)
  next
    case (Some v)
    then have "own_runtime st c = Some (Cached rt)" using Cons.prems by simp
    then obtain g where "own_gen st c = Some g"
        and "g = scpRuntimeGen (registry st) \<longrightarrow> (rt_close rt, rt_closers rt) \<in> set (liveClosers (registry st))"
      using assms(1) unfolding model_inv_def by blast
    then show ?thesis by (simp add: inherited_gen_def)
  qed
qed simp

lemma model_inv_slot:
  assumes "model_inv st gone" and "\<forall>rt. v \<noteq> Cached rt"
  shows "model_inv (st\<lparr>own_runtime := (own_runtime st)(c \<mapsto> v)\<rparr>) gone"
  using assms by (auto simp: model_inv_def)

context context_provider begin

lemma build_runtime_open:
  assumes inv: "model_inv st gone" and run: "build_runtime build cls chain st = (r, st')"
  shows "model_inv st' gone \<and> (\<forall>rt. r = Some rt \<longrightarrow> (rt_close rt, rt_closers rt) \<in> set (liveClosers (registry st')))"
proof (cases "r = None")
  case True
  then have "st' = st\<lparr>own_runtime := (own_runtime st)(cls \<mapsto> Fallback)\<rparr>"
    using run by (auto simp: build_runtime_def split: option.splits if_splits sum.splits)
  then show ?thesis using model_inv_slot [OF inv, of Fallback cls] True by simp
next
  case False
  then obtain config opts rt reg where built: "build (next_close st) config opts (registry st) = Inr (rt, reg)"
      and r: "r = Some rt"
      and st': "st' = st\<lparr>own_runtime := (own_runtime st)(cls \<mapsto> Cached rt), own_gen := (own_gen st)(cls \<mapsto> scpRuntimeGen reg),
          registry := reg, next_close := Suc (next_close st)\<rparr>"
    using run by (auto simp: build_runtime_def split: option.splits if_splits sum.splits)
  have reg: "rt_close rt = next_close st"
      "reg = registry st\<lparr>liveClosers := liveClosers (registry st) @ [(next_close st, rt_closers rt)]\<rparr>"
    using build_registers [OF built] by simp_all
  have fresh: "next_close st \<notin> set (map fst (liveClosers (registry st)) @ gone)" using inv by (simp add: model_inv_def)
  have "distinct (map fst (liveClosers (registry st')) @ gone)"
    using inv fresh by (auto simp: st' reg model_inv_def)
  moreover have "set (map fst (liveClosers (registry st')) @ gone) = {0..<next_close st'}"
    using inv by (auto simp: st' reg model_inv_def)
  moreover have "\<forall>c. own_gen st' c \<noteq> None \<longrightarrow> own_runtime st' c \<noteq> None"
    using inv by (simp add: st' model_inv_def)
  moreover have "\<exists>g. own_gen st' c = Some g \<and> g \<le> scpRuntimeGen (registry st')
      \<and> (g = scpRuntimeGen (registry st') \<longrightarrow> (rt_close rt', rt_closers rt') \<in> set (liveClosers (registry st')))"
    if "own_runtime st' c = Some (Cached rt')" for c rt'
  proof (cases "c = cls")
    case True
    then show ?thesis using that reg(1) by (auto simp: st' reg(2))
  next
    case False
    then have "own_runtime st c = Some (Cached rt')" using that by (simp add: st')
    then obtain g where "own_gen st c = Some g" and "g \<le> scpRuntimeGen (registry st)"
        and "g = scpRuntimeGen (registry st) \<longrightarrow> (rt_close rt', rt_closers rt') \<in> set (liveClosers (registry st))"
      using inv unfolding model_inv_def by blast
    then show ?thesis using False by (simp add: st' reg(2))
  qed
  ultimately have "model_inv st' gone" unfolding model_inv_def by blast
  then show ?thesis by (simp add: r st' reg)
qed

lemma get_open:
  assumes inv: "model_inv st gone" and get: "getScpRuntime build chain st = (r, st')"
  shows "model_inv st' gone \<and> (\<forall>rt. r = Some rt \<longrightarrow> (rt_close rt, rt_closers rt) \<in> set (liveClosers (registry st')))"
proof (cases chain)
  case Nil
  then show ?thesis using assms by (simp add: getScpRuntime_def)
next
  case (Cons cls cs)
  show ?thesis
  proof (cases "inherited (own_runtime st) NotBuilt chain")
    case NotBuilt
    then show ?thesis using build_runtime_open [OF inv] get Cons by (simp add: getScpRuntime_def)
  next
    case Fallback
    then show ?thesis using inv get Cons by (simp add: getScpRuntime_def)
  next
    case (Cached rt)
    then show ?thesis
      using inherited_cached [OF inv Cached] build_runtime_open [OF inv] inv get Cons
      by (auto simp: getScpRuntime_def split: if_splits)
  qed
qed

lemma reachable_inv: "model_run build cl st gone s \<Longrightarrow> model_inv st gone"
proof (induction rule: model_run.induct)
  case (started r g op s)
  then have "r c \<noteq> Some (Cached rt)" for c rt by (metis cached.distinct(4) option.distinct(1) option.inject cached.simps)
  then show ?case by (simp add: model_inv_def)
next
  case (asked st gone s chain)
  then show ?case using get_open surjective_pairing by metis
next
  case (configured st gone s chain config opts)
  then show ?case by (cases chain) (auto simp: setConfig_def model_inv_def)
next
  case (all_closed st gone s)
  have "\<exists>g. own_gen st c = Some g \<and> g \<le> Suc (scpRuntimeGen (registry st)) \<and> g \<noteq> Suc (scpRuntimeGen (registry st))"
    if "own_runtime st c = Some (Cached rt)" for c rt
  proof -
    obtain g where "own_gen st c = Some g" and "g \<le> scpRuntimeGen (registry st)"
      using all_closed.IH \<open>own_runtime st c = Some (Cached rt)\<close> unfolding model_inv_def by blast
    then show ?thesis by simp
  qed
  then show ?case using all_closed.IH by (auto simp: model_inv_def closeAllScpRuntimes_def)
qed

end

section \<open>Properties\<close>

text \<open>
  C12. A context handed out is open.  Whatever the model classes did before, with contexts inherited from a
  parent class, reconfigurations and closings of all pools in between, the context \<open>_getScpRuntime\<close>
  returns is registered as open with its pools, and its closer has not been closed.
\<close>

theorem context_in_use_is_open:
  assumes "model_run (buildContextFromConfig factories run clk) cl st gone s"
    and "getScpRuntime (buildContextFromConfig factories run clk) chain st = (Some rt, st')"
  shows "(rt_close rt, rt_closers rt) \<in> set (liveClosers (registry st')) \<and> rt_close rt \<notin> set gone"
proof -
  have "model_inv st gone" by (rule driver_pools.reachable_inv [OF assms(1)])
  note open_now = driver_pools.get_open [OF this assms(2)]
  then have "(rt_close rt, rt_closers rt) \<in> set (liveClosers (registry st'))" by blast
  moreover have "set (map fst (liveClosers (registry st'))) \<inter> set gone = {}"
    using open_now by (simp add: model_inv_def)
  ultimately show ?thesis by (auto simp: rev_image_eqI)
qed


text \<open>
  A context routes reads to the configured server and writes to the writer's.  Its reader is built from
  the resolved configuration, its writer from that configuration with the fields the writer sets laid over it,
  and both are wrapped with the session statements of the reader's configuration.
\<close>

theorem context_splits_reader_and_writer:
  assumes "buildContextFromConfig factories run clk fresh config opts reg = Inr (rt, reg')"
  shows "\<exists>p. pairFor (rc_registry (rt_routing rt)) None = Inr p
    \<and> (let r = resolveConnectionConfig (base_config config (rt_dialect rt)) in
        reader p = configuredPool run (fst (factories (rt_dialect rt) r ReaderRole)) r
      \<and> writer p = (case co_writerConfig opts of None \<Rightarrow> reader p
          | Some w \<Rightarrow> configuredPool run (fst (factories (rt_dialect rt) (overlay r (toConnectionConfig w)) WriterRole)) r))"
proof -
  let ?su = "context_setup factories config opts (rt_dialect rt)"
  obtain rc cs where "buildRoutingConfig run clk [?su] (co_useWriter opts) (co_stickyDuration opts) = Inr (rc, cs)"
      and "rt_routing rt = rc"
    using assms by (auto simp: buildContextFromConfig_def Let_def bind_r_Inr_iff split: if_splits)
  then have "rc_registry (rt_routing rt) = registry_add (effectiveConnection None) (fst (setup_pair run ?su)) []"
    by (auto simp: buildRoutingConfig_def context_setup_def registry_build_def bind_r_Inr_iff split: if_splits prod.splits)
  then have "pairFor (rc_registry (rt_routing rt)) None = Inr (fst (setup_pair run ?su))"
    by (simp add: pairFor_def registry_add_def)
  then show ?thesis
    by (simp add: setup_pair_def context_setup_def splitPoolFactory_def readerWriterPair_def singlePoolPair_def Let_def
        split: option.split prod.split)
qed

section \<open>Examples\<close>

definition plain_config :: "string \<Rightarrow> db_config" where
  "plain_config h = \<lparr>db_host = Some h, db_port = None, db_database = None, db_user = None, db_password = None, db_max = None,
     db_timeout = None, db_queryTimeout = None, db_idleTimeoutMillis = None, db_keepAlive = None,
     db_keepAliveInitialDelayMillis = None, db_driver = None\<rparr>"

definition two_pools :: "dialect \<Rightarrow> (nat, pg_driver) pool_factory" where
  "two_pools d r role = (pgConnectionPool, if role = ReaderRole then 1 else 2)"

definition example_builder :: "(nat, pg_driver) context_builder" where
  "example_builder = buildContextFromConfig two_pools pg_run 0"

definition fresh_models :: "(nat, pg_driver) model_statics" where
  "fresh_models = \<lparr>own_runtime = [''DBModel'' \<mapsto> NotBuilt], own_gen = Map.empty, own_config = [''DBModel'' \<mapsto> None],
     own_options = Map.empty, registry = \<lparr>liveClosers = [], scpRuntimeGen = 0\<rparr>, next_close = 0\<rparr>"

definition configured_models :: "(nat, pg_driver) model_statics" where
  "configured_models = setConfig [''DBModel''] (plain_config ''a'') no_context_options fresh_models"

lemma example_context:
  "\<exists>rt. example_builder k (plain_config h) opts reg = Inr (rt, reg\<lparr>liveClosers := liveClosers reg @ [(k, rt_closers rt)]\<rparr>) \<and> rt_close rt = k"
  by (simp add: example_builder_def buildContextFromConfig_def plain_config_def buildRoutingConfig_def registry_build_def
      registry_add_def bind_r_def context_setup_def obj_set.simps split: prod.split)

lemma configured_models_run: "model_run example_builder cl configured_models [] s"
  unfolding configured_models_def example_builder_def fresh_models_def
  by (rule model_run.configured [OF model_run.started]) simp

lemma example_get:
  "\<exists>rt. getScpRuntime example_builder [''User'', ''DBModel''] configured_models
      = (Some rt, configured_models\<lparr>own_runtime := (own_runtime configured_models)(''User'' \<mapsto> Cached rt),
          own_gen := [''User'' \<mapsto> 0], registry := \<lparr>liveClosers = [(0, rt_closers rt)], scpRuntimeGen = 0\<rparr>, next_close := 1\<rparr>)"
  using example_context [of 0 "''a''" no_context_options "\<lparr>liveClosers = [], scpRuntimeGen = 0\<rparr>"]
  by (auto simp: getScpRuntime_def build_runtime_def configured_models_def setConfig_def fresh_models_def merge_options_def
      overlay_opt_def no_context_options_def plain_config_def)

text \<open>
  A model that has built its context keeps it when \<open>DBModel.setConfig\<close> is called again: its own static
  shadows the one that is reset.
\<close>

lemma reconfigured_parent_is_not_seen:
  "\<exists>rt st. getScpRuntime example_builder [''User'', ''DBModel''] configured_models = (Some rt, st)
    \<and> getScpRuntime example_builder [''User'', ''DBModel''] (setConfig [''DBModel''] (plain_config ''b'') no_context_options st)
      = (Some rt, setConfig [''DBModel''] (plain_config ''b'') no_context_options st)"
proof -
  obtain rt where get: "getScpRuntime example_builder [''User'', ''DBModel''] configured_models
      = (Some rt, configured_models\<lparr>own_runtime := (own_runtime configured_models)(''User'' \<mapsto> Cached rt),
          own_gen := [''User'' \<mapsto> 0], registry := \<lparr>liveClosers = [(0, rt_closers rt)], scpRuntimeGen = 0\<rparr>, next_close := 1\<rparr>)"
    using example_get by blast
  show ?thesis by (intro exI conjI, rule get) (simp add: getScpRuntime_def setConfig_def inherited_gen_def)
qed

text \<open>A model asked before the configuration falls back for good.\<close>

lemma fallback_is_kept:
  "(let st = snd (getScpRuntime build [''User'', ''DBModel''] fresh_models)
    in fst (getScpRuntime build [''User'', ''DBModel''] (setConfig [''DBModel''] config opts st))) = None"
  by (simp add: getScpRuntime_def build_runtime_def fresh_models_def setConfig_def Let_def)

text \<open>Reconfiguring without a writer keeps the writer of the previous configuration.\<close>

lemma writer_outlives_configuration:
  "co_writerConfig (merge_options \<lparr>co_writerConfig = Some w, co_useWriter = None, co_stickyDuration = None\<rparr> no_context_options) = Some w"
  by (simp add: merge_options_def no_context_options_def overlay_opt_def)

lemma context_in_use_is_open_witness:
  "\<exists>rt st'. getScpRuntime example_builder [''User'', ''DBModel''] configured_models = (Some rt, st')
    \<and> (rt_close rt, rt_closers rt) \<in> set (liveClosers (registry st'))"
proof -
  obtain rt st' where get: "getScpRuntime example_builder [''User'', ''DBModel''] configured_models = (Some rt, st')"
    using example_get by blast
  have "(rt_close rt, rt_closers rt) \<in> set (liveClosers (registry st'))"
    using context_in_use_is_open [OF configured_models_run [unfolded example_builder_def, of "\<lambda>c s. (Inr (), s)" failing_driver]
        get [unfolded example_builder_def]] by simp
  then show ?thesis using get by blast
qed


lemma context_splits_reader_and_writer_witness:
  "\<exists>rt reg' p. buildContextFromConfig two_pools pg_run 0 0 (plain_config ''a'')
      \<lparr>co_writerConfig = Some (plain_config ''b''), co_useWriter = None, co_stickyDuration = None\<rparr>
      \<lparr>liveClosers = [], scpRuntimeGen = 0\<rparr> = Inr (rt, reg')
    \<and> pairFor (rc_registry (rt_routing rt)) None = Inr p"
proof -
  obtain rt where built: "buildContextFromConfig two_pools pg_run 0 0 (plain_config ''a'')
      \<lparr>co_writerConfig = Some (plain_config ''b''), co_useWriter = None, co_stickyDuration = None\<rparr>
      \<lparr>liveClosers = [], scpRuntimeGen = 0\<rparr> = Inr (rt, \<lparr>liveClosers = [(0, rt_closers rt)], scpRuntimeGen = 0\<rparr>)"
    using example_context [of 0 "''a''"
        "\<lparr>co_writerConfig = Some (plain_config ''b''), co_useWriter = None, co_stickyDuration = None\<rparr>" "\<lparr>liveClosers = [], scpRuntimeGen = 0\<rparr>"]
    by (auto simp: example_builder_def)
  show ?thesis using built context_splits_reader_and_writer [OF built] by blast
qed

end
