(* ===== verification/Columns.thy ===== *)
theory Columns
  imports CompileSelect
begin

text \<open>
  \<open>src/Column.ts\<close>: columns with their condition and order helpers, the builders \<open>Values\<close> and
  \<open>Conditions\<close>, and the reading of a list of conditions into the object the WHERE compiler takes; and
  \<open>src/SqlFragment.ts\<close>: the \<open>sql\<close> tag.  A serializer is a function of the value and the driver's type
  cast, which is known by its dialect and absent before the handler is initialised.
\<close>

section \<open>Columns\<close>

type_synonym serializer = "jsval \<Rightarrow> dialect option \<Rightarrow> scp_error + jsval"

record model_column = colref +
  propertyName :: string
  modelName :: string
  sqlCast :: string
  serialize :: "serializer option"

text \<open>\<open>createColumn\<close>; \<open>propertyName\<close> and \<open>sqlCast\<close> may be missing, the latter is then the empty text.\<close>

definition createColumn :: "string \<Rightarrow> string \<Rightarrow> string \<Rightarrow> string option \<Rightarrow> string \<Rightarrow> serializer option \<Rightarrow> model_column" where
  "createColumn name table model prop sqlcast ser =
     \<lparr>columnName = name, tableName = table, propertyName = (case prop of None \<Rightarrow> name | Some p \<Rightarrow> p),
      modelName = model, sqlCast = sqlcast, serialize = ser\<rparr>"

text \<open>The comparisons; a cast column binds through a cast, any other puts the operator into the key.\<close>

definition col_compare :: "string \<Rightarrow> model_column \<Rightarrow> jsval \<Rightarrow> jsobj" where
  "col_compare opr c v =
     (if sqlCast c \<noteq> [] then [(columnName c, JTok (DBCast v (sqlCast c) opr))]
      else if opr = ''='' then [(columnName c, v)]
      else [(columnName c @ '' '' @ opr @ '' ?'', v)])"

definition col_eq :: "model_column \<Rightarrow> jsval \<Rightarrow> jsobj" where "col_eq = col_compare ''=''"
definition col_ne :: "model_column \<Rightarrow> jsval \<Rightarrow> jsobj" where "col_ne = col_compare ''!=''"
definition col_gt :: "model_column \<Rightarrow> jsval \<Rightarrow> jsobj" where "col_gt = col_compare ''>''"
definition col_gte :: "model_column \<Rightarrow> jsval \<Rightarrow> jsobj" where "col_gte = col_compare ''>=''"
definition col_lt :: "model_column \<Rightarrow> jsval \<Rightarrow> jsobj" where "col_lt = col_compare ''<''"
definition col_lte :: "model_column \<Rightarrow> jsval \<Rightarrow> jsobj" where "col_lte = col_compare ''<=''"

definition col_in :: "model_column \<Rightarrow> jsval list \<Rightarrow> jsobj" where
  "col_in c vs = [(columnName c, if sqlCast c \<noteq> [] then JTok (DBCastArray vs (sqlCast c)) else JArr vs)]"

definition col_notIn :: "model_column \<Rightarrow> jsval list \<Rightarrow> jsobj" where
  "col_notIn c vs =
     (if sqlCast c \<noteq> [] then [(columnName c @ '' NOT'', JTok (DBCastArray vs (sqlCast c)))]
      else [(columnName c @ '' NOT IN (?)'', JArr vs)])"

definition col_like :: "model_column \<Rightarrow> string \<Rightarrow> jsobj" where
  "col_like c pattern = [(columnName c @ '' LIKE ?'', JStr pattern)]"
definition col_notLike :: "model_column \<Rightarrow> string \<Rightarrow> jsobj" where
  "col_notLike c pattern = [(columnName c @ '' NOT LIKE ?'', JStr pattern)]"
definition col_ilike :: "model_column \<Rightarrow> string \<Rightarrow> jsobj" where
  "col_ilike c pattern = [(columnName c @ '' ILIKE ?'', JStr pattern)]"
definition col_between :: "model_column \<Rightarrow> jsval \<Rightarrow> jsval \<Rightarrow> jsobj" where
  "col_between c v w = [(columnName c @ '' BETWEEN ? AND ?'', JArr [v, w])]"
definition col_isNull :: "model_column \<Rightarrow> jsobj" where
  "col_isNull c = [(columnName c, JNull)]"
definition col_isNotNull :: "model_column \<Rightarrow> jsobj" where
  "col_isNotNull c = [(columnName c, JTok DBNotNullValue)]"

definition col_order :: "string \<Rightarrow> string option \<Rightarrow> model_column \<Rightarrow> order_column" where
  "col_order dir n c = \<lparr>ocolumn = columnName c, direction = dir, nulls = n\<rparr>"

definition columnsToNames :: "model_column list \<Rightarrow> string list" where
  "columnsToNames cs = map columnName cs"

section \<open>The sql tag\<close>

datatype fragment_tag = SqlFragment | SqlTypedFragment | SqlCondition

record fragment =
  frag_tag :: fragment_tag
  frag_sql :: string
  frag_params :: "jsval list"

text \<open>What may be interpolated: columns, models, raw texts, references, fragments and values.\<close>

datatype interpolation =
    IColumn model_column
  | ITable string
  | IRaw string
  | IRef colref
  | IParentRef colref
  | IFragment fragment
  | IValue jsval

definition isIdentifierLike :: "interpolation \<Rightarrow> bool" where
  "isIdentifierLike i \<longleftrightarrow> (case i of IFragment _ \<Rightarrow> False | IValue _ \<Rightarrow> False | _ \<Rightarrow> True)"

definition is_column :: "interpolation \<Rightarrow> bool" where
  "is_column i \<longleftrightarrow> (case i of IColumn _ \<Rightarrow> True | _ \<Rightarrow> False)"

definition is_value :: "interpolation \<Rightarrow> bool" where
  "is_value i \<longleftrightarrow> (case i of IValue _ \<Rightarrow> True | _ \<Rightarrow> False)"

definition qualified_name :: "colref \<Rightarrow> string" where
  "qualified_name r = tableName r @ ''.'' @ columnName r"

definition processInterpolation :: "interpolation \<Rightarrow> jsval list \<Rightarrow> string \<times> jsval list" where
  "processInterpolation i ps = (case i of
      IColumn c \<Rightarrow> (columnName c, ps)
    | ITable t \<Rightarrow> (t, ps)
    | IRaw s \<Rightarrow> (s, ps)
    | IRef r \<Rightarrow> (qualified_name r, ps)
    | IParentRef r \<Rightarrow> (qualified_name r, ps)
    | IFragment f \<Rightarrow> (frag_sql f, ps @ frag_params f)
    | IValue v \<Rightarrow> (case v of
          JArr vs \<Rightarrow> if vs = [] then (''NULL'', ps) else (join '', '' (map (\<lambda>_. ''?'') vs), ps @ vs)
        | JNull \<Rightarrow> (''NULL'', ps)
        | JUndef \<Rightarrow> (''NULL'', ps)
        | _ \<Rightarrow> (''?'', ps @ [v])))"

fun weave :: "string list \<Rightarrow> string list \<Rightarrow> string" where
  "weave (s # ss) (p # ps) = s @ p @ weave ss ps"
| "weave ss [] = concat ss"
| "weave [] ps = []"

definition sql_tag :: "string list \<Rightarrow> interpolation list \<Rightarrow> fragment" where
  "sql_tag strings vals =
     (let isCond = (length (filter is_column vals) = 1 \<and> filter (\<lambda>i. \<not> is_column i \<and> \<not> is_value i) vals = []
            \<and> (case vals of IColumn _ # _ \<Rightarrow> True | _ \<Rightarrow> False));
          valueCount = length (filter is_value vals);
          (parts, ps) = emit_list processInterpolation vals []
      in if isCond \<and> valueCount = 0 \<and> length vals = 1
         then \<lparr>frag_tag = SqlTypedFragment, frag_sql = weave strings parts, frag_params = []\<rparr>
         else \<lparr>frag_tag = (if isCond \<and> valueCount > 0 then SqlCondition else SqlFragment),
               frag_sql = weave strings parts, frag_params = ps\<rparr>)"

section \<open>Conditions\<close>

text \<open>The elements of a list of conditions; a missing value is \<open>SKIP\<close>.\<close>

datatype cond_elem =
    SkipCond
  | OrCond "cond_elem list list"
  | FragCond fragment
  | ColumnCond model_column "jsval option"
  | TupleCond "model_column list" "jsval list list option"
  | TypedCond fragment "jsval option"
  | TextCond string "jsval option"
  | RawCond string

definition pairsToRecord :: "(model_column \<times> jsval option) list \<Rightarrow> jsobj" where
  "pairsToRecord pairs =
     fold (\<lambda>(c, v) r. case v of None \<Rightarrow> r | Some x \<Rightarrow> obj_set r (columnName c) x) pairs []"

definition serializeCondValue :: "model_column \<Rightarrow> jsval \<Rightarrow> dialect option \<Rightarrow> scp_error + jsval" where
  "serializeCondValue c v tc = (case serialize c of
      None \<Rightarrow> Inr v
    | Some f \<Rightarrow> (case v of
        JArr vs \<Rightarrow> bind_r (map_r (\<lambda>x. f x tc) vs) (\<lambda>ws. Inr (JArr ws))
      | _ \<Rightarrow> f v tc))"

text \<open>A tuple longer than its columns reads a property of \<open>undefined\<close>, which throws.\<close>

fun serialize_tuple :: "dialect option \<Rightarrow> model_column list \<Rightarrow> jsval list \<Rightarrow> scp_error + jsval list" where
  "serialize_tuple tc cs [] = Inr []"
| "serialize_tuple tc [] (v # vs) = Inl (OtherError ''columns[i] is undefined'')"
| "serialize_tuple tc (c # cs) (v # vs) =
     bind_r (serializeCondValue c v tc) (\<lambda>w. bind_r (serialize_tuple tc cs vs) (\<lambda>ws. Inr (w # ws)))"

definition column_entry :: "dialect option \<Rightarrow> model_column \<Rightarrow> jsval \<Rightarrow> scp_error + string \<times> jsval" where
  "column_entry tc c v =
     (if is_token v then Inr (columnName c, v)
      else bind_r (serializeCondValue c v tc) (\<lambda>b.
        Inr (columnName c,
          if sqlCast c = [] then b
          else (case b of JArr vs \<Rightarrow> JTok (DBCastArray vs (sqlCast c)) | _ \<Rightarrow> JTok (DBCast b (sqlCast c) ''='')))))"

definition sqlFragmentToKeyValue :: "fragment \<Rightarrow> string \<times> jsval" where
  "sqlFragmentToKeyValue f = (case frag_params f of
      [] \<Rightarrow> (frag_sql f, JBool True)
    | [p] \<Rightarrow> (frag_sql f, p)
    | ps \<Rightarrow> (frag_sql f, JArr ps))"

text \<open>
  \<open>condToKeyValue\<close> with the fragments and the OR groups of \<open>condsToRecord\<close>: the entry of an element,
  none for a skipped one.
\<close>

function (sequential) cond_entry :: "dialect option \<Rightarrow> cond_elem \<Rightarrow> scp_error + (string \<times> jsval) option"
and condsToRecord :: "dialect option \<Rightarrow> cond_elem list \<Rightarrow> scp_error + jsobj" where
  "cond_entry tc SkipCond = Inr None"
| "cond_entry tc (OrCond groups) =
     bind_r (map_r (condsToRecord tc) groups) (\<lambda>rs. Inr (Some (''__or__'', JArr (map JObj rs))))"
| "cond_entry tc (FragCond f) = Inr (Some (sqlFragmentToKeyValue f))"
| "cond_entry tc (ColumnCond c None) = Inr None"
| "cond_entry tc (ColumnCond c (Some v)) = bind_r (column_entry tc c v) (\<lambda>kv. Inr (Some kv))"
| "cond_entry tc (TupleCond cs None) = Inr None"
| "cond_entry tc (TupleCond cs (Some tuples)) =
     bind_r (map_r (serialize_tuple tc cs) tuples) (\<lambda>ts. Inr (Some (''__tuple__'', JTok (dbTupleIn (columnsToNames cs) ts))))"
| "cond_entry tc (TypedCond f None) = Inr None"
| "cond_entry tc (TypedCond f (Some v)) = Inr (Some (frag_sql f, v))"
| "cond_entry tc (TextCond s None) = Inr None"
| "cond_entry tc (TextCond s (Some v)) = Inr (Some (s, v))"
| "cond_entry tc (RawCond s) = Inr (Some (s, JBool True))"
| "condsToRecord tc es =
     bind_r (map_r (cond_entry tc) es) (\<lambda>kvs.
       Inr (fold (\<lambda>kv r. case kv of None \<Rightarrow> r | Some (k, v) \<Rightarrow> obj_set r k v) kvs []))"
  by pat_completeness auto

termination
  by (relation "measure (\<lambda>x. case x of Inl (_, e) \<Rightarrow> 2 * size e | Inr (_, es) \<Rightarrow> Suc (2 * size_list size es))")
    (auto dest: size_list_mem [of _ _ size] size_list_mem [of _ _ "size_list size"])

section \<open>Builders\<close>

text \<open>\<open>Values\<close> and \<open>Conditions\<close>: the list built so far.\<close>

definition values_add :: "model_column \<Rightarrow> jsval option \<Rightarrow> (model_column \<times> jsval option) list \<Rightarrow> (model_column \<times> jsval option) list" where
  "values_add c v pairs = pairs @ [(c, v)]"

definition conditions_add :: "model_column \<Rightarrow> jsval option \<Rightarrow> cond_elem list \<Rightarrow> cond_elem list" where
  "conditions_add c v es = es @ [ColumnCond c v]"

definition addRaw :: "string \<Rightarrow> jsval option \<Rightarrow> cond_elem list \<Rightarrow> cond_elem list" where
  "addRaw s v es = es @ [if v \<noteq> Some JUndef then TextCond s v else RawCond s]"

definition addSql :: "fragment \<Rightarrow> jsval option \<Rightarrow> cond_elem list \<Rightarrow> cond_elem list" where
  "addSql f v es = es @ [if v \<noteq> Some JUndef then TypedCond f v else FragCond f]"

definition conditions_or :: "cond_elem list list \<Rightarrow> cond_elem list \<Rightarrow> cond_elem list" where
  "conditions_or groups es = es @ [OrCond groups]"

section \<open>Fragments are balanced\<close>

text \<open>An interpolation is well formed when the texts it splices hold no placeholder of their own.\<close>

definition wf_interpolation :: "interpolation \<Rightarrow> bool" where
  "wf_interpolation i \<longleftrightarrow> (case i of
      IColumn c \<Rightarrow> qcount (columnName c) = 0
    | ITable t \<Rightarrow> qcount t = 0
    | IRaw s \<Rightarrow> qcount s = 0
    | IRef r \<Rightarrow> qcount (qualified_name r) = 0
    | IParentRef r \<Rightarrow> qcount (qualified_name r) = 0
    | IFragment f \<Rightarrow> qcount (frag_sql f) = length (frag_params f)
    | IValue v \<Rightarrow> True)"

interpretation interpolate: sql_emitter processInterpolation wf_interpolation
  by unfold_locales
    (auto simp: processInterpolation_def wf_interpolation_def qcount_join sum_list_replicate map_replicate_const split: interpolation.split jsval.split)

lemma qcount_weave:
  "length strings = Suc (length parts) \<Longrightarrow> \<forall>s \<in> set strings. qcount s = 0
    \<Longrightarrow> qcount (weave strings parts) = sum_list (map qcount parts)"
  by (induction strings parts rule: weave.induct) (auto simp: length_Suc_conv)

lemma parts_of_values:
  assumes "\<And>x ps. f x ps = (fst (f x []), ps @ snd (f x []))"
  shows "emit_list f xs ps = (map (\<lambda>x. fst (f x [])) xs, ps @ concat (map (\<lambda>x. snd (f x [])) xs))"
proof (induction xs arbitrary: ps)
  case (Cons x xs)
  obtain s vs where f: "f x [] = (s, vs)" by (rule prod.exhaust)
  then have "f x ps = (s, ps @ vs)" using assms [of x ps] by simp
  then show ?case by (simp add: Cons.IH f)
qed simp

text \<open>
  The \<open>sql\<close> tag is balanced: a tagged text without placeholders of its own, over columns, models,
  references, balanced fragments and any values, holds one placeholder per value it binds, whatever kind
  of fragment it becomes.
\<close>

theorem fragments_are_balanced:
  assumes "length strings = Suc (length vals)" and "\<forall>s \<in> set strings. qcount s = 0"
    and "\<forall>i \<in> set vals. wf_interpolation i"
  shows "qcount (frag_sql (sql_tag strings vals)) = length (frag_params (sql_tag strings vals))"
proof -
  obtain parts ps where emitted: "emit_list processInterpolation vals [] = (parts, ps)" by fastforce
  have len: "length parts = length vals"
    using parts_of_values [of processInterpolation vals "[]", OF interpolate.emit_append] emitted by auto
  have "qcount (weave strings parts) = sum_list (map qcount parts)"
    using assms(1,2) len by (intro qcount_weave) simp_all
  also have "\<dots> = length ps"
    using interpolate.emit_list_arity [of vals] assms(3) emitted by simp
  finally have balanced: "qcount (weave strings parts) = length ps" .
  have "ps = []" if "length vals = 1" and "case vals of IColumn _ # _ \<Rightarrow> True | _ \<Rightarrow> False"
    using that emitted by (cases vals) (auto simp: processInterpolation_def split: interpolation.splits)
  then show ?thesis using balanced by (auto simp: sql_tag_def emitted Let_def)
qed

section \<open>Conditions are kept\<close>

definition kept :: "(string \<times> jsval) option list \<Rightarrow> jsobj" where
  "kept kvs = List.map_filter id kvs"

lemma fold_kept: "fold (\<lambda>kv r. case kv of None \<Rightarrow> r | Some (k, v) \<Rightarrow> obj_set r k v) kvs r = fold (\<lambda>(k, v) r. obj_set r k v) (kept kvs) r"
  by (induction kvs arbitrary: r) (auto simp: kept_def List.map_filter_simps split: option.splits)

lemma fold_obj_set_new:
  "distinct (map fst r @ map fst kvs) \<Longrightarrow> fold (\<lambda>(k, v) r. obj_set r k v) kvs r = r @ kvs"
proof (induction kvs arbitrary: r)
  case (Cons kv kvs)
  obtain k v where kv: "kv = (k, v)" by (rule prod.exhaust)
  have "obj_set r k v = r @ [(k, v)]" using Cons.prems by (intro obj_set_new) (auto simp: kv)
  then show ?case using Cons.IH [of "r @ [(k, v)]"] Cons.prems by (simp add: kv)
qed simp

text \<open>
  Conditions with different keys are all kept, in order.  The WHERE clause of a list of conditions
  whose keys differ is the conjunction of the conditions, each compiled on its own, with skipped ones
  left out.
\<close>

theorem conditions_are_kept:
  assumes "map_r (cond_entry tc) es = Inr kvs" and "distinct (map fst (kept kvs))"
  shows "condsToRecord tc es = Inr (kept kvs)
    \<and> conds_compile (normalizeConditions (Inr (kept kvs))) fm ps
      = (join '' AND '' (filter (\<lambda>s. s \<noteq> []) (map (\<lambda>kv. fst (compileCondition kv fm [])) (kept kvs))),
         ps @ concat (map (\<lambda>kv. snd (compileCondition kv fm [])) (kept kvs)))"
proof -
  have "condsToRecord tc es = Inr (kept kvs)"
    using assms fold_obj_set_new [of "[]" "kept kvs"] by (simp add: fold_kept)
  moreover have "emit_list (\<lambda>kv. compileCondition kv fm) xs ps
      = (map (\<lambda>kv. fst (compileCondition kv fm [])) xs, ps @ concat (map (\<lambda>kv. snd (compileCondition kv fm [])) xs))" for xs ps
    by (rule parts_of_values) (rule compileCondition_append)
  ultimately show ?thesis by (auto simp: normalizeConditions_def opname_def Let_def)
qed

section \<open>What the operators compile to\<close>

definition plain_value :: "jsval \<Rightarrow> bool" where
  "plain_value v \<longleftrightarrow> (case v of JNull \<Rightarrow> False | JBool _ \<Rightarrow> False | JArr _ \<Rightarrow> False | JTok _ \<Rightarrow> False | JCond _ \<Rightarrow> False | _ \<Rightarrow> True)"

definition where_text :: "jsobj \<Rightarrow> string \<times> jsval list" where
  "where_text r = conds_compile (normalizeConditions (Inr r)) None []"

definition example_column :: "string \<Rightarrow> model_column" where
  "example_column c = createColumn c ''users'' ''User'' None [] None"

text \<open>
  A second OR group replaces the first one, since both have the key \<open>__or__\<close>; likewise a second composite
  key condition.
\<close>

lemma second_or_group_replaces_first:
  "condsToRecord None [OrCond [[ColumnCond (example_column ''a'') (Some (JInt 1))]], OrCond [[ColumnCond (example_column ''b'') (Some (JInt 2))]]]
    = Inr [(''__or__'', JArr [JObj [(''b'', JInt 2)]])]"
  by (simp add: example_column_def createColumn_def column_entry_def serializeCondValue_def is_token_def)

text \<open>A boolean interpolated into a condition leaves its placeholder unbound.\<close>

lemma boolean_in_condition_is_unbound:
  "bind_r (condsToRecord None [FragCond (sql_tag ['''', '' = '', ''''] [IColumn (example_column ''active''), IValue (JBool True)])])
     (\<lambda>r. Inr (where_text r)) = Inr (''active = ?'', [])"
  by code_simp

lemma null_in_typed_condition:
  "bind_r (condsToRecord None [TypedCond (sql_tag ['''', '' > ?''] [IColumn (example_column ''age'')]) (Some JNull)])
     (\<lambda>r. Inr (where_text r)) = Inr (''age > ? IS NULL'', [])"
  by code_simp

text \<open>Excluding nothing: \<open>NOT IN (NULL)\<close> holds of no row.\<close>

lemma excluding_nothing_matches_nothing: "where_text (col_notIn (example_column ''id'') []) = (''id NOT IN (NULL)'', [])"
  by code_simp

text \<open>
  The comparison helpers compile to their operators.  For a column whose name holds no placeholder
  and a value that is neither null, a boolean, a list nor a wrapper, each helper compiles to the column, its
  operator and the value bound once, through a cast if the column has one.
\<close>

theorem comparisons_compile_to_operators:
  assumes "plain_value v" and "columnName c \<noteq> []" and "qcount (columnName c) = 0" and "\<not> starts_with ''__'' (columnName c)"
    and "opr \<in> {''='', ''!='', ''>'', ''>='', ''<'', ''<=''}"
  shows "where_text (col_compare opr c v)
    = (columnName c @ '' '' @ opr @ '' ?'' @ (if sqlCast c = [] then [] else ''::'' @ sqlCast c), [v])"
proof (cases "sqlCast c = []")
  case True
  have opr: "opr \<noteq> []" "qcount opr = 0" using assms(5) by auto
  let ?key = "columnName c @ '' '' @ opr @ '' ?''"
  have "qcount ?key = 1" using assms(3) opr by simp
  moreover have "\<not> starts_with ''__'' ?key" using assms(4) by (cases "columnName c" rule: remdups_adj.cases) auto
  moreover have "?key \<noteq> ''__or__'' \<and> ?key \<noteq> ''__exists__'' \<and> ?key \<noteq> ''__subquery__'' \<and> ?key \<noteq> ''__raw__''"
    using calculation(2) by auto
  moreover have "columnName c \<noteq> ''__or__'' \<and> columnName c \<noteq> ''__exists__'' \<and> columnName c \<noteq> ''__subquery__'' \<and> columnName c \<noteq> ''__raw__''"
    using assms(4) by auto
  ultimately show ?thesis
    using assms(1-4) True
    by (cases v) (auto simp: where_text_def normalizeConditions_def col_compare_def plain_value_def compilePlain_def
        compileCustomOperator_def opname_def qcount_in_set Let_def)
next
  case False
  moreover have "columnName c \<noteq> ''__or__'' \<and> columnName c \<noteq> ''__exists__'' \<and> columnName c \<noteq> ''__subquery__'' \<and> columnName c \<noteq> ''__raw__''"
    using assms(4) by auto
  ultimately show ?thesis
    using assms
    by (simp add: where_text_def normalizeConditions_def col_compare_def opname_def Let_def DBCast_compile_def the_formatter_def
        defaultFormatter_def)
qed


section \<open>Witnesses\<close>

lemma fragments_are_balanced_witness:
  "(let f = sql_tag ['''', '' BETWEEN '', '' AND '', ''''] [IColumn (example_column ''age''), IValue (JInt 18), IValue (JInt 65)]
    in frag_sql f = ''age BETWEEN ? AND ?'' \<and> qcount (frag_sql f) = length (frag_params f))"
proof -
  have "frag_sql (sql_tag ['''', '' BETWEEN '', '' AND '', ''''] [IColumn (example_column ''age''), IValue (JInt 18), IValue (JInt 65)])
      = ''age BETWEEN ? AND ?''" by code_simp
  then show ?thesis
    using fragments_are_balanced [of "['''', '' BETWEEN '', '' AND '', '''']" "[IColumn (example_column ''age''), IValue (JInt 18), IValue (JInt 65)]"]
    by (simp add: wf_interpolation_def example_column_def createColumn_def Let_def)
qed

definition example_conditions :: "cond_elem list" where
  "example_conditions = [ColumnCond (example_column ''a'') (Some (JInt 1)), ColumnCond (example_column ''b'') None,
     RawCond ''c IS NULL'', OrCond [[ColumnCond (example_column ''d'') (Some JNull)], [TextCond ''e > ?'' (Some (JInt 2))]]]"

lemma example_entries:
  "map_r (cond_entry None) example_conditions = Inr [Some (''a'', JInt 1), None, Some (''c IS NULL'', JBool True),
     Some (''__or__'', JArr [JObj [(''d'', JNull)], JObj [(''e > ?'', JInt 2)]])]"
  by (simp add: example_conditions_def example_column_def createColumn_def column_entry_def serializeCondValue_def is_token_def)

lemma conditions_are_kept_witness:
  "bind_r (condsToRecord None example_conditions) (\<lambda>r. Inr (where_text r))
    = Inr (''a = ? AND c IS NULL AND ((d IS NULL) OR (e > ?))'', [JInt 1, JInt 2])"
proof -
  let ?kvs = "[(''a'', JInt 1), (''c IS NULL'', JBool True), (''__or__'', JArr [JObj [(''d'', JNull)], JObj [(''e > ?'', JInt 2)]])]"
  have kept: "kept [Some (''a'', JInt 1), None, Some (''c IS NULL'', JBool True),
     Some (''__or__'', JArr [JObj [(''d'', JNull)], JObj [(''e > ?'', JInt 2)]])] = ?kvs"
    by (simp add: kept_def List.map_filter_simps)
  have parts: "map (\<lambda>kv. compileCondition kv None []) ?kvs
      = [(''a = ?'', [JInt 1]), (''c IS NULL'', []), (''((d IS NULL) OR (e > ?))'', [JInt 2])]"
    by code_simp
  show ?thesis
    using conditions_are_kept [OF example_entries, of None "[]"] parts
    by (simp add: kept where_text_def)
qed

lemma comparisons_compile_to_operators_witness:
  "where_text (col_gte (example_column ''age'') (JInt 18)) = (''age >= ?'', [JInt 18])"
  using comparisons_compile_to_operators [of "JInt 18" "example_column ''age''" "''>=''"]
  by (simp add: plain_value_def example_column_def createColumn_def col_gte_def)

end
