(* ===== verification/ModelMeta.thy ===== *)
theory ModelMeta
  imports Columns Projection PgBuilder
begin

text \<open>
  \<open>src/decorators.ts\<close>: the metadata of columns, the serializers and read casts of the column families,
  the primary key, and the serialization of a record; the array literals of \<open>src/TypeCast.ts\<close>,
  \<open>drivers/PostgresHelper.ts\<close> and \<open>drivers/PostgresSqlBuilder.ts\<close>.  A driver's type cast is known by its
  dialect.
\<close>

section \<open>PostgreSQL array literals\<close>

definition array_escape :: "string \<Rightarrow> string" where
  "array_escape s = concat (map (\<lambda>c. if c = CHR 0x5C \<or> c = CHR 0x22 then [CHR 0x5C, c] else [c]) s)"

definition array_quoted :: "string \<Rightarrow> bool" where
  "array_quoted s \<longleftrightarrow> (\<exists>c \<in> set s. c \<in> {CHR '','', CHR ''{'', CHR ''}'', CHR 0x22, CHR '' ''})"

definition array_element :: "jsval \<Rightarrow> string" where
  "array_element v = (case v of
      JNull \<Rightarrow> ''NULL''
    | JStr s \<Rightarrow> (if array_quoted s then CHR 0x22 # array_escape s @ [CHR 0x22] else array_escape s)
    | _ \<Rightarrow> js_string v)"

definition array_literal :: "jsval list \<Rightarrow> string" where
  "array_literal vs = CHR ''{'' # join '','' (map array_element vs) @ ''}''"

text \<open>The loop of \<open>parsePostgresArray\<close>: the elements so far, the current text, inside quotes, after a backslash.\<close>

fun parse_elements :: "string list \<Rightarrow> string \<Rightarrow> bool \<Rightarrow> bool \<Rightarrow> string \<Rightarrow> string list" where
  "parse_elements result current inQuotes escaped [] =
     (if current \<noteq> [] \<or> length result > 0 then result @ [current] else result)"
| "parse_elements result current inQuotes escaped (c # cs) =
     (if escaped then parse_elements result (current @ [c]) inQuotes False cs
      else if c = CHR 0x5C then parse_elements result current inQuotes True cs
      else if c = CHR 0x22 then parse_elements result current (\<not> inQuotes) escaped cs
      else if c = CHR '','' \<and> \<not> inQuotes then parse_elements (result @ [current]) [] inQuotes escaped cs
      else parse_elements result (current @ [c]) inQuotes escaped cs)"

definition strip_braces :: "string \<Rightarrow> string" where
  "strip_braces s = (if starts_with ''{'' s \<and> ends_with ''}'' s then butlast (tl s) else s)"

definition parsePostgresArray :: "string \<Rightarrow> string list" where
  "parsePostgresArray literal =
     (if literal = [] \<or> literal = ''{}'' then []
      else let content = strip_braces (trim literal) in if content = [] then [] else parse_elements [] [] False False content)"

section \<open>Serializers\<close>

definition serializeArray :: serializer where
  "serializeArray v tc = (case v of
      JNull \<Rightarrow> Inr JNull
    | JUndef \<Rightarrow> Inr JNull
    | JArr vs \<Rightarrow>
        (case tc of
           Some Mysql \<Rightarrow> json_stringify v
         | Some Sqlite \<Rightarrow> json_stringify v
         | _ \<Rightarrow> Inr (JStr (array_literal vs)))
    | _ \<Rightarrow> Inr v)"

definition js_truthy :: "jsval \<Rightarrow> bool" where
  "js_truthy v = (case v of JUndef \<Rightarrow> False | JNull \<Rightarrow> False | JBool b \<Rightarrow> b | JInt i \<Rightarrow> i \<noteq> 0 | JNonFin s \<Rightarrow> s \<noteq> ''NaN''
     | JBig i \<Rightarrow> i \<noteq> 0 | JStr s \<Rightarrow> s \<noteq> [] | _ \<Rightarrow> True)"

definition serializeBooleanArray :: serializer where
  "serializeBooleanArray v tc = (case v of
      JNull \<Rightarrow> Inr JNull
    | JUndef \<Rightarrow> Inr JNull
    | JArr vs \<Rightarrow>
        (case tc of
           Some Mysql \<Rightarrow> json_stringify v
         | Some Sqlite \<Rightarrow> json_stringify v
         | _ \<Rightarrow> Inr (JStr (CHR ''{'' # join '','' (map (\<lambda>v. if v = JNull then ''NULL'' else if js_truthy v then ''t'' else ''f'') vs) @ ''}'')))
    | _ \<Rightarrow> Inr v)"

definition serializeJson :: serializer where
  "serializeJson v tc = (case v of
      JNull \<Rightarrow> Inr JNull
    | JUndef \<Rightarrow> Inr JNull
    | JStr s \<Rightarrow> if tc = None then Inr v else json_stringify v
    | _ \<Rightarrow> json_stringify v)"

definition serializeDatetime :: serializer where
  "serializeDatetime v tc = (case v of
      JNull \<Rightarrow> Inr JNull
    | JUndef \<Rightarrow> Inr JNull
    | JDate iso_text _ \<Rightarrow> Inr (if tc = Some Postgres then JStr iso_text else v)
    | _ \<Rightarrow> Inr v)"

definition rejectNonText :: "string \<Rightarrow> serializer" where
  "rejectNonText family v tc = (case v of
      JNull \<Rightarrow> Inr JNull
    | JUndef \<Rightarrow> Inr JNull
    | JDate _ _ \<Rightarrow> Inl (OtherError (family @ '' received a Date''))
    | JArr _ \<Rightarrow> Inl (OtherError (family @ '' received an object''))
    | JObj _ \<Rightarrow> Inl (OtherError (family @ '' received an object''))
    | JTok _ \<Rightarrow> Inl (OtherError (family @ '' received an object''))
    | JCond _ \<Rightarrow> Inl (OtherError (family @ '' received an object''))
    | _ \<Rightarrow> Inr v)"

section \<open>Read casts\<close>

type_synonym read_cast = "jsval \<Rightarrow> scp_error + jsval"

definition materializeString :: "string \<Rightarrow> read_cast" where
  "materializeString family v = (case v of
      JUndef \<Rightarrow> Inr v | JNull \<Rightarrow> Inr v | JStr _ \<Rightarrow> Inr v
    | JInt _ \<Rightarrow> Inr (JStr (js_string v)) | JFrac _ \<Rightarrow> Inr (JStr (js_string v)) | JNonFin _ \<Rightarrow> Inr (JStr (js_string v))
    | JBig _ \<Rightarrow> Inr (JStr (js_string v)) | JBool _ \<Rightarrow> Inr (JStr (js_string v))
    | _ \<Rightarrow> Inl (BadCell family))"

text \<open>The casts of PostgreSQL's helper, for a native array or its text.\<close>

definition castToBoolean :: "jsval \<Rightarrow> jsval" where
  "castToBoolean v = (case v of
      JBool b \<Rightarrow> v
    | JStr s \<Rightarrow> (let l = map lower s in if l \<in> {''true'', ''t'', ''1''} then JBool True
        else if l \<in> {''false'', ''f'', ''0''} then JBool False else JNull)
    | JInt i \<Rightarrow> JBool (i \<noteq> 0) | JFrac _ \<Rightarrow> JBool True | JNonFin _ \<Rightarrow> JBool True
    | _ \<Rightarrow> JNull)"

definition js_parseInt :: "string \<Rightarrow> int option" where
  "js_parseInt s =
     (let t = dropWhile is_space s;
          neg = (case t of c # _ \<Rightarrow> c = CHR ''-'' | [] \<Rightarrow> False);
          r = (case t of c # u \<Rightarrow> if c = CHR ''-'' \<or> c = CHR ''+'' then u else t | [] \<Rightarrow> []);
          ds = takeWhile is_digit r
      in if ds = [] then None else Some (if neg then - parse_nat ds else parse_nat ds))"

definition int_or_zero :: "string \<Rightarrow> jsval" where
  "int_or_zero s = JInt (case js_parseInt s of None \<Rightarrow> 0 | Some i \<Rightarrow> i)"

definition castToIntegerArray :: "jsval \<Rightarrow> jsval list" where
  "castToIntegerArray v = (case v of
      JArr vs \<Rightarrow> map (\<lambda>x. case x of JInt _ \<Rightarrow> x | JFrac _ \<Rightarrow> x | JNonFin _ \<Rightarrow> x | _ \<Rightarrow> int_or_zero (js_string x)) vs
    | JStr s \<Rightarrow> map int_or_zero (parsePostgresArray s)
    | _ \<Rightarrow> [])"

definition castToStringArray :: "jsval \<Rightarrow> jsval list" where
  "castToStringArray v = (case v of
      JArr vs \<Rightarrow> map (\<lambda>x. JStr (js_string x)) vs
    | JStr s \<Rightarrow> map JStr (parsePostgresArray s)
    | _ \<Rightarrow> [])"

definition castToBooleanArray :: "jsval \<Rightarrow> jsval list" where
  "castToBooleanArray v = (case v of
      JArr vs \<Rightarrow> map castToBoolean vs
    | JStr s \<Rightarrow> map (\<lambda>x. castToBoolean (JStr x)) (parsePostgresArray s)
    | _ \<Rightarrow> [])"

section \<open>Column metadata\<close>

record column_meta =
  cm_columnName :: string
  cm_typeCast :: "read_cast option"
  cm_serialize :: "serializer option"
  cm_primaryKey :: bool
  cm_autoIncrement :: bool
  cm_sqlCast :: string
  cm_baseSqlType :: "string option"

text \<open>The argument of a family: nothing, a column name or options.\<close>

datatype column_arg = NoArg | NameArg string | OptionsArg string bool bool

text \<open>A family: its read cast, serializer, SQL cast and base type.\<close>

record family =
  fam_cast :: "read_cast option"
  fam_serialize :: "serializer option"
  fam_sqlCast :: string
  fam_base :: "string option"

definition parseColumnOptions :: "column_arg \<Rightarrow> string \<Rightarrow> string \<times> bool \<times> bool" where
  "parseColumnOptions arg propKey = (case arg of
      NameArg n \<Rightarrow> (n, False, False)
    | OptionsArg n pk inc \<Rightarrow> (if n = [] then propKey else n, pk, inc)
    | NoArg \<Rightarrow> (propKey, False, False))"

type_synonym columns_map = "(string \<times> column_meta) list"

definition registerColumn :: "family \<Rightarrow> column_arg \<Rightarrow> string \<Rightarrow> columns_map \<Rightarrow> columns_map" where
  "registerColumn fam arg propKey m = (case parseColumnOptions arg propKey of (n, pk, inc) \<Rightarrow>
     obj_set m propKey \<lparr>cm_columnName = n, cm_typeCast = fam_cast fam, cm_serialize = fam_serialize fam, cm_primaryKey = pk,
       cm_autoIncrement = inc, cm_sqlCast = fam_sqlCast fam, cm_baseSqlType = fam_base fam\<rparr>)"

definition text_family :: family where
  "text_family = \<lparr>fam_cast = Some (materializeString ''text''), fam_serialize = Some (rejectNonText ''text''), fam_sqlCast = [],
     fam_base = Some ''TEXT''\<rparr>"

definition decimal_family :: family where
  "decimal_family = \<lparr>fam_cast = Some (materializeString ''decimal''), fam_serialize = Some (rejectNonText ''decimal''),
     fam_sqlCast = ''numeric'', fam_base = None\<rparr>"

definition present_cell :: "materialize_class \<Rightarrow> read_cast" where
  "present_cell k v = (if v = JUndef then Inr JUndef else materializeCell v k)"

definition boolean_family :: family where
  "boolean_family = \<lparr>fam_cast = Some (present_cell MBool), fam_serialize = None, fam_sqlCast = ''boolean'', fam_base = None\<rparr>"

definition bigint_family :: family where
  "bigint_family = \<lparr>fam_cast = Some (present_cell MInt), fam_serialize = None, fam_sqlCast = ''bigint'', fam_base = None\<rparr>"

definition datetime_family :: family where
  "datetime_family = \<lparr>fam_cast = Some (present_cell MDate), fam_serialize = Some serializeDatetime, fam_sqlCast = ''timestamp'', fam_base = None\<rparr>"

definition array_cell :: "(jsval \<Rightarrow> jsval list) \<Rightarrow> read_cast" where
  "array_cell f v = (if nullish v then Inr v else Inr (JArr (f v)))"

text \<open>The read cast of a string array with PostgreSQL's helper installed.\<close>

definition stringArray_family :: family where
  "stringArray_family = \<lparr>fam_cast = Some (array_cell castToStringArray), fam_serialize = Some serializeArray, fam_sqlCast = ''text[]'', fam_base = None\<rparr>"

definition intArray_family :: family where
  "intArray_family = \<lparr>fam_cast = Some (array_cell castToIntegerArray), fam_serialize = Some serializeArray, fam_sqlCast = ''int[]'', fam_base = None\<rparr>"

definition booleanArray_family :: family where
  "booleanArray_family = \<lparr>fam_cast = Some (array_cell castToBooleanArray), fam_serialize = Some serializeBooleanArray, fam_sqlCast = ''boolean[]'', fam_base = None\<rparr>"

definition uuid_family :: family where
  "uuid_family = \<lparr>fam_cast = Some (\<lambda>v. Inr (if nullish v then v else JStr (js_string v))), fam_serialize = Some (rejectNonText ''uuid''),
     fam_sqlCast = ''uuid'', fam_base = None\<rparr>"

definition passthrough_family :: family where
  "passthrough_family = \<lparr>fam_cast = None, fam_serialize = None, fam_sqlCast = [], fam_base = None\<rparr>"

section \<open>Model classes\<close>

definition getModelColumnNames :: "columns_map \<Rightarrow> string list" where
  "getModelColumnNames m = map (\<lambda>(_, c). cm_columnName c) m"

record primary_key =
  propKeys :: "string list"
  pk_columns :: "string list"
  autoInc :: "string option"
  declared :: bool

definition autoIncOf :: "columns_map option \<Rightarrow> string list \<Rightarrow> string option" where
  "autoIncOf meta cols = (case meta of
      None \<Rightarrow> None
    | Some m \<Rightarrow> map_option (\<lambda>(_, c). cm_columnName c) (find (\<lambda>(_, c). cm_autoIncrement c \<and> cm_columnName c \<in> set cols) m))"

definition getPrimaryKey :: "columns_map option \<Rightarrow> string list option \<Rightarrow> primary_key" where
  "getPrimaryKey meta explicit =
     (case explicit of
        Some (c # cs) \<Rightarrow> \<lparr>propKeys = c # cs, pk_columns = c # cs, autoInc = autoIncOf meta (c # cs), declared = True\<rparr>
      | _ \<Rightarrow>
        (let keyed = (case meta of None \<Rightarrow> [] | Some m \<Rightarrow> filter (\<lambda>(_, c). cm_primaryKey c) m);
             cols = map (\<lambda>(_, c). cm_columnName c) keyed
         in if cols \<noteq> [] then \<lparr>propKeys = map fst keyed, pk_columns = cols, autoInc = autoIncOf meta cols, declared = True\<rparr>
            else \<lparr>propKeys = [''id''], pk_columns = [''id''], autoInc = Some ''id'', declared = False\<rparr>))"

text \<open>The lookup maps, by property and by column name; a later entry overwrites an earlier one.\<close>

definition lookup_map :: "(column_meta \<Rightarrow> 'a option) \<Rightarrow> columns_map \<Rightarrow> (string \<times> 'a) list" where
  "lookup_map field m = fold (\<lambda>(propKey, c) r. case field c of
      None \<Rightarrow> r
    | Some x \<Rightarrow> (let r1 = obj_set r propKey x in if cm_columnName c \<noteq> propKey then obj_set r1 (cm_columnName c) x else r1)) m []"

definition getSerializeMap :: "columns_map \<Rightarrow> (string \<times> serializer) list" where
  "getSerializeMap = lookup_map cm_serialize"

definition getSqlCastMap :: "columns_map \<Rightarrow> (string \<times> string) list" where
  "getSqlCastMap = lookup_map (\<lambda>c. if cm_sqlCast c = [] then None else Some (cm_sqlCast c))"

definition serializeRecord :: "columns_map \<Rightarrow> jsobj \<Rightarrow> dialect option \<Rightarrow> scp_error + jsobj" where
  "serializeRecord m r tc =
     map_r (\<lambda>(k, v). case map_of (getSerializeMap m) k of
        None \<Rightarrow> Inr (k, v)
      | Some f \<Rightarrow> bind_r (f v tc) (\<lambda>w. Inr (k, w))) r"

definition model_columns :: "string \<Rightarrow> string \<Rightarrow> columns_map \<Rightarrow> (string \<times> model_column) list" where
  "model_columns table model m = map (\<lambda>(propKey, c).
     (propKey, createColumn (cm_columnName c) table model (Some propKey) (cm_sqlCast c) (cm_serialize c))) m"

text \<open>\<open>typeCastFromDB\<close> of a decorated class, over the fields of an instance.\<close>

definition typeCastFromDB :: "columns_map \<Rightarrow> jsobj \<Rightarrow> scp_error + jsobj" where
  "typeCastFromDB m row = fold (\<lambda>(propKey, c) acc. case cm_typeCast c of
      None \<Rightarrow> acc
    | Some f \<Rightarrow> bind_r acc (\<lambda>r. bind_r (f (js_get r propKey)) (\<lambda>w. Inr (obj_set r propKey w)))) m (Inr row)"

section \<open>The array literal round trip\<close>

lemma array_escape_simps:
  "array_escape [] = []"
  "array_escape (c # s) = (if c = CHR 0x5C \<or> c = CHR 0x22 then [CHR 0x5C, c] else [c]) @ array_escape s"
  by (simp_all add: array_escape_def)

lemma array_quoted_Cons:
  "array_quoted (c # s) \<longleftrightarrow> c \<in> {CHR '','', CHR ''{'', CHR ''}'', CHR 0x22, CHR '' ''} \<or> array_quoted s"
  by (simp add: array_quoted_def)

lemma parse_escaped:
  assumes "inQuotes \<or> \<not> array_quoted s"
  shows "parse_elements result current inQuotes False (array_escape s @ rest)
    = parse_elements result (current @ s) inQuotes False rest"
  using assms
proof (induction s arbitrary: current)
  case Nil
  show ?case by (simp add: array_escape_simps)
next
  case (Cons c s)
  have rest: "parse_elements result (current @ [c]) inQuotes False (array_escape s @ rest)
      = parse_elements result (current @ c # s) inQuotes False rest"
    using Cons.IH [of "current @ [c]"] Cons.prems by (auto simp: array_quoted_Cons)
  show ?case
  proof (cases "c = CHR 0x5C \<or> c = CHR 0x22")
    case True
    then show ?thesis using rest by (simp add: array_escape_simps)
  next
    case False
    then have "array_escape (c # s) @ rest = c # array_escape s @ rest" by (simp add: array_escape_simps)
    moreover have "\<not> (c = CHR '','' \<and> \<not> inQuotes)" using Cons.prems by (auto simp: array_quoted_Cons)
    ultimately have "parse_elements result current inQuotes False (array_escape (c # s) @ rest)
        = parse_elements result (current @ [c]) inQuotes False (array_escape s @ rest)"
      using False by (simp only: parse_elements.simps if_False de_Morgan_disj)
    then show ?thesis using rest by simp
  qed
qed

lemma parse_element:
  "parse_elements result current False False (array_element (JStr s) @ rest) = parse_elements result (current @ s) False False rest"
proof (cases "array_quoted s")
  case True
  then show ?thesis using parse_escaped [of True s result current "CHR 0x22 # rest"] by (simp add: array_element_def)
next
  case False
  then show ?thesis using parse_escaped [of False s] by (simp add: array_element_def)
qed

lemma parse_comma:
  "parse_elements result current False False (CHR '','' # rest) = parse_elements (result @ [current]) [] False False rest"
  by simp

lemma parse_joined:
  "parse_elements result current False False (join '','' (map (\<lambda>s. array_element (JStr s)) (s # ss)))
    = (if result = [] \<and> current = [] \<and> s = [] \<and> ss = [] then [] else result @ (current @ s) # ss)"
proof (induction ss arbitrary: result current s)
  case Nil
  show ?case using parse_element [of result current s "[]"] by simp
next
  case (Cons t ss)
  have split: "join '','' (map (\<lambda>s. array_element (JStr s)) (s # t # ss))
      = array_element (JStr s) @ CHR '','' # join '','' (map (\<lambda>s. array_element (JStr s)) (t # ss))"
    by simp
  show ?case unfolding split parse_element parse_comma Cons.IH by simp
qed

lemma strip_literal: "strip_braces (trim (CHR ''{'' # s @ ''}'')) = s"
proof -
  have "trim (CHR ''{'' # s @ ''}'') = CHR ''{'' # s @ ''}''"
    by (rule trim_keeps) (simp_all add: is_space_def)
  then show ?thesis by (simp add: strip_braces_def ends_with_def)
qed

text \<open>
  C39. PostgreSQL array literals read back.  The literal of a list of strings, quoted and escaped as
  the serializer does, parses to the list, except for the list of one empty string.
\<close>

theorem array_literal_round_trip:
  assumes "ss \<noteq> [[]]"
  shows "serializeArray (JArr (map JStr ss)) (Some Postgres) = Inr (JStr (array_literal (map JStr ss)))
    \<and> parsePostgresArray (array_literal (map JStr ss)) = ss"
proof (cases ss)
  case Nil
  then show ?thesis by (simp add: serializeArray_def parsePostgresArray_def array_literal_def)
next
  case (Cons s ts)
  let ?content = "join '','' (map (\<lambda>s. array_element (JStr s)) (s # ts))"
  have parsed: "parse_elements [] [] False False ?content = s # ts"
    unfolding parse_joined using assms Cons by auto
  then have "?content \<noteq> []" by (metis list.discI list.size(3) not_less_zero parse_elements.simps(1))
  then have "CHR ''{'' # ?content @ ''}'' \<noteq> ''{}''" by simp
  then have "parsePostgresArray (CHR ''{'' # ?content @ ''}'') = s # ts"
    unfolding parsePostgresArray_def strip_literal Let_def parsed using \<open>?content \<noteq> []\<close> by simp
  then show ?thesis by (simp add: Cons serializeArray_def array_literal_def comp_def)
qed

lemma array_literal_round_trip_witness:
  "array_literal [JStr ''a b'', JStr ''c'', JStr ''{1,2}''] = CHR ''{'' # CHR 0x22 # ''a b'' @ CHR 0x22 # '',c,'' @ CHR 0x22 # ''{1,2}'' @ [CHR 0x22, CHR ''}'']
    \<and> parsePostgresArray (array_literal [JStr ''a b'', JStr ''c'', JStr ''{1,2}'']) = [''a b'', ''c'', ''{1,2}'']"
proof -
  have "array_literal [JStr ''a b'', JStr ''c'', JStr ''{1,2}''] = CHR ''{'' # CHR 0x22 # ''a b'' @ CHR 0x22 # '',c,'' @ CHR 0x22 # ''{1,2}'' @ [CHR 0x22, CHR ''}'']"
    by code_simp
  then show ?thesis using array_literal_round_trip [of "[''a b'', ''c'', ''{1,2}'']"] by simp
qed

text \<open>
  The string \<open>NULL\<close> is written as the null element is; the list of one empty string is written as the empty
  list is.
\<close>

lemma array_literals_collide:
  "array_literal [JStr ''NULL''] = array_literal [JNull]"
  "array_literal [JStr []] = array_literal []"
  by (simp_all add: array_literal_def array_element_def array_escape_def array_quoted_def)

text \<open>A null element of a native array is read as the text \<open>null\<close>.\<close>

lemma null_element_is_read_as_text: "castToStringArray (JArr [JStr ''a'', JNull]) = [JStr ''a'', JStr ''null'']"
  by (simp add: castToStringArray_def)

section \<open>Records and keys\<close>

text \<open>A wrapper cannot be written to a text column: the serializer refuses every object.\<close>

lemma wrapper_is_refused_by_text_column:
  "serializeRecord (registerColumn text_family NoArg ''name'' []) [(''name'', JTok (DBRawValue ''UPPER(name)''))] tc
    = Inl (OtherError ''text received an object'')"
  by (simp add: serializeRecord_def registerColumn_def parseColumnOptions_def text_family_def getSerializeMap_def lookup_map_def
      rejectNonText_def)

text \<open>A property named like the column of another property lends that column its serializer.\<close>

definition crossed_columns :: columns_map where
  "crossed_columns = registerColumn text_family (NameArg ''a'') ''b'' (registerColumn boolean_family (NameArg ''b'') ''a'' [])"

lemma serializer_of_another_property:
  "map_of (getSqlCastMap crossed_columns) ''a'' = Some ''boolean''"
  by (simp add: crossed_columns_def getSqlCastMap_def lookup_map_def registerColumn_def parseColumnOptions_def text_family_def
      boolean_family_def)

lemma lookup_map_untouched:
  "\<forall>(p, c) \<in> set m. p \<noteq> k \<and> cm_columnName c \<noteq> k \<Longrightarrow>
    map_of (fold (\<lambda>(propKey, c) r. case field c of
      None \<Rightarrow> r
    | Some x \<Rightarrow> (let r1 = obj_set r propKey x in if cm_columnName c \<noteq> propKey then obj_set r1 (cm_columnName c) x else r1)) m r) k
    = map_of r k"
  by (induction m arbitrary: r) (auto simp: map_of_obj_set Let_def split: option.splits prod.splits)

end
