(* ===== verification/ModelSelect.thy ===== *)
theory ModelSelect
  imports ModelMeta CompileCrud LimitConfig
begin

text \<open>
  The reads of \<open>src/DBModel.ts\<close>: the class of a model with its query, the SELECT builders, \<open>find\<close>,
  \<open>findOne\<close>, \<open>findById\<close>, \<open>count\<close>, \<open>reload\<close>, the read of a relation with its limit, the subquery
  helpers and the key of an instance.  The execution of a statement is an argument; an instance is the
  object of its fields.
\<close>

section \<open>Model classes\<close>

datatype group_spec = NoGroup | GroupText string | GroupColumns "model_column list" | GroupColumn model_column

datatype query_spec = QueryText string | QueryFragment fragment

text \<open>\<open>driver_type\<close> is the dialect of the class's handler, absent before it is initialised.\<close>

record model_class =
  mc_name :: string
  TABLE_NAME :: string
  UPDATE_TABLE_NAME :: "string option"
  SELECT_COLUMN :: string
  DEFAULT_ORDER :: order_spec
  DEFAULT_GROUP :: group_spec
  FIND_FILTER :: "cond_elem list option"
  QUERY :: "query_spec option"
  queryParams :: "jsval list option"
  PKEY_COLUMNS :: "model_column list option"
  mc_columns :: "columns_map option"
  mc_statics :: "(string \<times> model_column) list"
  driver_type :: "dialect option"

definition getCTEAlias :: "model_class \<Rightarrow> string" where
  "getCTEAlias c = (if TABLE_NAME c = [] then ''derived'' else TABLE_NAME c)"

definition isQueryBased :: "model_class \<Rightarrow> bool" where
  "isQueryBased c \<longleftrightarrow> QUERY c \<noteq> None"

definition getQuerySQL :: "model_class \<Rightarrow> string option" where
  "getQuerySQL c = (case QUERY c of None \<Rightarrow> None | Some (QueryText s) \<Rightarrow> Some s | Some (QueryFragment f) \<Rightarrow> Some (frag_sql f))"

definition or_empty :: "jsval list option \<Rightarrow> jsval list" where
  "or_empty v = (case v of None \<Rightarrow> [] | Some ps \<Rightarrow> ps)"

definition getQueryParams :: "model_class \<Rightarrow> jsval list" where
  "getQueryParams c = (case QUERY c of
      Some (QueryFragment f) \<Rightarrow> frag_params f @ or_empty (queryParams c)
    | _ \<Rightarrow> or_empty (queryParams c))"

definition resolveQuery :: "model_class \<Rightarrow> (string \<times> jsval list) option" where
  "resolveQuery c = map_option (\<lambda>s. (s, getQueryParams c)) (getQuerySQL c)"

text \<open>\<open>withQuery\<close>: a subclass bound to a query.\<close>

definition withQuery :: "model_class \<Rightarrow> string \<Rightarrow> jsval list option \<Rightarrow> model_class" where
  "withQuery c s ps = c\<lparr>QUERY := Some (QueryText s), queryParams := ps\<rparr>"

definition getUpdateTableName :: "model_class \<Rightarrow> scp_error + string" where
  "getUpdateTableName c =
     (if (case QUERY c of None \<Rightarrow> False | Some (QueryText s) \<Rightarrow> s \<noteq> [] | Some _ \<Rightarrow> True)
      then Inl (OtherError ''Query-based models cannot be updated or deleted directly'')
      else Inr (case UPDATE_TABLE_NAME c of None \<Rightarrow> TABLE_NAME c | Some t \<Rightarrow> t))"

definition getGroupByClause :: "model_class \<Rightarrow> string" where
  "getGroupByClause c = (case DEFAULT_GROUP c of
      NoGroup \<Rightarrow> [] | GroupText s \<Rightarrow> s | GroupColumns cs \<Rightarrow> join '', '' (columnsToNames cs) | GroupColumn g \<Rightarrow> columnName g)"

definition model_formatter :: "model_class \<Rightarrow> formatter option" where
  "model_formatter c = map_option formatterFor (driver_type c)"

text \<open>\<open>mc_statics\<close> holds the columns the decorator put on the class, by property.\<close>

definition getPkeyColumnsWithDefault :: "model_class \<Rightarrow> model_column list" where
  "getPkeyColumnsWithDefault c = (case PKEY_COLUMNS c of
      Some cs \<Rightarrow> cs
    | None \<Rightarrow>
        (let pk = getPrimaryKey (mc_columns c) None;
             cols = (if declared pk then List.map_filter (map_of (mc_statics c)) (propKeys pk) else [])
         in if cols = [] then map (\<lambda>n. createColumn n (TABLE_NAME c) (mc_name c) None [] None) (pk_columns pk) else cols))"

section \<open>SELECT\<close>

text \<open>The optional texts are empty when absent; a limit or offset may be 0.\<close>

record read_opts =
  ro_order :: order_spec
  ro_limit :: "int option"
  ro_offset :: "int option"
  ro_select :: string
  ro_group :: string
  ro_tableName :: string
  ro_append :: string
  ro_forUpdate :: bool
  ro_forShare :: bool
  ro_join :: string
  ro_joinParams :: "jsval list"
  ro_cte :: "cte option"

definition no_opts :: read_opts where
  "no_opts = \<lparr>ro_order = NoOrder, ro_limit = None, ro_offset = None, ro_select = [], ro_group = [], ro_tableName = [],
     ro_append = [], ro_forUpdate = False, ro_forShare = False, ro_join = [], ro_joinParams = [], ro_cte = None\<rparr>"

definition or_text :: "string \<Rightarrow> string \<Rightarrow> string" where
  "or_text s t = (if s = [] then t else s)"

text \<open>
  The order of the options, in a template: an array is joined by commas without a space, and an empty one is
  true.
\<close>

definition order_text :: "order_spec \<Rightarrow> string option" where
  "order_text o1 = (case o1 of
      NoOrder \<Rightarrow> None
    | OrderText s \<Rightarrow> if s = [] then None else Some s
    | OrderOne oc \<Rightarrow> Some (order_column_string oc)
    | OrderMany ocs \<Rightarrow> Some (join '','' (map order_column_string ocs)))"

definition order_clause :: "model_class \<Rightarrow> order_spec \<Rightarrow> string" where
  "order_clause c o1 = (case order_text o1 of
      Some s \<Rightarrow> '' ORDER BY '' @ s
    | None \<Rightarrow> opt_text '' ORDER BY '' (orderToString (DEFAULT_ORDER c)))"

definition number_text :: "string \<Rightarrow> int option \<Rightarrow> string" where
  "number_text word n = (case n of None \<Rightarrow> [] | Some i \<Rightarrow> word @ show_int i)"

text \<open>The WHERE tree of a read: the conditions with the filter of the class added.\<close>

definition filtered_conditions :: "model_class \<Rightarrow> jsobj \<Rightarrow> scp_error + conds" where
  "filtered_conditions c conditions = (case FIND_FILTER c of
      None \<Rightarrow> Inr (normalizeConditions (Inr conditions))
    | Some f \<Rightarrow> bind_r (condsToRecord (driver_type c) f) (\<lambda>r. Inr (conds_add (normalizeConditions (Inr conditions)) (and_conditions r) And)))"

definition with_clause :: "model_class \<Rightarrow> cte option \<Rightarrow> string" where
  "with_clause c ct =
     (let q = (case getQuerySQL c of Some s \<Rightarrow> if s = [] then [] else getCTEAlias c @ '' AS ('' @ s @ '') '' | None \<Rightarrow> []) in
      case ct of
        None \<Rightarrow> if q = [] then [] else ''WITH '' @ q
      | Some t \<Rightarrow> ''WITH '' @ cteName t @ '' AS ('' @ cteSql t @ '')'' @ (if q = [] then '' '' else '', '' @ q))"

definition build_select :: "model_class \<Rightarrow> jsobj \<Rightarrow> read_opts \<Rightarrow> scp_error + string \<times> jsval list" where
  "build_select c conditions opts =
     (let table = or_text (ro_tableName opts) (if isQueryBased c then getCTEAlias c else TABLE_NAME c);
          ps0 = (case ro_cte opts of None \<Rightarrow> [] | Some t \<Rightarrow> cteParams t) @ getQueryParams c @ ro_joinParams opts
      in bind_r (filtered_conditions c conditions) (\<lambda>tree.
         let (w, ps) = conds_compile tree (model_formatter c) ps0 in
         bind_r (lockTail (ro_forUpdate opts) (ro_forShare opts)) (\<lambda>lock.
           Inr (with_clause c (ro_cte opts)
             @ ''SELECT '' @ or_text (ro_select opts) (SELECT_COLUMN c) @ '' FROM '' @ table
             @ opt_text '' '' (ro_join opts) @ opt_text '' WHERE '' w
             @ opt_text '' GROUP BY '' (or_text (ro_group opts) (getGroupByClause c))
             @ order_clause c (ro_order opts)
             @ number_text '' LIMIT '' (ro_limit opts) @ number_text '' OFFSET '' (ro_offset opts)
             @ lock @ opt_text '' '' (ro_append opts), ps))))"

text \<open>The public builder: no filter, no query, no default order or group, no lock; it appends to given values.\<close>

definition buildSelectSQL :: "model_class \<Rightarrow> jsobj \<Rightarrow> read_opts \<Rightarrow> jsval list \<Rightarrow> string \<times> jsval list" where
  "buildSelectSQL c conditions opts ps0 =
     (let (w, ps) = conds_compile (normalizeConditions (Inr conditions)) (model_formatter c)
            (ps0 @ (case ro_cte opts of None \<Rightarrow> [] | Some t \<Rightarrow> cteParams t) @ ro_joinParams opts)
      in ((case ro_cte opts of None \<Rightarrow> [] | Some t \<Rightarrow> ''WITH '' @ cteName t @ '' AS ('' @ cteSql t @ '') '')
           @ ''SELECT '' @ or_text (ro_select opts) (SELECT_COLUMN c) @ '' FROM '' @ or_text (ro_tableName opts) (TABLE_NAME c)
           @ opt_text '' '' (ro_join opts) @ opt_text '' WHERE '' w @ opt_text '' GROUP BY '' (ro_group opts)
           @ opt_text '' ORDER BY '' (orderToString (ro_order opts))
           @ number_text '' LIMIT '' (ro_limit opts) @ number_text '' OFFSET '' (ro_offset opts)
           @ opt_text '' '' (ro_append opts), ps))"

definition build_count :: "model_class \<Rightarrow> jsobj \<Rightarrow> string \<Rightarrow> scp_error + string \<times> jsval list" where
  "build_count c conditions table =
     bind_r (filtered_conditions c conditions) (\<lambda>tree.
       let (w, ps) = conds_compile tree (model_formatter c) (getQueryParams c) in
       Inr (with_clause c None @ ''SELECT COUNT(*) as count FROM ''
         @ or_text table (if isQueryBased c then getCTEAlias c else TABLE_NAME c) @ opt_text '' WHERE '' w, ps))"

definition mergeFindFilter :: "model_class \<Rightarrow> jsobj \<Rightarrow> scp_error + jsobj" where
  "mergeFindFilter c conditions = (case FIND_FILTER c of
      None \<Rightarrow> Inr conditions
    | Some f \<Rightarrow> bind_r (condsToRecord (driver_type c) f) (\<lambda>r. Inr (obj_spread conditions r)))"

section \<open>Reading\<close>

type_synonym 's executor = "string \<Rightarrow> jsval list \<Rightarrow> 's \<Rightarrow> (scp_error + jsobj list) \<times> 's"

definition createInstance :: "model_class \<Rightarrow> jsobj \<Rightarrow> scp_error + jsobj" where
  "createInstance c row = (case mc_columns c of None \<Rightarrow> Inr row | Some m \<Rightarrow> typeCastFromDB m row)"

definition model_query :: "model_class \<Rightarrow> 's executor \<Rightarrow> string \<Rightarrow> jsval list \<Rightarrow> 's \<Rightarrow> (scp_error + jsobj list) \<times> 's" where
  "model_query c run s ps st = (case run s ps st of
      (Inl e, st') \<Rightarrow> (Inl e, st')
    | (Inr rows, st') \<Rightarrow> (map_r (createInstance c) rows, st'))"

definition model_select :: "model_class \<Rightarrow> 's executor \<Rightarrow> jsobj \<Rightarrow> read_opts \<Rightarrow> 's \<Rightarrow> (scp_error + jsobj list) \<times> 's" where
  "model_select c run conditions opts st = (case build_select c conditions opts of
      Inl e \<Rightarrow> (Inl e, st)
    | Inr (s, ps) \<Rightarrow> model_query c run s ps st)"

text \<open>A limit counts unless it is absent or 0.\<close>

definition has_limit :: "read_opts \<Rightarrow> bool" where
  "has_limit opts \<longleftrightarrow> (case ro_limit opts of None \<Rightarrow> False | Some n \<Rightarrow> n \<noteq> 0)"

text \<open>The cap is that of \<open>DBModel._limitConfig\<close>, whatever class reads.\<close>

definition model_find :: "model_class \<Rightarrow> int option \<Rightarrow> 's executor \<Rightarrow> cond_elem list \<Rightarrow> read_opts \<Rightarrow> 's \<Rightarrow> (scp_error + jsobj list) \<times> 's" where
  "model_find c hardLimit run conditions opts st =
     (case condsToRecord (driver_type c) conditions of
        Inl e \<Rightarrow> (Inl e, st)
      | Inr r \<Rightarrow>
          (case hardLimit of
             Some cap \<Rightarrow>
               (if has_limit opts then model_select c run r opts st
                else (case model_select c run r (opts\<lparr>ro_limit := Some (cap + 1)\<rparr>) st of
                    (Inl e, st') \<Rightarrow> (Inl e, st')
                  | (Inr rows, st') \<Rightarrow>
                      (if int (length rows) > cap then Inl (LimitExceeded cap (length rows) ''find'' (Some (mc_name c)) None) else Inr rows, st')))
           | None \<Rightarrow> model_select c run r opts st))"

definition model_findOne :: "model_class \<Rightarrow> 's executor \<Rightarrow> cond_elem list \<Rightarrow> read_opts \<Rightarrow> 's \<Rightarrow> (scp_error + jsobj option) \<times> 's" where
  "model_findOne c run conditions opts st =
     (case condsToRecord (driver_type c) conditions of
        Inl e \<Rightarrow> (Inl e, st)
      | Inr r \<Rightarrow> (case model_select c run r (opts\<lparr>ro_limit := Some 1\<rparr>) st of
          (Inl e, st') \<Rightarrow> (Inl e, st')
        | (Inr rows, st') \<Rightarrow> (Inr (case rows of [] \<Rightarrow> None | x # _ \<Rightarrow> Some x), st')))"

definition no_handler :: scp_error where
  "no_handler = OtherError ''DBHandler not initialized''"

definition model_casts :: "model_class \<Rightarrow> string \<Rightarrow> string option" where
  "model_casts c = (case mc_columns c of None \<Rightarrow> Map.empty | Some m \<Rightarrow> map_of (getSqlCastMap m))"

definition find_by_id_statement :: "model_class \<Rightarrow> jsval list list \<Rightarrow> read_opts \<Rightarrow> scp_error + string \<times> jsval list" where
  "find_by_id_statement c vs opts = (case driver_type c of
      None \<Rightarrow> Inl no_handler
    | Some d \<Rightarrow>
        (let m = builderFind d \<lparr>find_table = TABLE_NAME c, find_pkeys = columnsToNames (getPkeyColumnsWithDefault c),
               find_values = vs, find_select = or_text (ro_select opts) (SELECT_COLUMN c), find_casts = model_casts c\<rparr>
         in Inr (sql m @ opt_text '' ORDER BY '' (orderToString (ro_order opts)), params m)))"

definition model_findById :: "model_class \<Rightarrow> 's executor \<Rightarrow> jsval list list \<Rightarrow> read_opts \<Rightarrow> 's \<Rightarrow> (scp_error + jsobj list) \<times> 's" where
  "model_findById c run vs opts st =
     (if vs = [] then (Inr [], st)
      else (case find_by_id_statement c vs opts of
          Inl e \<Rightarrow> (Inl e, st)
        | Inr (s, ps) \<Rightarrow> model_query c run s ps st))"

text \<open>\<open>parseInt(String(count), 10)\<close>; the number is absent when it is \<open>NaN\<close>.\<close>

definition model_count :: "model_class \<Rightarrow> 's executor \<Rightarrow> cond_elem list \<Rightarrow> 's \<Rightarrow> (scp_error + int option) \<times> 's" where
  "model_count c run conditions st =
     (case bind_r (condsToRecord (driver_type c) conditions) (\<lambda>r. build_count c r []) of
        Inl e \<Rightarrow> (Inl e, st)
      | Inr (s, ps) \<Rightarrow> (case run s ps st of
          (Inl e, st') \<Rightarrow> (Inl e, st')
          | (Inr [], st') \<Rightarrow> (Inl (OtherError ''rows[0] is undefined''), st')
        | (Inr (row # _), st') \<Rightarrow> (Inr (js_parseInt (js_string (js_get row ''count''))), st')))"

text \<open>\<open>_selectForRelation\<close>: a ready statement, or conditions, then with the cap of the relation.\<close>

definition effective_relation_cap :: "int option option \<Rightarrow> int option \<Rightarrow> int option" where
  "effective_relation_cap perRelation globalCap = (case perRelation of Some cap \<Rightarrow> cap | None \<Rightarrow> globalCap)"

definition selectForRelation ::
  "model_class \<Rightarrow> int option \<Rightarrow> 's executor \<Rightarrow> (string \<times> jsval list) + jsobj \<times> read_opts \<Rightarrow> int option option
     \<Rightarrow> string option \<Rightarrow> string option \<Rightarrow> 's \<Rightarrow> (scp_error + jsobj list) \<times> 's" where
  "selectForRelation c globalCap run what perRelation source propertyKey st = (case what of
      Inl (s, ps) \<Rightarrow> model_query c run s ps st
    | Inr (conditions, opts) \<Rightarrow>
        (case (effective_relation_cap perRelation globalCap, has_limit opts) of
           (Some cap, False) \<Rightarrow>
             (case model_select c run conditions (opts\<lparr>ro_limit := Some (cap + 1)\<rparr>) st of
                (Inl e, st') \<Rightarrow> (Inl e, st')
              | (Inr rows, st') \<Rightarrow>
                  (if int (length rows) > cap
                   then Inl (LimitExceeded cap (length rows) ''relation''
                     (Some (case source of Some n \<Rightarrow> or_text n (mc_name c) | None \<Rightarrow> mc_name c)) propertyKey)
                   else Inr rows, st'))
         | _ \<Rightarrow> model_select c run conditions opts st))"

section \<open>Subqueries\<close>

definition subquery_conditions :: "model_class \<Rightarrow> (model_column \<times> jsval) list \<Rightarrow> scp_error + (colref \<times> jsval) list" where
  "subquery_conditions c conditions =
     map_r (\<lambda>(col, v). bind_r (if is_token v then Inr v else serializeCondValue col v (driver_type c)) (\<lambda>w.
       Inr (colref.truncate col, w))) conditions"

definition subquery_of :: "string \<Rightarrow> model_class \<Rightarrow> (model_column \<times> model_column) list \<Rightarrow> (model_column \<times> jsval) list \<Rightarrow> scp_error + string \<times> jsval" where
  "subquery_of opr c pairs conditions =
     bind_r (subquery_conditions c conditions) (\<lambda>cs.
       Inr (''__subquery__'', JTok (DBSubquery (map (colref.truncate \<circ> fst) pairs)
         (case pairs of [] \<Rightarrow> [] | (_, s) # _ \<Rightarrow> tableName s) (map (colref.truncate \<circ> snd) pairs) cs opr)))"

definition inSubquery :: "model_class \<Rightarrow> (model_column \<times> model_column) list \<Rightarrow> (model_column \<times> jsval) list \<Rightarrow> scp_error + string \<times> jsval" where
  "inSubquery = subquery_of ''IN''"

definition notInSubquery :: "model_class \<Rightarrow> (model_column \<times> model_column) list \<Rightarrow> (model_column \<times> jsval) list \<Rightarrow> scp_error + string \<times> jsval" where
  "notInSubquery = subquery_of ''NOT IN''"

definition exists_of :: "bool \<Rightarrow> model_class \<Rightarrow> (model_column \<times> jsval) list \<Rightarrow> scp_error + string \<times> jsval" where
  "exists_of negated c conditions =
     bind_r (subquery_conditions c conditions) (\<lambda>cs.
       Inr (''__exists__'', JTok (DBExists (case conditions of [] \<Rightarrow> [] | (col, _) # _ \<Rightarrow> tableName col) cs negated)))"

section \<open>Instances\<close>

definition getPkey :: "model_class \<Rightarrow> jsobj \<Rightarrow> jsobj option" where
  "getPkey c inst =
     (let key = map (\<lambda>col. (columnName col, js_get inst (propertyName col))) (getPkeyColumnsWithDefault c)
      in if list_ex (\<lambda>(_, v). \<not> nullish v) key then Some (fold (\<lambda>(k, v) r. obj_set r k v) key []) else None)"

definition setPkey :: "model_class \<Rightarrow> jsval \<Rightarrow> jsobj \<Rightarrow> jsobj" where
  "setPkey c key inst = (case columnsToNames (getPkeyColumnsWithDefault c) of
      [n] \<Rightarrow> obj_set inst n key
    | names \<Rightarrow> (case key of
        JObj ob \<Rightarrow> fold (\<lambda>n r. case map_of ob n of None \<Rightarrow> r | Some v \<Rightarrow> obj_set r n v) names inst
      | _ \<Rightarrow> inst))"

definition getPkeyString :: "model_class \<Rightarrow> jsobj \<Rightarrow> string" where
  "getPkeyString c inst = (case getPkey c inst of None \<Rightarrow> []
     | Some key \<Rightarrow> join ''-'' (map (\<lambda>(_, v). if nullish v then [] else js_string v) key))"

definition getSingleColId :: "model_class \<Rightarrow> jsobj \<Rightarrow> scp_error + jsval" where
  "getSingleColId c inst = (case columnsToNames (getPkeyColumnsWithDefault c) of
      [n] \<Rightarrow> Inr (js_get inst n)
    | _ \<Rightarrow> Inl (OtherError ''getSingleColId() can only be used with single-column primary keys''))"

definition toObject :: "jsobj \<Rightarrow> jsobj" where
  "toObject inst = filter (\<lambda>(k, _). \<not> starts_with ''_'' k) inst"

definition columnList :: "jsobj list \<Rightarrow> string \<Rightarrow> jsval list" where
  "columnList records name = map (\<lambda>r. js_get r name) records"

definition idList :: "model_class \<Rightarrow> jsobj list \<Rightarrow> string \<Rightarrow> jsval list" where
  "idList c records col = columnList records (or_text col (hd (columnsToNames (getPkeyColumnsWithDefault c))))"

definition hashByProperty :: "jsobj list \<Rightarrow> string \<Rightarrow> (string \<times> jsobj) list" where
  "hashByProperty records k = fold (\<lambda>r res. obj_set res (js_string (js_get r k)) r) records []"

definition groupByProperty :: "jsobj list \<Rightarrow> string \<Rightarrow> (string \<times> jsobj list) list" where
  "groupByProperty records k = group_by (\<lambda>r. js_string (js_get r k)) records"

text \<open>\<open>reload\<close>: the row of the key, laid over the fields.\<close>

definition reload :: "model_class \<Rightarrow> int option \<Rightarrow> 's executor \<Rightarrow> bool \<Rightarrow> jsobj \<Rightarrow> 's \<Rightarrow> (scp_error + jsobj option) \<times> 's" where
  "reload c hardLimit run for_update inst st = (case getPkey c inst of
      None \<Rightarrow> (Inl (OtherError ''Cannot reload record without primary key''), st)
    | Some key \<Rightarrow>
        (case model_find c hardLimit run (map (\<lambda>(k, v). TextCond k (Some v)) key)
            (no_opts\<lparr>ro_limit := Some 1, ro_forUpdate := for_update\<rparr>) st of
           (Inl e, st') \<Rightarrow> (Inl e, st')
         | (Inr rows, st') \<Rightarrow> (Inr (case rows of [] \<Rightarrow> None | r # _ \<Rightarrow> Some (obj_spread inst r)), st')))"

section \<open>LIKE patterns\<close>

definition like_escape :: "string \<Rightarrow> string" where
  "like_escape s = concat (map (\<lambda>c. if c \<in> {CHR ''%'', CHR ''_'', CHR 0x5C} then [CHR 0x5C, c] else [c]) s)"

definition makeLikeString :: "string \<Rightarrow> bool \<Rightarrow> bool \<Rightarrow> string" where
  "makeLikeString src front back = (if front then ''%'' else []) @ like_escape src @ (if back then ''%'' else [])"

section \<open>Patterns match what they quote\<close>

text \<open>\<open>LIKE\<close> with the backslash as its escape character, as PostgreSQL and MySQL read a pattern.\<close>

fun like :: "string \<Rightarrow> string \<Rightarrow> bool" where
  "like [] t \<longleftrightarrow> t = []"
| "like (c # p) t \<longleftrightarrow>
     (if c = CHR ''%'' then list_ex (\<lambda>k. like p (drop k t)) [0..<Suc (length t)]
      else if c = CHR 0x5C then (case (p, t) of (d # p', x # t') \<Rightarrow> x = d \<and> like p' t' | _ \<Rightarrow> False)
      else (case t of [] \<Rightarrow> False | x # t' \<Rightarrow> (c = CHR ''_'' \<or> x = c) \<and> like p t'))"

lemma like_escape_simps:
  "like_escape [] = []"
  "like_escape (c # s) = (if c \<in> {CHR ''%'', CHR ''_'', CHR 0x5C} then [CHR 0x5C, c] else [c]) @ like_escape s"
  by (simp_all add: like_escape_def)

lemma like_literal: "like (like_escape s @ p) t \<longleftrightarrow> (\<exists>u. t = s @ u \<and> like p u)"
proof (induction s arbitrary: t)
  case Nil
  show ?case by (simp add: like_escape_simps)
next
  case (Cons c s)
  show ?case
  proof (cases t)
    case Nil
    then show ?thesis by (cases "c \<in> {CHR ''%'', CHR ''_'', CHR 0x5C}") (auto simp: like_escape_simps)
  next
    case t: (Cons x t')
    show ?thesis
    proof (cases "c \<in> {CHR ''%'', CHR ''_'', CHR 0x5C}")
      case True
      then have "like_escape (c # s) @ p = CHR 0x5C # c # like_escape s @ p" by (simp add: like_escape_simps)
      then show ?thesis using Cons.IH [of t'] by (auto simp: t)
    next
      case False
      then have "like_escape (c # s) @ p = c # like_escape s @ p" by (simp add: like_escape_simps)
      moreover have "c \<noteq> CHR ''%'' \<and> c \<noteq> CHR ''_'' \<and> c \<noteq> CHR 0x5C" using False by simp
      ultimately show ?thesis using Cons.IH [of t'] by (auto simp: t)
    qed
  qed
qed

lemma like_percent: "like (CHR ''%'' # p) t \<longleftrightarrow> (\<exists>a b. t = a @ b \<and> like p b)"
proof -
  have "list_ex (\<lambda>k. like p (drop k t)) [0..<Suc (length t)] \<longleftrightarrow> (\<exists>k \<le> length t. like p (drop k t))"
    by (auto simp: list_ex_iff less_Suc_eq_le simp del: upt_Suc)
  also have "\<dots> \<longleftrightarrow> (\<exists>a b. t = a @ b \<and> like p b)"
    by (metis append_take_drop_id append_eq_conv_conj length_append le_add1)
  finally show ?thesis by (simp del: upt_Suc)
qed


text \<open>Without an escape character, as SQLite reads it by default, the pattern of a quoted text does not match it.\<close>

fun like_plain :: "string \<Rightarrow> string \<Rightarrow> bool" where
  "like_plain [] t \<longleftrightarrow> t = []"
| "like_plain (c # p) t \<longleftrightarrow>
     (if c = CHR ''%'' then list_ex (\<lambda>k. like_plain p (drop k t)) [0..<Suc (length t)]
      else (case t of [] \<Rightarrow> False | x # t' \<Rightarrow> (c = CHR ''_'' \<or> x = c) \<and> like_plain p t'))"

lemma escape_is_literal_on_sqlite: "\<not> like_plain (makeLikeString ''a_b'' True True) ''a_b''"
  by code_simp

section \<open>The two SELECT builders agree\<close>

text \<open>The description of a read of a class without a query and a filter.\<close>

definition read_desc :: "model_class \<Rightarrow> dialect \<Rightarrow> jsobj \<Rightarrow> read_opts \<Rightarrow> select_desc" where
  "read_desc c d conditions opts =
     \<lparr>sdialect = d, fromTable = or_text (ro_tableName opts) (TABLE_NAME c), select = ro_select opts,
      selectColumn = Some (SELECT_COLUMN c), sconditions = conditions, joinText = ro_join opts, joinParams = ro_joinParams opts,
      scte = ro_cte opts, groupBy = or_text (ro_group opts) (getGroupByClause c),
      order = (if order_text (ro_order opts) = None then DEFAULT_ORDER c else ro_order opts),
      limit = map_option Static (ro_limit opts), offset = map_option Static (ro_offset opts), appendText = ro_append opts,
      forUpdate = ro_forUpdate opts, forShare = ro_forShare opts\<rparr>"

definition one_column :: "order_spec \<Rightarrow> bool" where
  "one_column ord \<longleftrightarrow> (case ord of OrderMany ocs \<Rightarrow> length ocs = 1 | _ \<Rightarrow> True)"

lemma order_clause_agrees:
  assumes "one_column ord"
  shows "order_clause c ord = opt_text '' ORDER BY '' (orderToString (if order_text ord = None then DEFAULT_ORDER c else ord))"
proof -
  have "order_column_string oc \<noteq> []" for oc by (simp add: order_column_string_def)
  then show ?thesis
    using assms by (cases ord) (auto simp: order_clause_def order_text_def opt_text_def one_column_def length_Suc_conv)
qed

lemma page_static: "page_text word (map_option Static n) ps = (number_text word n, ps)"
  by (cases n) (simp_all add: page_text_def count_text_def number_text_def)

lemma build_select_is_compiled:
  assumes "driver_type c = Some Postgres" and "QUERY c = None" and "queryParams c = None" and "FIND_FILTER c = None"
    and "one_column (ro_order opts)"
  shows "build_select c conditions opts
    = bind_r (compileSelect (read_desc c Postgres conditions opts)) (\<lambda>b. Inr (bundle_sql b, bundle_params b))"
proof -
  have w: "conds_compile (normalizeConditions (Inr conditions)) (Some (formatterFor Postgres)) ps
      = where_compile Postgres conditions (Some (formatterFor Postgres)) ps" for ps
    by (simp add: where_compile_postgres normalizeConditions_def and_conditions_def)
  show ?thesis
    unfolding build_select_def compileSelect_def
    by (simp add: assms filtered_conditions_def model_formatter_def w read_desc_def page_static order_clause_agrees [OF assms(5)]
        isQueryBased_def getQueryParams_def getQuerySQL_def with_clause_def or_empty_def or_text_def bundle_sql_def
        bundle_params_def Let_def case_prod_beta split: option.split)
      (cases "lockTail (ro_forUpdate opts) (ro_forShare opts)"; simp)
qed


text \<open>An empty array as the order is true, and leaves a bare ORDER BY behind; the compiler leaves it out.\<close>

lemma empty_order_array: "order_clause c (OrderMany []) = '' ORDER BY ''" "opt_text '' ORDER BY '' (orderToString (OrderMany [])) = []"
  by (simp_all add: order_clause_def order_text_def opt_text_def)

section \<open>Reads are balanced\<close>

definition wf_class :: "model_class \<Rightarrow> bool" where
  "wf_class c \<longleftrightarrow> qcount (TABLE_NAME c) = 0 \<and> qcount (SELECT_COLUMN c) = 0 \<and> qcount (orderToString (DEFAULT_ORDER c)) = 0
     \<and> qcount (getGroupByClause c) = 0
     \<and> (case getQuerySQL c of None \<Rightarrow> True | Some s \<Rightarrow> s \<noteq> [] \<and> qcount s = length (getQueryParams c))
     \<and> (QUERY c = None \<longrightarrow> queryParams c = None)
     \<and> (case FIND_FILTER c of None \<Rightarrow> True | Some f \<Rightarrow> (\<forall>r. condsToRecord (driver_type c) f = Inr r \<longrightarrow> wf_conds (and_conditions r)))"

definition wf_read :: "read_opts \<Rightarrow> bool" where
  "wf_read opts \<longleftrightarrow> qcount (ro_tableName opts) = 0 \<and> qcount (ro_select opts) = 0 \<and> qcount (ro_group opts) = 0
     \<and> (case order_text (ro_order opts) of None \<Rightarrow> True | Some s \<Rightarrow> qcount s = 0) \<and> qcount (ro_append opts) = 0
     \<and> qcount (ro_join opts) = length (ro_joinParams opts)
     \<and> (case ro_cte opts of None \<Rightarrow> True | Some t \<Rightarrow> qcount (cteName t) = 0 \<and> qcount (cteSql t) = length (cteParams t))"

lemma qcount_default_text [arity_simps]: "qcount s = 0 \<Longrightarrow> qcount t = 0 \<Longrightarrow> qcount (or_text s t) = 0"
  by (simp add: or_text_def)

lemma qcount_number_text [arity_simps]: "qcount word = 0 \<Longrightarrow> qcount (number_text word n) = 0"
  by (simp add: number_text_def split: option.split)

lemma wf_model_formatter [simp]: "wf_formatter (model_formatter c)"
  by (cases "driver_type c") (simp_all add: model_formatter_def wf_formatter_def the_formatter_def keeps_placeholder_def
      defaultFormatter_def formatterFor_def pgCastFormatter_def noCastFormatter_def)

lemma qcount_with_clause:
  assumes "wf_class c" and "case ct of None \<Rightarrow> True | Some t \<Rightarrow> qcount (cteName t) = 0 \<and> qcount (cteSql t) = length (cteParams t)"
  shows "qcount (with_clause c ct) = length ((case ct of None \<Rightarrow> [] | Some t \<Rightarrow> cteParams t) @ getQueryParams c)"
  using assms
  by (auto simp: with_clause_def wf_class_def getQueryParams_def getQuerySQL_def getCTEAlias_def or_empty_def Let_def
      split: option.splits query_spec.splits)

lemma filtered_wf:
  "wf_class c \<Longrightarrow> wf_conds (and_conditions conditions) \<Longrightarrow> filtered_conditions c conditions = Inr tree \<Longrightarrow> wf_conds tree"
  by (auto simp: filtered_conditions_def wf_class_def normalizeConditions_def and_conditions_def bind_r_Inr_iff split: option.splits)

lemma build_select_balanced:
  assumes "wf_class c" and "wf_conds (and_conditions conditions)" and "wf_read opts"
    and "build_select c conditions opts = Inr (s, ps)"
  shows "qcount s = length ps"
proof -
  obtain tree lock where tree: "filtered_conditions c conditions = Inr tree"
      and lock: "lockTail (ro_forUpdate opts) (ro_forShare opts) = Inr lock"
    using assms(4) by (auto simp: build_select_def bind_r_Inr_iff Let_def case_prod_beta)
  let ?w = "conds_compile tree (model_formatter c) []"
  let ?ps0 = "(case ro_cte opts of None \<Rightarrow> [] | Some t \<Rightarrow> cteParams t) @ getQueryParams c @ ro_joinParams opts"
  have w: "conds_compile tree (model_formatter c) ?ps0 = (fst ?w, ?ps0 @ snd ?w)" by (rule conds_compile_append)
  have arity: "qcount (fst ?w) = length (snd ?w)"
    by (rule conds_arity_ps(1) [OF filtered_wf [OF assms(1,2) tree]]) simp
  have s_eq: "s = with_clause c (ro_cte opts)
             @ ''SELECT '' @ or_text (ro_select opts) (SELECT_COLUMN c) @ '' FROM ''
             @ or_text (ro_tableName opts) (if isQueryBased c then getCTEAlias c else TABLE_NAME c)
             @ opt_text '' '' (ro_join opts) @ opt_text '' WHERE '' (fst ?w)
             @ opt_text '' GROUP BY '' (or_text (ro_group opts) (getGroupByClause c))
             @ order_clause c (ro_order opts)
             @ number_text '' LIMIT '' (ro_limit opts) @ number_text '' OFFSET '' (ro_offset opts)
             @ lock @ opt_text '' '' (ro_append opts)" and ps: "ps = ?ps0 @ snd ?w"
    using assms(4) w by (simp_all add: build_select_def tree lock Let_def)
  have "qcount (order_clause c (ro_order opts)) = 0"
    using assms(1,3) by (auto simp: order_clause_def wf_class_def wf_read_def arity_simps split: option.splits)
  moreover have "qcount (with_clause c (ro_cte opts)) = length ((case ro_cte opts of None \<Rightarrow> [] | Some t \<Rightarrow> cteParams t) @ getQueryParams c)"
    using assms(1,3) by (intro qcount_with_clause) (auto simp: wf_read_def)
  moreover have "qcount lock = 0" by (rule lockTail_qcount [OF lock])
  ultimately show ?thesis
    using assms(1,3) arity unfolding s_eq ps
    by (simp add: arity_simps wf_class_def wf_read_def getCTEAlias_def)
qed

text \<open>
  Every read of a model is balanced.  The SELECT of a class, with its query, filter, default order and
  group, for any well-formed conditions and options, has one placeholder per value, in the order of the text.
\<close>

theorem model_reads_are_balanced:
  assumes "wf_class c" and "wf_conds (and_conditions conditions)" and "wf_read opts"
    and "build_select c conditions opts = Inr (s, ps)"
  shows "qcount s = length ps"
  using assms by (rule build_select_balanced)

section \<open>A capped find\<close>

lemma map_r_length: "map_r f xs = Inr ys \<Longrightarrow> length xs = length ys"
  by (simp add: map_r_Inr_length)

text \<open>
  C33. A capped \<open>find\<close> never truncates.  Without an explicit limit it asks for one row more than the cap and
  returns rows only when they are no more than the cap; then they are the instances of everything the
  statement would return without its limit.
\<close>

theorem find_never_truncates:
  assumes "model_find c (Some cap) run conditions opts st = (Inr rows, st')" and "\<not> has_limit opts"
  shows "\<exists>r s ps raw. condsToRecord (driver_type c) conditions = Inr r
    \<and> build_select c r (opts\<lparr>ro_limit := Some (cap + 1)\<rparr>) = Inr (s, ps) \<and> run s ps st = (Inr raw, st')
    \<and> map_r (createInstance c) raw = Inr rows \<and> int (length rows) \<le> cap
    \<and> (\<forall>every. raw = take (nat (cap + 1)) every \<longrightarrow> raw = every)"
proof -
  obtain r where r: "condsToRecord (driver_type c) conditions = Inr r"
    using assms(1) by (auto simp: model_find_def simp del: condsToRecord.simps split: sum.splits)
  obtain s ps where built: "build_select c r (opts\<lparr>ro_limit := Some (cap + 1)\<rparr>) = Inr (s, ps)"
    using assms by (auto simp: model_find_def r model_select_def simp del: condsToRecord.simps split: sum.splits prod.splits)
  obtain raw where raw: "run s ps st = (Inr raw, st')" and inst: "map_r (createInstance c) raw = Inr rows"
      and cap: "int (length rows) \<le> cap"
    using assms by (auto simp: model_find_def r model_select_def built model_query_def simp del: condsToRecord.simps
        split: sum.splits prod.splits if_splits)
  have "length raw = length rows" using map_r_length [OF inst] .
  then have "raw = every" if "raw = take (nat (cap + 1)) every" for every
    using that cap by (auto simp: min_def split: if_splits)
  then show ?thesis using r built raw inst cap by blast
qed

text \<open>An explicit limit of 0 counts as none.\<close>

lemma limit_zero_is_no_limit:
  "model_find c (Some cap) run conditions (opts\<lparr>ro_limit := Some 0\<rparr>) st = model_find c (Some cap) run conditions (opts\<lparr>ro_limit := None\<rparr>) st"
  by (cases "condsToRecord (driver_type c) conditions") (simp_all add: model_find_def has_limit_def del: condsToRecord.simps)

section \<open>Witnesses\<close>

definition example_model :: model_class where
  "example_model = \<lparr>mc_name = ''User'', TABLE_NAME = ''users'', UPDATE_TABLE_NAME = None, SELECT_COLUMN = ''*'',
     DEFAULT_ORDER = OrderText ''id'', DEFAULT_GROUP = NoGroup, FIND_FILTER = None, QUERY = None, queryParams = None,
     PKEY_COLUMNS = None, mc_columns = None, mc_statics = [], driver_type = Some Postgres\<rparr>"

lemma example_select:
  "build_select example_model [(''age > ?'', JInt 18)] (no_opts\<lparr>ro_limit := Some 5\<rparr>)
    = Inr (''SELECT * FROM users WHERE age > ? ORDER BY id LIMIT 5'', [JInt 18])"
  by code_simp


lemma model_reads_are_balanced_witness:
  "qcount ''SELECT * FROM users WHERE age > ? ORDER BY id LIMIT 5'' = length [JInt 18]"
  using model_reads_are_balanced [OF _ _ _ example_select]
  by (simp add: wf_class_def example_model_def getGroupByClause_def getQuerySQL_def wf_read_def no_opts_def order_text_def
      and_conditions_def wf_plain_def)

definition two_rows :: "unit executor" where
  "two_rows s ps st = (Inr [[(''id'', JInt 1)], [(''id'', JInt 2)]], st)"

lemma find_never_truncates_witness:
  "fst (model_find example_model (Some 2) two_rows [RawCond ''age > 18''] no_opts ()) = Inr [[(''id'', JInt 1)], [(''id'', JInt 2)]]
    \<and> (\<exists>s ps. build_select example_model [(''age > 18'', JBool True)] (no_opts\<lparr>ro_limit := Some 3\<rparr>) = Inr (s, ps))"
proof -
  have found: "model_find example_model (Some 2) two_rows [RawCond ''age > 18''] no_opts () = (Inr [[(''id'', JInt 1)], [(''id'', JInt 2)]], ())"
    by code_simp
  obtain r s ps where "condsToRecord (driver_type example_model) [RawCond ''age > 18''] = Inr r"
      and "build_select example_model r (no_opts\<lparr>ro_limit := Some (2 + 1)\<rparr>) = Inr (s, ps)"
    using find_never_truncates [OF found] by (auto simp: has_limit_def no_opts_def)
  then show ?thesis using found by (auto simp: example_model_def)
qed

end
