(* ===== verification/Adapter.thy ===== *)
theory Adapter
  imports ModelSelect WriteBundle RelationOp
begin

text \<open>
  \<open>src/scp/decorator-adapter.ts\<close>: what the compilers are told of a decorated model: the SQL type of every
  column, the resolvers made from them, the write bundles of a model and the declarations and ops of its
  relations; with \<open>_scpColumnTypes\<close> of \<open>DBModel\<close> and the relation metadata of \<open>decorators.ts\<close>.
\<close>

section \<open>Column types\<close>

record class_like =
  cl_name :: string
  cl_TABLE_NAME :: "string option"
  cl_CONNECTION :: "string option"
  cl_meta :: "columns_map option"

definition as_class_like :: "model_class \<Rightarrow> string option \<Rightarrow> class_like" where
  "as_class_like c connection = \<lparr>cl_name = mc_name c, cl_TABLE_NAME = Some (TABLE_NAME c), cl_CONNECTION = connection, cl_meta = mc_columns c\<rparr>"

definition COLUMN_FAMILY_SQL_TYPE :: "(string \<times> string) list" where
  "COLUMN_FAMILY_SQL_TYPE = [(''boolean'', ''BOOLEAN''), (''numeric'', ''NUMERIC''), (''bigint'', ''BIGINT''),
     (''timestamp'', ''TIMESTAMP''), (''date'', ''DATE''), (''uuid'', ''UUID''), (''jsonb'', ''JSONB''), (''text[]'', ''TEXT[]''),
     (''int[]'', ''INT[]''), (''numeric[]'', ''NUMERIC[]''), (''boolean[]'', ''BOOLEAN[]'')]"

definition DEFAULT_UNCAST_SQL_TYPE :: string where
  "DEFAULT_UNCAST_SQL_TYPE = ''INTEGER''"

definition columnSqlType :: "string \<Rightarrow> column_meta \<Rightarrow> string option \<Rightarrow> scp_error + string" where
  "columnSqlType propKey m override =
     (let fam = map_of COLUMN_FAMILY_SQL_TYPE (cm_sqlCast m);
          t = (case override of Some o1 \<Rightarrow> o1 | None \<Rightarrow> (case fam of Some f \<Rightarrow> f
                | None \<Rightarrow> (case cm_baseSqlType m of Some b \<Rightarrow> b | None \<Rightarrow> DEFAULT_UNCAST_SQL_TYPE)))
      in if cm_sqlCast m \<noteq> [] \<and> override = None \<and> fam = None
         then Inl (OtherError (''no SCP SQL-type mapping for '' @ propKey))
         else bind_r (sqlTypeToMaterializeClass t) (\<lambda>_. Inr t))"

definition tableNameOf :: "class_like \<Rightarrow> string" where
  "tableNameOf c = (case cl_TABLE_NAME c of Some t \<Rightarrow> t | None \<Rightarrow> map lower (cl_name c))"

definition connectionOf :: "class_like \<Rightarrow> string option" where
  "connectionOf c = cl_CONNECTION c"

fun derive_columns :: "(string \<times> string) list \<Rightarrow> columns_map \<Rightarrow> (string \<times> string) list \<Rightarrow> scp_error + (string \<times> string) list" where
  "derive_columns overrides [] cols = Inr cols"
| "derive_columns overrides ((propKey, m) # ms) cols =
     bind_r (columnSqlType propKey m (map_of overrides propKey)) (\<lambda>t. derive_columns overrides ms (obj_set cols (cm_columnName m) t))"

definition deriveModelColumns :: "class_like \<Rightarrow> (string \<times> string) list \<Rightarrow> scp_error + column_map" where
  "deriveModelColumns c overrides = (case cl_meta c of
      Some (m # ms) \<Rightarrow> bind_r (derive_columns overrides (m # ms) []) (\<lambda>cols. Inr [(tableNameOf c, cols)])
    | _ \<Rightarrow> Inr [])"

definition modelColumnResolver :: "class_like \<Rightarrow> (string \<times> string) list \<Rightarrow> scp_error + column_resolver option" where
  "modelColumnResolver c overrides = bind_r (deriveModelColumns c overrides) (\<lambda>columns.
     Inr (if columns = [] then None else Some (columnTypeResolverFromColumnMap columns)))"

definition relationKeyTypeResolver ::
  "class_like \<Rightarrow> (string \<times> string) list \<Rightarrow> scp_error + (string \<Rightarrow> string \<Rightarrow> scp_error + bc_scalar) option" where
  "relationKeyTypeResolver c overrides = bind_r (deriveModelColumns c overrides) (\<lambda>columns.
     Inr (if columns = [] then None
          else Some (\<lambda>table column. case map_of columns table of
              None \<Rightarrow> Inl (UndeclaredColumn table column)
            | Some cols \<Rightarrow> (case map_of cols column of None \<Rightarrow> Inl (UndeclaredColumn table column) | Some t \<Rightarrow> keyArrayElemScalar t))))"

text \<open>\<open>_scpColumnTypes\<close>: a column that states no type reads as text.\<close>

definition scpColumnTypes :: "columns_map option \<Rightarrow> (string \<times> string) list" where
  "scpColumnTypes meta = (case meta of
      None \<Rightarrow> []
    | Some m \<Rightarrow> map (\<lambda>(propKey, _). (propKey, ''TEXT'')) (filter (\<lambda>(_, c). cm_sqlCast c = [] \<and> cm_baseSqlType c = None) m))"

section \<open>Write bundles\<close>

definition compileCreateBundle ::
  "class_like \<Rightarrow> string \<Rightarrow> insert_opts \<Rightarrow> pk_desc option \<Rightarrow> dialect \<Rightarrow> (string \<times> string) list \<Rightarrow> scp_error + sql_bundle" where
  "compileCreateBundle c name opt pk d overrides =
     bind_r (modelColumnResolver c overrides) (\<lambda>resolve. compileCreateManyBundle name opt pk d resolve)"

definition compileUpdateBundle :: "string \<Rightarrow> update_opts \<Rightarrow> dialect \<Rightarrow> scp_error + sql_bundle" where
  "compileUpdateBundle = compileUpdateManyBundle"

definition compileDeleteBundle ::
  "string \<Rightarrow> string \<Rightarrow> string list \<Rightarrow> jsobj list \<Rightarrow> string \<Rightarrow> dialect \<Rightarrow> scp_error + sql_bundle" where
  "compileDeleteBundle = compileDeleteManyBundle"

section \<open>Relations\<close>

text \<open>A relation of a model: one pair of columns, or a list of pairs.\<close>

datatype relation_keys = KeyPair model_column model_column | CompositeKeys "(model_column \<times> model_column) list"

record relation_meta =
  rm_propertyKey :: string
  rm_type :: relation_kind
  rm_keys :: relation_keys
  rm_order :: order_spec
  rm_where :: "cond_elem list option"
  rm_limit :: "int option"
  rm_hardLimit :: "int option option"

definition registerRelation :: "relation_meta list \<Rightarrow> relation_meta \<Rightarrow> relation_meta list" where
  "registerRelation relations r = relations @ [r]"

record parsed_keys =
  pk_composite :: bool
  pk_sourceKeys :: "string list"
  pk_targetKeys :: "string list"
  pk_targetModelName :: string

text \<open>An empty list of pairs is read as a single pair and fails.\<close>

definition parseKeys :: "relation_keys \<Rightarrow> scp_error + parsed_keys" where
  "parseKeys ks = (case ks of
      KeyPair s t \<Rightarrow> Inr \<lparr>pk_composite = False, pk_sourceKeys = [columnName s], pk_targetKeys = [columnName t], pk_targetModelName = modelName t\<rparr>
    | CompositeKeys [] \<Rightarrow> Inl (OtherError ''keys[0] is undefined'')
    | CompositeKeys (p # ps) \<Rightarrow> Inr \<lparr>pk_composite = True, pk_sourceKeys = map (\<lambda>(s, _). columnName s) (p # ps),
        pk_targetKeys = map (\<lambda>(_, t). columnName t) (p # ps), pk_targetModelName = modelName (snd p)\<rparr>)"

definition targetProjection :: "class_like \<Rightarrow> string list" where
  "targetProjection c = (case cl_meta c of None \<Rightarrow> [] | Some m \<Rightarrow> map (\<lambda>(_, m). cm_columnName m) m)"

definition optional_number :: "int option \<Rightarrow> jsval" where
  "optional_number n = (case n of None \<Rightarrow> JUndef | Some i \<Rightarrow> JInt i)"

definition relationDeclOf :: "relation_meta \<Rightarrow> (string \<Rightarrow> class_like) \<Rightarrow> dialect \<Rightarrow> scp_error + relation_decl \<times> class_like" where
  "relationDeclOf rel resolveTarget d =
     bind_r (parseKeys (rm_keys rel)) (\<lambda>parsed.
       let target = resolveTarget (pk_targetModelName parsed) in
       Inr (RelationDecl
         \<lparr>d_name = rm_propertyKey rel, d_kind = rm_type rel, d_targetTable = tableNameOf target, d_select = targetProjection target,
          d_parentKey = (if pk_composite parsed then None else Some (hd (pk_sourceKeys parsed))),
          d_targetKey = (if pk_composite parsed then None else Some (hd (pk_targetKeys parsed))),
          d_parentKeys = (if pk_composite parsed then Some (pk_sourceKeys parsed) else None),
          d_targetKeys = (if pk_composite parsed then Some (pk_targetKeys parsed) else None),
          d_order = (if rm_order rel = NoOrder then None else Some (orderToString (rm_order rel))),
          d_limit = optional_number (rm_limit rel),
          d_hardLimit = (case rm_hardLimit rel of None \<Rightarrow> JUndef | Some None \<Rightarrow> JNull | Some (Some i) \<Rightarrow> JInt i),
          d_dialect = Some d, d_connection = connectionOf target\<rparr> [], target))"

definition deriveRelationDecls :: "relation_meta list \<Rightarrow> (string \<Rightarrow> class_like) \<Rightarrow> dialect \<Rightarrow> scp_error + relation_decl list" where
  "deriveRelationDecls rels resolveTarget d =
     map_r (\<lambda>rel. bind_r (relationDeclOf rel resolveTarget d) (\<lambda>(decl, _). Inr decl)) rels"

fun collect_ops ::
  "(relation_meta \<Rightarrow> scp_error + relation_op) \<Rightarrow> relation_meta list \<Rightarrow> (string \<times> relation_op) list \<Rightarrow> scp_error + (string \<times> relation_op) list" where
  "collect_ops compile [] ops = Inr ops"
| "collect_ops compile (rel # rels) ops =
     bind_r (compile rel) (\<lambda>op. collect_ops compile rels (obj_set ops (rm_propertyKey rel) op))"

definition model_relation_op ::
  "limit_state \<Rightarrow> (string \<Rightarrow> class_like) \<Rightarrow> dialect \<Rightarrow> (string \<times> string) list \<Rightarrow> relation_meta \<Rightarrow> scp_error + relation_op" where
  "model_relation_op st resolveTarget d overrides rel =
     bind_r (relationDeclOf rel resolveTarget d) (\<lambda>(decl, target).
     bind_r (modelColumnResolver target overrides) (\<lambda>resolve. compileRelationOp st resolve decl))"

definition compileRelationOps ::
  "limit_state \<Rightarrow> relation_meta list \<Rightarrow> (string \<Rightarrow> class_like) \<Rightarrow> dialect \<Rightarrow> (string \<times> string) list \<Rightarrow> scp_error + (string \<times> relation_op) list" where
  "compileRelationOps st rels resolveTarget d overrides = collect_ops (model_relation_op st resolveTarget d overrides) rels []"

section \<open>Properties\<close>

lemma collect_ops_others:
  assumes "collect_ops compile rels ops = Inr out" and "k \<notin> rm_propertyKey ` set rels"
  shows "map_of out k = map_of ops k"
  using assms by (induction compile rels ops rule: collect_ops.induct) (auto simp: bind_r_Inr_iff map_of_obj_set)

lemma collect_ops_entry:
  assumes "collect_ops compile rels ops = Inr out" and "distinct (map rm_propertyKey rels)" and "rel \<in> set rels"
  shows "\<exists>op. compile rel = Inr op \<and> map_of out (rm_propertyKey rel) = Some op"
  using assms
proof (induction compile rels ops rule: collect_ops.induct)
  case (2 compile r rels ops)
  then obtain op where op: "compile r = Inr op" and rest: "collect_ops compile rels (obj_set ops (rm_propertyKey r) op) = Inr out"
    by (auto simp: bind_r_Inr_iff)
  show ?case
  proof (cases "rel = r")
    case True
    have "rm_propertyKey r \<notin> rm_propertyKey ` set rels" using "2.prems"(2) by simp
    from collect_ops_others [OF rest this] show ?thesis using op True by (simp add: map_of_obj_set)
  next
    case False
    then show ?thesis using "2.IH" [OF rest] "2.prems" by auto
  qed
qed simp

text \<open>The columns a relation names, its own first.\<close>

fun key_pairs :: "relation_keys \<Rightarrow> (model_column \<times> model_column) list" where
  "key_pairs (KeyPair s t) = [(s, t)]"
| "key_pairs (CompositeKeys ps) = ps"

lemma compileRelationOp_head:
  assumes "compileRelationOp st r (RelationDecl f cs) = Inr op"
  shows "\<exists>composite s ms cap. isCompositeDecl f = Inr composite \<and> op_of op = op_record f (decl_dialect f) composite s ms cap"
  using assms by (auto simp: bind_r_Inr_iff) blast+

lemma parsed_keys_of:
  assumes "parseKeys ks = Inr p"
  shows "pk_sourceKeys p = map (columnName \<circ> fst) (key_pairs ks)" "pk_targetKeys p = map (columnName \<circ> snd) (key_pairs ks)"
    "key_pairs ks \<noteq> []" "pk_composite p = (\<exists>ps. ks = CompositeKeys ps)" "pk_targetModelName p = modelName (snd (hd (key_pairs ks)))"
    "\<not> pk_composite p \<Longrightarrow> length (key_pairs ks) = 1"
  using assms by (auto simp: parseKeys_def split: relation_keys.splits list.splits)

text \<open>
  Every relation a decorated model declares becomes an op under its property name, which joins the
  declared columns pairwise, reads the table of the target model with all its columns and keeps the kind, dialect and connection.
\<close>

theorem model_relations_become_ops:
  assumes "compileRelationOps st rels resolveTarget d overrides = Inr ops" and "distinct (map rm_propertyKey rels)" and "rel \<in> set rels"
  defines "target \<equiv> resolveTarget (modelName (snd (hd (key_pairs (rm_keys rel)))))"
  shows "\<exists>op. map_of ops (rm_propertyKey rel) = Some op \<and>
     map (columnName \<circ> fst) (key_pairs (rm_keys rel)) = parentKeyCols (op_of op) \<and>
     map (columnName \<circ> snd) (key_pairs (rm_keys rel)) = targetKeyCols (op_of op) \<and>
     o_targetTable (op_of op) = tableNameOf target \<and> o_select (op_of op) = targetProjection target \<and>
     o_kind (op_of op) = rm_type rel \<and> o_dialect (op_of op) = d \<and> o_connection (op_of op) = cl_CONNECTION target"
proof -
  obtain op where op: "model_relation_op st resolveTarget d overrides rel = Inr op" and at: "map_of ops (rm_propertyKey rel) = Some op"
    using collect_ops_entry [OF _ assms(2,3)] assms(1) unfolding compileRelationOps_def by blast
  obtain f cs r parsed where pk: "parseKeys (rm_keys rel) = Inr parsed"
      and decl: "relationDeclOf rel resolveTarget d = Inr (RelationDecl f cs, resolveTarget (pk_targetModelName parsed))"
      and compiled: "compileRelationOp st r (RelationDecl f cs) = Inr op"
    using op by (auto simp: model_relation_op_def relationDeclOf_def bind_r_Inr_iff Let_def simp del: compileRelationOp.simps)
  note keys = parsed_keys_of [OF pk]
  obtain composite s ms cap where c: "isCompositeDecl f = Inr composite" and o: "op_of op = op_record f (decl_dialect f) composite s ms cap"
    using compileRelationOp_head [OF compiled] by blast
  have hd1: "\<not> pk_composite parsed \<Longrightarrow> [hd (map g (key_pairs (rm_keys rel)))] = map g (key_pairs (rm_keys rel))" for g :: "model_column \<times> model_column \<Rightarrow> string"
    using keys(6) by (auto simp: length_Suc_conv)
  have "composite = pk_composite parsed"
    using c decl pk by (auto simp: isCompositeDecl_def relationDeclOf_def Let_def split: if_splits)
  then show ?thesis
    using at o decl pk keys(1,2,5) hd1 [of "columnName \<circ> fst"] hd1 [of "columnName \<circ> snd"]
    by (cases "pk_composite parsed")
      (auto simp: relationDeclOf_def Let_def op_record_def parentKeyCols_def targetKeyCols_def decl_dialect_def connectionOf_def target_def)
qed

definition posts_class :: class_like where
  "posts_class = \<lparr>cl_name = ''Post'', cl_TABLE_NAME = Some ''posts'', cl_CONNECTION = Some ''blog'',
     cl_meta = Some (registerColumn text_family (NameArg ''author_id'') ''authorId'' (registerColumn uuid_family NoArg ''id'' []))\<rparr>"

definition posts_of_user :: relation_meta where
  "posts_of_user = \<lparr>rm_propertyKey = ''posts'', rm_type = HasMany,
     rm_keys = KeyPair (createColumn ''id'' ''users'' ''User'' None [] None) (createColumn ''author_id'' ''posts'' ''Post'' None [] None),
     rm_order = NoOrder, rm_where = None, rm_limit = None, rm_hardLimit = None\<rparr>"

lemma posts_compile: "\<not> isl (compileRelationOps [] [posts_of_user] (\<lambda>_. posts_class) Sqlite [])"
  by code_simp

theorem model_relations_become_ops_witness:
  "\<exists>ops op. compileRelationOps [] [posts_of_user] (\<lambda>_. posts_class) Sqlite [] = Inr ops \<and> map_of ops ''posts'' = Some op
     \<and> parentKeyCols (op_of op) = [''id''] \<and> targetKeyCols (op_of op) = [''author_id''] \<and> o_connection (op_of op) = Some ''blog''"
proof -
  obtain ops where ops: "compileRelationOps [] [posts_of_user] (\<lambda>_. posts_class) Sqlite [] = Inr ops"
    using posts_compile unfolding isl_def by (metis sum.exhaust)
  have "key_pairs (rm_keys posts_of_user) = [(createColumn ''id'' ''users'' ''User'' None [] None, createColumn ''author_id'' ''posts'' ''Post'' None [] None)]"
    "rm_propertyKey posts_of_user = ''posts''"
    by (simp_all add: posts_of_user_def)
  with model_relations_become_ops [OF ops, of posts_of_user] ops show ?thesis
    by (auto simp: createColumn_def posts_class_def)
qed

text \<open>The \<open>where\<close> option of a relation does not reach its declaration, so a load through an op ignores it.\<close>

lemma relation_where_is_dropped: "relationDeclOf (rel\<lparr>rm_where := w\<rparr>) resolveTarget d = relationDeclOf rel resolveTarget d"
  by (simp add: relationDeclOf_def)

text \<open>
  The columns of a model are known under its table name; a create that returns rows of the update table of
  the model finds no type for them, and neither does one into a table with a schema.
\<close>

definition posts_insert :: "string \<Rightarrow> insert_opts" where
  "posts_insert table = \<lparr>ins_table = table, ins_columns = [''author_id''], ins_records = [[(''author_id'', JStr ''a'')]],
     ins_raw = None, ins_casts = (\<lambda>_. None), ins_conflict = None, ins_ignore = False, ins_update = None, ins_returning = ''id''\<rparr>"

lemma update_table_has_no_columns:
  "compileCreateBundle posts_class ''create'' (posts_insert ''posts_rw'') None Sqlite [] = Inl (UndeclaredTable ''posts_rw'')"
  "compileCreateBundle posts_class ''create'' (posts_insert ''blog.posts'') None Sqlite [] = Inl (UndeclaredTable ''blog'')"
  by code_simp+

end
