(* ===== verification/ModelWrite.thy ===== *)
theory ModelWrite
  imports Adapter
begin

text \<open>
  The writes of \<open>src/DBModel.ts\<close>: \<open>create\<close>, \<open>createMany\<close>, \<open>update\<close>, \<open>delete\<close>, \<open>updateMany\<close> and the inserts, updates
  and deletes under them, with the guard of the write context, the route of a create through a write
  bundle, and the keys they return.  The execution of a statement and of a bundle are arguments.
\<close>

section \<open>The context of a write\<close>

datatype model_failure = NotAllowed write_guard_error | StatementFailed scp_error | BundleFailed write_failure

text \<open>
  \<open>we_bundle\<close> is the dialect of the class's context and \<open>executeWriteAsync\<close> on it, absent when there is no
  context or a v1 middleware is registered.  \<open>we_localTime\<close> is the wall clock text of an instant.
\<close>

record 's write_env =
  we_scope :: tx_scope
  we_exec :: "'s executor"
  we_bundle :: "(dialect \<times> (sql_bundle \<Rightarrow> 's \<Rightarrow> (write_failure + tx_result) \<times> 's)) option"
  we_localTime :: "string \<Rightarrow> string"

type_synonym ('a, 's) write_io = "'s \<Rightarrow> (model_failure + 'a) \<times> 's"

definition then_io :: "('a, 's) write_io \<Rightarrow> ('a \<Rightarrow> ('b, 's) write_io) \<Rightarrow> ('b, 's) write_io" where
  "then_io m f st = (case m st of (Inl e, st') \<Rightarrow> (Inl e, st') | (Inr x, st') \<Rightarrow> f x st')"

definition built :: "scp_error + 'a \<Rightarrow> ('a, 's) write_io" where
  "built r st = (map_sum StatementFailed id r, st)"

definition check_write :: "'s write_env \<Rightarrow> model_class \<Rightarrow> string \<Rightarrow> (unit, 's) write_io" where
  "check_write env c operation st = (map_sum NotAllowed id (checkWriteAllowed (we_scope env) operation (Some (mc_name c))), st)"

definition execute_rows :: "'s write_env \<Rightarrow> string \<Rightarrow> jsval list \<Rightarrow> (jsobj list, 's) write_io" where
  "execute_rows env s ps st = (case we_exec env s ps st of (r, st') \<Rightarrow> (map_sum StatementFailed id r, st'))"

definition execute_instances :: "'s write_env \<Rightarrow> model_class \<Rightarrow> string \<Rightarrow> jsval list \<Rightarrow> (jsobj list, 's) write_io" where
  "execute_instances env c s ps = then_io (execute_rows env s ps) (\<lambda>rows. built (map_r (createInstance c) rows))"

definition write_table :: "model_class \<Rightarrow> string \<Rightarrow> scp_error + string" where
  "write_table c tbl = (if tbl \<noteq> [] then Inr tbl else getUpdateTableName c)"

definition the_driver :: "model_class \<Rightarrow> scp_error + dialect" where
  "the_driver c = (case driver_type c of None \<Rightarrow> Inl no_handler | Some d \<Rightarrow> Inr d)"

definition serialize_model :: "model_class \<Rightarrow> dialect \<Rightarrow> jsobj \<Rightarrow> scp_error + jsobj" where
  "serialize_model c d r = (case mc_columns c of None \<Rightarrow> Inr r | Some m \<Rightarrow> serializeRecord m r (Some d))"

section \<open>UPDATE and DELETE\<close>

definition model_set_cell :: "model_class \<Rightarrow> string \<times> jsval \<Rightarrow> jsval list \<Rightarrow> string \<times> jsval list" where
  "model_set_cell c cv ps = (case cv of (col, v) \<Rightarrow> (case v of
      JTok t \<Rightarrow> (let (s, ps1) = tok_compile t [] (model_formatter c) ps in (col @ '' = '' @ s, ps1))
    | _ \<Rightarrow> (case (model_casts c col, model_formatter c) of
          (Some cast, Some f) \<Rightarrow>
            (if cast \<noteq> [] \<and> cast \<noteq> ''timestamp'' \<and> cast \<noteq> ''date'' then col @ '' = '' @ f ''?'' cast else col @ '' = ?'')
        | _ \<Rightarrow> col @ '' = ?'', ps @ [v])))"

definition model_where :: "model_class \<Rightarrow> jsobj \<Rightarrow> jsval list \<Rightarrow> string \<times> jsval list" where
  "model_where c conditions ps = conds_compile (normalizeConditions (Inr conditions)) (model_formatter c) ps"

text \<open>Nothing to set is no statement.\<close>

definition update_statement ::
  "model_class \<Rightarrow> string \<Rightarrow> jsobj \<Rightarrow> jsobj \<Rightarrow> string \<Rightarrow> scp_error + (string \<times> jsval list) option" where
  "update_statement c table vals conditions returning =
     (let (sets, ps) = emit_list (model_set_cell c) vals [] in
      if sets = [] then Inr None
      else let (w, ps1) = model_where c conditions ps in
        if w = [] then Inl (RequiresConditions ''UPDATE'')
        else Inr (Some (''UPDATE '' @ table @ '' SET '' @ join '', '' sets @ '' WHERE '' @ w @ returning_text returning, ps1)))"

definition delete_statement :: "model_class \<Rightarrow> string \<Rightarrow> jsobj \<Rightarrow> string \<Rightarrow> scp_error + string \<times> jsval list" where
  "delete_statement c table conditions returning =
     (let (w, ps) = model_where c conditions [] in
      if w = [] then Inl (RequiresConditions ''DELETE'')
      else Inr (''DELETE FROM '' @ table @ '' WHERE '' @ w @ returning_text returning, ps))"

definition model_update ::
  "'s write_env \<Rightarrow> model_class \<Rightarrow> string \<Rightarrow> jsobj \<Rightarrow> jsobj \<Rightarrow> string \<Rightarrow> (jsobj list, 's) write_io" where
  "model_update env c tbl conditions vals returning =
     then_io (check_write env c ''UPDATE'') (\<lambda>_.
     then_io (built (bind_r (write_table c tbl) (\<lambda>table. bind_r (the_driver c) (\<lambda>d.
         bind_r (serialize_model c d vals) (\<lambda>v. update_statement c table v conditions returning))))) (\<lambda>stmt.
       case stmt of None \<Rightarrow> built (Inr []) | Some (s, ps) \<Rightarrow> execute_instances env c s ps))"

definition model_delete :: "'s write_env \<Rightarrow> model_class \<Rightarrow> string \<Rightarrow> jsobj \<Rightarrow> string \<Rightarrow> (jsobj list, 's) write_io" where
  "model_delete env c tbl conditions returning =
     then_io (check_write env c ''DELETE'') (\<lambda>_.
     then_io (built (bind_r (write_table c tbl) (\<lambda>table. delete_statement c table conditions returning)))
       (\<lambda>(s, ps). execute_instances env c s ps))"

text \<open>The keys a write returns: the key columns with one row of values per written row.\<close>

type_synonym pkey_result = "model_column list \<times> jsval list list"

definition buildPkeyResult :: "model_class \<Rightarrow> jsobj list \<Rightarrow> pkey_result" where
  "buildPkeyResult c rows = (let cols = getPkeyColumnsWithDefault c
     in (cols, map (\<lambda>row. map (js_get row) (columnsToNames cols)) rows))"

definition pkey_text :: "model_class \<Rightarrow> string" where
  "pkey_text c = join '', '' (columnsToNames (getPkeyColumnsWithDefault c))"

definition supportsReturning :: "dialect \<Rightarrow> bool" where
  "supportsReturning d \<longleftrightarrow> d \<noteq> Mysql"

text \<open>The keys of the rows a condition selects, read before a write without RETURNING; no cast formatter.\<close>

definition preselect_statement :: "model_class \<Rightarrow> string \<Rightarrow> jsobj \<Rightarrow> scp_error + string \<times> jsval list" where
  "preselect_statement c operation conditions =
     (let (w, ps) = conds_compile (normalizeConditions (Inr conditions)) None [] in
      if w = [] then Inl (RequiresConditions operation)
      else bind_r (getUpdateTableName c) (\<lambda>table.
        Inr (''SELECT DISTINCT '' @ pkey_text c @ '' FROM '' @ table @ '' WHERE '' @ w, ps)))"

text \<open>The keyed write \<open>update\<close> and \<open>delete\<close> share: \<open>perform\<close> runs it with a RETURNING text.\<close>

definition keyed_write ::
  "'s write_env \<Rightarrow> model_class \<Rightarrow> string \<Rightarrow> jsobj \<Rightarrow> bool \<Rightarrow> (string \<Rightarrow> (jsobj list, 's) write_io) \<Rightarrow> (pkey_result option, 's) write_io" where
  "keyed_write env c operation conditions returning perform =
     (if \<not> returning then then_io (perform []) (\<lambda>_. built (Inr None))
      else then_io (built (the_driver c)) (\<lambda>d.
        if supportsReturning d
        then then_io (perform (pkey_text c)) (\<lambda>rows. built (Inr (Some (buildPkeyResult c rows))))
        else then_io (built (preselect_statement c operation conditions)) (\<lambda>(s, ps).
          then_io (execute_rows env s ps) (\<lambda>rows.
          then_io (perform []) (\<lambda>_. built (Inr (Some (buildPkeyResult c rows))))))))"

definition update_core ::
  "'s write_env \<Rightarrow> model_class \<Rightarrow> cond_elem list \<Rightarrow> (model_column \<times> jsval option) list \<Rightarrow> bool \<Rightarrow> (pkey_result option, 's) write_io" where
  "update_core env c conds vals returning =
     then_io (built (condsToRecord (driver_type c) conds)) (\<lambda>r.
       keyed_write env c ''UPDATE'' r returning (model_update env c [] r (pairsToRecord vals)))"

definition delete_core :: "'s write_env \<Rightarrow> model_class \<Rightarrow> cond_elem list \<Rightarrow> bool \<Rightarrow> (pkey_result option, 's) write_io" where
  "delete_core env c conds returning =
     then_io (built (condsToRecord (driver_type c) conds)) (\<lambda>r.
       keyed_write env c ''DELETE'' r returning (model_delete env c [] r))"

section \<open>INSERT\<close>

datatype conflict_update = EveryColumn | SomeColumns "model_column list"

record insert_options =
  io_tableName :: string
  io_conflict :: string
  io_onConflict :: "model_column list option"
  io_ignore :: bool
  io_update :: "conflict_update option"
  io_returning :: string

definition mysqlDateStrings :: "(string \<Rightarrow> string) \<Rightarrow> jsobj \<Rightarrow> jsobj" where
  "mysqlDateStrings local r = map (\<lambda>(k, v). (k, case v of JDate i _ \<Rightarrow> JStr (local i) | _ \<Rightarrow> v)) r"

definition insert_build ::
  "model_class \<Rightarrow> string \<Rightarrow> insert_options \<Rightarrow> string list \<Rightarrow> jsobj list \<Rightarrow> jsobj list \<Rightarrow> insert_opts" where
  "insert_build c table opts columns records raw =
     \<lparr>ins_table = table, ins_columns = columns, ins_records = records, ins_raw = Some raw, ins_casts = model_casts c,
      ins_conflict = map_option columnsToNames (io_onConflict opts), ins_ignore = io_ignore opts,
      ins_update = map_option (\<lambda>u. case u of EveryColumn \<Rightarrow> AllColumns | SomeColumns cs \<Rightarrow> TheseColumns (columnsToNames cs)) (io_update opts),
      ins_returning = io_returning opts\<rparr>"

definition writeResultRows :: "tx_result \<Rightarrow> jsobj list" where
  "writeResultRows r = (case returnedRows r of
      Some groups \<Rightarrow> concat groups
    | None \<Rightarrow> (case result_entity r of None \<Rightarrow> [] | Some e \<Rightarrow> [e]))"

definition model_key :: "model_class \<Rightarrow> pk_desc" where
  "model_key c = (let k = getPrimaryKey (mc_columns c) (map_option columnsToNames (PKEY_COLUMNS c))
     in pk_desc.make (pk_columns k) (primary_key.autoInc k))"

definition create_bundle ::
  "'s write_env \<Rightarrow> model_class \<Rightarrow> dialect \<Rightarrow> string \<Rightarrow> insert_options \<Rightarrow> jsobj list \<Rightarrow> jsobj list \<Rightarrow> scp_error + sql_bundle" where
  "create_bundle env c d table opts records raw =
     compileCreateBundle (as_class_like c None) ''create''
       (insert_build c table opts [] (if d = Mysql then map (mysqlDateStrings (we_localTime env)) records else records) raw)
       (Some (model_key c)) d (scpColumnTypes (mc_columns c))"

text \<open>\<open>sql.replace(/ RETURNING.*$/, '')\<close>: the first RETURNING with the rest of the text on its line.\<close>

fun strip_returning :: "string \<Rightarrow> string" where
  "strip_returning [] = []"
| "strip_returning (x # s) =
     (if starts_with '' RETURNING'' (x # s) \<and> list_all (\<lambda>k. \<not> is_newline k) (x # s) then [] else x # strip_returning s)"

definition insert_statement ::
  "model_class \<Rightarrow> dialect \<Rightarrow> string \<Rightarrow> insert_options \<Rightarrow> insert_group \<Rightarrow> scp_error + string \<times> jsval list" where
  "insert_statement c d table opts g =
     bind_r (builderInsert d (insert_build c table opts (fst g) (map fst (snd g)) (map snd (snd g)))) (\<lambda>m.
       Inr (if io_onConflict opts = None \<and> io_conflict opts \<noteq> []
            then strip_returning (sql m) @ '' '' @ io_conflict opts @ returning_text (io_returning opts)
            else sql m, params m))"

fun insert_each ::
  "'s write_env \<Rightarrow> model_class \<Rightarrow> dialect \<Rightarrow> string \<Rightarrow> insert_options \<Rightarrow> insert_group list \<Rightarrow> (jsobj list, 's) write_io" where
  "insert_each env c d table opts [] = built (Inr [])"
| "insert_each env c d table opts (g # gs) =
     then_io (built (insert_statement c d table opts g)) (\<lambda>(s, ps).
     then_io (execute_instances env c s ps) (\<lambda>rows.
     then_io (insert_each env c d table opts gs) (\<lambda>rest. built (Inr (rows @ rest)))))"

definition insert_groups_of ::
  "'s write_env \<Rightarrow> model_class \<Rightarrow> string \<Rightarrow> insert_options \<Rightarrow> dialect \<Rightarrow> insert_group list \<Rightarrow> (jsobj list, 's) write_io" where
  "insert_groups_of env c table opts drv groups = (case (we_bundle env, groups) of
      (Some (d, run), [g]) \<Rightarrow>
        (if io_conflict opts \<noteq> [] \<and> io_onConflict opts = None then insert_each env c drv table opts groups
         else then_io (built (create_bundle env c d table opts (map fst (snd g)) (map snd (snd g)))) (\<lambda>b.
           then_io (\<lambda>st. case run b st of (r, st') \<Rightarrow> (map_sum BundleFailed id r, st')) (\<lambda>res.
             built (map_r (createInstance c) (writeResultRows res)))))
    | _ \<Rightarrow> insert_each env c drv table opts groups)"

definition model_insert :: "'s write_env \<Rightarrow> model_class \<Rightarrow> jsobj list \<Rightarrow> insert_options \<Rightarrow> (jsobj list, 's) write_io" where
  "model_insert env c raw opts =
     then_io (check_write env c ''INSERT'') (\<lambda>_.
     then_io (built (write_table c (io_tableName opts))) (\<lambda>table.
       if raw = [] then built (Inr [])
       else then_io (built (bind_r (the_driver c) (\<lambda>d. bind_r (map_r (serialize_model c d) raw) (\<lambda>records. Inr (d, records)))))
         (\<lambda>(d, records). insert_groups_of env c table opts d (insert_groups records (Some raw)))))"

text \<open>\<open>create\<close> is \<open>createMany\<close> of one record; the options reach the insert but for the table and the flag.\<close>

definition create_core ::
  "'s write_env \<Rightarrow> model_class \<Rightarrow> (model_column \<times> jsval option) list list \<Rightarrow> insert_options \<Rightarrow> bool \<Rightarrow> (pkey_result option, 's) write_io" where
  "create_core env c rows opts returning =
     (let raw = map pairsToRecord rows; inner = opts\<lparr>io_tableName := [], io_returning := (if returning then pkey_text c else [])\<rparr> in
      then_io (model_insert env c raw inner) (\<lambda>insts.
        built (Inr (if returning then Some (buildPkeyResult c insts) else None))))"

section \<open>updateMany\<close>

definition value_columns :: "string list \<Rightarrow> jsobj list \<Rightarrow> string list" where
  "value_columns keys records = sort (dedup (filter (\<lambda>k. k \<notin> set keys) (concat (map (map fst) records))))"

definition missing_key :: "string list \<Rightarrow> jsobj list \<Rightarrow> string option" where
  "missing_key keys records = find (\<lambda>_. True) (concat (map (\<lambda>r. filter (\<lambda>k. k \<notin> fst ` set r) keys) records))"

definition skip_entries :: "string list \<Rightarrow> jsobj list \<Rightarrow> skip_map" where
  "skip_entries cols records = filter (\<lambda>(_, cs). cs \<noteq> []) (map (\<lambda>(i, r). (i, filter (\<lambda>k. k \<notin> fst ` set r) cols)) (enumerate 0 records))"

definition builderReturning :: "dialect \<Rightarrow> string \<Rightarrow> string list \<Rightarrow> string" where
  "builderReturning d table cols = (case (case d of
      Postgres \<Rightarrow> pg_buildReturning cols ''t'' | Mysql \<Rightarrow> mysql_buildReturning table cols | Sqlite \<Rightarrow> sqlite_buildReturning table cols) of
      None \<Rightarrow> [] | Some r \<Rightarrow> r)"

text \<open>The rows go to the builder as they are, unserialized.\<close>

definition update_many_build :: "model_class \<Rightarrow> dialect \<Rightarrow> string \<Rightarrow> string list \<Rightarrow> jsobj list \<Rightarrow> bool \<Rightarrow> update_opts" where
  "update_many_build c d table keys records returning =
     (let cols = value_columns keys records in
      \<lparr>upd_table = table, upd_keys = keys, upd_columns = cols, upd_records = records, upd_raw = Some records,
       upd_casts = model_casts c, upd_skips = skip_entries cols records,
       upd_returning = (if returning then builderReturning d table (columnsToNames (getPkeyColumnsWithDefault c)) else [])\<rparr>)"

definition select_written :: "model_class \<Rightarrow> string \<Rightarrow> string list \<Rightarrow> jsobj list \<Rightarrow> makesql" where
  "select_written c table keys records =
     mysql_buildSelectPkeys \<lparr>spk_table = table, spk_pkeys = columnsToNames (getPkeyColumnsWithDefault c), spk_keys = keys,
       spk_values = map (\<lambda>r. map (js_get r) keys) records\<rparr>"

definition update_many_core ::
  "'s write_env \<Rightarrow> model_class \<Rightarrow> (model_column \<times> jsval option) list list \<Rightarrow> model_column list \<Rightarrow> bool \<Rightarrow> (pkey_result option, 's) write_io" where
  "update_many_core env c rows keyColumns returning =
     then_io (check_write env c ''UPDATE'') (\<lambda>_.
       let nothing = (if returning then Some (getPkeyColumnsWithDefault c, []) else None);
           keys = columnsToNames keyColumns; records = map pairsToRecord rows in
       if rows = [] \<or> value_columns keys records = [] then built (Inr nothing)
       else (case missing_key keys records of
         Some k \<Rightarrow> built (Inl (OtherError (''updateMany: row missing required key column '' @ squoted k)))
       | None \<Rightarrow>
         then_io (built (bind_r (getUpdateTableName c) (\<lambda>table. bind_r (the_driver c) (\<lambda>d.
             bind_r (builderUpdateMany d (update_many_build c d table keys records returning)) (\<lambda>m. Inr (table, d, m)))))) (\<lambda>(table, d, m).
         then_io (execute_rows env (sql m) (params m)) (\<lambda>result.
           if \<not> returning then built (Inr None)
           else if supportsReturning d then built (Inr (Some (buildPkeyResult c result)))
           else (let q = select_written c table keys records in
             then_io (execute_rows env (sql q) (params q)) (\<lambda>found. built (Inr (Some (buildPkeyResult c found)))))))))"

section \<open>Refused writes\<close>

lemma then_io_built [simp]: "then_io (built (Inr x)) f st = f x st" "then_io (built (Inl e)) f st = (Inl (StatementFailed e), st)"
  by (simp_all add: then_io_def built_def)

lemma built_simps [simp]: "built (Inr x) st = (Inr x, st)" "built (Inl e) st = (Inl (StatementFailed e), st)"
  by (simp_all add: built_def)

lemma then_io_Inr:
  "then_io m f st = (Inr y, st') \<longleftrightarrow> (\<exists>x st1. m st = (Inr x, st1) \<and> f x st1 = (Inr y, st'))"
  by (auto simp: then_io_def split: sum.splits prod.splits)

definition write_refused :: "'s write_env \<Rightarrow> bool" where
  "write_refused env \<longleftrightarrow> readOnly (we_scope env) \<or> \<not> inTransaction (we_scope env)"

lemma check_write_refused:
  assumes "write_refused env"
  obtains e where "\<And>f. then_io (check_write env c operation) f st = (Inl (NotAllowed e), st)"
proof -
  obtain e where "checkWriteAllowed (we_scope env) operation (Some (mc_name c)) = Inl e"
    using assms checkWriteAllowed_iff [of "we_scope env" operation "Some (mc_name c)"]
    by (cases "checkWriteAllowed (we_scope env) operation (Some (mc_name c))") (auto simp: write_refused_def)
  then have "then_io (check_write env c operation) f st = (Inl (NotAllowed e), st)" for f :: "unit \<Rightarrow> ('b, 'a) write_io"
    by (simp add: then_io_def check_write_def)
  then show thesis by (rule that)
qed

text \<open>A keyed write whose write is refused: nothing runs, but for the reading of the keys where there is no RETURNING.\<close>

lemma keyed_write_refused:
  assumes "\<And>ret st. \<exists>e. perform ret st = (Inl (NotAllowed e), st)"
  shows "isl (fst (keyed_write env c operation conditions returning perform st))
    \<and> (snd (keyed_write env c operation conditions returning perform st) = st
       \<or> driver_type c = Some Mysql \<and> returning \<and> (\<exists>s ps. preselect_statement c operation conditions = Inr (s, ps)
           \<and> snd (keyed_write env c operation conditions returning perform st) = snd (we_exec env s ps st)))"
proof -
  obtain E where E: "\<And>ret st. perform ret st = (Inl (NotAllowed (E ret st)), st)" using assms by metis
  show ?thesis
  proof (cases "returning \<and> driver_type c = Some Mysql")
    case False
    then show ?thesis
      by (cases "driver_type c") (auto simp: keyed_write_def the_driver_def supportsReturning_def then_io_def built_def E)
  next
    case True
    show ?thesis
    proof (cases "preselect_statement c operation conditions")
      case (Inl e)
      then show ?thesis using True by (simp add: keyed_write_def the_driver_def supportsReturning_def)
    next
      case (Inr sps)
      obtain s ps where sps: "sps = (s, ps)" by (cases sps)
      obtain r st1 where run: "we_exec env s ps st = (r, st1)" by (cases "we_exec env s ps st")
      show ?thesis
        using True Inr by (cases r) (simp_all add: keyed_write_def the_driver_def supportsReturning_def sps then_io_def execute_rows_def run E)
    qed
  qed
qed

text \<open>
  C23. A write outside a transaction, or inside a read-only scope, is refused before any statement of it runs:
  create, update, delete and updateMany fail and leave the database as it was, except that on MySQL an
  update or delete asked for keys has read them.
\<close>

theorem refused_writes_change_nothing:
  assumes "readOnly (we_scope env) \<or> \<not> inTransaction (we_scope env)"
  shows "(\<exists>e. create_core env c rows opts returning st = (Inl (NotAllowed e), st))
    \<and> (\<exists>e. update_many_core env c rows keyColumns returning st = (Inl (NotAllowed e), st))
    \<and> (\<forall>out \<in> {update_core env c conds vals returning st, delete_core env c conds returning st}.
        isl (fst out) \<and> (snd out = st \<or> driver_type c = Some Mysql \<and> returning
          \<and> (\<exists>s ps r operation. condsToRecord (driver_type c) conds = Inr r \<and> preselect_statement c operation r = Inr (s, ps)
              \<and> snd out = snd (we_exec env s ps st))))"
proof -
  have refused: "write_refused env" using assms by (simp add: write_refused_def)
  have insert: "\<exists>e. model_insert env c raw o1 st = (Inl (NotAllowed e), st)" for raw o1
    unfolding model_insert_def by (rule check_write_refused [OF refused]) blast
  have create: "\<exists>e. create_core env c rows opts returning st = (Inl (NotAllowed e), st)"
    using insert [of "map pairsToRecord rows" "opts\<lparr>io_tableName := [], io_returning := (if returning then pkey_text c else [])\<rparr>"]
    by (auto simp: create_core_def Let_def then_io_def)
  have many: "\<exists>e. update_many_core env c rows keyColumns returning st = (Inl (NotAllowed e), st)"
    unfolding update_many_core_def by (rule check_write_refused [OF refused]) blast
  have upd: "\<exists>e. model_update env c t conditions v ret st1 = (Inl (NotAllowed e), st1)" for t conditions v ret st1
    unfolding model_update_def by (rule check_write_refused [OF refused]) blast
  have del: "\<exists>e. model_delete env c t conditions ret st1 = (Inl (NotAllowed e), st1)" for t conditions ret st1
    unfolding model_delete_def by (rule check_write_refused [OF refused]) blast
  show ?thesis
  proof (cases "condsToRecord (driver_type c) conds")
    case (Inl e)
    then show ?thesis using create many by (simp add: update_core_def delete_core_def del: condsToRecord.simps)
  next
    case (Inr r)
    have runs: "update_core env c conds vals returning st = keyed_write env c ''UPDATE'' r returning (model_update env c [] r (pairsToRecord vals)) st"
      "delete_core env c conds returning st = keyed_write env c ''DELETE'' r returning (model_delete env c [] r) st"
      by (simp_all add: update_core_def delete_core_def Inr del: condsToRecord.simps)
    note u = keyed_write_refused [where perform = "model_update env c [] r (pairsToRecord vals)" and env = env and c = c
        and operation = "''UPDATE''" and conditions = r and returning = returning and st = st, OF upd]
    note d = keyed_write_refused [where perform = "model_delete env c [] r" and env = env and c = c
        and operation = "''DELETE''" and conditions = r and returning = returning and st = st, OF del]
    show ?thesis using create many Inr u d unfolding runs by fastforce
  qed
qed

section \<open>The statements are those of the compilers\<close>

lemma postgres_formatter: "driver_type c = Some Postgres \<Longrightarrow> model_formatter c = write_formatter Postgres"
  by (simp add: write_formatter_def model_formatter_def)

lemma postgres_cells: "driver_type c = Some Postgres \<Longrightarrow> model_set_cell c = set_cell Postgres (model_casts c)"
  by (intro ext) (simp only: model_set_cell_def set_cell_def postgres_formatter)

lemma postgres_where:
  "driver_type c = Some Postgres \<Longrightarrow> model_where c conditions ps = where_compile Postgres conditions (write_formatter Postgres) ps"
  by (simp add: model_where_def postgres_formatter where_compile_postgres normalizeConditions_def and_conditions_def)

lemma mk_fields [simp]: "sql (mk s ps) = s" "params (mk s ps) = ps"
  by (simp_all add: mk_def)

lemma sets_empty: "(fst (emit_list f xs ps) = []) = (xs = [])"
  by (cases xs) (simp_all add: case_prod_beta Let_def)

text \<open>
  C25. On PostgreSQL the UPDATE and DELETE of the active record are those of the write compilers: they fail
  together, and otherwise have the same text and values.  An update without values sends nothing.
\<close>

theorem model_writes_agree:
  assumes "driver_type c = Some Postgres"
  shows "update_statement c table vals conditions returning
      = (if vals = [] then Inr None
         else bind_r (compileUpdateSingle Postgres table vals conditions (model_casts c) returning) (\<lambda>m. Inr (Some (sql m, params m))))
    \<and> delete_statement c table conditions returning
      = bind_r (compileDelete Postgres table conditions returning) (\<lambda>m. Inr (sql m, params m))"
  using assms
  by (simp add: update_statement_def delete_statement_def compileUpdateSingle_def compileDelete_def postgres_cells postgres_where
      sets_empty case_prod_beta Let_def)

section \<open>The two paths of an insert\<close>

lemma group_by_single:
  assumes "group_by f xs = [(k, items)]"
  shows "items = xs"
proof -
  have items: "items = filter (\<lambda>x. f x = k) xs"
    using group_by_groups [of k items f xs] assms by simp
  have "f x = k" if "x \<in> set xs" for x
    using group_by_mem [OF that, of f] assms by auto
  then show ?thesis by (simp add: items filter_id_conv)
qed

lemma single_group:
  assumes "length raw = length records" and "insert_groups records (Some raw) = [g]"
  shows "g = (fst g, zip records raw)" "insert_groups (map fst (snd g)) (Some (map snd (snd g))) = [g]"
proof -
  have "snd g = zip records raw"
    using assms(2) group_by_single [of _ "zip records raw"] by (auto simp: insert_groups_def with_raw_def split: if_splits)
  then show "g = (fst g, zip records raw)" and "insert_groups (map fst (snd g)) (Some (map snd (snd g))) = [g]"
    using assms by (simp_all add: prod_eq_iff)
qed

lemma group_opts_build: "group_opts (insert_build c table opts cols records raw) g = insert_build c table opts (fst g) (map fst (snd g)) (map snd (snd g))"
  by (simp add: group_opts_def insert_build_def)

lemma build_records [simp]: "ins_records (insert_build c table opts cols records raw) = records" "ins_raw (insert_build c table opts cols records raw) = Some raw"
  by (simp_all add: insert_build_def)


section \<open>Keys are read before the write\<close>

lemma execute_rows_Inr: "execute_rows env s ps st = (Inr rows, st1) \<longleftrightarrow> we_exec env s ps st = (Inr rows, st1)"
  by (cases "we_exec env s ps st"; cases "fst (we_exec env s ps st)") (auto simp: execute_rows_def)

lemma keyed_write_mysql:
  assumes "driver_type c = Some Mysql" and "keyed_write env c operation conditions True perform st = (Inr res, st2)"
  shows "\<exists>s ps rows st1 w. preselect_statement c operation conditions = Inr (s, ps) \<and> we_exec env s ps st = (Inr rows, st1)
    \<and> perform [] st1 = (Inr w, st2) \<and> res = Some (buildPkeyResult c rows)"
proof -
  have "keyed_write env c operation conditions True perform st
    = then_io (built (preselect_statement c operation conditions)) (\<lambda>(s, ps). then_io (execute_rows env s ps) (\<lambda>rows.
        then_io (perform []) (\<lambda>_. built (Inr (Some (buildPkeyResult c rows)))))) st"
    using assms(1) by (simp add: keyed_write_def the_driver_def supportsReturning_def)
  with assms(2) show ?thesis
    by (cases "preselect_statement c operation conditions") (auto simp: then_io_Inr execute_rows_Inr)
qed

text \<open>
  Where the database has no RETURNING, an update or delete asked for keys reads the keys its condition
  selects, then writes, once each and in this order, and returns the keys read.
\<close>

theorem keys_are_read_before_the_write:
  assumes "driver_type c = Some Mysql"
  shows "(case update_core env c conds vals True st of
      (Inr res, st2) \<Rightarrow> (\<exists>r s ps rows st1 w. condsToRecord (driver_type c) conds = Inr r
         \<and> preselect_statement c ''UPDATE'' r = Inr (s, ps) \<and> we_exec env s ps st = (Inr rows, st1)
         \<and> model_update env c [] r (pairsToRecord vals) [] st1 = (Inr w, st2) \<and> res = Some (buildPkeyResult c rows))
    | _ \<Rightarrow> True)
    \<and> (case delete_core env c conds True st of
      (Inr res, st2) \<Rightarrow> (\<exists>r s ps rows st1 w. condsToRecord (driver_type c) conds = Inr r
         \<and> preselect_statement c ''DELETE'' r = Inr (s, ps) \<and> we_exec env s ps st = (Inr rows, st1)
         \<and> model_delete env c [] r [] st1 = (Inr w, st2) \<and> res = Some (buildPkeyResult c rows))
    | _ \<Rightarrow> True)"
proof (cases "condsToRecord (driver_type c) conds")
  case (Inl e)
  then show ?thesis by (simp add: update_core_def delete_core_def del: condsToRecord.simps)
next
  case (Inr r)
  have runs: "update_core env c conds vals True st = keyed_write env c ''UPDATE'' r True (model_update env c [] r (pairsToRecord vals)) st"
    "delete_core env c conds True st = keyed_write env c ''DELETE'' r True (model_delete env c [] r) st"
    by (simp_all add: update_core_def delete_core_def Inr del: condsToRecord.simps)
  show ?thesis
    unfolding runs Inr
    by (auto simp del: condsToRecord.simps dest!: keyed_write_mysql [OF assms] split: prod.splits sum.splits)
qed

section \<open>Writes are balanced\<close>

interpretation model_set_cell: sql_emitter "model_set_cell c"
    "\<lambda>cv. casts_ok (model_casts c) \<and> qcount (fst cv) = 0 \<and> wf_val (snd cv)" for c
proof
  have keeps: "qcount (f ''?'' t) = 1" if "model_formatter c = Some f" "qcount t = 0" for f t
    using that by (cases "the (driver_type c)") (auto simp: model_formatter_def formatterFor_def pgCastFormatter_def noCastFormatter_def)
  show "model_set_cell c cv ps = (fst (model_set_cell c cv []), ps @ snd (model_set_cell c cv []))" for cv ps
    by (cases cv; cases "snd cv")
      (simp_all add: model_set_cell_def case_prod_beta Let_def tok_compile_append [of _ "[]" "model_formatter c" ps])
  show "casts_ok (model_casts c) \<and> qcount (fst cv) = 0 \<and> wf_val (snd cv) \<Longrightarrow>
      qcount (fst (model_set_cell c cv [])) = length (snd (model_set_cell c cv []))" for cv
    by (cases cv; cases "snd cv")
      (auto simp: model_set_cell_def wf_val_def casts_ok_def case_prod_beta Let_def tok_compile_arity_ps keeps split: option.splits)
qed

lemma model_where_append: "model_where c conditions ps = (fst (model_where c conditions []), ps @ snd (model_where c conditions []))"
  unfolding model_where_def by (rule conds_compile_append)

lemma model_where_arity:
  "wf_conds (and_conditions conditions) \<Longrightarrow> qcount (fst (model_where c conditions [])) = length (snd (model_where c conditions []))"
  unfolding model_where_def normalizeConditions_def by (rule conds_arity_ps(1)) (simp_all add: and_conditions_def)


section \<open>What the writes leave out\<close>

text \<open>The table of the options is declared for create, but does not reach the insert.\<close>

lemma table_option_is_ignored:
  "create_core env c rows (opts\<lparr>io_tableName := t\<rparr>) returning st = create_core env c rows opts returning st"
  by (simp add: create_core_def)

definition mysql_users :: model_class where
  "mysql_users = example_model\<lparr>driver_type := Some Mysql, mc_columns := Some (registerColumn text_family NoArg ''name''
     (registerColumn uuid_family (OptionsArg ''id'' True False) ''id'' []))\<rparr>"

text \<open>The read of the keys compiles its condition without the formatter of the dialect.\<close>

lemma key_read_casts_for_postgres:
  "preselect_statement mysql_users ''UPDATE'' [(''id'', JTok (DBCast (JStr ''u'') ''uuid'' ''=''))]
    = Inr (''SELECT DISTINCT id FROM users WHERE id = ?::uuid'', [JStr ''u''])"
  "model_where mysql_users [(''id'', JTok (DBCast (JStr ''u'') ''uuid'' ''=''))] [] = (''id = ?'', [JStr ''u''])"
  by code_simp+

text \<open>\<open>updateMany\<close> does not serialize: a Date is refused by an update of a text column, and sent by updateMany.\<close>

lemma update_many_does_not_serialize:
  "isl (serialize_model mysql_users Mysql [(''name'', JDate ''2020-01-01T00:00:00.000Z'' ''Wed Jan 01 2020'')])"
  "map_sum id params (builderUpdateMany Mysql (update_many_build mysql_users Mysql ''users'' [''id'']
      [[(''id'', JStr ''u''), (''name'', JDate ''2020-01-01T00:00:00.000Z'' ''Wed Jan 01 2020'')]] False))
    = Inr [JStr ''u'', JDate ''2020-01-01T00:00:00.000Z'' ''Wed Jan 01 2020'']"
  by code_simp+

text \<open>A composite key is read back column by column: rows that were not written are among the keys returned.\<close>

lemma written_keys_are_combinations:
  "(let q = select_written (mysql_users\<lparr>PKEY_COLUMNS := Some [createColumn ''a'' ''t'' ''T'' None [] None, createColumn ''b'' ''t'' ''T'' None [] None]\<rparr>)
      ''t'' [''a'', ''b''] [[(''a'', JInt 1), (''b'', JInt 2)], [(''a'', JInt 3), (''b'', JInt 4)]] in (sql q, params q))
    = (''SELECT DISTINCT a, b FROM t WHERE a IN (?) AND b IN (?)'', [JArr [JInt 1, JInt 3], JArr [JInt 2, JInt 4]])"
  by code_simp

text \<open>A row is laid over the instance by column, and cast by property: a renamed column is never read.\<close>

lemma renamed_column_is_not_read:
  "createInstance (mysql_users\<lparr>mc_columns := Some (registerColumn text_family (NameArg ''user_name'') ''name'' [])\<rparr>) [(''user_name'', JStr ''a'')]
    = Inr [(''user_name'', JStr ''a''), (''name'', JUndef)]"
  by code_simp

section \<open>Witnesses\<close>

text \<open>An environment that counts the statements it runs, and answers a read with one row.\<close>

definition counting_env :: "bool \<Rightarrow> nat write_env" where
  "counting_env tx = \<lparr>we_scope = \<lparr>inTransaction = tx, readOnly = False\<rparr>, we_exec = (\<lambda>s ps n. (Inr [[(''id'', JStr ''u'')]], Suc n)),
     we_bundle = None, we_localTime = id\<rparr>"

theorem refused_writes_change_nothing_witness:
  "snd (update_core (counting_env False) mysql_users [RawCond ''1 = 1''] [] False 0) = 0
    \<and> (\<exists>e. create_core (counting_env False) mysql_users [] (insert_options.make [] [] None False None []) True 0 = (Inl (NotAllowed e), 0))"
  using refused_writes_change_nothing [of "counting_env False" mysql_users "[]" "insert_options.make [] [] None False None []" True 0 "[]"
      "[RawCond ''1 = 1'']" "[]"]
    refused_writes_change_nothing [of "counting_env False" mysql_users "[]" "insert_options.make [] [] None False None []" False 0 "[]"
      "[RawCond ''1 = 1'']" "[]"]
  by (simp add: counting_env_def del: condsToRecord.simps)

theorem model_writes_agree_witness:
  "delete_statement example_model ''users'' [(''id'', JInt 1)] [] = Inr (''DELETE FROM users WHERE id = ?'', [JInt 1])"
proof -
  have "driver_type example_model = Some Postgres" by (simp add: example_model_def)
  from model_writes_agree [OF this, THEN conjunct2]
  have "delete_statement example_model ''users'' [(''id'', JInt 1)] []
      = bind_r (compileDelete Postgres ''users'' [(''id'', JInt 1)] []) (\<lambda>m. Inr (sql m, params m))" by blast
  also have "\<dots> = Inr (''DELETE FROM users WHERE id = ?'', [JInt 1])" by code_simp
  finally show ?thesis .
qed

theorem keys_are_read_before_the_write_witness:
  "\<exists>st1 w. update_core (counting_env True) mysql_users [RawCond ''1 = 1''] [(createColumn ''name'' ''users'' ''User'' None [] None, Some (JStr ''a''))] True 0
      = (Inr (Some (buildPkeyResult mysql_users [[(''id'', JStr ''u'')]])), 2)
    \<and> model_update (counting_env True) mysql_users [] [(''1 = 1'', JBool True)] [(''name'', JStr ''a'')] [] st1 = (Inr w, 2)"
proof -
  let ?vals = "[(createColumn ''name'' ''users'' ''User'' None [] None, Some (JStr ''a''))]"
  have d: "driver_type mysql_users = Some Mysql" by (simp add: mysql_users_def)
  have run: "snd (update_core (counting_env True) mysql_users [RawCond ''1 = 1''] ?vals True 0) = 2"
    "\<not> isl (fst (update_core (counting_env True) mysql_users [RawCond ''1 = 1''] ?vals True 0))" by code_simp+
  have rec: "condsToRecord (driver_type mysql_users) [RawCond ''1 = 1''] = Inr [(''1 = 1'', JBool True)]" by (simp add: d)
  have rows: "pairsToRecord ?vals = [(''name'', JStr ''a'')]" by code_simp
  obtain res where res: "update_core (counting_env True) mysql_users [RawCond ''1 = 1''] ?vals True 0 = (Inr res, 2)"
    using run by (cases "update_core (counting_env True) mysql_users [RawCond ''1 = 1''] ?vals True 0"; cases "fst (update_core (counting_env True) mysql_users [RawCond ''1 = 1''] ?vals True 0)") auto
  from keys_are_read_before_the_write [OF d, where env = "counting_env True" and conds = "[RawCond ''1 = 1'']" and vals = ?vals and st = 0, THEN conjunct1]
  show ?thesis unfolding res rec rows by (auto simp: counting_env_def)
qed


definition one_user :: insert_group where
  "one_user = ([''name''], [([(''name'', JStr ''a'')], [(''name'', JStr ''a'')])])"


end
