(* ===== verification/LazyRelation.thy ===== *)
theory LazyRelation
  imports ModelWrite Grouping
begin

text \<open>
  \<open>src/LazyRelation.ts\<close> with \<open>_loadRelation\<close> of \<open>src/DBModel.ts\<close> and the relation getter of
  \<open>src/decorators.ts\<close>: the keys of a relation, the eight batch loads, the map of the loaded rows, the
  lookup of one record, and the caches of the context and of a record.  A record is the object of its
  fields; a key value is one a row holds, never a wrapper.
\<close>

section \<open>Configuration\<close>

datatype relation_type = BelongsTo | HasMany | HasOne

definition type_text :: "relation_type \<Rightarrow> string" where
  "type_text rt = (case rt of BelongsTo \<Rightarrow> ''belongsTo'' | HasMany \<Rightarrow> ''hasMany'' | HasOne \<Rightarrow> ''hasOne'')"

text \<open>
  The texts are empty when absent (the code tests them for truth); \<open>hardLimit\<close> is absent, \<open>null\<close> or a number.
\<close>

record relation_config =
  targetClass :: model_class
  rel_conditions :: "jsobj option"
  rel_order :: string
  targetKey :: string
  sourceKey :: string
  targetKeys :: "string list option"
  sourceKeys :: "string list option"
  rel_limit :: "int option"
  rel_hardLimit :: "int option option"
  relationName :: "string option"

definition class_key :: "string \<Rightarrow> string" where
  "class_key name =
     (let s = map lower name;
          s1 = (if ends_with ''model'' s then take (length s - 5) s else s)
      in (if starts_with ''test'' s1 then drop 4 s1 else s1) @ ''_id'')"

definition inferTargetKey :: "model_class \<Rightarrow> relation_type \<Rightarrow> string" where
  "inferTargetKey source rt = (if rt = BelongsTo then ''id'' else class_key (mc_name source))"

definition inferSourceKey :: "relation_type \<Rightarrow> relation_config \<Rightarrow> string" where
  "inferSourceKey rt cfg = (if rt = BelongsTo then class_key (mc_name (targetClass cfg)) else ''id'')"

definition getCacheKey :: "relation_type \<Rightarrow> relation_config \<Rightarrow> string" where
  "getCacheKey rt cfg = (case relationName cfg of
      Some (c # n) \<Rightarrow> type_text rt @ '':'' @ c # n
    | _ \<Rightarrow> type_text rt @ '':'' @ mc_name (targetClass cfg) @ '':''
             @ or_text (targetKey cfg) (case targetKeys cfg of Some ks \<Rightarrow> join '','' ks | None \<Rightarrow> []))"

section \<open>Keys\<close>

definition many_keys :: "nat \<Rightarrow> relation_config \<Rightarrow> bool" where
  "many_keys n cfg \<longleftrightarrow> (case targetKeys cfg of Some ks \<Rightarrow> length ks > n | None \<Rightarrow> False)
     \<or> (case sourceKeys cfg of Some ks \<Rightarrow> length ks > n | None \<Rightarrow> False)"

definition single_source_key :: "relation_type \<Rightarrow> relation_config \<Rightarrow> string" where
  "single_source_key rt cfg = or_text (sourceKey cfg) (inferSourceKey rt cfg)"

definition composite_source_keys :: "relation_type \<Rightarrow> relation_config \<Rightarrow> string list" where
  "composite_source_keys rt cfg = (case sourceKeys cfg of Some ks \<Rightarrow> ks | None \<Rightarrow> [single_source_key rt cfg])"

text \<open>\<open>[...].join(sep)\<close>: \<open>null\<close> and \<open>undefined\<close> are written as nothing.\<close>

definition join_values :: "jsval list \<Rightarrow> string" where
  "join_values vs = join KEY_SEP (map (\<lambda>v. if nullish v then [] else js_string v) vs)"

definition getSourceKeyValue :: "jsobj \<Rightarrow> relation_type \<Rightarrow> relation_config \<Rightarrow> jsval" where
  "getSourceKeyValue r rt cfg = js_get r (single_source_key rt cfg)"

definition getCompositeSourceKeyValue :: "jsobj \<Rightarrow> relation_type \<Rightarrow> relation_config \<Rightarrow> jsobj" where
  "getCompositeSourceKeyValue r rt cfg =
     fold (\<lambda>k res. obj_set res k (js_get r k)) (composite_source_keys rt cfg) []"

definition getTargetKeyValue :: "jsobj \<Rightarrow> string list \<Rightarrow> string" where
  "getTargetKeyValue r keys = (case keys of [k] \<Rightarrow> js_string (js_get r k) | _ \<Rightarrow> join_values (map (js_get r) keys))"

definition lookup_key :: "jsobj \<Rightarrow> relation_type \<Rightarrow> relation_config \<Rightarrow> string" where
  "lookup_key r rt cfg =
     (if many_keys 0 cfg then join_values (map (js_get r) (composite_source_keys rt cfg))
      else js_string (getSourceKeyValue r rt cfg))"

fun unique_tuples :: "string list \<Rightarrow> string list \<Rightarrow> jsval list list \<Rightarrow> jsobj list \<Rightarrow> jsval list list" where
  "unique_tuples keys seen res [] = res"
| "unique_tuples keys seen res (kv # kvs) =
     (let t = map (js_get kv) keys; k = join_values t in
      if k \<in> set seen then unique_tuples keys seen res kvs
      else unique_tuples keys (k # seen) (res @ [t]) kvs)"

definition getUniqueCompositeKeyTuples :: "jsobj list \<Rightarrow> string list \<Rightarrow> jsval list list" where
  "getUniqueCompositeKeyTuples kvs keys = unique_tuples keys [] [] kvs"

text \<open>\<open>JSON.parse(JSON.stringify(v))\<close> of a value of a row.\<close>

definition is_object :: "jsval \<Rightarrow> bool" where
  "is_object v = (case v of JDate _ _ \<Rightarrow> True | JArr _ \<Rightarrow> True | JObj _ \<Rightarrow> True | JTok _ \<Rightarrow> True | JCond _ \<Rightarrow> True | JNull \<Rightarrow> True | _ \<Rightarrow> False)"

function (sequential) json_copy :: "jsval \<Rightarrow> scp_error + jsval" where
  "json_copy (JDate ts _) = Inr (JStr ts)"
| "json_copy (JNonFin _) = Inr JNull"
| "json_copy (JBig _) = Inl (OtherError ''Do not know how to serialize a BigInt'')"
| "json_copy (JArr vs) = bind_r (map_r json_copy vs) (\<lambda>ws. Inr (JArr (map (\<lambda>w. if w = JUndef then JNull else w) ws)))"
| "json_copy (JObj ob) = bind_r (map_r (\<lambda>kv. bind_r (json_copy (snd kv)) (\<lambda>w. Inr (fst kv, w))) ob) (\<lambda>kws.
     Inr (JObj (filter (\<lambda>(_, w). w \<noteq> JUndef) kws)))"
| "json_copy (JTok _) = Inl (OtherError ''a wrapper is not a key value'')"
| "json_copy (JCond _) = Inl (OtherError ''a condition tree is not a key value'')"
| "json_copy v = Inr v"
  by pat_completeness auto

termination
  by (relation "measure size")
    (auto simp: less_Suc_eq_le dest: size_list_mem [of _ _ size] size_list_mem [of _ _ "size_prod (\<lambda>_. 0) size"])

definition unique_values :: "jsval list \<Rightarrow> scp_error + jsval list" where
  "unique_values vs = (case vs of
      v # _ \<Rightarrow> if \<not> is_object v then Inr (dedup vs) else bind_r (map_r json_copy vs) (\<lambda>ws. Inr (dedup ws))
    | [] \<Rightarrow> Inr [])"

definition array_cast :: "jsval list \<Rightarrow> string option \<Rightarrow> string" where
  "array_cast vs cast = inferPgArrayType vs (case cast of None \<Rightarrow> [] | Some t \<Rightarrow> t)"

section \<open>Batch loads\<close>

text \<open>A load is a ready statement, or conditions with the options of a read.\<close>

type_synonym load = "(string \<times> jsval list) + jsobj \<times> read_opts"

definition base_conditions :: "relation_config \<Rightarrow> jsobj" where
  "base_conditions cfg = (case rel_conditions cfg of None \<Rightarrow> [] | Some r \<Rightarrow> r)"

definition ordered :: "relation_config \<Rightarrow> read_opts" where
  "ordered cfg = no_opts\<lparr>ro_order := (if rel_order cfg = [] then NoOrder else OrderText (rel_order cfg))\<rparr>"

definition batchLoadWithAnyArray :: "model_class \<Rightarrow> string \<Rightarrow> jsval list \<Rightarrow> relation_config \<Rightarrow> load" where
  "batchLoadWithAnyArray c key vs cfg =
     (let pgType = array_cast vs (model_casts c key)
      in Inr (obj_spread [raw_entry (qual_col (TABLE_NAME c) key @ '' = ANY(?::'' @ pgType @ '')'') [JArr vs]] (base_conditions cfg),
           ordered cfg))"

definition cast_params :: "model_class \<Rightarrow> string list \<Rightarrow> jsval list list \<Rightarrow> string" where
  "cast_params c keys columnArrays =
     join '', '' (map_index (\<lambda>i arr. ''?::'' @ array_cast arr (model_casts c (keys ! i))) columnArrays)"

definition batchLoadWithUnnestJoin :: "model_class \<Rightarrow> string list \<Rightarrow> jsval list list \<Rightarrow> relation_config \<Rightarrow> load" where
  "batchLoadWithUnnestJoin c keys tuples cfg =
     (let table = TABLE_NAME c; columnArrays = transpose_keys keys tuples; unnestAlias = ''_unnest_'' @ table;
          joinConditions = join '' AND '' (map (\<lambda>k. qual_col table k @ '' = '' @ unnestAlias @ ''.'' @ unnest_column table k) keys)
      in Inr (base_conditions cfg, (ordered cfg)\<lparr>
           ro_join := ''JOIN unnest('' @ cast_params c keys columnArrays @ '') AS '' @ unnestAlias @ ''(''
             @ join '', '' (map (unnest_column table) keys) @ '') ON '' @ joinConditions,
           ro_joinParams := map JArr columnArrays\<rparr>))"

definition batchLoadWithIn :: "string \<Rightarrow> jsval list \<Rightarrow> relation_config \<Rightarrow> load" where
  "batchLoadWithIn key vs cfg = Inr (obj_set (base_conditions cfg) key (JArr vs), ordered cfg)"

definition batchLoadWithCompositeIn :: "model_class \<Rightarrow> string list \<Rightarrow> jsval list list \<Rightarrow> relation_config \<Rightarrow> scp_error + load" where
  "batchLoadWithCompositeIn c keys tuples cfg =
     bind_r (condsToRecord None (map (\<lambda>(k, v). TextCond k (Some v)) (base_conditions cfg)
               @ [TupleCond (map (\<lambda>k. createColumn k (TABLE_NAME c) (mc_name c) None [] None) keys) (Some tuples)]))
       (\<lambda>conditions. Inr (Inr (conditions, ordered cfg)))"

definition child_opts :: "model_class \<Rightarrow> relation_config \<Rightarrow> int \<Rightarrow> read_opts" where
  "child_opts c cfg lim = (ordered cfg)\<lparr>ro_tableName := TABLE_NAME c, ro_limit := Some lim\<rparr>"

definition lateral_load :: "model_class \<Rightarrow> string \<Rightarrow> string \<Rightarrow> jsval list \<Rightarrow> relation_config \<Rightarrow> int \<Rightarrow> load" where
  "lateral_load c keyRows keyPredicate keyParams cfg lim =
     (let table = TABLE_NAME c;
          (lateralSql, lateralParams) = buildSelectSQL c (obj_spread [(''__raw__'', JStr keyPredicate)] (base_conditions cfg))
             (child_opts c cfg lim) []
      in Inl (''SELECT '' @ table @ ''.* FROM '' @ keyRows @ '' CROSS JOIN LATERAL ('' @ lateralSql @ '') '' @ table,
              keyParams @ lateralParams))"

definition batchLoadWithLateral :: "model_class \<Rightarrow> string \<Rightarrow> jsval list \<Rightarrow> relation_config \<Rightarrow> int \<Rightarrow> load" where
  "batchLoadWithLateral c key vs cfg lim =
     lateral_load c (''unnest(?::'' @ array_cast vs (model_casts c key) @ '') AS _keys(key)'')
       (qual_col (TABLE_NAME c) key @ '' = _keys.key'') [JArr vs] cfg lim"

definition batchLoadWithLateralComposite :: "model_class \<Rightarrow> string list \<Rightarrow> jsval list list \<Rightarrow> relation_config \<Rightarrow> int \<Rightarrow> load" where
  "batchLoadWithLateralComposite c keys tuples cfg lim =
     (let columnArrays = transpose_keys keys tuples
      in lateral_load c (''unnest('' @ cast_params c keys columnArrays @ '') AS _keys(''
           @ join '', '' (map_index (\<lambda>i _. ''key'' @ show_nat i) keys) @ '')'')
         (key_rows_predicate (TABLE_NAME c) keys) (map JArr columnArrays) cfg lim)"

text \<open>The window over the key columns, then the filter on its row number; the CTE appends to the values given.\<close>

definition ranked_load :: "model_class \<Rightarrow> string list \<Rightarrow> jsobj \<Rightarrow> jsval list \<Rightarrow> relation_config \<Rightarrow> int \<Rightarrow> load" where
  "ranked_load c keys cteConditions cteParams0 cfg lim =
     (let (cteText, ctePs) = buildSelectSQL c cteConditions
            (no_opts\<lparr>ro_select := ''*, ROW_NUMBER() OVER (PARTITION BY '' @ join '', '' keys @ '' ORDER BY ''
               @ or_text (rel_order cfg) (join '', '' keys) @ '') AS _rn'', ro_tableName := TABLE_NAME c\<rparr>) cteParams0
      in Inl (buildSelectSQL c [(''__raw__'', JStr (''_rn <= '' @ show_int lim))]
            (no_opts\<lparr>ro_tableName := ''ranked'', ro_cte := Some \<lparr>cteName = ''ranked'', cteSql = cteText, cteParams = ctePs\<rparr>\<rparr>) []))"

definition batchLoadWithRowNumber :: "model_class \<Rightarrow> string \<Rightarrow> jsval list \<Rightarrow> relation_config \<Rightarrow> int \<Rightarrow> load" where
  "batchLoadWithRowNumber c key vs cfg lim =
     ranked_load c [key] (obj_spread [(key, JArr vs)] (base_conditions cfg)) [] cfg lim"

definition batchLoadWithRowNumberComposite :: "model_class \<Rightarrow> string list \<Rightarrow> jsval list list \<Rightarrow> relation_config \<Rightarrow> int \<Rightarrow> load" where
  "batchLoadWithRowNumberComposite c keys tuples cfg lim =
     ranked_load c keys (obj_spread [(''__raw__'', JStr (key_tuples_text keys tuples))] (base_conditions cfg)) (concat tuples) cfg lim"

text \<open>The strategy: the limit counts only for \<open>hasMany\<close>.\<close>

definition needed_limit :: "relation_type \<Rightarrow> relation_config \<Rightarrow> int option" where
  "needed_limit rt cfg = (if rt = HasMany then rel_limit cfg else None)"

definition single_load :: "dialect \<Rightarrow> relation_type \<Rightarrow> relation_config \<Rightarrow> string \<Rightarrow> jsval list \<Rightarrow> load" where
  "single_load d rt cfg key vs = (let c = targetClass cfg in
     case needed_limit rt cfg of
       Some lim \<Rightarrow> if d = Postgres then batchLoadWithLateral c key vs cfg lim else batchLoadWithRowNumber c key vs cfg lim
     | None \<Rightarrow> if d = Postgres then batchLoadWithAnyArray c key vs cfg else batchLoadWithIn key vs cfg)"

definition composite_load :: "dialect \<Rightarrow> relation_type \<Rightarrow> relation_config \<Rightarrow> string list \<Rightarrow> jsval list list \<Rightarrow> scp_error + load" where
  "composite_load d rt cfg keys tuples = (let c = targetClass cfg in
     case needed_limit rt cfg of
       Some lim \<Rightarrow> Inr (if d = Postgres then batchLoadWithLateralComposite c keys tuples cfg lim
                        else batchLoadWithRowNumberComposite c keys tuples cfg lim)
     | None \<Rightarrow> if d = Postgres then Inr (batchLoadWithUnnestJoin c keys tuples cfg) else batchLoadWithCompositeIn c keys tuples cfg)"

text \<open>What the records ask for: the keys of the target with the load, none when no record has a key.\<close>

definition plan_load :: "model_class \<Rightarrow> jsobj list \<Rightarrow> relation_type \<Rightarrow> relation_config \<Rightarrow> scp_error + (string list \<times> load) option" where
  "plan_load source records rt cfg =
     (if many_keys 1 cfg then
        (let kvs = filter (\<lambda>kv. list_all (\<lambda>(_, v). \<not> nullish v) kv) (map (\<lambda>r. getCompositeSourceKeyValue r rt cfg) records)
         in if kvs = [] then Inr None
            else bind_r (the_driver (targetClass cfg)) (\<lambda>d.
              let tks = (case targetKeys cfg of Some ks \<Rightarrow> ks | None \<Rightarrow> [inferTargetKey source rt]);
                  sks = (case sourceKeys cfg of Some ks \<Rightarrow> ks | None \<Rightarrow> [or_text (sourceKey cfg) ''id'']);
                  tuples = getUniqueCompositeKeyTuples kvs sks
              in if tuples = [] then Inr None
                 else bind_r (composite_load d rt cfg tks tuples) (\<lambda>l. Inr (Some (tks, l)))))
      else
        (let vs = filter (\<lambda>v. \<not> nullish v) (map (\<lambda>r. getSourceKeyValue r rt cfg) records)
         in if vs = [] then Inr None
            else bind_r (the_driver (targetClass cfg)) (\<lambda>d.
              let tk = or_text (targetKey cfg) (inferTargetKey source rt)
              in bind_r (unique_values vs) (\<lambda>us. Inr (Some ([tk], single_load d rt cfg tk us))))))"

datatype relation_map = Groups "(string \<times> jsobj list) list" | Singles "(string \<times> jsobj) list"

definition build_map :: "relation_type \<Rightarrow> string list \<Rightarrow> jsobj list \<Rightarrow> relation_map" where
  "build_map rt keys rows =
     (if rt = HasMany then Groups (group_by (\<lambda>r. getTargetKeyValue r keys) rows)
      else Singles (fold (\<lambda>r m. obj_set m (getTargetKeyValue r keys) r) rows []))"

definition batchLoadRelation ::
  "model_class \<Rightarrow> jsobj list \<Rightarrow> int option \<Rightarrow> 's executor \<Rightarrow> relation_type \<Rightarrow> relation_config \<Rightarrow> 's \<Rightarrow> (scp_error + relation_map) \<times> 's" where
  "batchLoadRelation source records globalCap run rt cfg st = (case plan_load source records rt cfg of
      Inl e \<Rightarrow> (Inl e, st)
    | Inr None \<Rightarrow> (Inr (build_map rt [] []), st)
    | Inr (Some (keys, what)) \<Rightarrow>
        (case selectForRelation (targetClass cfg) globalCap run what
            (if isl what then None else rel_hardLimit cfg) (if isl what then None else Some (mc_name source))
            (if isl what then None else relationName cfg) st of
           (Inl e, st') \<Rightarrow> (Inl e, st')
         | (Inr rows, st') \<Rightarrow> (Inr (build_map rt keys rows), st')))"

definition map_lookup :: "relation_map \<Rightarrow> string \<Rightarrow> attached" where
  "map_lookup m k = (case m of
      Groups gs \<Rightarrow> Many (case map_of gs k of None \<Rightarrow> [] | Some rs \<Rightarrow> rs)
    | Singles ss \<Rightarrow> One (map_of ss k))"

section \<open>The context and the record\<close>

text \<open>
  The caches of a context: its settled batch loads by cache key, the relation cache of every record by its
  position, and the state of the database.
\<close>

record 's lazy_state =
  batchCache :: "(string \<times> relation_map) list"
  relationCaches :: "nat \<Rightarrow> (string \<times> attached) list"
  lazy_db :: 's

type_synonym ('a, 's) lazy_io = "'s lazy_state \<Rightarrow> (scp_error + 'a) \<times> 's lazy_state"

definition get_map ::
  "model_class \<Rightarrow> jsobj list \<Rightarrow> int option \<Rightarrow> 's executor \<Rightarrow> relation_type \<Rightarrow> relation_config \<Rightarrow> (relation_map, 's) lazy_io" where
  "get_map source records globalCap run rt cfg st = (case map_of (batchCache st) (getCacheKey rt cfg) of
      Some m \<Rightarrow> (Inr m, st)
    | None \<Rightarrow> (case batchLoadRelation source records globalCap run rt cfg (lazy_db st) of
        (Inl e, db) \<Rightarrow> (Inl e, st\<lparr>lazy_db := db\<rparr>)
      | (Inr m, db) \<Rightarrow> (Inr m, st\<lparr>batchCache := obj_set (batchCache st) (getCacheKey rt cfg) m, lazy_db := db\<rparr>)))"

definition getRelation ::
  "model_class \<Rightarrow> jsobj list \<Rightarrow> int option \<Rightarrow> 's executor \<Rightarrow> jsobj \<Rightarrow> relation_type \<Rightarrow> relation_config \<Rightarrow> (attached, 's) lazy_io" where
  "getRelation source records globalCap run r rt cfg st = (case get_map source records globalCap run rt cfg st of
      (Inl e, st') \<Rightarrow> (Inl e, st')
    | (Inr m, st') \<Rightarrow> (Inr (map_lookup m (lookup_key r rt cfg)), st'))"

definition clearRelationCache :: "nat \<Rightarrow> 's lazy_state \<Rightarrow> 's lazy_state" where
  "clearRelationCache i st = st\<lparr>relationCaches := (relationCaches st)(i := []), batchCache := []\<rparr>"

text \<open>The records of the context of a record: the rows of its query, or itself.\<close>

definition context_records :: "jsobj list option \<Rightarrow> jsobj \<Rightarrow> jsobj list" where
  "context_records deferred self = (case deferred of Some rs \<Rightarrow> rs | None \<Rightarrow> [self])"

text \<open>What the decorator passes; a missing order is the empty text.\<close>

record load_config =
  lc_sourceKeys :: "string list"
  lc_targetKeys :: "string list"
  lc_order :: string
  lc_where :: "cond_elem list option"
  lc_limit :: "int option"
  lc_hardLimit :: "int option option"
  lc_relationName :: "string option"

definition first_key :: "string list \<Rightarrow> string" where
  "first_key ks = (case ks of [] \<Rightarrow> [] | k # _ \<Rightarrow> k)"

definition relation_config_of :: "(string \<Rightarrow> model_class option) \<Rightarrow> string \<Rightarrow> load_config \<Rightarrow> scp_error + relation_config" where
  "relation_config_of registry name lc = (case registry name of
      None \<Rightarrow> Inl (OtherError (''Model '' @ squoted name @ '' not found. Ensure it is decorated with @model and imported before use.''))
    | Some c \<Rightarrow>
        bind_r (case lc_where lc of None \<Rightarrow> Inr None | Some w \<Rightarrow> bind_r (condsToRecord (driver_type c) w) (\<lambda>r. Inr (Some r))) (\<lambda>conditions.
          let single = (length (lc_sourceKeys lc) = 1) in
          Inr \<lparr>targetClass = c, rel_conditions = conditions, rel_order = lc_order lc,
            targetKey = (if single then first_key (lc_targetKeys lc) else []),
            sourceKey = (if single then first_key (lc_sourceKeys lc) else []),
            targetKeys = (if single then None else Some (lc_targetKeys lc)),
            sourceKeys = (if single then None else Some (lc_sourceKeys lc)),
            rel_limit = lc_limit lc, rel_hardLimit = lc_hardLimit lc, relationName = lc_relationName lc\<rparr>))"

definition over_cap :: "int option \<Rightarrow> attached \<Rightarrow> int option" where
  "over_cap cap v = (case (cap, v) of (Some n, Many rows) \<Rightarrow> (if int (length rows) > n then Some n else None) | _ \<Rightarrow> None)"

definition row_count :: "attached \<Rightarrow> nat" where
  "row_count v = (case v of Many rows \<Rightarrow> length rows | One _ \<Rightarrow> 0)"

definition loadRelation ::
  "model_class \<Rightarrow> jsobj list \<Rightarrow> int option \<Rightarrow> 's executor \<Rightarrow> (string \<Rightarrow> model_class option) \<Rightarrow> nat \<Rightarrow> relation_type \<Rightarrow> string
     \<Rightarrow> load_config \<Rightarrow> (attached, 's) lazy_io" where
  "loadRelation source records globalCap run registry i rt name lc st = (case relation_config_of registry name lc of
      Inl e \<Rightarrow> (Inl e, st)
    | Inr cfg \<Rightarrow>
        (case map_of (relationCaches st i) (getCacheKey rt cfg) of
           Some v \<Rightarrow> (Inr v, st)
         | None \<Rightarrow>
             (case getRelation source records globalCap run (records ! i) rt cfg st of
                (Inl e, st') \<Rightarrow> (Inl e, st')
              | (Inr v, st') \<Rightarrow>
                  (case over_cap (effective_relation_cap (lc_hardLimit lc) globalCap) v of
                     Some cap \<Rightarrow> (Inl (LimitExceeded cap (row_count v) ''relation'' (Some (mc_name source)) (lc_relationName lc)), st')
                   | None \<Rightarrow> (Inr v, st'\<lparr>relationCaches := (relationCaches st')(i := obj_set (relationCaches st' i) (getCacheKey rt cfg) v)\<rparr>)))))"

section \<open>The getter of the decorator\<close>

datatype key_spec = OnePair model_column model_column | PairList "(model_column \<times> model_column) list"

definition decorator_keys :: "key_spec \<Rightarrow> scp_error + string list \<times> string list \<times> string" where
  "decorator_keys ks = (case ks of
      OnePair s t \<Rightarrow> Inr ([columnName s], [columnName t], modelName t)
    | PairList [] \<Rightarrow> Inl (OtherError ''sourceKey is undefined'')
    | PairList ((s, t) # ps) \<Rightarrow> Inr (map (columnName \<circ> fst) ((s, t) # ps), map (columnName \<circ> snd) ((s, t) # ps), modelName t))"

record getter_meta =
  propertyKey :: string
  rel_type :: relation_type
  keysFactory :: key_spec
  opt_order :: order_spec
  opt_where :: "cond_elem list option"
  opt_limit :: "int option"
  opt_hardLimit :: "int option option"

definition relation_getter ::
  "model_class \<Rightarrow> jsobj list \<Rightarrow> int option \<Rightarrow> 's executor \<Rightarrow> (string \<Rightarrow> model_class option) \<Rightarrow> getter_meta \<Rightarrow> nat \<Rightarrow> (attached, 's) lazy_io" where
  "relation_getter source records globalCap run registry rm i st =
     (case map_of (relationCaches st i) (type_text (rel_type rm) @ '':'' @ propertyKey rm) of
        Some v \<Rightarrow> (Inr v, st)
      | None \<Rightarrow> (case decorator_keys (keysFactory rm) of
          Inl e \<Rightarrow> (Inl e, st)
        | Inr (sks, tks, name) \<Rightarrow>
            loadRelation source records globalCap run registry i (rel_type rm) name
              \<lparr>lc_sourceKeys = sks, lc_targetKeys = tks, lc_order = orderToString (opt_order rm), lc_where = opt_where rm,
               lc_limit = opt_limit rm, lc_hardLimit = opt_hardLimit rm, lc_relationName = Some (propertyKey rm)\<rparr> st))"

text \<open>\<open>preloadRelations\<close>: the relation of the first record.\<close>

definition preloadRelations :: "nat \<Rightarrow> (nat \<Rightarrow> (attached, 's) lazy_io) \<Rightarrow> (unit, 's) lazy_io" where
  "preloadRelations n accessor st = (if n = 0 then (Inr (), st) else map_prod (map_sum id (\<lambda>_. ())) id (accessor 0 st))"

section \<open>What the lookup returns\<close>

definition rows_of_key :: "string list \<Rightarrow> string \<Rightarrow> jsobj list \<Rightarrow> jsobj list" where
  "rows_of_key keys k rows = filter (\<lambda>r. getTargetKeyValue r keys = k) rows"

definition last_row :: "jsobj list \<Rightarrow> jsobj option" where
  "last_row rows = (if rows = [] then None else Some (last rows))"

lemma fold_last: "map_of (fold (\<lambda>r m. obj_set m (f r) r) rows m0) k
    = (let rs = filter (\<lambda>r. f r = k) rows in if rs = [] then map_of m0 k else Some (last rs))"
proof (induction rows rule: rev_induct)
  case (snoc r rows)
  then show ?case by (auto simp: map_of_obj_set Let_def)
qed simp

lemma lookup_built:
  "map_lookup (build_map rt keys rows) k
    = (if rt = HasMany then Many (rows_of_key keys k rows) else One (last_row (rows_of_key keys k rows)))"
  by (auto simp: map_lookup_def build_map_def group_by_map_of fold_last rows_of_key_def last_row_def Let_def filter_empty_conv
      split: option.split)

lemma build_map_empty: "build_map rt keys [] = build_map rt [] []"
  by (simp add: build_map_def group_by_def)

text \<open>The rows a batch load has answered with: none when no record has a key.\<close>

lemma batch_rows:
  assumes "batchLoadRelation source records cap run rt cfg db = (Inr m, db')"
  shows "\<exists>keys rows. m = build_map rt keys rows
    \<and> (plan_load source records rt cfg = Inr None \<and> rows = [] \<and> db' = db
       \<or> (\<exists>what. plan_load source records rt cfg = Inr (Some (keys, what))
           \<and> selectForRelation (targetClass cfg) cap run what (if isl what then None else rel_hardLimit cfg)
               (if isl what then None else Some (mc_name source)) (if isl what then None else relationName cfg) db = (Inr rows, db')))"
proof (cases "plan_load source records rt cfg")
  case (Inr a)
  show ?thesis
  proof (cases a)
    case None
    then show ?thesis using assms Inr by (auto simp: batchLoadRelation_def)
  next
    case (Some kw)
    then show ?thesis using assms Inr
      by (cases kw) (auto simp: batchLoadRelation_def split: prod.splits sum.splits intro!: exI)
  qed
qed (use assms in \<open>simp add: batchLoadRelation_def\<close>)

section \<open>One load per context\<close>

lemma get_map_cached: "map_of (batchCache st) (getCacheKey rt cfg) = Some m \<Longrightarrow> get_map source records cap run rt cfg st = (Inr m, st)"
  by (simp add: get_map_def)

lemma get_map_keeps:
  assumes "get_map source records cap run rt cfg st = (Inr m, st')"
  shows "map_of (batchCache st') (getCacheKey rt cfg) = Some m"
  using assms by (auto simp: get_map_def map_of_obj_set split: option.splits prod.splits sum.splits)

lemma getRelation_keeps:
  assumes "getRelation source records cap run r rt cfg st = (Inr v, st')"
  obtains m where "map_of (batchCache st') (getCacheKey rt cfg) = Some m" and "v = map_lookup m (lookup_key r rt cfg)"
  using assms get_map_keeps by (fastforce simp: getRelation_def split: prod.splits sum.splits)

lemma getRelation_cached:
  assumes "map_of (batchCache st) (getCacheKey rt cfg) = Some m"
  shows "getRelation source records cap run r rt cfg st = (Inr (map_lookup m (lookup_key r rt cfg)), st)"
  using get_map_cached [OF assms] by (simp add: getRelation_def)

text \<open>A loaded context answers every record from its map: no statement runs.\<close>

lemma loadRelation_cached:
  assumes "relation_config_of registry name lc = Inr cfg" and "map_of (batchCache st) (getCacheKey rt cfg) = Some m"
    and "loadRelation source records cap run registry j rt name lc st = (res, st')"
  shows "lazy_db st' = lazy_db st \<and> batchCache st' = batchCache st
    \<and> (case map_of (relationCaches st j) (getCacheKey rt cfg) of
         Some v \<Rightarrow> res = Inr v
       | None \<Rightarrow> (let v = map_lookup m (lookup_key (records ! j) rt cfg) in
           res = (case over_cap (effective_relation_cap (lc_hardLimit lc) cap) v of
             None \<Rightarrow> Inr v
           | Some n \<Rightarrow> Inl (LimitExceeded n (row_count v) ''relation'' (Some (mc_name source)) (lc_relationName lc)))))"
  using assms by (auto simp: loadRelation_def getRelation_cached Let_def split: option.splits)

lemma loadRelation_loads:
  assumes "relation_config_of registry name lc = Inr cfg" and "relationCaches st i = []"
    and "loadRelation source records cap run registry i rt name lc st = (Inr v, st1)"
  shows "\<exists>m. map_of (batchCache st1) (getCacheKey rt cfg) = Some m \<and> v = map_lookup m (lookup_key (records ! i) rt cfg)
    \<and> relationCaches st1 = (relationCaches st)(i := [(getCacheKey rt cfg, v)])"
proof -
  obtain st' where got: "getRelation source records cap run (records ! i) rt cfg st = (Inr v, st')"
      and st1: "st1 = st'\<lparr>relationCaches := (relationCaches st')(i := obj_set (relationCaches st' i) (getCacheKey rt cfg) v)\<rparr>"
    using assms by (auto simp: loadRelation_def split: prod.splits sum.splits option.splits)
  have "relationCaches st' = relationCaches st"
    using got by (auto simp: getRelation_def get_map_def split: prod.splits sum.splits option.splits)
  then show ?thesis using getRelation_keeps [OF got] assms(2) unfolding st1 by fastforce
qed

text \<open>
  A relation is loaded once for all the records of a query.  When the first access through a record
  succeeds, an access through any other record runs no statement, changes neither the database nor the
  loaded map, and returns the rows of that record from the map, or the cap error when they are too many.
\<close>

theorem relation_loads_once:
  assumes "relation_config_of registry name lc = Inr cfg" and "relationCaches st = (\<lambda>_. [])"
    and "loadRelation source records cap run registry i rt name lc st = (Inr v, st1)"
    and "loadRelation source records cap run registry j rt name lc st1 = (res, st2)" and "j \<noteq> i"
  shows "lazy_db st2 = lazy_db st1 \<and> batchCache st2 = batchCache st1
    \<and> (\<exists>m w. map_of (batchCache st1) (getCacheKey rt cfg) = Some m \<and> w = map_lookup m (lookup_key (records ! j) rt cfg)
        \<and> (res = Inr w \<or> (\<exists>n. over_cap (effective_relation_cap (lc_hardLimit lc) cap) w = Some n
            \<and> res = Inl (LimitExceeded n (row_count w) ''relation'' (Some (mc_name source)) (lc_relationName lc)))))"
proof -
  obtain m where m: "map_of (batchCache st1) (getCacheKey rt cfg) = Some m"
      and caches: "relationCaches st1 = (relationCaches st)(i := [(getCacheKey rt cfg, v)])"
    using loadRelation_loads [OF assms(1) _ assms(3)] assms(2) by auto
  have "relationCaches st1 j = []" using caches assms(2,5) by simp
  then show ?thesis
    using loadRelation_cached [OF assms(1) m assms(4)] m by (auto simp: Let_def split: option.splits)
qed

section \<open>Every record gets its own rows\<close>


section \<open>The active record and the compiled read agree\<close>

definition src_keys :: "relation_type \<Rightarrow> relation_config \<Rightarrow> string list" where
  "src_keys rt cfg = (if many_keys 0 cfg then composite_source_keys rt cfg else [single_source_key rt cfg])"

lemma join_values_complete: "\<not> partial_key vs \<Longrightarrow> join_values vs = keyIdentity vs"
proof -
  assume "\<not> partial_key vs"
  then have "map (\<lambda>v. if nullish v then [] else js_string v) vs = map js_string vs"
    by (auto simp: partial_key_def list_ex_iff intro!: map_cong)
  then show ?thesis unfolding join_values_def keyIdentity_eq by (rule arg_cong)
qed

lemma lookup_key_complete: "complete (src_keys rt cfg) r \<Longrightarrow> lookup_key r rt cfg = ident (src_keys rt cfg) r"
  by (auto simp: lookup_key_def src_keys_def complete_def ident_def key_tuple_def join_values_complete getSourceKeyValue_def keyIdentity_def)

lemma target_key_complete: "complete keys r \<Longrightarrow> getTargetKeyValue r keys = ident keys r"
  by (auto simp: getTargetKeyValue_def complete_def ident_def key_tuple_def join_values_complete keyIdentity_def split: list.split)

lemma rows_of_complete:
  assumes "complete (src_keys rt cfg) r" and "list_all (complete keys) rows"
  shows "rows_of_key keys (lookup_key r rt cfg) rows = children_of (src_keys rt cfg) keys rows r"
  using assms by (auto simp: rows_of_key_def children_of_def lookup_key_complete target_key_complete list_all_iff intro!: filter_cong)

lemma hydration_eq: "attachToParent r pk (groupByKey rows fk) single
    = (if single then One (case children_of pk fk rows r of [] \<Rightarrow> None | x # _ \<Rightarrow> Some x) else Many (children_of pk fk rows r))"
  by (auto simp: attachToParent_def groupByKey_lookup children_of_def complete_def ident_def Let_def split: list.split)


text \<open>Two rows of one key: the lazy relation takes the last, the compiled read the first.\<close>

definition two_children :: "jsobj list" where
  "two_children = [[(''id'', JInt 1), (''owner'', JInt 7)], [(''id'', JInt 2), (''owner'', JInt 7)]]"

lemma single_relation_takes_the_last:
  "map_lookup (build_map HasOne [''owner''] two_children) ''7'' = One (Some [(''id'', JInt 2), (''owner'', JInt 7)])"
  "attachToParent [(''id'', JInt 7)] [''id''] (groupByKey two_children [''owner'']) True
    = One (Some [(''id'', JInt 1), (''owner'', JInt 7)])"
  by code_simp+

text \<open>A null key is written like a text: a row without a key belongs to the record whose key is that text.\<close>

lemma null_key_is_a_text:
  "map_lookup (build_map HasMany [''owner''] [[(''id'', JInt 1), (''owner'', JNull)]]) (js_string (JStr ''null''))
    = Many [[(''id'', JInt 1), (''owner'', JNull)]]"
  "join_values [JNull, JInt 1] = join_values [JStr [], JInt 1]"
  by code_simp+

section \<open>The keys asked for\<close>

lemma key_object_set: "set (fold (\<lambda>k res. obj_set res k (f k)) ks res) \<subseteq> set res \<union> (\<lambda>k. (k, f k)) ` set ks"
proof (induction ks arbitrary: res)
  case (Cons k ks)
  from Cons.IH [of "obj_set res k (f k)"] set_obj_set [of res k "f k"] show ?case by fastforce
qed simp

lemma key_object_get: "js_get (fold (\<lambda>k res. obj_set res k (f k)) ks res) k' = (if k' \<in> set ks then f k' else js_get res k')"
  by (induction ks arbitrary: res) auto

lemma key_object_complete:
  "list_all (\<lambda>(_, v). \<not> nullish v) (getCompositeSourceKeyValue r rt cfg) \<longleftrightarrow> complete (composite_source_keys rt cfg) r"
proof -
  let ?ks = "composite_source_keys rt cfg" and ?kv = "getCompositeSourceKeyValue r rt cfg"
  have sub: "set ?kv \<subseteq> (\<lambda>k. (k, js_get r k)) ` set ?ks"
    using key_object_set [of "js_get r" ?ks "[]"] by (simp add: getCompositeSourceKeyValue_def)
  have got: "js_get ?kv k = js_get r k" if "k \<in> set ?ks" for k
    using that by (simp add: getCompositeSourceKeyValue_def key_object_get)
  have "\<not> nullish (js_get r k)" if all: "list_all (\<lambda>(_, v). \<not> nullish v) ?kv" and k: "k \<in> set ?ks" for k
  proof (cases "map_of ?kv k")
    case None
    have "\<exists>v. (k, v) \<in> set ?kv"
    proof -
      have "k \<in> fst ` set (fold (\<lambda>k res. obj_set res k (f k)) ks res)" if "k \<in> set ks \<union> fst ` set res" for f ks and res :: jsobj
        using that
      proof (induction ks arbitrary: res)
        case (Cons a ks)
        have "fst ` set (obj_set res a (f a)) = insert a (fst ` set res)"
          by (metis map_of_obj_set dom_map_of_conv_image_fst fun_upd_apply dom_fun_upd ext option.distinct(1))
        then show ?case using Cons.IH [of "obj_set res a (f a)"] Cons.prems by auto
      qed simp
      with k show ?thesis unfolding getCompositeSourceKeyValue_def by fastforce
    qed
    with None show ?thesis by (auto simp: map_of_eq_None_iff image_iff)
  next
    case (Some v)
    then have "(k, v) \<in> set ?kv" by (rule map_of_SomeD)
    with all have "\<not> nullish v" by (auto simp: list_all_iff)
    with Some got [OF k] show ?thesis by (simp add: js_get_def)
  qed
  with sub show ?thesis by (auto simp: complete_def partial_key_def key_tuple_def list_ex_iff list_all_iff)
qed

lemma unique_tuples_eq:
  assumes "composite_source_keys rt cfg = keys"
  shows "unique_tuples keys seen res (filter (\<lambda>kv. list_all (\<lambda>(_, v). \<not> nullish v) kv) (map (\<lambda>r. getCompositeSourceKeyValue r rt cfg) records))
    = dedupe_loop keys seen res records"
proof (induction records arbitrary: seen res)
  case (Cons r rs)
  have tuple: "map (js_get (getCompositeSourceKeyValue r rt cfg)) keys = key_tuple keys r"
    using assms by (simp add: getCompositeSourceKeyValue_def key_object_get key_tuple_def)
  show ?case
    using Cons.IH key_object_complete [of r rt cfg] assms
    by (simp add: Let_def tuple join_values_complete complete_def)
qed simp

text \<open>
  The lazy relation and the compiled read ask for the same keys.  A composite relation whose source keys
  are given asks exactly for the tuples of \<open>dedupeKeyTuples\<close>, each key tuple of a record that is complete
  once, in the order of the records, and asks nothing when there is none.
\<close>

theorem lazy_relation_asks_for_the_same_keys:
  assumes "many_keys 1 cfg" and "sourceKeys cfg = Some sks" and "targetKeys cfg = Some tks"
    and "the_driver (targetClass cfg) = Inr d"
  shows "plan_load source records rt cfg = (let tuples = dedupeKeyTuples records sks in
     if tuples = [] then Inr None else bind_r (composite_load d rt cfg tks tuples) (\<lambda>l. Inr (Some (tks, l))))"
proof -
  let ?kvs = "filter (\<lambda>kv. list_all (\<lambda>(_, v). \<not> nullish v) kv) (map (\<lambda>r. getCompositeSourceKeyValue r rt cfg) records)"
  have ks: "composite_source_keys rt cfg = sks" using assms(2) by (simp add: composite_source_keys_def)
  have eq: "getUniqueCompositeKeyTuples ?kvs sks = dedupeKeyTuples records sks"
    using unique_tuples_eq [OF ks] by (simp add: getUniqueCompositeKeyTuples_def dedupeKeyTuples_def)
  then have "dedupeKeyTuples records sks = []" if "?kvs = []"
    using that by (simp add: getUniqueCompositeKeyTuples_def)
  with eq show ?thesis using assms unfolding plan_load_def by (simp add: Let_def)
qed

section \<open>Witnesses\<close>

definition example_child :: model_class where
  "example_child = example_model\<lparr>mc_name := ''Post'', TABLE_NAME := ''p'', DEFAULT_ORDER := NoOrder\<rparr>"

definition example_load :: load_config where
  "example_load = \<lparr>lc_sourceKeys = [''id''], lc_targetKeys = [''u''], lc_order = [], lc_where = None, lc_limit = None,
     lc_hardLimit = None, lc_relationName = Some ''ps''\<rparr>"

definition example_relation :: relation_config where
  "example_relation = \<lparr>targetClass = example_child, rel_conditions = None, rel_order = [], targetKey = ''u'', sourceKey = ''id'',
     targetKeys = None, sourceKeys = None, rel_limit = None, rel_hardLimit = None, relationName = Some ''ps''\<rparr>"

definition example_parents :: "jsobj list" where
  "example_parents = [[(''id'', JInt 1)], [(''id'', JInt 2)]]"

definition example_rows :: "jsobj list" where
  "example_rows = [[(''id'', JInt 8), (''u'', JInt 2)], [(''id'', JInt 9), (''u'', JInt 1)]]"

definition counting :: "nat executor" where
  "counting s ps n = (Inr example_rows, Suc n)"

definition no_cache :: "nat lazy_state" where
  "no_cache = \<lparr>batchCache = [], relationCaches = (\<lambda>_. []), lazy_db = 0\<rparr>"

lemma example_config: "relation_config_of (\<lambda>_. Some example_child) ''Post'' example_load = Inr example_relation"
  by (simp add: relation_config_of_def example_load_def example_relation_def first_key_def)

lemma example_plan:
  "plan_load example_model example_parents HasMany example_relation
    = Inr (Some ([''u''], Inr ([(''__raw__'', JArr [JStr ''p.u = ANY(?::int[])'', JArr [JArr [JInt 1, JInt 2]]])], no_opts)))"
  by code_simp

lemma example_relation_get:
  "map_prod id lazy_db (getRelation example_model example_parents None counting [(''id'', JInt 2)] HasMany example_relation no_cache)
    = (Inr (Many [[(''id'', JInt 8), (''u'', JInt 2)]]), 1)"
  by code_simp

text \<open>The cap of a relation counts the rows of all the records together: one row each exceeds a cap of one.\<close>

lemma cap_counts_all_parents:
  "fst (batchLoadRelation example_model example_parents None counting HasMany (example_relation\<lparr>rel_hardLimit := Some (Some 1)\<rparr>) 0)
    = Inl (LimitExceeded 1 2 ''relation'' (Some ''User'') (Some ''ps''))"
  by code_simp

text \<open>A limited load does not apply the filter of the class, which an unlimited one applies.\<close>

lemma limited_load_ignores_filter:
  "buildSelectSQL (c\<lparr>FIND_FILTER := f\<rparr>) r opts ps = buildSelectSQL c r opts ps"
  by (simp add: buildSelectSQL_def model_formatter_def)

text \<open>
  A condition of the relation on the key column: MySQL and SQLite lose it without a limit, and ask for it
  instead of the keys with one.
\<close>

lemma where_on_the_key_column:
  "batchLoadWithIn ''u'' [JInt 1] (example_relation\<lparr>rel_conditions := Some [(''u'', JInt 5)]\<rparr>) = batchLoadWithIn ''u'' [JInt 1] example_relation"
  "batchLoadWithRowNumber example_child ''u'' [JInt 1] (example_relation\<lparr>rel_conditions := Some [(''u'', JInt 5)]\<rparr>) 3
    = Inl (''WITH ranked AS (SELECT *, ROW_NUMBER() OVER (PARTITION BY u ORDER BY u) AS _rn FROM p WHERE u = ?) SELECT * FROM ranked WHERE _rn <= 3'', [JInt 5])"
  by code_simp+


lemma relation_loads_once_witness:
  "\<exists>st1 res st2. loadRelation example_model example_parents None counting (\<lambda>_. Some example_child) 0 HasMany ''Post'' example_load no_cache
       = (Inr (Many [[(''id'', JInt 9), (''u'', JInt 1)]]), st1)
     \<and> loadRelation example_model example_parents None counting (\<lambda>_. Some example_child) 1 HasMany ''Post'' example_load st1 = (res, st2)
     \<and> lazy_db st2 = lazy_db st1"
proof -
  let ?load = "loadRelation example_model example_parents None counting (\<lambda>_. Some example_child)"
  have "fst (?load 0 HasMany ''Post'' example_load no_cache) = Inr (Many [[(''id'', JInt 9), (''u'', JInt 1)]])" by code_simp
  then obtain st1 where first: "?load 0 HasMany ''Post'' example_load no_cache = (Inr (Many [[(''id'', JInt 9), (''u'', JInt 1)]]), st1)"
    by (cases "?load 0 HasMany ''Post'' example_load no_cache") simp
  obtain res st2 where second: "?load 1 HasMany ''Post'' example_load st1 = (res, st2)" by (cases "?load 1 HasMany ''Post'' example_load st1")
  show ?thesis
    using first second relation_loads_once [OF example_config _ first second] by (auto simp: no_cache_def)
qed


definition composite_relation :: relation_config where
  "composite_relation = example_relation\<lparr>targetKey := [], sourceKey := [], targetKeys := Some [''t'', ''u''], sourceKeys := Some [''t'', ''id'']\<rparr>"

lemma lazy_relation_asks_for_the_same_keys_witness:
  "plan_load example_model [[(''t'', JInt 1)], [(''t'', JInt 1), (''id'', JInt 2)], [(''t'', JInt 1), (''id'', JInt 2)]] HasMany composite_relation
    = bind_r (composite_load Postgres HasMany composite_relation [''t'', ''u''] [[JInt 1, JInt 2]]) (\<lambda>l. Inr (Some ([''t'', ''u''], l)))"
proof -
  have once: "dedupeKeyTuples [[(''t'', JInt 1)], [(''t'', JInt 1), (''id'', JInt 2)], [(''t'', JInt 1), (''id'', JInt 2)]] [''t'', ''id'']
    = [[JInt 1, JInt 2]]" by code_simp
  have "many_keys 1 composite_relation" "sourceKeys composite_relation = Some [''t'', ''id'']"
    "targetKeys composite_relation = Some [''t'', ''u'']" "the_driver (targetClass composite_relation) = Inr Postgres"
    by code_simp+
  from lazy_relation_asks_for_the_same_keys [OF this] once show ?thesis by simp
qed

end
