(* ===== verification/RelationLoads.thy ===== *)
theory RelationLoads
  imports LazyRelation
begin

text \<open>
  The statements of the lazy relations of \<open>src/LazyRelation.ts\<close>: on PostgreSQL they are those of
  \<open>src/scp/makesql/compile-relation.ts\<close>, and every one of the eight loads is balanced.
\<close>

section \<open>The relation compilers\<close>

text \<open>The statement of a load, before the cap of the relation adds its limit.\<close>

definition load_statement :: "model_class \<Rightarrow> load \<Rightarrow> scp_error + string \<times> jsval list" where
  "load_statement c what = (case what of Inl p \<Rightarrow> Inr p | Inr (r, opts) \<Rightarrow> build_select c r opts)"

text \<open>The options of the compilers for a relation: the limited forms know no default order of the class.\<close>

definition lazy_base :: "relation_type \<Rightarrow> relation_config \<Rightarrow> relation_base" where
  "lazy_base rt cfg = (let c = targetClass cfg in
     \<lparr>rdialect = Postgres, rtable = TABLE_NAME c, rselect = SELECT_COLUMN c, rconditions = base_conditions cfg,
      rorder = (if needed_limit rt cfg = None then or_text (rel_order cfg) (orderToString (DEFAULT_ORDER c)) else rel_order cfg),
      rcasts = model_casts c, rdefer = False, rkeyTypes = []\<rparr>)"

definition compiled_single :: "relation_type \<Rightarrow> relation_config \<Rightarrow> string \<Rightarrow> jsval list \<Rightarrow> scp_error + makesql" where
  "compiled_single rt cfg key vs = (case needed_limit rt cfg of
      None \<Rightarrow> compileSingleKeyUnlimited (lazy_base rt cfg) key vs
    | Some lim \<Rightarrow> compileSingleKeyLimited (lazy_base rt cfg) key vs lim)"

definition compiled_composite :: "relation_type \<Rightarrow> relation_config \<Rightarrow> string list \<Rightarrow> jsval list list \<Rightarrow> scp_error + makesql" where
  "compiled_composite rt cfg keys tuples = (case needed_limit rt cfg of
      None \<Rightarrow> compileCompositeKeyUnlimited (lazy_base rt cfg) keys tuples
    | Some lim \<Rightarrow> compileCompositeKeyLimited (lazy_base rt cfg) keys tuples lim)"

definition plain_class :: "model_class \<Rightarrow> bool" where
  "plain_class c \<longleftrightarrow> QUERY c = None \<and> queryParams c = None \<and> FIND_FILTER c = None \<and> getGroupByClause c = []
     \<and> driver_type c = Some Postgres \<and> SELECT_COLUMN c = ''*''"

lemma array_cast_eq: "array_cast vs (rcasts b key) = inferPgArrayType vs (cast_of b key)"
  by (simp add: array_cast_def cast_of_def)

lemma lazy_base_simps [simp]:
  "rdialect (lazy_base rt cfg) = Postgres" "rtable (lazy_base rt cfg) = TABLE_NAME (targetClass cfg)"
  "rselect (lazy_base rt cfg) = SELECT_COLUMN (targetClass cfg)" "rconditions (lazy_base rt cfg) = base_conditions cfg"
  "rcasts (lazy_base rt cfg) = model_casts (targetClass cfg)" "rdefer (lazy_base rt cfg) = False"
  by (simp_all add: lazy_base_def Let_def)

lemma cast_params_eq: "cast_params (targetClass cfg) keys arrays = unnest_params (lazy_base rt cfg) keys arrays"
  by (simp add: cast_params_def unnest_params_def flip: array_cast_eq)

lemma pg_cast_eq:
  "pgArrayCastType vs (cast_of (lazy_base rt cfg) key) False = array_cast vs (model_casts (targetClass cfg) key)"
  by (auto simp: pgArrayCastType_def array_cast_def cast_of_def inferPgArrayType_def split: option.splits)

lemma read_order: "orderToString (order (read_desc c Postgres r (ordered cfg))) = or_text (rel_order cfg) (orderToString (DEFAULT_ORDER c))"
  by (simp add: read_desc_def ordered_def no_opts_def order_text_def or_text_def)

lemma plain_read:
  assumes "plain_class c" and "c = targetClass cfg" and "needed_limit rt cfg = None"
  shows "build_select c r ((ordered cfg)\<lparr>ro_join := j, ro_joinParams := jps\<rparr>)
    = map_sum id (\<lambda>m. (sql m, params m)) (run_select ((child_select (lazy_base rt cfg) (SELECT_COLUMN c) r)\<lparr>joinText := j, joinParams := jps\<rparr>))"
proof -
  let ?o = "(ordered cfg)\<lparr>ro_join := j, ro_joinParams := jps\<rparr>"
  have "one_column (ro_order ?o)" by (simp add: ordered_def one_column_def no_opts_def)
  then have "build_select c r ?o = bind_r (compileSelect (read_desc c Postgres r ?o)) (\<lambda>b. Inr (bundle_sql b, bundle_params b))"
    using assms(1) by (intro build_select_is_compiled) (simp_all add: plain_class_def)
  moreover have "compileSelect (read_desc c Postgres r ?o)
      = compileSelect ((child_select (lazy_base rt cfg) (SELECT_COLUMN c) r)\<lparr>joinText := j, joinParams := jps\<rparr>)"
    using assms by (auto simp: compileSelect_def read_desc_def child_select_def plain_select_def plain_class_def ordered_def no_opts_def
        order_text_def or_text_def lazy_base_def Let_def)
  ultimately show ?thesis by (simp add: run_select_def bundle_makesql_def bind_r_def split: sum.split)
qed

lemma built_is_run:
  assumes "driver_type c = Some Postgres" and "SELECT_COLUMN c = ''*''" and "rdialect b = Postgres" and "rtable b = TABLE_NAME c"
  shows "run_select ((child_select b [] r)\<lparr>limit := Some (Static lim)\<rparr>)
    = Inr (case buildSelectSQL c r (no_opts\<lparr>ro_order := (if rorder b = [] then NoOrder else OrderText (rorder b)), ro_tableName := rtable b, ro_limit := Some lim\<rparr>) [] of
        (s, ps) \<Rightarrow> mk s ps)"
proof -
  have w: "conds_compile (normalizeConditions (Inr r)) (Some (formatterFor Postgres)) ps
      = where_compile Postgres r (Some (formatterFor Postgres)) ps" for ps
    by (simp add: where_compile_postgres normalizeConditions_def and_conditions_def)
  show ?thesis
    using assms
    by (simp add: run_select_def compileSelect_def child_select_def plain_select_def buildSelectSQL_def no_opts_def model_formatter_def
        w or_text_def number_text_def page_text_def count_text_def lockTail_def bundle_makesql_def bundle_sql_def bundle_params_def
        opt_text_def Let_def case_prod_beta)
qed

lemma lateral_opts:
  "needed_limit rt cfg = Some lim \<Longrightarrow> child_opts (targetClass cfg) cfg lim
     = no_opts\<lparr>ro_order := (if rorder (lazy_base rt cfg) = [] then NoOrder else OrderText (rorder (lazy_base rt cfg))),
         ro_tableName := rtable (lazy_base rt cfg), ro_limit := Some lim\<rparr>"
  by (simp add: child_opts_def ordered_def lazy_base_def no_opts_def Let_def)

lemma lateral_is_compiled:
  assumes "plain_class (targetClass cfg)" and "needed_limit rt cfg = Some lim"
  shows "load_statement (targetClass cfg) (lateral_load (targetClass cfg) keyRows pred keyParams cfg lim)
    = map_sum id (\<lambda>m. (sql m, params m)) (lateral (lazy_base rt cfg) keyRows pred keyParams lim)"
  unfolding lateral_def lateral_load_def load_statement_def lateral_opts [OF assms(2)]
  using assms(1) by (subst built_is_run) (simp_all add: plain_class_def Let_def case_prod_beta)

text \<open>
  C29. The lazy relation and the relation compiler write the same statement.  For a class on PostgreSQL that
  selects all columns and has no query, filter or group, the load of a relation with a single or a composite
  key, with or without a limit per parent, is the statement of the compiler with the same values.
\<close>

theorem relation_statements_agree:
  assumes "plain_class (targetClass cfg)"
  shows "load_statement (targetClass cfg) (single_load Postgres rt cfg key vs)
      = map_sum id (\<lambda>m. (sql m, params m)) (compiled_single rt cfg key vs)
    \<and> bind_r (composite_load Postgres rt cfg keys tuples) (load_statement (targetClass cfg))
      = map_sum id (\<lambda>m. (sql m, params m)) (compiled_composite rt cfg keys tuples)"
proof (cases "needed_limit rt cfg")
  case None
  have same: "(ordered cfg)\<lparr>ro_join := [], ro_joinParams := []\<rparr> = ordered cfg"
    "(child_select b s r)\<lparr>joinText := [], joinParams := []\<rparr> = child_select b s r" for b s r
    by (simp_all add: ordered_def no_opts_def child_select_def plain_select_def)
  have "build_select (targetClass cfg) r (ordered cfg)
      = map_sum id (\<lambda>m. (sql m, params m)) (run_select (child_select (lazy_base rt cfg) (SELECT_COLUMN (targetClass cfg)) r))" for r
    using plain_read [OF assms refl None, of r "[]" "[]"] by (simp only: same)
  then show ?thesis
    using None plain_read [OF assms refl None]
    by (simp add: single_load_def compiled_single_def composite_load_def compiled_composite_def batchLoadWithAnyArray_def
        batchLoadWithUnnestJoin_def load_statement_def compileSingleKeyUnlimited_def compileCompositeKeyUnlimited_def pg_cast_eq
        cast_params_eq [of cfg keys _ rt] Let_def)
next
  case (Some lim)
  then show ?thesis
    by (simp add: single_load_def compiled_single_def composite_load_def compiled_composite_def batchLoadWithLateral_def
        batchLoadWithLateralComposite_def compileSingleKeyLimited_def compileCompositeKeyLimited_def pg_cast_eq
        cast_params_eq [of cfg keys _ rt] lateral_is_compiled [OF assms Some] Let_def)
qed

section \<open>Balance\<close>

definition wf_relation :: "relation_config \<Rightarrow> bool" where
  "wf_relation cfg \<longleftrightarrow> wf_class (targetClass cfg) \<and> wf_conditions (base_conditions cfg) \<and> qcount (rel_order cfg) = 0
     \<and> casts_ok (model_casts (targetClass cfg)) \<and> ''__raw__'' \<notin> fst ` set (base_conditions cfg)"

lemma wf_conds_of: "wf_conditions r \<Longrightarrow> wf_conds (and_conditions r)"
  by (simp add: wf_conditions_def and_conditions_def)

lemma built_values:
  assumes "buildSelectSQL c r opts ps0 = (s, ps)"
  shows "ps = ps0 @ (case ro_cte opts of None \<Rightarrow> [] | Some t \<Rightarrow> cteParams t) @ ro_joinParams opts
      @ snd (conds_compile (and_conditions r) (model_formatter c) [])"
    and "wf_read opts \<Longrightarrow> qcount (orderToString (ro_order opts)) = 0 \<Longrightarrow> qcount (SELECT_COLUMN c) = 0 \<Longrightarrow> qcount (TABLE_NAME c) = 0 \<Longrightarrow>
      qcount s = length ((case ro_cte opts of None \<Rightarrow> [] | Some t \<Rightarrow> cteParams t) @ ro_joinParams opts)
        + qcount (fst (conds_compile (and_conditions r) (model_formatter c) []))"
proof -
  let ?w = "conds_compile (and_conditions r) (model_formatter c) []"
  let ?ps0 = "ps0 @ (case ro_cte opts of None \<Rightarrow> [] | Some t \<Rightarrow> cteParams t) @ ro_joinParams opts"
  have w: "conds_compile (normalizeConditions (Inr r)) (model_formatter c) ?ps0 = (fst ?w, ?ps0 @ snd ?w)"
    unfolding normalizeConditions_def and_conditions_def by (simp only: sum.case) (rule conds_compile_append)
  have s_eq: "s = (case ro_cte opts of None \<Rightarrow> [] | Some t \<Rightarrow> ''WITH '' @ cteName t @ '' AS ('' @ cteSql t @ '') '')
           @ ''SELECT '' @ or_text (ro_select opts) (SELECT_COLUMN c) @ '' FROM '' @ or_text (ro_tableName opts) (TABLE_NAME c)
           @ opt_text '' '' (ro_join opts) @ opt_text '' WHERE '' (fst ?w) @ opt_text '' GROUP BY '' (ro_group opts)
           @ opt_text '' ORDER BY '' (orderToString (ro_order opts))
           @ number_text '' LIMIT '' (ro_limit opts) @ number_text '' OFFSET '' (ro_offset opts)
           @ opt_text '' '' (ro_append opts)" and ps_eq: "ps = ?ps0 @ snd ?w"
    using assms w by (simp_all add: buildSelectSQL_def Let_def)
  show "ps = ps0 @ (case ro_cte opts of None \<Rightarrow> [] | Some t \<Rightarrow> cteParams t) @ ro_joinParams opts @ snd ?w"
    unfolding ps_eq by simp
  assume wf: "wf_read opts" and ord: "qcount (orderToString (ro_order opts)) = 0" and c: "qcount (SELECT_COLUMN c) = 0" "qcount (TABLE_NAME c) = 0"
  from ord show "qcount s = length ((case ro_cte opts of None \<Rightarrow> [] | Some t \<Rightarrow> cteParams t) @ ro_joinParams opts) + qcount (fst ?w)"
    using wf c unfolding s_eq by (auto simp: arity_simps wf_read_def split: option.splits)
qed

lemma built_balanced:
  assumes "wf_class c" and "wf_conditions r" and "wf_read opts" and "qcount (orderToString (ro_order opts)) = 0"
    and "buildSelectSQL c r opts [] = (s, ps)"
  shows "qcount s = length ps"
proof -
  have "qcount (fst (conds_compile (and_conditions r) (model_formatter c) [])) = length (snd (conds_compile (and_conditions r) (model_formatter c) []))"
    by (rule conds_arity_ps(1) [OF wf_conds_of [OF assms(2)]]) simp
  then show ?thesis
    using built_values(2) [OF assms(5,3,4)] assms(1) unfolding built_values(1) [OF assms(5)] by (simp add: wf_class_def)
qed

text \<open>A raw text whose values come first: the clause of the pair of both, the values of the pair in front.\<close>

lemma raw_prefix:
  "fst (conds_compile (and_conditions (raw_entry t vals # es)) fm []) = fst (conds_compile (and_conditions ((''__raw__'', JStr t) # es)) fm [])"
  "snd (conds_compile (and_conditions (raw_entry t vals # es)) fm []) = vals @ snd (conds_compile (and_conditions ((''__raw__'', JStr t) # es)) fm [])"
proof -
  let ?f = "\<lambda>kv. compileCondition kv fm"
  have app: "emit_list ?f es ps = (fst (emit_list ?f es []), ps @ snd (emit_list ?f es []))" for ps
    by (rule emit_list_append_on) (rule compileCondition_append)
  have a: "emit_list ?f (raw_entry t vals # es) [] = (t # fst (emit_list ?f es []), vals @ snd (emit_list ?f es []))"
    using app [of vals] by (simp add: raw_entry_def compileRaw_def raw_sql_params_def)
  have b: "emit_list ?f ((''__raw__'', JStr t) # es) [] = (t # fst (emit_list ?f es []), snd (emit_list ?f es []))"
    using app [of "[]"] by (simp add: compileRaw_def case_prod_beta)
  show "fst (conds_compile (and_conditions (raw_entry t vals # es)) fm []) = fst (conds_compile (and_conditions ((''__raw__'', JStr t) # es)) fm [])"
    "snd (conds_compile (and_conditions (raw_entry t vals # es)) fm []) = vals @ snd (conds_compile (and_conditions ((''__raw__'', JStr t) # es)) fm [])"
    unfolding and_conditions_def conds_compile.simps a b by (simp_all add: Let_def)
qed

lemma spread_new_head: "k \<notin> fst ` set cs \<Longrightarrow> obj_spread ((k, v) # r) cs = (k, v) # obj_spread r cs"
proof (induction cs arbitrary: r)
  case (Cons kv cs)
  then show ?case by (cases kv) (simp add: obj_spread_def)
qed (simp add: obj_spread_def)

lemma ranked_load_balanced:
  assumes wf: "wf_relation cfg" and keys: "names_ok keys" and "what = Inl (s, ps)"
    and load: "ranked_load (targetClass cfg) keys r ps0 cfg lim = what"
    and inner: "ps0 = [] \<and> wf_conditions r \<or> (\<exists>t es. r = (''__raw__'', JStr t) # es \<and> wf_conditions es \<and> qcount t = length ps0)"
  shows "qcount s = length ps"
proof -
  let ?c = "targetClass cfg"
  let ?opts = "no_opts\<lparr>ro_select := ''*, ROW_NUMBER() OVER (PARTITION BY '' @ join '', '' keys @ '' ORDER BY ''
               @ or_text (rel_order cfg) (join '', '' keys) @ '') AS _rn'', ro_tableName := TABLE_NAME ?c\<rparr>"
  have c: "qcount (SELECT_COLUMN ?c) = 0" "qcount (TABLE_NAME ?c) = 0" "wf_class ?c" "qcount (rel_order cfg) = 0"
    using wf by (simp_all add: wf_relation_def wf_class_def)
  have ks: "qcount (join '', '' keys) = 0" using keys by (simp add: arity_simps)
  have wf_o: "wf_read ?opts" and ord: "qcount (orderToString (ro_order ?opts)) = 0"
    using c ks by (simp_all add: wf_read_def no_opts_def order_text_def arity_simps)
  obtain ct cps where cte: "buildSelectSQL ?c r ?opts ps0 = (ct, cps)" by fastforce
  have "qcount ct = length cps"
    using inner
  proof
    assume "ps0 = [] \<and> wf_conditions r"
    with built_balanced [OF c(3) _ wf_o ord, of r ct cps] cte show ?thesis by simp
  next
    assume "\<exists>t es. r = (''__raw__'', JStr t) # es \<and> wf_conditions es \<and> qcount t = length ps0"
    then obtain t es where r: "r = (''__raw__'', JStr t) # es" and es: "wf_conditions es" and q: "qcount t = length ps0" by blast
    have "wf_conditions (raw_entry t ps0 # es)"
      using wf_raw_entry [OF q] es by (simp add: wf_conditions_def del: wf_entry.simps)
    from conds_arity_ps(1) [OF wf_conds_of [OF this], of "model_formatter ?c"]
    have "qcount (fst (conds_compile (and_conditions r) (model_formatter ?c) []))
        = length ps0 + length (snd (conds_compile (and_conditions r) (model_formatter ?c) []))"
      unfolding r by (simp add: raw_prefix)
    then show ?thesis
      using built_values(2) [OF cte wf_o ord c(1,2)] unfolding built_values(1) [OF cte] by (simp add: no_opts_def)
  qed
  moreover have "wf_conditions [(''__raw__'', JStr (''_rn <= '' @ show_int lim))]"
    by (intro wf_conditions_single wf_raw_text) simp
  ultimately show ?thesis
    using load assms(3) cte c
    by (intro built_balanced [OF c(3), of "[(''__raw__'', JStr (''_rn <= '' @ show_int lim))]"
          "no_opts\<lparr>ro_tableName := ''ranked'', ro_cte := Some \<lparr>cteName = ''ranked'', cteSql = ct, cteParams = cps\<rparr>\<rparr>"])
      (simp_all add: ranked_load_def wf_read_def no_opts_def order_text_def Let_def)
qed

lemma lateral_load_balanced:
  assumes wf: "wf_relation cfg" and q: "qcount keyRows = length keyParams" "qcount pred = 0"
    and load: "lateral_load (targetClass cfg) keyRows pred keyParams cfg lim = Inl (s, ps)"
  shows "qcount s = length ps"
proof -
  let ?c = "targetClass cfg" and ?r = "obj_spread [(''__raw__'', JStr pred)] (base_conditions cfg)"
  have c: "wf_class ?c" "qcount (TABLE_NAME ?c) = 0" "qcount (rel_order cfg) = 0" "wf_conditions (base_conditions cfg)"
    using wf by (simp_all add: wf_relation_def wf_class_def)
  obtain t qs where inner: "buildSelectSQL ?c ?r (child_opts ?c cfg lim) [] = (t, qs)" by fastforce
  have "wf_conditions ?r" using c(4) q(2) by (intro wf_conditions_spread wf_conditions_single wf_raw_text)
  then have "qcount t = length qs"
    using c by (intro built_balanced [OF c(1) _ _ _ inner]) (simp_all add: child_opts_def ordered_def wf_read_def no_opts_def order_text_def)
  then show ?thesis using load inner q c by (auto simp: lateral_load_def Let_def)
qed

lemma read_load_balanced:
  assumes "wf_class c" and "wf_conditions r" and "wf_read opts" and "build_select c r (opts\<lparr>ro_limit := lim\<rparr>) = Inr (s, ps)"
  shows "qcount s = length ps"
  by (rule build_select_balanced [OF assms(1) wf_conds_of [OF assms(2)] _ assms(4)]) (use assms(3) in \<open>simp add: wf_read_def\<close>)

lemma fold_entries_wf:
  "\<forall>kv \<in> set kvs. case kv of None \<Rightarrow> True | Some e \<Rightarrow> wf_entry e \<Longrightarrow> wf_conditions r
    \<Longrightarrow> wf_conditions (fold (\<lambda>kv r. case kv of None \<Rightarrow> r | Some (k, v) \<Rightarrow> obj_set r k v) kvs r)"
proof (induction kvs arbitrary: r)
  case (Cons kv kvs)
  have "wf_conditions (case kv of None \<Rightarrow> r | Some (k, v) \<Rightarrow> obj_set r k v)"
    using Cons.prems wf_conditions_set [of r "the kv"] by (auto simp del: wf_entry.simps split: option.splits)
  with Cons show ?case by simp
qed simp

lemma conds_record_wf:
  assumes "condsToRecord tc es = Inr r" and "\<forall>e \<in> set es. \<forall>kv. cond_entry tc e = Inr (Some kv) \<longrightarrow> wf_entry kv"
  shows "wf_conditions r"
proof -
  obtain kvs where kvs: "map_r (cond_entry tc) es = Inr kvs"
      and r: "r = fold (\<lambda>kv r. case kv of None \<Rightarrow> r | Some (k, v) \<Rightarrow> obj_set r k v) kvs []"
    using assms(1) by (auto simp: bind_r_Inr_iff)
  have "\<forall>kv \<in> set kvs. case kv of None \<Rightarrow> True | Some e \<Rightarrow> wf_entry e"
    by (rule map_r_all [OF kvs]) (use assms(2) in \<open>auto simp del: wf_entry.simps cond_entry.simps split: option.split\<close>)
  then show ?thesis unfolding r by (rule fold_entries_wf) (simp add: wf_conditions_def)
qed

definition cap_load :: "int option \<Rightarrow> load \<Rightarrow> load" where
  "cap_load lim what = (case what of Inl p \<Rightarrow> Inl p | Inr (r, opts) \<Rightarrow> Inr (r, opts\<lparr>ro_limit := lim\<rparr>))"

definition load_balanced :: "model_class \<Rightarrow> load \<Rightarrow> bool" where
  "load_balanced c what \<longleftrightarrow> (case what of Inl (s, ps) \<Rightarrow> qcount s = length ps | Inr (r, opts) \<Rightarrow> wf_conditions r \<and> wf_read opts)"

lemma load_balanced_statement:
  "wf_class c \<Longrightarrow> load_balanced c what \<Longrightarrow> load_statement c (cap_load lim what) = Inr (s, ps) \<Longrightarrow> qcount s = length ps"
  by (cases what) (auto simp: load_balanced_def load_statement_def cap_load_def dest: read_load_balanced)

lemma wf_relation_parts:
  assumes "wf_relation cfg"
  shows "wf_class (targetClass cfg)" "qcount (TABLE_NAME (targetClass cfg)) = 0" "wf_conditions (base_conditions cfg)"
    "qcount (rel_order cfg) = 0" "casts_ok (model_casts (targetClass cfg))" "''__raw__'' \<notin> fst ` set (base_conditions cfg)"
    "wf_read (ordered cfg)" "qcount (array_cast vs (model_casts (targetClass cfg) key)) = 0"
    "qcount (cast_params (targetClass cfg) keys arrays) = length arrays"
proof -
  show c: "wf_class (targetClass cfg)" "qcount (TABLE_NAME (targetClass cfg)) = 0" "wf_conditions (base_conditions cfg)"
    "qcount (rel_order cfg) = 0" "casts_ok (model_casts (targetClass cfg))" "''__raw__'' \<notin> fst ` set (base_conditions cfg)"
    using assms by (simp_all add: wf_relation_def wf_class_def)
  show "wf_read (ordered cfg)" using c(4) by (simp add: ordered_def wf_read_def no_opts_def order_text_def)
  show "qcount (array_cast vs (model_casts (targetClass cfg) key)) = 0"
    using c(5) by (auto simp: array_cast_def casts_ok_def array_type_qfree split: option.split)
  show "qcount (cast_params (targetClass cfg) keys arrays) = length arrays"
    unfolding cast_params_eq [of cfg keys arrays HasMany] by (rule unnest_params_q) (simp add: c(5))
qed

lemma single_load_balanced:
  assumes wf: "wf_relation cfg" and key: "key_names_ok [key]"
  shows "load_balanced (targetClass cfg) (single_load d rt cfg key vs)"
proof -
  note c = wf_relation_parts [OF wf]
  have k: "names_ok [key]" "qcount key = 0" and e: "wf_entry (key, JArr vs)"
    using key by (auto simp: key_names_ok_def names_ok_def intro!: wf_key_entry simp del: wf_entry.simps)
  show ?thesis
  proof (cases "needed_limit rt cfg")
    case None
    have "wf_conditions (obj_spread [raw_entry (qual_col (TABLE_NAME (targetClass cfg)) key @ '' = ANY(?::''
        @ array_cast vs (model_casts (targetClass cfg) key) @ '')'') [JArr vs]] (base_conditions cfg))"
      using c(3) by (intro wf_conditions_spread wf_conditions_single wf_raw_entry) (simp_all add: key_predicate_q c k)
    moreover have "wf_conditions (obj_set (base_conditions cfg) key (JArr vs))"
      using wf_conditions_set [OF c(3) e] by simp
    ultimately show ?thesis
      using None c(7) by (simp add: single_load_def load_balanced_def batchLoadWithAnyArray_def batchLoadWithIn_def Let_def)
  next
    case (Some lim)
    have lat: "qcount s = length ps" if "batchLoadWithLateral (targetClass cfg) key vs cfg lim = Inl (s, ps)" for s ps
      by (rule lateral_load_balanced [OF wf _ _ that [unfolded batchLoadWithLateral_def]]) (simp_all add: c k key_predicate_q)
    have "wf_conditions (obj_spread [(key, JArr vs)] (base_conditions cfg))"
      using e c(3) by (intro wf_conditions_spread wf_conditions_single)
    then have rn: "qcount s = length ps" if "batchLoadWithRowNumber (targetClass cfg) key vs cfg lim = Inl (s, ps)" for s ps
      by (intro ranked_load_balanced [OF wf k(1) refl that [unfolded batchLoadWithRowNumber_def]]) simp
    have "\<exists>s ps. batchLoadWithLateral (targetClass cfg) key vs cfg lim = Inl (s, ps)"
      "\<exists>s ps. batchLoadWithRowNumber (targetClass cfg) key vs cfg lim = Inl (s, ps)"
      by (auto simp: batchLoadWithLateral_def lateral_load_def batchLoadWithRowNumber_def ranked_load_def Let_def split: prod.split)
    with lat rn Some show ?thesis by (auto simp: single_load_def load_balanced_def Let_def)
  qed
qed

lemma composite_in_wf:
  assumes wf: "wf_relation cfg" and keys: "names_ok keys"
    and "batchLoadWithCompositeIn (targetClass cfg) keys tuples cfg = Inr what"
  shows "load_balanced (targetClass cfg) what"
proof -
  note c = wf_relation_parts [OF wf]
  let ?cols = "map (\<lambda>k. createColumn k (TABLE_NAME (targetClass cfg)) (mc_name (targetClass cfg)) None [] None) keys"
  let ?es = "map (\<lambda>(k, v). TextCond k (Some v)) (base_conditions cfg) @ [TupleCond ?cols (Some tuples)]"
  obtain r where r: "condsToRecord None ?es = Inr r" and what: "what = Inr (r, ordered cfg)"
    using assms(3) by (auto simp: batchLoadWithCompositeIn_def bind_r_Inr_iff simp del: condsToRecord.simps)
  have names: "columnsToNames ?cols = keys" by (simp add: columnsToNames_def createColumn_def comp_def)
  have "wf_entry kv" if "e \<in> set ?es" and "cond_entry None e = Inr (Some kv)" for e kv
    using that c(3) keys names
    by (auto simp: wf_conditions_def bind_r_Inr_iff dbTupleIn_def names_ok_def simp del: wf_entry.simps)
       (auto simp: names_ok_def)
  then have "wf_conditions r" by (intro conds_record_wf [OF r]) blast
  then show ?thesis using c(7) by (simp add: what load_balanced_def)
qed

lemma composite_load_balanced:
  assumes wf: "wf_relation cfg" and keys: "names_ok keys" and len: "\<forall>t \<in> set tuples. length t = length keys"
    and load: "composite_load d rt cfg keys tuples = Inr what"
  shows "load_balanced (targetClass cfg) what"
proof -
  note c = wf_relation_parts [OF wf]
  let ?c = "targetClass cfg"
  show ?thesis
  proof (cases "needed_limit rt cfg")
    case None
    have "qcount (join '', '' (map (unnest_column (TABLE_NAME ?c)) keys)) = 0"
      "qcount (join '' AND '' (map (\<lambda>k. qual_col (TABLE_NAME ?c) k @ '' = '' @ (''_unnest_'' @ TABLE_NAME ?c) @ ''.'' @ unnest_column (TABLE_NAME ?c) k) keys)) = 0"
      by (rule qcount_map_names [OF keys]; simp add: unnest_column_def qual_col_def c(2))+
    then have "load_balanced ?c (batchLoadWithUnnestJoin ?c keys tuples cfg)"
      using c(2,3,7) by (simp add: load_balanced_def batchLoadWithUnnestJoin_def Let_def wf_read_def c(9))
    with None load composite_in_wf [OF wf keys] show ?thesis
      by (auto simp: composite_load_def Let_def split: if_splits)
  next
    case (Some lim)
    have "qcount (join '', '' (map_index (\<lambda>i _. ''key'' @ show_nat i) keys)) = 0"
      by (rule qcount_map_index) simp_all
    then have lat: "qcount s = length ps" if "batchLoadWithLateralComposite ?c keys tuples cfg lim = Inl (s, ps)" for s ps
      by (intro lateral_load_balanced [OF wf _ _ that [unfolded batchLoadWithLateralComposite_def Let_def]])
        (simp_all add: c(2,9) key_rows_predicate_qfree keys)
    have "obj_spread [(''__raw__'', JStr (key_tuples_text keys tuples))] (base_conditions cfg)
        = (''__raw__'', JStr (key_tuples_text keys tuples)) # obj_spread [] (base_conditions cfg)"
      by (rule spread_new_head [OF c(6)])
    moreover have "wf_conditions (obj_spread [] (base_conditions cfg))"
      by (rule wf_conditions_spread [OF _ c(3)]) (simp add: wf_conditions_def)
    moreover have "qcount (key_tuples_text keys tuples) = length (concat tuples)"
      unfolding key_tuples_text_q [OF keys] length_concat_fixed [OF len] ..
    ultimately have rn: "qcount s = length ps" if "batchLoadWithRowNumberComposite ?c keys tuples cfg lim = Inl (s, ps)" for s ps
      by (intro ranked_load_balanced [OF wf keys refl that [unfolded batchLoadWithRowNumberComposite_def]]) blast
    have "\<exists>s ps. batchLoadWithLateralComposite ?c keys tuples cfg lim = Inl (s, ps)"
      "\<exists>s ps. batchLoadWithRowNumberComposite ?c keys tuples cfg lim = Inl (s, ps)"
      by (auto simp: batchLoadWithLateralComposite_def lateral_load_def batchLoadWithRowNumberComposite_def ranked_load_def Let_def split: prod.split)
    with lat rn Some load show ?thesis by (auto simp: composite_load_def load_balanced_def Let_def split: if_splits)
  qed
qed

lemma unique_tuples_length: "\<forall>t \<in> set res. length t = length keys \<Longrightarrow> \<forall>t \<in> set (unique_tuples keys seen res kvs). length t = length keys"
proof (induction kvs arbitrary: seen res)
  case (Cons kv kvs)
  have "\<forall>t \<in> set (res @ [map (js_get kv) keys]). length t = length keys" using Cons.prems by simp
  from Cons.IH [OF this] Cons.IH [OF Cons.prems] show ?case by (simp add: Let_def)
qed simp

text \<open>
  Every statement of a lazy relation is balanced.  Whatever the driver, the keys and the limit, the
  statement a context asks for its records, also with the limit of a cap, has one placeholder per value.
\<close>

theorem lazy_loads_are_balanced:
  assumes "wf_relation cfg" and "plan_load source records rt cfg = Inr (Some (keys, what))" and "key_names_ok keys"
    and "many_keys 1 cfg \<Longrightarrow> (case sourceKeys cfg of Some ks \<Rightarrow> length ks | None \<Rightarrow> 1) = length keys"
    and "load_statement (targetClass cfg) (cap_load lim what) = Inr (s, ps)"
  shows "qcount s = length ps"
proof (rule load_balanced_statement [OF wf_relation_parts(1) [OF assms(1)] _ assms(5)])
  show "load_balanced (targetClass cfg) what"
  proof (cases "many_keys 1 cfg")
    case True
    then obtain d tuples where load: "composite_load d rt cfg keys tuples = Inr what"
      and len: "\<forall>t \<in> set tuples. length t = length keys"
      using assms(2,4) unique_tuples_length [of "[]"]
      by (force simp: plan_load_def getUniqueCompositeKeyTuples_def bind_r_Inr_iff Let_def split: if_splits option.splits)
    show ?thesis
      using composite_load_balanced [OF assms(1) _ len load] assms(3) by (simp add: key_names_ok_def)
  next
    case False
    then obtain d key vs where "what = single_load d rt cfg key vs" and "keys = [key]"
      using assms(2) by (auto simp: plan_load_def bind_r_Inr_iff Let_def split: if_splits)
    then show ?thesis using single_load_balanced [OF assms(1)] assms(3) by simp
  qed
qed

section \<open>Witnesses\<close>

lemma relation_statements_agree_witness:
  "load_statement example_child (single_load Postgres HasMany example_relation ''u'' [JInt 1, JInt 2])
    = Inr (''SELECT * FROM p WHERE p.u = ANY(?::int[])'', [JArr [JInt 1, JInt 2]])"
proof -
  have "plain_class (targetClass example_relation)" by code_simp
  moreover have "compiled_single HasMany example_relation ''u'' [JInt 1, JInt 2]
    = Inr (mk ''SELECT * FROM p WHERE p.u = ANY(?::int[])'' [JArr [JInt 1, JInt 2]])" by code_simp
  moreover have "targetClass example_relation = example_child" by (simp add: example_relation_def)
  ultimately show ?thesis
    using relation_statements_agree [of example_relation HasMany "''u''" "[JInt 1, JInt 2]" "[]" "[]"] by simp
qed

lemma lazy_loads_are_balanced_witness:
  "qcount ''SELECT * FROM p WHERE p.u = ANY(?::int[])'' = length [JArr [JInt 1, JInt 2]]"
proof (rule lazy_loads_are_balanced [OF _ example_plan])
  show "wf_relation example_relation"
    by (simp add: wf_relation_def wf_class_def example_relation_def example_child_def example_model_def base_conditions_def
        wf_conditions_def getGroupByClause_def getQuerySQL_def casts_ok_def model_casts_def)
  show "key_names_ok [''u'']" by (simp add: key_names_ok_def names_ok_def)
  show "(case sourceKeys example_relation of Some ks \<Rightarrow> length ks | None \<Rightarrow> 1) = length [''u'']"
    by (simp add: example_relation_def)
  show "load_statement (targetClass example_relation) (cap_load None (Inr ([(''__raw__'', JArr [JStr ''p.u = ANY(?::int[])'', JArr [JArr [JInt 1, JInt 2]]])], no_opts)))
    = Inr (''SELECT * FROM p WHERE p.u = ANY(?::int[])'', [JArr [JInt 1, JInt 2]])" by code_simp
qed

end
