(* ===== verification/LazyContext.thy ===== *)
theory LazyContext
  imports LazyRelation
begin

text \<open>
  The batch cache of \<open>LazyRelationContext.getRelation\<close> (\<open>src/LazyRelation.ts\<close>) under concurrent
  accesses: a load is cached from its start, a failed load takes itself out of the cache, \<open>clearCache\<close> drops
  them all.  A load is named by its position in the list of the loads started so far.
\<close>

section \<open>Steps\<close>

datatype load_status = InFlight | Loaded relation_map | LoadFailed scp_error

record ctx_state =
  ctx_cache :: "(string \<times> nat) list"
  loads :: "(string \<times> load_status) list"

definition new_context :: ctx_state where
  "new_context = \<lparr>ctx_cache = [], loads = []\<rparr>"

text \<open>\<open>Access k i\<close>: an access for the key that awaits load \<open>i\<close>; \<open>Settle i r\<close>: the load ends.\<close>

datatype ctx_event = Access string nat | Settle nat "scp_error + relation_map" | ClearCache

definition access_context :: "string \<Rightarrow> ctx_state \<Rightarrow> nat \<times> ctx_state" where
  "access_context k s = (case map_of (ctx_cache s) k of
      Some i \<Rightarrow> (i, s)
    | None \<Rightarrow> (length (loads s), s\<lparr>ctx_cache := (k, length (loads s)) # ctx_cache s, loads := loads s @ [(k, InFlight)]\<rparr>))"

definition settle_load :: "nat \<Rightarrow> scp_error + relation_map \<Rightarrow> ctx_state \<Rightarrow> ctx_state" where
  "settle_load i r s = (let k = fst (loads s ! i) in case r of
      Inr m \<Rightarrow> s\<lparr>loads := (loads s)[i := (k, Loaded m)]\<rparr>
    | Inl e \<Rightarrow> s\<lparr>loads := (loads s)[i := (k, LoadFailed e)],
        ctx_cache := (if map_of (ctx_cache s) k = Some i then filter (\<lambda>(k', _). k' \<noteq> k) (ctx_cache s) else ctx_cache s)\<rparr>)"

definition clear_context :: "ctx_state \<Rightarrow> ctx_state" where
  "clear_context s = s\<lparr>ctx_cache := []\<rparr>"

inductive ctx_step :: "ctx_state \<Rightarrow> ctx_event \<Rightarrow> ctx_state \<Rightarrow> bool" where
  step_access: "access_context k s = (i, s') \<Longrightarrow> ctx_step s (Access k i) s'"
| step_settle: "i < length (loads s) \<Longrightarrow> snd (loads s ! i) = InFlight \<Longrightarrow> ctx_step s (Settle i r) (settle_load i r s)"
| step_clear: "ctx_step s ClearCache (clear_context s)"

inductive ctx_run :: "ctx_state \<Rightarrow> ctx_event list \<Rightarrow> ctx_state \<Rightarrow> bool" where
  run_start: "ctx_run s [] s"
| run_step: "ctx_run s es t \<Longrightarrow> ctx_step t e u \<Longrightarrow> ctx_run s (es @ [e]) u"

inductive_cases ctx_stepE: "ctx_step s e s'"
inductive_simps ctx_step_simps: "ctx_step s (Access k i) s'" "ctx_step s (Settle i r) s'" "ctx_step s ClearCache s'"

section \<open>What the cache holds\<close>

lemma map_of_drop: "map_of (filter (\<lambda>(k', _). k' \<noteq> a) m) k = (if k = a then None else map_of m k)"
  by (induction m) auto

definition status_failed :: "load_status \<Rightarrow> bool" where
  "status_failed st \<longleftrightarrow> (case st of LoadFailed _ \<Rightarrow> True | _ \<Rightarrow> False)"

definition ctx_inv :: "ctx_state \<Rightarrow> bool" where
  "ctx_inv s \<longleftrightarrow> distinct (map fst (ctx_cache s))
     \<and> (\<forall>(k, i) \<in> set (ctx_cache s). i < length (loads s) \<and> fst (loads s ! i) = k \<and> \<not> status_failed (snd (loads s ! i)))"

lemma status_failed_simps [simp]: "\<not> status_failed InFlight" "\<not> status_failed (Loaded m)" "status_failed (LoadFailed e)"
  by (simp_all add: status_failed_def)

lemma inv_new: "ctx_inv new_context"
  by (simp add: ctx_inv_def new_context_def)

lemma inv_access: "ctx_inv s \<Longrightarrow> ctx_inv (snd (access_context k s))"
  by (auto simp: ctx_inv_def access_context_def nth_append map_of_eq_None_iff split: option.split)

lemma inv_settle:
  assumes inv: "ctx_inv s" and i: "i < length (loads s)"
  shows "ctx_inv (settle_load i r s)"
proof (cases r)
  case (Inr m)
  with inv i show ?thesis by (auto simp: ctx_inv_def settle_load_def Let_def nth_list_update)
next
  case (Inl e)
  have only: "map_of (ctx_cache s) k = Some j" if "(k, j) \<in> set (ctx_cache s)" for k j
    using that inv by (simp add: ctx_inv_def)
  show ?thesis
  proof (cases "map_of (ctx_cache s) (fst (loads s ! i)) = Some i")
    case True
    have "j \<noteq> i" if "(k, j) \<in> set (ctx_cache s)" and "k \<noteq> fst (loads s ! i)" for k j
      using that inv by (auto simp: ctx_inv_def)
    with inv i Inl True show ?thesis
      by (auto simp: ctx_inv_def settle_load_def Let_def nth_list_update distinct_map_filter)
  next
    case False
    have "j \<noteq> i" if "(k, j) \<in> set (ctx_cache s)" for k j
      using that inv False only by (auto simp: ctx_inv_def)
    with inv i Inl False show ?thesis by (auto simp: ctx_inv_def settle_load_def Let_def nth_list_update)
  qed
qed

lemma inv_clear: "ctx_inv (clear_context s)"
  by (simp add: ctx_inv_def clear_context_def)

lemma inv_step: "ctx_step s e s' \<Longrightarrow> ctx_inv s \<Longrightarrow> ctx_inv s'"
  by (erule ctx_stepE) (auto simp: inv_settle inv_clear, metis inv_access snd_conv)

lemma inv_run: "ctx_run s es s' \<Longrightarrow> ctx_inv s \<Longrightarrow> ctx_inv s'"
  by (induction rule: ctx_run.induct) (auto dest: inv_step)

section \<open>Loads are shared\<close>

definition loads_of :: "string \<Rightarrow> ctx_state \<Rightarrow> (string \<times> load_status) list" where
  "loads_of k s = filter (\<lambda>l. fst l = k) (loads s)"

definition live_loads :: "string \<Rightarrow> ctx_state \<Rightarrow> nat list" where
  "live_loads k s = filter (\<lambda>i. fst (loads s ! i) = k \<and> \<not> status_failed (snd (loads s ! i))) [0..<length (loads s)]"

text \<open>Without a clear, the loads of a key that have not failed are the cached one.\<close>

definition shared_inv :: "ctx_state \<Rightarrow> bool" where
  "shared_inv s \<longleftrightarrow> ctx_inv s \<and> (\<forall>k. live_loads k s = (case map_of (ctx_cache s) k of None \<Rightarrow> [] | Some i \<Rightarrow> [i]))"

lemma live_access:
  assumes "shared_inv s"
  shows "shared_inv (snd (access_context k s))"
proof -
  have "live_loads k' (snd (access_context k s)) = (case map_of (ctx_cache (snd (access_context k s))) k' of None \<Rightarrow> [] | Some i \<Rightarrow> [i])" for k'
  proof (cases "map_of (ctx_cache s) k")
    case None
    have "filter (\<lambda>i. fst ((loads s @ [(k, InFlight)]) ! i) = k' \<and> \<not> status_failed (snd ((loads s @ [(k, InFlight)]) ! i))) [0..<length (loads s)]
        = live_loads k' s"
      unfolding live_loads_def by (rule filter_cong) (auto simp: nth_append)
    moreover have "live_loads k' s = (case map_of (ctx_cache s) k' of None \<Rightarrow> [] | Some i \<Rightarrow> [i])"
      using assms by (simp add: shared_inv_def)
    ultimately show ?thesis using None by (simp add: live_loads_def access_context_def)
  next
    case (Some i)
    then show ?thesis using assms by (simp add: access_context_def shared_inv_def)
  qed
  then show ?thesis using assms inv_access by (simp add: shared_inv_def)
qed

lemma live_settle:
  assumes inv: "shared_inv s" and i: "i < length (loads s)" and "snd (loads s ! i) = InFlight"
  shows "shared_inv (settle_load i r s)"
proof -
  let ?k = "fst (loads s ! i)"
  have live: "live_loads k s = (case map_of (ctx_cache s) k of None \<Rightarrow> [] | Some j \<Rightarrow> [j])" for k
    using inv by (simp add: shared_inv_def)
  have "i \<in> set (live_loads ?k s)" using i assms(3) by (simp add: live_loads_def)
  then have mine: "map_of (ctx_cache s) ?k = Some i" by (simp add: live split: option.splits)
  have "live_loads k (settle_load i r s) = (case map_of (ctx_cache (settle_load i r s)) k of None \<Rightarrow> [] | Some j \<Rightarrow> [j])" for k
  proof (cases r)
    case (Inr m)
    have "live_loads k (settle_load i r s) = live_loads k s"
      using i assms(3) Inr unfolding live_loads_def
      by (auto simp: settle_load_def Let_def nth_list_update intro!: filter_cong)
    then show ?thesis by (simp add: live Inr settle_load_def Let_def)
  next
    case (Inl e)
    have "live_loads k (settle_load i r s) = filter (\<lambda>j. j \<noteq> i) (live_loads k s)"
      using i Inl unfolding live_loads_def filter_filter
      by (auto simp: settle_load_def Let_def nth_list_update intro!: filter_cong)
    moreover have "map_of (filter (\<lambda>(k', _). k' \<noteq> ?k) (ctx_cache s)) k = (if k = ?k then None else map_of (ctx_cache s) k)"
      by (rule map_of_drop)
    moreover have "i \<notin> set (live_loads k s)" if "k \<noteq> ?k" using that by (simp add: live_loads_def)
    ultimately show ?thesis
      using mine by (auto simp: live Inl settle_load_def Let_def split: option.splits)
  qed
  then show ?thesis using inv inv_settle [OF _ i] by (simp add: shared_inv_def)
qed

lemma shared_run: "ctx_run s es s' \<Longrightarrow> shared_inv s \<Longrightarrow> ClearCache \<notin> set es \<Longrightarrow> shared_inv s'"
proof (induction rule: ctx_run.induct)
  case (run_step s es t e u)
  then have "shared_inv t" by simp
  with run_step.hyps(2) run_step.prems(2) show ?case
    by (cases rule: ctx_step.cases) (auto simp: live_settle dest: live_access, metis live_access snd_conv)
qed simp

text \<open>A cached load stays the one of its key until it fails or the cache is cleared.\<close>

lemma cached_step:
  assumes "ctx_step s e s'" and "map_of (ctx_cache s) k = Some i" and "e \<noteq> ClearCache" and "\<And>x. e \<noteq> Settle i (Inl x)"
  shows "map_of (ctx_cache s') k = Some i"
  using assms(1)
proof (cases rule: ctx_step.cases)
  case (step_access k' j)
  then show ?thesis using assms(2) by (auto simp: access_context_def split: option.splits)
next
  case (step_settle j r)
  show ?thesis
  proof (cases r)
    case (Inl x)
    then have "j \<noteq> i" using step_settle(1) assms(4) by auto
    then show ?thesis using step_settle assms(2) Inl by (auto simp: settle_load_def Let_def map_of_drop)
  qed (use step_settle assms(2) in \<open>simp add: settle_load_def Let_def\<close>)
qed (use assms(3) in simp)

lemma cached_run:
  "ctx_run s es t \<Longrightarrow> map_of (ctx_cache s) k = Some i \<Longrightarrow> ClearCache \<notin> set es \<Longrightarrow> (\<And>x. Settle i (Inl x) \<notin> set es) \<Longrightarrow> map_of (ctx_cache t) k = Some i"
proof (induction rule: ctx_run.induct)
  case (run_step s es t e u)
  from run_step.prems(3) have "e \<noteq> Settle i (Inl x)" for x by (metis UnCI insertI1 list.set(2) set_append)
  moreover have "map_of (ctx_cache t) k = Some i" using run_step by simp
  ultimately show ?case using cached_step [OF run_step.hyps(2)] run_step.prems(2) by auto
qed simp

lemma access_cached: "map_of (ctx_cache (snd (access_context k s))) k = Some (fst (access_context k s))"
  by (simp add: access_context_def split: option.split)

text \<open>
  C30. Concurrent accesses share one load.  In every reachable state an access awaits a load of its own key
  that has not failed, the only such load when the cache was never cleared; until that load fails or the
  cache is cleared, whatever other loads start, end or fail, every access for the key awaits it too.
\<close>

theorem concurrent_accesses_share_one_load:
  assumes "ctx_run new_context es0 s" and "access_context k s = (i, s')"
    and "ctx_run s' es t" and "ClearCache \<notin> set es" and "\<And>x. Settle i (Inl x) \<notin> set es"
  shows "fst (loads s' ! i) = k \<and> \<not> status_failed (snd (loads s' ! i))
    \<and> (ClearCache \<in> set es0 \<or> live_loads k s' = [i]) \<and> access_context k t = (i, t)"
proof -
  have now: "map_of (ctx_cache s') k = Some i" using access_cached [of k s] assms(2) by simp
  have inv: "ctx_inv s'" using inv_access [OF inv_run [OF assms(1) inv_new], of k] assms(2) by simp
  then have "fst (loads s' ! i) = k \<and> \<not> status_failed (snd (loads s' ! i))"
    using map_of_SomeD [OF now] by (auto simp: ctx_inv_def)
  moreover have "live_loads k s' = [i]" if "ClearCache \<notin> set es0"
  proof -
    have "shared_inv new_context" by (simp add: shared_inv_def inv_new live_loads_def) (simp add: new_context_def)
    from live_access [OF shared_run [OF assms(1) this that], of k] show ?thesis using now assms(2) by (simp add: shared_inv_def)
  qed
  moreover have "access_context k t = (i, t)"
    using cached_run [OF assms(3) now assms(4,5)] by (simp add: access_context_def)
  ultimately show ?thesis by blast
qed

section \<open>Witnesses\<close>

definition after_failure :: ctx_state where
  "after_failure = settle_load 0 (Inl LockConflict) (snd (access_context ''k'' new_context))"

lemma failed_run: "ctx_run new_context [Access ''k'' 0, Settle 0 (Inl LockConflict)] after_failure"
proof -
  let ?s = "snd (access_context ''k'' new_context)"
  have "ctx_step new_context (Access ''k'' 0) ?s" by (rule step_access) (simp add: access_context_def new_context_def)
  from run_step [OF run_start this] have "ctx_run new_context [Access ''k'' 0] ?s" by simp
  moreover have "ctx_step ?s (Settle 0 (Inl LockConflict)) after_failure"
    unfolding after_failure_def by (rule step_settle) (simp_all add: access_context_def new_context_def)
  ultimately show ?thesis using run_step by fastforce
qed

lemma concurrent_accesses_share_one_load_witness:
  "access_context ''k'' (snd (access_context ''k'' after_failure)) = (1, snd (access_context ''k'' after_failure))"
proof -
  have "access_context ''k'' after_failure = (1, snd (access_context ''k'' after_failure))" by code_simp
  from concurrent_accesses_share_one_load [OF failed_run this run_start] show ?thesis by simp
qed

end
