(* ===== verification/TypedObject.thy ===== *)
theory TypedObject
  imports RelationOp
begin

text \<open>
  \<open>src/scp/typed-object.ts\<close>: the result set of a read, its declared relations attached as own properties and
  its other relations loaded on access through the context the rows share.  An object is the association
  list of its own properties; a host object is whatever value the hydrate factory makes of a row.
\<close>

section \<open>Relation values\<close>

type_synonym hydrate_factory = "jsobj \<Rightarrow> jsval"

definition rel_value :: "attached \<Rightarrow> jsval" where
  "rel_value v = (case v of Many rows \<Rightarrow> JArr (map JObj rows) | One None \<Rightarrow> JNull | One (Some r) \<Rightarrow> JObj r)"

definition applyHydrate :: "attached \<Rightarrow> hydrate_factory option \<Rightarrow> jsval" where
  "applyHydrate v h = (case h of
      None \<Rightarrow> rel_value v
    | Some f \<Rightarrow> (case v of One None \<Rightarrow> JNull | Many rows \<Rightarrow> JArr (map f rows) | One (Some r) \<Rightarrow> f r))"

section \<open>The context of a result set\<close>

record 's result_set =
  siblings :: "jsobj list"
  memo :: "(string \<times> relation_batch) list"
  result_db :: 's

type_synonym relation_ops = "(string \<times> op_fields) list"

definition undeclared_relation :: "string \<Rightarrow> scp_error" where
  "undeclared_relation name = OtherError (''relation '' @ squoted name @ '' is not declared on this result set'')"

definition resolve_relation ::
  "'s seams \<Rightarrow> relation_ops \<Rightarrow> hydrate_factory option \<Rightarrow> string \<Rightarrow> jsobj \<Rightarrow> 's result_set \<Rightarrow> (scp_error + jsval) \<times> 's result_set" where
  "resolve_relation sm ops h name parent rs = (case map_of ops name of
      None \<Rightarrow> (Inl (undeclared_relation name), rs)
    | Some op \<Rightarrow> (case map_of (memo rs) name of
        Some batch \<Rightarrow> (Inr (applyHydrate (distributeToParent op parent batch) h), rs)
      | None \<Rightarrow> (case runRelationOp sm op (siblings rs) (result_db rs) of
          (Inl e, db) \<Rightarrow> (Inl e, rs\<lparr>result_db := db\<rparr>)
        | (Inr run, db) \<Rightarrow> (Inr (applyHydrate (distributeToParent op parent (run_batch run)) h),
            rs\<lparr>memo := obj_set (memo rs) name (run_batch run), result_db := db\<rparr>))))"

text \<open>
  Reading a property of a row: an own property, else the getter of an undeclared relation, which fails when
  the row has lost its context (a spread or a clone), else nothing.
\<close>

definition read_property ::
  "'s seams \<Rightarrow> relation_ops \<Rightarrow> string list \<Rightarrow> hydrate_factory option \<Rightarrow> string \<Rightarrow> jsobj \<Rightarrow> 's result_set option
     \<Rightarrow> (scp_error + jsval) \<times> 's result_set option" where
  "read_property sm ops selected h name row ctx =
     (if name \<in> fst ` set row then (Inr (js_get row name), ctx)
      else if name \<in> set selected \<or> map_of ops name = None then (Inr JUndef, ctx)
      else (case ctx of
          None \<Rightarrow> (Inl (OtherError (''lazy relation '' @ squoted name @ '': the batch context was dropped'')), ctx)
        | Some rs \<Rightarrow> map_prod id Some (resolve_relation sm ops h name row rs)))"

section \<open>The result set\<close>

text \<open>A column named like a relation with a getter cannot be assigned: the prototype has no setter for it.\<close>

definition shadowed_column :: "relation_ops \<Rightarrow> string list \<Rightarrow> jsobj list \<Rightarrow> string option" where
  "shadowed_column ops selected rawRows =
     (case filter (\<lambda>k. k \<in> fst ` set ops \<and> k \<notin> set selected) (concat (map (map fst) rawRows)) of [] \<Rightarrow> None | k # _ \<Rightarrow> Some k)"

fun attach_selected ::
  "'s seams \<Rightarrow> relation_ops \<Rightarrow> hydrate_factory option \<Rightarrow> string list \<Rightarrow> jsobj list \<Rightarrow> 's \<Rightarrow> (scp_error + jsobj list) \<times> 's" where
  "attach_selected sm ops h [] rows st = (Inr rows, st)"
| "attach_selected sm ops h (name # names) rows st = (case map_of ops name of
      None \<Rightarrow> (Inl (OtherError (''declarative select: relation '' @ squoted name @ '' is not declared on this model'')), st)
    | Some op \<Rightarrow> (case runRelationOp sm op rows st of
        (Inl e, st') \<Rightarrow> (Inl e, st')
      | (Inr run, st') \<Rightarrow> attach_selected sm ops h names
          (map (\<lambda>row. obj_set row name (applyHydrate (distributeToParent op row (run_batch run)) h)) rows) st'))"

definition host_objects :: "hydrate_factory option \<Rightarrow> jsobj list \<Rightarrow> jsval list" where
  "host_objects h rows = (case h of None \<Rightarrow> map JObj rows | Some f \<Rightarrow> map f rows)"

definition buildResultSet ::
  "'s seams \<Rightarrow> relation_ops \<Rightarrow> string list \<Rightarrow> hydrate_factory option \<Rightarrow> jsobj list \<Rightarrow> 's
     \<Rightarrow> (scp_error + jsval list \<times> 's result_set) \<times> 's" where
  "buildResultSet sm ops selected h rawRows st = (case shadowed_column ops selected rawRows of
      Some k \<Rightarrow> (Inl (OtherError (''Cannot set property '' @ k @ '' of #<Object> which has only a getter'')), st)
    | None \<Rightarrow> (case attach_selected sm ops h selected rawRows st of
        (Inl e, st') \<Rightarrow> (Inl e, st')
      | (Inr rows, st') \<Rightarrow> (Inr (host_objects h rows, \<lparr>siblings = rows, memo = [], result_db = st'\<rparr>), st')))"

section \<open>Lazy and declared relations agree\<close>

lemma own_after_set: "k \<in> fst ` set (obj_set r k v)"
proof (induction r)
  case (Cons kv r)
  then show ?case by (cases kv) simp
qed simp

lemma resolve_memo:
  assumes "resolve_relation sm ops h name p rs = (Inr v, rs')"
  shows "\<exists>op batch. map_of ops name = Some op \<and> map_of (memo rs') name = Some batch \<and> siblings rs' = siblings rs
    \<and> v = applyHydrate (distributeToParent op p batch) h"
  using assms by (auto simp: resolve_relation_def map_of_obj_set split: option.splits prod.splits sum.splits)

text \<open>
  A lazy relation is loaded once for a page.  After one row has read it, every other row reads the same
  relation without a statement, each with the children of its own key.
\<close>

theorem lazy_page_loads_once:
  assumes "resolve_relation sm ops h name p rs = (Inr v, rs')"
  shows "\<exists>op batch. map_of ops name = Some op
    \<and> v = applyHydrate (distributeToParent op p batch) h
    \<and> (\<forall>q. resolve_relation sm ops h name q rs' = (Inr (applyHydrate (distributeToParent op q batch) h), rs'))"
  using resolve_memo [OF assms] by (auto simp: resolve_relation_def)

lemma shadowed_none: "shadowed_column ops [] rows = None \<Longrightarrow> shadowed_column ops selected rows = None"
  by (auto simp: shadowed_column_def filter_empty_conv split: list.splits)


text \<open>A page whose rows have a column named like a lazy relation cannot be built.\<close>

lemma column_named_like_a_relation:
  "fst (buildResultSet (canned child_rows example_op) [(''posts'', example_op)] [] None [[(''id'', JInt 1), (''posts'', JInt 3)]] 0)
    = Inl (OtherError ''Cannot set property posts of #<Object> which has only a getter'')"
  by code_simp

text \<open>A selected relation named like a key column replaces the key the next selected relation reads.\<close>

lemma selected_relation_replaces_key:
  "(case fst (buildResultSet (canned child_rows example_op) [(''id'', example_op), (''posts'', example_op)] [''id'', ''posts''] None [[(''id'', JInt 1)]] 0) of
      Inr (_, rs) \<Rightarrow> map (\<lambda>r. js_get r ''posts'') (siblings rs) | Inl _ \<Rightarrow> []) = [JArr []]"
  by code_simp

section \<open>Witnesses\<close>

lemma example_page:
  "map_prod (map_sum id (\<lambda>(hs, rs). (hs, siblings rs))) id (buildResultSet (canned child_rows example_op) [(''posts'', example_op)] [''posts''] None [[(''id'', JInt 1)]] 0)
    = (Inr ([JObj [(''id'', JInt 1), (''posts'', JArr [JObj [(''id'', JInt 7), (''uid'', JBig 1)]])]],
            [[(''id'', JInt 1), (''posts'', JArr [JObj [(''id'', JInt 7), (''uid'', JBig 1)]])]]), 1)"
  by code_simp


lemma lazy_page_loads_once_witness:
  "\<exists>rs'. (\<exists>v. resolve_relation (canned child_rows example_op) [(''posts'', example_op)] None ''posts'' [(''id'', JInt 1)]
         \<lparr>siblings = [[(''id'', JInt 1)], [(''id'', JInt 2)]], memo = [], result_db = 0\<rparr> = (Inr v, rs'))
     \<and> snd (resolve_relation (canned child_rows example_op) [(''posts'', example_op)] None ''posts'' [(''id'', JInt 2)] rs') = rs'"
proof -
  let ?r = "resolve_relation (canned child_rows example_op) [(''posts'', example_op)] None ''posts'' [(''id'', JInt 1)]
         \<lparr>siblings = [[(''id'', JInt 1)], [(''id'', JInt 2)]], memo = [], result_db = 0\<rparr>"
  have "fst ?r = Inr (JArr [JObj [(''id'', JInt 7), (''uid'', JBig 1)]])" by code_simp
  then obtain rs' where r: "?r = (Inr (JArr [JObj [(''id'', JInt 7), (''uid'', JBig 1)]]), rs')" by (cases ?r) simp
  from lazy_page_loads_once [OF r] show ?thesis using r by auto
qed

end
