(* ===== verification/RequestScope.thy ===== *)
theory RequestScope
  imports Prelude
begin

text \<open>
  \<open>src/RequestScope.ts\<close>, the static side of \<open>src/Middleware.ts\<close>, the chains \<open>_applyMiddleware\<close> and
  \<open>_applyExecuteMiddleware\<close> of \<open>src/DBModel.ts\<close>, and \<open>src/middlewares/statistics.ts\<close>.  A middleware
  class is its name, an instance a position in the store of the instances made so far; a scope is a
  position in the list of the scopes opened so far.
\<close>

section \<open>Scopes\<close>

text \<open>\<open>commits\<close> names the map of commit times, which nested scopes of one request share.\<close>

record request_scope =
  middlewares :: "(string \<times> nat) list"
  commit_map :: nat

record 'i request_world =
  instances :: "'i list"
  scopes :: "request_scope list"
  current :: "nat option"
  next_commits :: nat
  clock :: int

definition no_requests :: "'i request_world" where
  "no_requests = \<lparr>instances = [], scopes = [], current = None, next_commits = 0, clock = 0\<rparr>"

definition scope_now :: "'i request_world \<Rightarrow> request_scope option" where
  "scope_now w = map_option (\<lambda>i. scopes w ! i) (current w)"

definition open_scope :: "request_scope \<Rightarrow> 'i request_world \<Rightarrow> 'i request_world" where
  "open_scope s w = w\<lparr>scopes := scopes w @ [s], current := Some (length (scopes w))\<rparr>"

definition runInRequestScope :: "request_scope \<Rightarrow> ('i request_world \<Rightarrow> 'r \<times> 'i request_world) \<Rightarrow> 'i request_world \<Rightarrow> 'r \<times> 'i request_world" where
  "runInRequestScope s body w = (case body (open_scope s w) of (r, w') \<Rightarrow> (r, w'\<lparr>current := current w\<rparr>))"

section \<open>Middleware classes\<close>

text \<open>A class with the state of a new instance, \<open>init\<close> included.\<close>

record 'i mw_class =
  mw_name :: string
  new_instance :: 'i

definition set_scope :: "nat \<Rightarrow> ((string \<times> nat) list \<Rightarrow> (string \<times> nat) list) \<Rightarrow> 'i request_world \<Rightarrow> 'i request_world" where
  "set_scope i f w = w\<lparr>scopes := (scopes w)[i := (scopes w ! i)\<lparr>middlewares := f (middlewares (scopes w ! i))\<rparr>]\<rparr>"

definition getCurrentContext :: "'i mw_class \<Rightarrow> 'i request_world \<Rightarrow> nat \<times> 'i request_world" where
  "getCurrentContext c w =
     (let fresh = length (instances w); w1 = w\<lparr>instances := instances w @ [new_instance c]\<rparr> in
      case current w of
        None \<Rightarrow> (fresh, w1)
      | Some i \<Rightarrow> (case map_of (middlewares (scopes w ! i)) (mw_name c) of
          Some loc \<Rightarrow> (loc, w)
        | None \<Rightarrow> (fresh, set_scope i (\<lambda>m. obj_set m (mw_name c) fresh) w1)))"

definition hasContext :: "'i mw_class \<Rightarrow> 'i request_world \<Rightarrow> bool" where
  "hasContext c w = (case scope_now w of None \<Rightarrow> False | Some s \<Rightarrow> map_of (middlewares s) (mw_name c) \<noteq> None)"

definition clearContext :: "'i mw_class \<Rightarrow> 'i request_world \<Rightarrow> 'i request_world" where
  "clearContext c w = (case current w of None \<Rightarrow> w
     | Some i \<Rightarrow> set_scope i (filter (\<lambda>(n, _). n \<noteq> mw_name c)) w)"

text \<open>\<open>run\<close>: no class is the base class \<open>Middleware\<close>, which opens a new request.\<close>

definition scope_of_run :: "'i mw_class option \<Rightarrow> 'i request_world \<Rightarrow> request_scope \<times> 'i request_world" where
  "scope_of_run this w = (case (this, scope_now w) of
      (Some c, Some s) \<Rightarrow> (s\<lparr>middlewares := filter (\<lambda>(n, _). n \<noteq> mw_name c) (middlewares s)\<rparr>, w)
    | _ \<Rightarrow> (\<lparr>middlewares = [], commit_map = next_commits w\<rparr>, w\<lparr>next_commits := Suc (next_commits w)\<rparr>))"

definition run_request :: "'i mw_class option \<Rightarrow> ('i request_world \<Rightarrow> 'r \<times> 'i request_world) \<Rightarrow> 'i request_world \<Rightarrow> 'r \<times> 'i request_world" where
  "run_request this body w = (case scope_of_run this w of (s, w') \<Rightarrow> runInRequestScope s body w')"

section \<open>Requests are isolated\<close>

text \<open>
  What requests do, in any interleaving: an \<open>await\<close> may hand the thread to the continuation of any scope, or
  to code outside every scope.
\<close>

inductive request_step :: "'i request_world \<Rightarrow> 'i request_world \<Rightarrow> bool" where
  step_get: "getCurrentContext c w = (loc, w') \<Longrightarrow> request_step w w'"
| step_clear: "request_step w (clearContext c w)"
| step_run: "scope_of_run this w = (s, w') \<Longrightarrow> request_step w (open_scope s w')"
| step_switch: "i < length (scopes w) \<Longrightarrow> request_step w (w\<lparr>current := Some i\<rparr>)"
| step_outside: "request_step w (w\<lparr>current := None\<rparr>)"

inductive requests_reach :: "'i request_world \<Rightarrow> bool" where
  reach_start: "requests_reach no_requests"
| reach_step: "requests_reach w \<Longrightarrow> request_step w w' \<Longrightarrow> requests_reach w'"

text \<open>The instances the scopes hold, each with its class and the request of its scope.\<close>

definition held_by :: "request_scope \<Rightarrow> (string \<times> nat \<times> nat) set" where
  "held_by s = (\<lambda>(n, loc). (n, loc, commit_map s)) ` set (middlewares s)"

definition held :: "'i request_world \<Rightarrow> (string \<times> nat \<times> nat) set" where
  "held w = (\<Union>s \<in> set (scopes w). held_by s)"

definition requests_ok :: "'i request_world \<Rightarrow> bool" where
  "requests_ok w \<longleftrightarrow> (case current w of None \<Rightarrow> True | Some i \<Rightarrow> i < length (scopes w))
     \<and> (\<forall>s \<in> set (scopes w). commit_map s < next_commits w)
     \<and> (\<forall>(n, loc, r) \<in> held w. loc < length (instances w))
     \<and> (\<forall>(n, loc, r) \<in> held w. \<forall>(m, loc', q) \<in> held w. loc = loc' \<longrightarrow> n = m \<and> r = q)"

lemma held_by_mono: "set (middlewares s) \<subseteq> set (middlewares t) \<Longrightarrow> commit_map s = commit_map t \<Longrightarrow> held_by s \<subseteq> held_by t"
  by (auto simp: held_by_def)

lemma held_set_scope:
  assumes "i < length (scopes w)"
  shows "held (set_scope i f w) \<subseteq> held w \<union> held_by ((scopes w ! i)\<lparr>middlewares := f (middlewares (scopes w ! i))\<rparr>)"
    and "s \<in> set (scopes (set_scope i f w)) \<Longrightarrow> commit_map s \<in> commit_map ` set (scopes w)"
  using set_update_subset_insert [of "scopes w" i] nth_mem [OF assms] by (fastforce simp: held_def set_scope_def)+

lemma requests_ok_unique: "requests_ok w \<Longrightarrow> (n, loc, r) \<in> held w \<Longrightarrow> (m, loc, q) \<in> held w \<Longrightarrow> n = m \<and> r = q"
  unfolding requests_ok_def by blast

lemma requests_ok_bound: "requests_ok w \<Longrightarrow> (n, loc, r) \<in> held w \<Longrightarrow> loc < length (instances w)"
  unfolding requests_ok_def by blast

lemma requests_okI:
  assumes "case current w of None \<Rightarrow> True | Some i \<Rightarrow> i < length (scopes w)" and "\<forall>s \<in> set (scopes w). commit_map s < next_commits w"
    and "\<And>n loc r. (n, loc, r) \<in> held w \<Longrightarrow> loc < length (instances w)"
    and "\<And>n m loc r q. (n, loc, r) \<in> held w \<Longrightarrow> (m, loc, q) \<in> held w \<Longrightarrow> n = m \<and> r = q"
  shows "requests_ok w"
  unfolding requests_ok_def using assms by blast

lemma requests_ok_less:
  assumes "requests_ok w" and "\<forall>s \<in> set (scopes v). commit_map s < next_commits v" and "held v \<subseteq> held w"
    and "length (instances w) \<le> length (instances v)" and "case current v of None \<Rightarrow> True | Some i \<Rightarrow> i < length (scopes v)"
  shows "requests_ok v"
proof (rule requests_okI [OF assms(5,2)])
  fix n loc r assume "(n, loc, r) \<in> held v"
  then have "loc < length (instances w)" using assms(3) requests_ok_bound [OF assms(1)] by blast
  then show "loc < length (instances v)" using assms(4) by simp
next
  fix n m loc r q assume "(n, loc, r) \<in> held v" "(m, loc, q) \<in> held v"
  then show "n = m \<and> r = q" using assms(3) requests_ok_unique [OF assms(1)] by blast
qed

lemma requests_ok_clear:
  assumes ok: "requests_ok w"
  shows "requests_ok (clearContext c w)"
proof (cases "current w")
  case (Some i)
  then have i: "i < length (scopes w)" using ok by (simp add: requests_ok_def)
  let ?f = "filter (\<lambda>(n, _). n \<noteq> mw_name c)"
  have "held_by ((scopes w ! i)\<lparr>middlewares := ?f (middlewares (scopes w ! i))\<rparr>) \<subseteq> held_by (scopes w ! i)"
    by (rule held_by_mono) auto
  then have "held (set_scope i ?f w) \<subseteq> held w"
    using held_set_scope(1) [OF i, of ?f] nth_mem [OF i] by (auto simp: held_def)
  moreover have "\<forall>s \<in> set (scopes (set_scope i ?f w)). commit_map s < next_commits (set_scope i ?f w)"
    using held_set_scope(2) [OF i] ok by (fastforce simp: requests_ok_def set_scope_def)
  ultimately show ?thesis
    using Some i unfolding clearContext_def by (simp, intro requests_ok_less [OF ok]) (simp_all add: set_scope_def)
qed (use ok in \<open>simp add: clearContext_def\<close>)

lemma requests_ok_get:
  assumes ok: "requests_ok w"
  shows "requests_ok (snd (getCurrentContext c w))"
proof -
  let ?w1 = "w\<lparr>instances := instances w @ [new_instance c]\<rparr>" and ?fresh = "length (instances w)"
  have ok1: "requests_ok ?w1" by (rule requests_ok_less [OF ok]) (use ok in \<open>auto simp: requests_ok_def held_def split: option.splits\<close>)
  show ?thesis
  proof (cases "current w")
    case None
    then show ?thesis using ok1 by (simp add: getCurrentContext_def Let_def)
  next
    case (Some i)
    then have i: "i < length (scopes w)" using ok by (simp add: requests_ok_def)
    show ?thesis
    proof (cases "map_of (middlewares (scopes w ! i)) (mw_name c)")
      case None
      let ?f = "\<lambda>m. obj_set m (mw_name c) ?fresh" and ?r = "commit_map (scopes w ! i)"
      let ?v = "set_scope i ?f ?w1"
      have "held_by ((scopes w ! i)\<lparr>middlewares := ?f (middlewares (scopes w ! i))\<rparr>) \<subseteq> insert (mw_name c, ?fresh, ?r) (held_by (scopes w ! i))"
        using set_obj_set [of "middlewares (scopes w ! i)" "mw_name c" ?fresh] by (auto simp: held_by_def)
      moreover have "held_by (scopes w ! i) \<subseteq> held w" using nth_mem [OF i] by (auto simp: held_def)
      ultimately have sub: "held ?v \<subseteq> insert (mw_name c, ?fresh, ?r) (held w)"
        using held_set_scope(1) [of i ?w1 ?f] i by (auto simp: held_def)
      have old: "loc < length (instances w)" if "(n, loc, r) \<in> held w" for n loc r using requests_ok_bound [OF ok that] .
      have "\<forall>s \<in> set (scopes ?v). commit_map s < next_commits ?v"
        using held_set_scope(2) [of i ?w1] i ok by (fastforce simp: requests_ok_def set_scope_def)
      then have "requests_ok ?v"
      proof (rule requests_okI [rotated])
        show "case current ?v of None \<Rightarrow> True | Some j \<Rightarrow> j < length (scopes ?v)" using Some i by (simp add: set_scope_def)
      next
        fix n loc r assume "(n, loc, r) \<in> held ?v"
        with sub have "loc = ?fresh \<or> (n, loc, r) \<in> held w" by blast
        with old have "loc < Suc ?fresh" by fastforce
        then show "loc < length (instances ?v)" by (simp add: set_scope_def)
      next
        fix n m loc r q assume "(n, loc, r) \<in> held ?v" "(m, loc, q) \<in> held ?v"
        with sub have "(n = mw_name c \<and> loc = ?fresh \<and> r = ?r) \<or> (n, loc, r) \<in> held w"
          "(m = mw_name c \<and> loc = ?fresh \<and> q = ?r) \<or> (m, loc, q) \<in> held w" by blast+
        with old requests_ok_unique [OF ok] show "n = m \<and> r = q" by blast
      qed
      then show ?thesis using Some None by (simp add: getCurrentContext_def Let_def)
    qed (use Some ok in \<open>simp add: getCurrentContext_def Let_def\<close>)
  qed
qed

lemma requests_ok_run:
  assumes ok: "requests_ok w" and "scope_of_run this w = (s, w')"
  shows "requests_ok (open_scope s w')"
proof -
  have less: "held_by s \<subseteq> held w \<and> commit_map s < next_commits w' \<and> next_commits w \<le> next_commits w'
      \<and> scopes w' = scopes w \<and> instances w' = instances w"
  proof (cases this)
    case None
    then show ?thesis using assms(2) by (auto simp: scope_of_run_def held_by_def)
  next
    case (Some c)
    show ?thesis
    proof (cases "current w")
      case None
      then show ?thesis using assms(2) Some by (auto simp: scope_of_run_def held_by_def scope_now_def)
    next
      case cur: (Some i)
      then have i: "i < length (scopes w)" using ok by (simp add: requests_ok_def)
      have s: "s = (scopes w ! i)\<lparr>middlewares := filter (\<lambda>(n, _). n \<noteq> mw_name c) (middlewares (scopes w ! i))\<rparr>" and w': "w' = w"
        using assms(2) Some cur by (auto simp: scope_of_run_def scope_now_def)
      have "held_by s \<subseteq> held_by (scopes w ! i)" unfolding s by (rule held_by_mono) auto
      then show ?thesis using nth_mem [OF i] ok s w' by (auto simp: held_def requests_ok_def)
    qed
  qed
  show ?thesis
    by (rule requests_ok_less [OF ok]) (use less ok in \<open>auto simp: open_scope_def held_def requests_ok_def\<close>)
qed

lemma requests_ok_step: "request_step w w' \<Longrightarrow> requests_ok w \<Longrightarrow> requests_ok w'"
proof (induction rule: request_step.induct)
  case (step_get c w loc w')
  then show ?case using requests_ok_get [of w c] by simp
next
  case (step_switch i w)
  show ?case by (rule requests_ok_less [OF step_switch(2)]) (use step_switch in \<open>auto simp: requests_ok_def held_def\<close>)
next
  case (step_outside w)
  show ?case by (rule requests_ok_less [OF step_outside]) (use step_outside in \<open>auto simp: requests_ok_def held_def\<close>)
qed (blast intro: requests_ok_clear requests_ok_run)+

lemma requests_reach_ok: "requests_reach w \<Longrightarrow> requests_ok w"
proof (induction rule: requests_reach.induct)
  case reach_start
  show ?case by (simp add: no_requests_def requests_ok_def held_def)
next
  case (reach_step w w')
  then show ?case by (blast intro: requests_ok_step)
qed

text \<open>
  C32. Requests share no middleware instance.  However requests are opened, nested and interleaved, an
  instance is held by the scopes of one request only and for one class; within a scope a class is given
  the instance it was given before, outside every scope a new one, held by none.
\<close>

theorem requests_share_no_instance:
  assumes "requests_reach w" and "getCurrentContext c w = (loc, w')"
  shows "(\<forall>s \<in> set (scopes w'). \<forall>t \<in> set (scopes w'). \<forall>n m k. (n, k) \<in> set (middlewares s) \<longrightarrow> (m, k) \<in> set (middlewares t)
           \<longrightarrow> n = m \<and> commit_map s = commit_map t)
    \<and> (case current w of
         Some i \<Rightarrow> getCurrentContext c w' = (loc, w') \<and> map_of (middlewares (scopes w' ! i)) (mw_name c) = Some loc
       | None \<Rightarrow> loc = length (instances w) \<and> scopes w' = scopes w)"
proof -
  have ok: "requests_ok w" by (rule requests_reach_ok [OF assms(1)])
  have ok': "requests_ok w'" using requests_ok_get [OF ok, of c] assms(2) by simp
  have "n = m \<and> commit_map s = commit_map t"
    if "s \<in> set (scopes w')" "t \<in> set (scopes w')" "(n, k) \<in> set (middlewares s)" "(m, k) \<in> set (middlewares t)" for s t n m k
  proof -
    have "(n, k, commit_map s) \<in> held w'" "(m, k, commit_map t) \<in> held w'"
      using that by (force simp: held_def held_by_def)+
    then show ?thesis using requests_ok_unique [OF ok'] by blast
  qed
  moreover have "case current w of
         Some i \<Rightarrow> getCurrentContext c w' = (loc, w') \<and> map_of (middlewares (scopes w' ! i)) (mw_name c) = Some loc
       | None \<Rightarrow> loc = length (instances w) \<and> scopes w' = scopes w"
    using assms(2) ok by (auto simp: getCurrentContext_def set_scope_def Let_def requests_ok_def map_of_obj_set split: option.splits)
  ultimately show ?thesis by blast
qed

section \<open>The registry and the chain\<close>

definition use_middleware :: "'c \<Rightarrow> 'c list \<Rightarrow> 'c list" where
  "use_middleware c reg = reg @ [c]"

text \<open>The function \<open>use\<close> returns and \<open>removeMiddleware\<close>: the first registration of the class goes.\<close>

definition removeMiddleware :: "'c \<Rightarrow> 'c list \<Rightarrow> bool \<times> 'c list" where
  "removeMiddleware c reg = (c \<in> set reg, remove1 c reg)"

type_synonym ('i, 'a, 'r) mw_next = "'a \<Rightarrow> 'i request_world \<Rightarrow> (scp_error + 'r) \<times> 'i request_world"

text \<open>What an instance has under the name of a hook: nothing or a value that is not true, a function, or another value.\<close>

datatype ('i, 'a, 'r) hook_member = NoHook | Hook "nat \<Rightarrow> ('i, 'a, 'r) mw_next \<Rightarrow> ('i, 'a, 'r) mw_next" | NotAFunction

definition wrap_hook :: "('i mw_class \<Rightarrow> 'i \<Rightarrow> ('i, 'a, 'r) hook_member) \<Rightarrow> 'i mw_class
    \<Rightarrow> ('i, 'a, 'r) mw_next \<times> 'i request_world \<Rightarrow> ('i, 'a, 'r) mw_next \<times> 'i request_world" where
  "wrap_hook member c nw = (case nw of (nx, w) \<Rightarrow>
     (case getCurrentContext c w of (loc, w1) \<Rightarrow>
       (case member c (instances w1 ! loc) of
          NoHook \<Rightarrow> (nx, w1)
        | Hook h \<Rightarrow> (h loc nx, w1)
        | NotAFunction \<Rightarrow> (\<lambda>args v. (Inl (OtherError ''method.call is not a function''), v), w1))))"

definition applyMiddleware :: "('i mw_class \<Rightarrow> 'i \<Rightarrow> ('i, 'a, 'r) hook_member) \<Rightarrow> 'i mw_class list \<Rightarrow> ('i, 'a, 'r) mw_next \<Rightarrow> ('i, 'a, 'r) mw_next" where
  "applyMiddleware member reg core args w =
     (if reg = [] then core args w
      else (case fold (wrap_hook member) (rev reg) (core, w) of (nx, w') \<Rightarrow> nx args w'))"

text \<open>\<open>createMiddleware\<close>: the state is cloned and given to \<open>init\<close>; an own property of it hides the hook of its name.\<close>

record ('i, 'a, 'r) mw_config =
  cfg_state :: 'i
  cfg_init :: "'i \<Rightarrow> 'i"
  cfg_hook :: "(nat \<Rightarrow> ('i, 'a, 'r) mw_next \<Rightarrow> ('i, 'a, 'r) mw_next) option"
  own_member :: "'i \<Rightarrow> bool option"

definition createMiddleware :: "string \<Rightarrow> ('i, 'a, 'r) mw_config \<Rightarrow> 'i mw_class" where
  "createMiddleware name cfg = \<lparr>mw_name = name, new_instance = cfg_init cfg (cfg_state cfg)\<rparr>"

definition config_member :: "('i, 'a, 'r) mw_config \<Rightarrow> 'i \<Rightarrow> ('i, 'a, 'r) hook_member" where
  "config_member cfg inst = (case own_member cfg inst of
      Some truthy \<Rightarrow> (if truthy then NotAFunction else NoHook)
    | None \<Rightarrow> (case cfg_hook cfg of None \<Rightarrow> NoHook | Some h \<Rightarrow> Hook h))"

lemma chain_nests:
  "fold (wrap_hook member) (rev (c # cs)) nw = wrap_hook member c (fold (wrap_hook member) (rev cs) nw)"
  by simp

text \<open>
  A state counter named like a method hides the hook while it is 0, and makes the method throw once it is not.
\<close>

definition counting_config :: "(int, 'a, 'r) mw_config" where
  "counting_config = \<lparr>cfg_state = 0, cfg_init = id, cfg_hook = Some (\<lambda>loc nx. nx), own_member = (\<lambda>n. Some (n \<noteq> 0))\<rparr>"

lemma state_hides_hook:
  "config_member counting_config 0 = NoHook"
  "fst (applyMiddleware (\<lambda>_. config_member counting_config) [createMiddleware ''M'' (counting_config\<lparr>cfg_init := (\<lambda>n. n + 1)\<rparr>)] (\<lambda>args v. (Inr args, v)) x no_requests)
    = Inl (OtherError ''method.call is not a function'')"
  by (simp_all add: config_member_def counting_config_def applyMiddleware_def wrap_hook_def createMiddleware_def getCurrentContext_def no_requests_def)

section \<open>Statistics\<close>

datatype mw_hook = HFind | HFindOne | HFindById | HCount | HCreate | HCreateMany | HUpdate | HUpdateMany | HDelete | HExecute | HQuery

datatype stat_kind = FindAll | FindOne | Inserts | Updates | Deletes | Executes | Queries

record stats =
  counts :: "stat_kind \<Rightarrow> int"
  msecs :: "stat_kind \<Rightarrow> int"

definition no_stats :: stats where
  "no_stats = \<lparr>counts = (\<lambda>_. 0), msecs = (\<lambda>_. 0)\<rparr>"

definition stat_kinds :: "stat_kind list" where
  "stat_kinds = [FindAll, FindOne, Inserts, Updates, Deletes, Executes, Queries]"

definition totalCount :: "stats \<Rightarrow> int" where
  "totalCount s = sum_list (map (counts s) stat_kinds)"

definition totalMsec :: "stats \<Rightarrow> int" where
  "totalMsec s = sum_list (map (msecs s) stat_kinds)"

definition log_entry :: "string \<Rightarrow> int \<Rightarrow> int \<Rightarrow> string" where
  "log_entry label n ms = label @ '':'' @ show_int n @ ''('' @ show_int ms @ ''ms)''"

definition getLog :: "stats \<Rightarrow> string" where
  "getLog s = join '', '' (log_entry ''Total'' (totalCount s) (totalMsec s) #
     map (\<lambda>(label, k). log_entry label (counts s k) (msecs s k))
       [(''FindOne'', FindOne), (''FindAll'', FindAll), (''Insert'', Inserts), (''Update'', Updates), (''Delete'', Deletes),
        (''Execute'', Executes), (''Query'', Queries)])"

definition stat_of_hook :: "mw_hook \<Rightarrow> stat_kind option" where
  "stat_of_hook h = (case h of
      HFind \<Rightarrow> Some FindAll | HCount \<Rightarrow> Some FindAll | HFindOne \<Rightarrow> Some FindOne | HFindById \<Rightarrow> Some FindOne
    | HCreate \<Rightarrow> Some Inserts | HCreateMany \<Rightarrow> Some Inserts | HUpdate \<Rightarrow> Some Updates | HDelete \<Rightarrow> Some Deletes
    | HExecute \<Rightarrow> Some Executes | HQuery \<Rightarrow> Some Queries | HUpdateMany \<Rightarrow> None)"

definition on_instance :: "nat \<Rightarrow> ('i \<Rightarrow> 'i) \<Rightarrow> 'i request_world \<Rightarrow> 'i request_world" where
  "on_instance loc f w = w\<lparr>instances := (instances w)[loc := f (instances w ! loc)]\<rparr>"

definition count_one :: "stat_kind \<Rightarrow> stats \<Rightarrow> stats" where
  "count_one k s = s\<lparr>counts := (counts s)(k := counts s k + 1)\<rparr>"

definition add_msec :: "stat_kind \<Rightarrow> int \<Rightarrow> stats \<Rightarrow> stats" where
  "add_msec k ms s = s\<lparr>msecs := (msecs s)(k := msecs s k + ms)\<rparr>"

definition stat_hook :: "stat_kind \<Rightarrow> nat \<Rightarrow> (stats, 'a, 'r) mw_next \<Rightarrow> (stats, 'a, 'r) mw_next" where
  "stat_hook k loc nx args w = (let w1 = on_instance loc (count_one k) w in
     case nx args w1 of
       (Inl e, w2) \<Rightarrow> (Inl e, w2)
     | (Inr r, w2) \<Rightarrow> (Inr r, on_instance loc (add_msec k (clock w2 - clock w1)) w2))"

definition statistics_member :: "mw_hook \<Rightarrow> stats \<Rightarrow> (stats, 'a, 'r) hook_member" where
  "statistics_member h s = (case stat_of_hook h of None \<Rightarrow> NoHook | Some k \<Rightarrow> Hook (stat_hook k))"

lemma total_count_one: "totalCount (count_one k s) = totalCount s + 1"
  by (cases k) (simp_all add: totalCount_def count_one_def stat_kinds_def)

lemma total_add_msec: "totalCount (add_msec k ms s) = totalCount s" "totalMsec (add_msec k ms s) = totalMsec s + ms" "totalMsec (count_one k s) = totalMsec s"
  by (cases k; simp add: totalCount_def totalMsec_def add_msec_def count_one_def stat_kinds_def)+

text \<open>
  The statistics do not disturb what they measure.  An operation under the statistics hook calls what is
  under it once, with the same arguments and the world but for its own counter, and passes the result
  through; it counts one operation, and its time when it succeeds.
\<close>

theorem statistics_are_transparent:
  assumes "loc < length (instances w)" and "nx args (on_instance loc (count_one k) w) = (res, w2)" and "loc < length (instances w2)"
  shows "\<exists>w3. stat_hook k loc nx args w = (res, w3) \<and> scopes w3 = scopes w2 \<and> clock w3 = clock w2
    \<and> totalCount (instances w3 ! loc) = totalCount (instances w2 ! loc)
    \<and> totalMsec (instances w3 ! loc) = totalMsec (instances w2 ! loc) + (if isl res then 0 else clock w2 - clock w)
    \<and> totalCount (instances (on_instance loc (count_one k) w) ! loc) = totalCount (instances w ! loc) + 1"
  using assms
  by (cases res) (simp_all add: stat_hook_def on_instance_def total_count_one total_add_msec Let_def)

text \<open>\<open>updateMany\<close> is not counted.\<close>

lemma update_many_is_not_counted: "statistics_member HUpdateMany s = NoHook"
  by (simp add: statistics_member_def stat_of_hook_def)

text \<open>One \<open>find\<close> counts three operations in the total: itself, its query and its execute.\<close>

lemma one_find_counts_three:
  "map_prod id (\<lambda>w. totalCount (instances w ! 0))
     (stat_hook FindAll 0 (stat_hook Queries 0 (stat_hook Executes 0 (\<lambda>args v. (Inr args, v)))) x (no_requests\<lparr>instances := [no_stats]\<rparr>))
    = (Inr x, 3)"
  by (simp add: stat_hook_def on_instance_def no_requests_def no_stats_def totalCount_def stat_kinds_def count_one_def add_msec_def Let_def)

section \<open>Witnesses\<close>

definition stats_class :: "stats mw_class" where
  "stats_class = \<lparr>mw_name = ''Statistics'', new_instance = no_stats\<rparr>"

definition first_request :: "stats request_world" where
  "first_request = open_scope \<lparr>middlewares = [], commit_map = 0\<rparr> (no_requests\<lparr>next_commits := 1\<rparr>)"

lemma one_request: "requests_reach first_request"
  unfolding first_request_def
proof (rule reach_step [OF reach_start])
  show "request_step no_requests (open_scope \<lparr>middlewares = [], commit_map = 0\<rparr> (no_requests\<lparr>next_commits := 1\<rparr>))"
    by (rule step_run [of None]) (simp add: scope_of_run_def no_requests_def)
qed

lemma requests_share_no_instance_witness:
  "\<exists>w'. getCurrentContext stats_class first_request = (0, w') \<and> getCurrentContext stats_class w' = (0, w')"
proof -
  have "fst (getCurrentContext stats_class first_request) = 0" and cur: "current first_request = Some 0"
    by (simp_all add: first_request_def getCurrentContext_def open_scope_def no_requests_def Let_def)
  then obtain w' where got: "getCurrentContext stats_class first_request = (0, w')"
    by (cases "getCurrentContext stats_class first_request") simp
  show ?thesis using cur got requests_share_no_instance [OF one_request got] by auto
qed

lemma statistics_are_transparent_witness:
  "fst (stat_hook FindAll 0 (\<lambda>args v. (Inr args, v)) (7 :: int) (no_requests\<lparr>instances := [no_stats]\<rparr>)) = Inr 7"
  using statistics_are_transparent [where loc = 0 and w = "no_requests\<lparr>instances := [no_stats]\<rparr>" and k = FindAll
      and nx = "\<lambda>args v. (Inr args, v)" and args = "7 :: int" and res = "Inr 7"]
  by (auto simp: on_instance_def)

end
