(* ===== verification/JsonParse.thy ===== *)
theory JsonParse
  imports ModelMeta
begin

text \<open>
  \<open>JSON.parse\<close>, which the read casts of the drivers call, and the reading of what \<open>JSON.stringify\<close> wrote.  A
  number is taken with the text \<open>String(n)\<close> writes (an integer, or a fraction in its shortest form); a
  \<open>\u\<close> escape above U+00FF is outside the model of strings.
\<close>

section \<open>Strings and numbers\<close>

definition json_space :: "char \<Rightarrow> bool" where
  "json_space c \<longleftrightarrow> c \<in> {CHR '' '', CHR 0x09, CHR 0x0A, CHR 0x0D}"

definition hex_value :: "char \<Rightarrow> nat option" where
  "hex_value c = (let n = (of_char c :: nat) in
     if 48 \<le> n \<and> n \<le> 57 then Some (n - 48) else if 97 \<le> n \<and> n \<le> 102 then Some (n - 87)
     else if 65 \<le> n \<and> n \<le> 70 then Some (n - 55) else None)"

definition hex_char :: "char \<Rightarrow> char \<Rightarrow> char \<Rightarrow> char \<Rightarrow> char option" where
  "hex_char a b x y = (case (hex_value a, hex_value b, hex_value x, hex_value y) of
      (Some p, Some q, Some m, Some n) \<Rightarrow> (if p = 0 \<and> q = 0 then Some (char_of (16 * m + n)) else None)
    | _ \<Rightarrow> None)"

definition escaped_char :: "char \<Rightarrow> char option" where
  "escaped_char c = (if c \<in> {CHR 0x22, CHR 0x5C, CHR ''/''} then Some c
     else if c = CHR ''b'' then Some (CHR 0x08) else if c = CHR ''f'' then Some (CHR 0x0C) else if c = CHR ''n'' then Some (CHR 0x0A)
     else if c = CHR ''r'' then Some (CHR 0x0D) else if c = CHR ''t'' then Some (CHR 0x09) else None)"

definition push_char :: "char option \<Rightarrow> (string \<times> string) option \<Rightarrow> (string \<times> string) option" where
  "push_char c r = (case (c, r) of (Some ch, Some (s, t)) \<Rightarrow> Some (ch # s, t) | _ \<Rightarrow> None)"

text \<open>The characters of a string after its opening quote, with what follows its closing one.\<close>

function (sequential) parse_string :: "string \<Rightarrow> (string \<times> string) option" where
  "parse_string [] = None"
| "parse_string (c # t) =
     (if c = CHR 0x22 then Some ([], t)
      else if c = CHR 0x5C then
        (case t of
           [] \<Rightarrow> None
         | e # u \<Rightarrow>
             (if e = CHR ''u'' then (case u of
                a # b # x # y # w \<Rightarrow> push_char (hex_char a b x y) (parse_string w)
              | _ \<Rightarrow> None)
              else push_char (escaped_char e) (parse_string u)))
      else if (of_char c :: nat) < 32 then None
      else push_char (Some c) (parse_string t))"
  by pat_completeness auto

termination by (relation "measure length") auto

definition number_char :: "char \<Rightarrow> bool" where
  "number_char c \<longleftrightarrow> is_digit c \<or> c \<in> {CHR ''-'', CHR ''+'', CHR ''.'', CHR ''e'', CHR ''E''}"

definition digits_ok :: "string \<Rightarrow> bool" where
  "digits_ok ds \<longleftrightarrow> ds \<noteq> [] \<and> list_all is_digit ds"

definition exponent_ok :: "string \<Rightarrow> bool" where
  "exponent_ok s \<longleftrightarrow> (case s of [] \<Rightarrow> True | c # t \<Rightarrow> c \<in> {CHR ''e'', CHR ''E''}
     \<and> digits_ok (case t of d # u \<Rightarrow> if d \<in> {CHR ''-'', CHR ''+''} then u else t | [] \<Rightarrow> []))"

definition fraction_ok :: "string \<Rightarrow> bool" where
  "fraction_ok s \<longleftrightarrow> (case s of
      c # t \<Rightarrow> (if c = CHR ''.'' then takeWhile is_digit t \<noteq> [] \<and> exponent_ok (dropWhile is_digit t) else exponent_ok s)
    | [] \<Rightarrow> True)"

text \<open>A number text: no leading zero, no sign but the minus.\<close>

definition parse_number :: "string \<Rightarrow> jsval option" where
  "parse_number s =
     (let neg = (s \<noteq> [] \<and> hd s = CHR ''-''); m = (if neg then tl s else s);
          ip = takeWhile is_digit m; r = dropWhile is_digit m
      in if ip = [] \<or> (length ip > 1 \<and> hd ip = CHR ''0'') \<or> \<not> fraction_ok r then None
         else if r = [] then Some (JInt (if neg then - parse_nat ip else parse_nat ip)) else Some (JFrac s))"

section \<open>Values\<close>

definition skip_json_space :: "string \<Rightarrow> string" where
  "skip_json_space s = dropWhile json_space s"

definition cons_first :: "'v \<Rightarrow> ('v list \<times> string) option \<Rightarrow> ('v list \<times> string) option" where
  "cons_first v r = map_option (\<lambda>(vs, t). (v # vs, t)) r"

text \<open>
  A value at the head of the text with what follows it; the elements of an array and the members of an
  object with what follows the closing bracket.  Every call consumes a character, so the length of the
  text is fuel enough.
\<close>

fun parse_value :: "nat \<Rightarrow> string \<Rightarrow> (jsval \<times> string) option"
and parse_array :: "nat \<Rightarrow> string \<Rightarrow> (jsval list \<times> string) option"
and parse_members :: "nat \<Rightarrow> string \<Rightarrow> ((string \<times> jsval) list \<times> string) option" where
  "parse_value 0 s = None"
| "parse_value (Suc n) s = (case skip_json_space s of
      [] \<Rightarrow> None
    | c # t \<Rightarrow>
        (if c = CHR 0x22 then map_option (map_prod JStr id) (parse_string t)
         else if c = CHR ''['' then
           (case skip_json_space t of
              [] \<Rightarrow> None
            | b # u \<Rightarrow> (if b = CHR '']'' then Some (JArr [], u) else map_option (map_prod JArr id) (parse_array n t)))
         else if c = CHR ''{'' then
           (case skip_json_space t of
              [] \<Rightarrow> None
            | b # u \<Rightarrow> (if b = CHR ''}'' then Some (JObj [], u)
                else map_option (map_prod (\<lambda>kvs. JObj (obj_spread [] kvs)) id) (parse_members n t)))
         else if starts_with ''null'' (c # t) then Some (JNull, drop 4 (c # t))
         else if starts_with ''true'' (c # t) then Some (JBool True, drop 4 (c # t))
         else if starts_with ''false'' (c # t) then Some (JBool False, drop 5 (c # t))
         else map_option (\<lambda>v. (v, dropWhile number_char (c # t))) (parse_number (takeWhile number_char (c # t)))))"
| "parse_array 0 s = None"
| "parse_array (Suc n) s = (case parse_value n s of
      None \<Rightarrow> None
    | Some (v, t) \<Rightarrow> (case skip_json_space t of
        [] \<Rightarrow> None
      | c # u \<Rightarrow> (if c = CHR '','' then cons_first v (parse_array n u) else if c = CHR '']'' then Some ([v], u) else None)))"
| "parse_members 0 s = None"
| "parse_members (Suc n) s = (case skip_json_space s of
      [] \<Rightarrow> None
    | q # s1 \<Rightarrow> (if q \<noteq> CHR 0x22 then None else (case parse_string s1 of
        None \<Rightarrow> None
      | Some (k, s2) \<Rightarrow> (case skip_json_space s2 of
          [] \<Rightarrow> None
        | d # s3 \<Rightarrow> (if d \<noteq> CHR '':'' then None else (case parse_value n s3 of
            None \<Rightarrow> None
          | Some (v, t) \<Rightarrow> (case skip_json_space t of
              [] \<Rightarrow> None
            | c # u \<Rightarrow> (if c = CHR '','' then cons_first (k, v) (parse_members n u)
                else if c = CHR ''}'' then Some ([(k, v)], u) else None))))))))"

text \<open>Nothing but space follows the value.\<close>

definition parse_json :: "string \<Rightarrow> jsval option" where
  "parse_json s = (case parse_value (Suc (length s)) s of
      Some (v, t) \<Rightarrow> (if skip_json_space t = [] then Some v else None)
    | None \<Rightarrow> None)"

lemma parse_json_examples:
  "parse_json ''[1, -20,3.5]'' = Some (JArr [JInt 1, JInt (-20), JFrac ''3.5''])"
  "parse_json ''01'' = None" "parse_json ''[1,]'' = None" "parse_json ''{a,b}'' = None"
  by code_simp+

section \<open>Reading what was written\<close>

text \<open>The values \<open>JSON.stringify\<close> writes without loss, with the keys of an object distinct.\<close>

fun json_plain :: "jsval \<Rightarrow> bool" where
  "json_plain JNull = True"
| "json_plain (JBool b) = True"
| "json_plain (JInt i) = True"
| "json_plain (JStr s) = True"
| "json_plain (JArr vs) = (\<forall>v \<in> set vs. json_plain v)"
| "json_plain (JFrac s) = (list_all number_char s \<and> parse_number s = Some (JFrac s))"
| "json_plain (JObj ob) = (distinct (map fst ob) \<and> (\<forall>kv \<in> set ob. json_plain (snd kv)))"
| "json_plain v = False"

lemma hex_value_digit: "k < 16 \<Longrightarrow> hex_value (hex_digit k) = Some k"
  by (auto simp: hex_value_def hex_digit_def)

lemma parse_json_char: "parse_string (json_char c @ t) = push_char (Some c) (parse_string t)"
proof -
  let ?n = "of_char c :: nat"
  have c: "c = char_of ?n" by simp
  consider "c = CHR 0x22" | "c = CHR 0x5C" | "?n = 8" | "?n = 9" | "?n = 10" | "?n = 12" | "?n = 13"
    | "?n < 32" "?n \<noteq> 8" "?n \<noteq> 9" "?n \<noteq> 10" "?n \<noteq> 12" "?n \<noteq> 13" | "?n \<ge> 32" "c \<noteq> CHR 0x22" "c \<noteq> CHR 0x5C"
    by linarith
  then show ?thesis
  proof cases
    case 3
    have "(of_char (CHR 0x08) :: nat) = 8" by code_simp
    then have "c = CHR 0x08" using 3 of_char_eq_iff [of c "CHR 0x08"] by metis
    then show ?thesis by (simp add: json_char_def escaped_char_def)
  next
    case 4
    have "(of_char (CHR 0x09) :: nat) = 9" by code_simp
    then have "c = CHR 0x09" using 4 of_char_eq_iff [of c "CHR 0x09"] by metis
    then show ?thesis by (simp add: json_char_def escaped_char_def)
  next
    case 5
    have "(of_char (CHR 0x0A) :: nat) = 10" by code_simp
    then have "c = CHR 0x0A" using 5 of_char_eq_iff [of c "CHR 0x0A"] by metis
    then show ?thesis by (simp add: json_char_def escaped_char_def)
  next
    case 6
    have "(of_char (CHR 0x0C) :: nat) = 12" by code_simp
    then have "c = CHR 0x0C" using 6 of_char_eq_iff [of c "CHR 0x0C"] by metis
    then show ?thesis by (simp add: json_char_def escaped_char_def)
  next
    case 7
    have "(of_char (CHR 0x0D) :: nat) = 13" by code_simp
    then have "c = CHR 0x0D" using 7 of_char_eq_iff [of c "CHR 0x0D"] by metis
    then show ?thesis by (simp add: json_char_def escaped_char_def)
  next
    case 8
    then have "c \<noteq> CHR 0x22" "c \<noteq> CHR 0x5C" by auto
    with 8 have "json_char c = [CHR 0x5C, CHR ''u'', CHR ''0'', CHR ''0'', hex_digit (?n div 16), hex_digit (?n mod 16)]"
      by (simp add: json_char_def Let_def)
    moreover have "hex_char (CHR ''0'') (CHR ''0'') (hex_digit (?n div 16)) (hex_digit (?n mod 16)) = Some c"
    proof -
      have "hex_value (CHR ''0'') = Some 0" by (simp add: hex_value_def)
      moreover have "?n div 16 < 16" "?n mod 16 < 16" using 8(1) by auto
      moreover have "char_of (16 * (?n div 16) + ?n mod 16) = c" using c by simp
      ultimately show ?thesis by (simp add: hex_char_def hex_value_digit)
    qed
    ultimately show ?thesis by simp
  next
    case 9
    then show ?thesis by (simp add: json_char_def Let_def)
  qed (simp_all add: json_char_def escaped_char_def)
qed

lemma parse_json_string: "parse_string (concat (map json_char s) @ CHR 0x22 # t) = Some (s, t)"
  by (induction s) (simp_all add: parse_json_char push_char_def)


definition value_ends :: "string \<Rightarrow> bool" where
  "value_ends s \<longleftrightarrow> (case s of [] \<Rightarrow> True | c # _ \<Rightarrow> \<not> number_char c)"

lemma number_text:
  assumes "list_all number_char s" "value_ends t"
  shows "takeWhile number_char (s @ t) = s" "dropWhile number_char (s @ t) = t"
  using assms by (induction s) (auto simp: value_ends_def split: list.splits)

lemma parse_value_number:
  assumes "list_all number_char s" "value_ends t" "parse_number s = Some v"
  shows "parse_value (Suc n) (s @ t) = Some (v, t)"
proof -
  have "s \<noteq> []" using assms(3) by (auto simp: parse_number_def)
  then obtain c r where s: "s = c # r" by (cases s) auto
  have c: "number_char c" using assms(1) s by simp
  have "\<not> json_space c" "c \<noteq> CHR 0x22" "c \<noteq> CHR ''[''" "c \<noteq> CHR ''{''" "c \<noteq> CHR ''n''" "c \<noteq> CHR ''t''" "c \<noteq> CHR ''f''"
    using c by (auto simp: number_char_def json_space_def is_digit_def)
  then have "parse_value (Suc n) (s @ t)
      = map_option (\<lambda>v. (v, dropWhile number_char (s @ t))) (parse_number (takeWhile number_char (s @ t)))"
    by (simp add: s skip_json_space_def)
  then show ?thesis using number_text [OF assms(1,2)] assms(3) by simp
qed

lemma show_nat_leading: "length (show_nat n) > 1 \<Longrightarrow> hd (show_nat n) \<noteq> CHR ''0''"
proof (induction n rule: show_nat.induct)
  case (1 n)
  then have n: "\<not> n < 10" by (auto simp: show_nat.simps [of n])
  show ?case
  proof (cases "n div 10 < 10")
    case True
    then have "show_nat n = [digit (n div 10), digit (n mod 10)]"
      using n by (simp add: show_nat.simps [of n] show_nat.simps [of "n div 10"])
    moreover have "digit (n div 10) \<noteq> CHR ''0''"
    proof
      assume "digit (n div 10) = CHR ''0''"
      then have "(of_char (digit (n div 10)) :: nat) = 48" by simp
      then show False using n True by (simp add: digit_def)
    qed
    ultimately show ?thesis by simp
  next
    case False
    then have "length (show_nat (n div 10)) > 1" by (simp add: show_nat.simps [of "n div 10"])
    with 1 n have "hd (show_nat (n div 10)) \<noteq> CHR ''0''" by simp
    then show ?thesis using n by (simp add: show_nat.simps [of n])
  qed
qed

lemma parse_number_show_int: "parse_number (show_int i) = Some (JInt i)"
proof -
  have digits: "takeWhile is_digit (show_nat n) = show_nat n" "dropWhile is_digit (show_nat n) = []" for n
    using show_nat_all_digits [of n] by (simp_all add: list_all_iff)
  have hd: "hd (show_nat n) \<noteq> CHR ''-''" for n
    using show_nat_all_digits [of n] minus_not_digit by (cases "show_nat n") auto
  have lead: "\<not> (1 < length (show_nat n) \<and> hd (show_nat n) = CHR ''0'')" for n
    using show_nat_leading [of n] by blast
  show ?thesis
    by (cases "i < 0") (simp_all only: parse_number_def show_int_def if_True if_False Let_def list.sel digits lead hd list.distinct
      show_nat_nonempty simp_thms fraction_ok_def list.case parse_show_nat, simp_all)
qed

lemma show_int_number_chars: "list_all number_char (show_int i)"
  using show_nat_all_digits by (auto simp: show_int_def number_char_def list_all_iff)


lemma parse_members_last:
  assumes "parse_value n s = Some (v, CHR ''}'' # rest)"
  shows "parse_members (Suc n) (json_string k @ CHR '':'' # s) = Some ([(k, v)], rest)"
  using assms by (simp add: json_string_def skip_json_space_def json_space_def parse_json_string)

lemma parse_members_more:
  assumes "parse_value n s = Some (v, CHR '','' # t)"
  shows "parse_members (Suc n) (json_string k @ CHR '':'' # s) = cons_first (k, v) (parse_members n t)"
  using assms by (simp add: json_string_def skip_json_space_def json_space_def parse_json_string)

lemma parse_elements_of:
  assumes "\<And>v n rest. v \<in> set vs \<Longrightarrow> length (f v) \<le> n \<Longrightarrow> value_ends rest \<Longrightarrow> parse_value n (f v @ rest) = Some (v, rest)"
    and "vs \<noteq> []" "length (join '','' (map f vs)) < n"
  shows "parse_array n (join '','' (map f vs) @ CHR '']'' # rest) = Some (vs, rest)"
  using assms
proof (induction vs arbitrary: n)
  case Nil
  then show ?case by simp
next
  case (Cons v vs)
  obtain m where n: "n = Suc m" using Cons.prems(3) by (cases n) auto
  show ?case
  proof (cases vs)
    case Nil
    have "parse_value m (f v @ CHR '']'' # rest) = Some (v, CHR '']'' # rest)"
      by (rule Cons.prems(1)) (use Cons.prems(3) n Nil in \<open>simp_all add: value_ends_def number_char_def is_digit_def\<close>)
    then show ?thesis by (simp add: n Nil skip_json_space_def json_space_def)
  next
    case (Cons w ws)
    have "parse_value m (f v @ CHR '','' # t) = Some (v, CHR '','' # t)" for t
      by (rule Cons.prems(1)) (use Cons.prems(3) n Cons in \<open>simp_all add: value_ends_def number_char_def is_digit_def\<close>)
    moreover have "parse_array m (join '','' (map f vs) @ CHR '']'' # rest) = Some (vs, rest)"
      by (rule Cons.IH [OF Cons.prems(1)]) (use Cons.prems(3) n Cons in simp_all)
    ultimately show ?thesis by (simp add: n Cons skip_json_space_def json_space_def cons_first_def)
  qed
qed

lemma parse_members_of:
  assumes "\<And>kv n rest. kv \<in> set ob \<Longrightarrow> length (f (snd kv)) \<le> n \<Longrightarrow> value_ends rest
      \<Longrightarrow> parse_value n (f (snd kv) @ rest) = Some (snd kv, rest)"
    and "ob \<noteq> []" "length (join '','' (map (\<lambda>kv. json_string (fst kv) @ '':'' @ f (snd kv)) ob)) < n"
  shows "parse_members n (join '','' (map (\<lambda>kv. json_string (fst kv) @ '':'' @ f (snd kv)) ob) @ CHR ''}'' # rest) = Some (ob, rest)"
  using assms
proof (induction ob arbitrary: n)
  case Nil
  then show ?case by simp
next
  case (Cons kv ob)
  obtain m where n: "n = Suc m" using Cons.prems(3) by (cases n) auto
  show ?case
  proof (cases ob)
    case Nil
    have "parse_value m (f (snd kv) @ CHR ''}'' # rest) = Some (snd kv, CHR ''}'' # rest)"
      by (rule Cons.prems(1)) (use Cons.prems(3) n Nil in \<open>simp_all add: value_ends_def number_char_def is_digit_def\<close>)
    then show ?thesis by (simp add: n Nil parse_members_last del: parse_members.simps)
  next
    case (Cons w ws)
    have "parse_value m (f (snd kv) @ CHR '','' # t) = Some (snd kv, CHR '','' # t)" for t
      by (rule Cons.prems(1)) (use Cons.prems(3) n Cons in \<open>simp_all add: value_ends_def number_char_def is_digit_def\<close>)
    moreover have "parse_members m (join '','' (map (\<lambda>kv. json_string (fst kv) @ '':'' @ f (snd kv)) ob) @ CHR ''}'' # rest) = Some (ob, rest)"
      by (rule Cons.IH [OF Cons.prems(1)]) (use Cons.prems(3) n Cons in simp_all)
    ultimately show ?thesis by (simp add: n Cons parse_members_more cons_first_def del: parse_members.simps)
  qed
qed


lemma obj_spread_distinct:
  assumes "distinct (map fst (acc @ kvs))"
  shows "obj_spread acc kvs = acc @ kvs"
  using assms
proof (induction kvs arbitrary: acc)
  case Nil
  then show ?case by (simp add: obj_spread_def)
next
  case (Cons kv kvs)
  have "obj_set acc (fst kv) (snd kv) = acc @ [kv]"
    using Cons.prems by (induction acc) auto
  then show ?case using Cons.IH [of "acc @ [kv]"] Cons.prems by (cases kv) (simp add: obj_spread_def)
qed

lemma parse_value_string: "parse_value (Suc n) (json_string s @ t) = Some (JStr s, t)"
  by (simp add: json_string_def skip_json_space_def json_space_def parse_json_string)

lemma parse_value_array:
  assumes "parse_array n (s @ CHR '']'' # t) = Some (vs, t)" "\<not> json_space (hd s)" "s \<noteq> []" "hd s \<noteq> CHR '']''"
  shows "parse_value (Suc n) (CHR ''['' # s @ CHR '']'' # t) = Some (JArr vs, t)"
  using assms by (cases s) (simp_all add: skip_json_space_def json_space_def)

lemma parse_value_object:
  assumes "parse_members n (s @ CHR ''}'' # t) = Some (ob, t)" "s \<noteq> []" "hd s = CHR 0x22" "distinct (map fst ob)"
  shows "parse_value (Suc n) (CHR ''{'' # s @ CHR ''}'' # t) = Some (JObj ob, t)"
  using assms obj_spread_distinct [of "[]" ob] by (cases s) (simp_all add: skip_json_space_def json_space_def del: parse_members.simps)

lemma value_head: "json_plain v \<Longrightarrow> json_text Postgres v \<noteq> [] \<and> \<not> json_space (hd (json_text Postgres v)) \<and> hd (json_text Postgres v) \<noteq> CHR '']''"
proof (cases v)
  case (JInt i)
  have "show_int i \<noteq> []" by (simp add: show_int_def)
  then show ?thesis
    using show_int_number_chars [of i] by (cases "show_int i") (auto simp: JInt number_char_def is_digit_def json_space_def)
next
  case (JFrac s)
  assume "json_plain v"
  then have "s \<noteq> []" "list_all number_char s" using JFrac by (auto simp: parse_number_def)
  then show ?thesis by (cases s) (auto simp: JFrac number_char_def is_digit_def json_space_def)
qed (auto simp: json_space_def json_string_def)

lemma join_head: "xs \<noteq> [] \<Longrightarrow> hd xs \<noteq> [] \<Longrightarrow> join sep xs \<noteq> [] \<and> hd (join sep xs) = hd (hd xs)"
  by (induction sep xs rule: join.induct) auto

declare parse_value.simps [simp del] parse_array.simps [simp del] parse_members.simps [simp del]

lemma parse_value_empty: "parse_value (Suc n) (CHR ''['' # CHR '']'' # t) = Some (JArr [], t)"
  "parse_value (Suc n) (CHR ''{'' # CHR ''}'' # t) = Some (JObj [], t)"
  by (simp_all add: parse_value.simps skip_json_space_def json_space_def)

lemma parse_value_word:
  "parse_value (Suc n) (''null'' @ t) = Some (JNull, t)"
  "parse_value (Suc n) (''true'' @ t) = Some (JBool True, t)"
  "parse_value (Suc n) (''false'' @ t) = Some (JBool False, t)"
  by (simp_all add: parse_value.simps skip_json_space_def json_space_def)

lemma parse_value_text:
  "json_plain v \<Longrightarrow> length (json_text Postgres v) \<le> n \<Longrightarrow> value_ends rest
    \<Longrightarrow> parse_value n (json_text Postgres v @ rest) = Some (v, rest)"
proof (induction v arbitrary: n rest rule: json_plain.induct)
  case 1
  then obtain m where "n = Suc m" by (cases n) auto
  then show ?case using parse_value_word(1) [of m rest] by simp
next
  case (2 b)
  then obtain m where "n = Suc m" by (cases n; cases b) auto
  then show ?case using parse_value_word(2,3) [of m rest] by simp
next
  case (3 i)
  have "show_int i \<noteq> []" by (simp add: show_int_def)
  with 3 obtain m where "n = Suc m" by (cases n) auto
  then show ?case using 3 by (simp add: parse_value_number show_int_number_chars parse_number_show_int)
next
  case (4 s)
  then obtain m where "n = Suc m" by (cases n) (auto simp: json_string_def)
  then show ?case by (simp add: parse_value_string)
next
  case (5 vs)
  then obtain m where n: "n = Suc m" by (cases n) auto
  show ?case
  proof (cases vs)
    case Nil
    then show ?thesis by (simp add: n parse_value_empty)
  next
    case (Cons w ws)
    let ?t = "join '','' (map (json_text Postgres) vs)"
    have "parse_array m (?t @ CHR '']'' # rest) = Some (vs, rest)"
    proof (rule parse_elements_of)
      show "parse_value n (json_text Postgres v @ rest) = Some (v, rest)"
        if "v \<in> set vs" "length (json_text Postgres v) \<le> n" "value_ends rest" for v n rest
        by (rule 5(1)) (use that 5(2) in auto)
    qed (use 5(3) Cons n in simp_all)
    moreover have "?t \<noteq> [] \<and> hd ?t = hd (json_text Postgres w)"
      using join_head [of "map (json_text Postgres) vs"] value_head [of w] 5(2) Cons by simp
    ultimately show ?thesis
      using value_head [of w] 5(2) Cons n parse_value_array [of m ?t rest vs] by simp
  qed
next
  case (6 s)
  then have "s \<noteq> []" by (auto simp: parse_number_def)
  with 6 show ?case by (cases n) (simp_all add: parse_value_number)
next
  case (7 ob)
  then obtain m where n: "n = Suc m" by (cases n) auto
  have undef: "filter (\<lambda>kv. snd kv \<noteq> JUndef) ob = ob" using 7(2) by (auto simp: filter_id_conv)
  show ?case
  proof (cases ob)
    case Nil
    then show ?thesis by (simp add: n parse_value_empty)
  next
    case (Cons w ws)
    let ?t = "join '','' (map (\<lambda>kv. json_string (fst kv) @ '':'' @ json_text Postgres (snd kv)) ob)"
    have "parse_members m (?t @ CHR ''}'' # rest) = Some (ob, rest)"
    proof (rule parse_members_of)
      show "parse_value n (json_text Postgres (snd kv) @ rest) = Some (snd kv, rest)"
        if "kv \<in> set ob" "length (json_text Postgres (snd kv)) \<le> n" "value_ends rest" for kv n rest
        by (rule 7(1)) (use that 7(2) in auto)
    qed (use 7(3) Cons n undef in simp_all)
    moreover have "?t \<noteq> [] \<and> hd ?t = CHR 0x22"
      using join_head [of "map (\<lambda>kv. json_string (fst kv) @ '':'' @ json_text Postgres (snd kv)) ob"] Cons
      by (simp add: json_string_def)
    ultimately show ?thesis using 7(2) n parse_value_object [of m ?t rest ob] undef by simp
  qed
qed auto


lemma parse_json_text:
  assumes "json_plain v"
  shows "parse_json (json_text Postgres v) = Some v"
  using parse_value_text [of v "Suc (length (json_text Postgres v))" "[]"] assms
  by (simp add: parse_json_def value_ends_def skip_json_space_def)

text \<open>A text that opens with a brace is an object or not JSON at all.\<close>

lemma parse_json_brace: "parse_json (CHR ''{'' # s) \<noteq> Some (JArr vs)"
  by (auto simp: parse_json_def parse_value.simps skip_json_space_def json_space_def split: option.splits list.splits if_splits prod.splits)

end
