(* ===== verification/DriverCasts.thy ===== *)
theory DriverCasts
  imports JsonParse
begin

text \<open>
  The read casts of the drivers: \<open>drivers/PostgresHelper.ts\<close>, \<open>drivers/MysqlHelper.ts\<close>,
  \<open>drivers/SqliteHelper.ts\<close> and the default of \<open>src/TypeCast.ts\<close>; the provider that holds the casts in force,
  and \<open>src/DBHandler.ts\<close>, whose constructor installs the casts of its driver and whose calls go to a pinned
  connection or to the driver; the column families of \<open>src/decorators.ts\<close> that read through the provider.
  The \<open>Date\<close> constructor is the argument \<open>new_date\<close>, with \<open>None\<close> for an invalid date; a \<open>Buffer\<close> is not a
  value of the model.
\<close>

section \<open>Shared pieces of the language\<close>

type_synonym date_constructor = "jsval \<Rightarrow> (string \<times> string) option"

text \<open>A text without the zeros at its end.\<close>

definition strip_zeros :: "string \<Rightarrow> string" where
  "strip_zeros s = rev (dropWhile (\<lambda>c. c = CHR ''0'') (rev s))"

text \<open>
  \<open>parseFloat\<close>: the longest prefix that is a number; \<open>None\<close> is \<open>NaN\<close>.  The exponent of a text is kept as it is
  written.
\<close>

definition float_exponent :: "string \<Rightarrow> string" where
  "float_exponent s = (case s of
      c # t \<Rightarrow> (if c \<in> {CHR ''e'', CHR ''E''}
        then (let (sg, r) = (case t of d # u \<Rightarrow> if d \<in> {CHR ''-'', CHR ''+''} then ([d], u) else ([], t) | [] \<Rightarrow> ([], [])) in
          if takeWhile is_digit r = [] then [] else CHR ''e'' # sg @ takeWhile is_digit r) else [])
    | [] \<Rightarrow> [])"

definition js_parseFloat :: "string \<Rightarrow> jsval option" where
  "js_parseFloat s =
     (let t = dropWhile is_space s;
          neg = (case t of c # _ \<Rightarrow> c = CHR ''-'' | [] \<Rightarrow> False);
          m = (case t of c # u \<Rightarrow> if c = CHR ''-'' \<or> c = CHR ''+'' then u else t | [] \<Rightarrow> []);
          ip = takeWhile is_digit m; r = dropWhile is_digit m;
          fp = (case r of c # u \<Rightarrow> if c = CHR ''.'' then takeWhile is_digit u else [] | [] \<Rightarrow> []);
          r2 = (case r of c # u \<Rightarrow> if c = CHR ''.'' then dropWhile is_digit u else r | [] \<Rightarrow> []);
          fz = strip_zeros fp; e = float_exponent r2;
          sign = (if neg then ''-'' else [])
      in if starts_with ''Infinity'' m then Some (JNonFin (sign @ ''Infinity''))
         else if ip = [] \<and> fp = [] then None
         else if fz = [] \<and> e = [] then Some (JInt (if neg then - parse_nat ip else parse_nat ip))
         else Some (JFrac (sign @ show_int (parse_nat ip) @ (if fz = [] then [] else CHR ''.'' # fz) @ e)))"

definition float_or_null :: "string \<Rightarrow> jsval" where
  "float_or_null s = (case js_parseFloat s of None \<Rightarrow> JNull | Some v \<Rightarrow> v)"

definition read_date :: "date_constructor \<Rightarrow> jsval \<Rightarrow> jsval" where
  "read_date new_date v = (case new_date v of None \<Rightarrow> JNull | Some (iso_text, disp) \<Rightarrow> JDate iso_text disp)"

section \<open>The helper of PostgreSQL\<close>

text \<open>The helper has a parser of its own, which agrees with the provider's.\<close>

definition pgArrayParse :: "string \<Rightarrow> string list" where
  "pgArrayParse literal =
     (if literal = [] \<or> literal = ''{}'' then []
      else let content = trim literal;
               content = (if starts_with ''{'' content \<and> ends_with ''}'' content then butlast (tl content) else content)
        in if content = [] then [] else parse_elements [] [] False False content)"

lemma pgArrayParse_eq: "pgArrayParse = parsePostgresArray"
  by (simp add: fun_eq_iff pgArrayParse_def parsePostgresArray_def strip_braces_def Let_def)

definition pg_castToDatetime :: "date_constructor \<Rightarrow> jsval \<Rightarrow> jsval" where
  "pg_castToDatetime new_date v = (case v of
      JDate _ _ \<Rightarrow> v
    | JStr _ \<Rightarrow> read_date new_date v | JInt _ \<Rightarrow> read_date new_date v | JFrac _ \<Rightarrow> read_date new_date v
    | _ \<Rightarrow> JNull)"

definition pg_castToNumericArray :: "jsval \<Rightarrow> jsval list" where
  "pg_castToNumericArray v = (case v of
      JArr vs \<Rightarrow> map (\<lambda>x. case x of
          JNull \<Rightarrow> JNull | JUndef \<Rightarrow> JNull | JInt _ \<Rightarrow> x | JFrac _ \<Rightarrow> x | JNonFin _ \<Rightarrow> x
        | _ \<Rightarrow> float_or_null (js_string x)) vs
    | JStr s \<Rightarrow> map (\<lambda>x. if x = ''NULL'' \<or> x = [] then JNull else float_or_null x) (pgArrayParse s)
    | _ \<Rightarrow> [])"

definition pg_castToDatetimeArray :: "date_constructor \<Rightarrow> jsval \<Rightarrow> jsval list" where
  "pg_castToDatetimeArray new_date v = (case v of
      JArr vs \<Rightarrow> map (pg_castToDatetime new_date) vs
    | JStr s \<Rightarrow> map (\<lambda>x. pg_castToDatetime new_date (JStr x)) (pgArrayParse s)
    | _ \<Rightarrow> [])"

definition pg_castToJson :: "jsval \<Rightarrow> jsval" where
  "pg_castToJson v = (if nullish v then JNull else v)"

section \<open>The helper of MySQL\<close>

definition mysql_castToDatetime :: "date_constructor \<Rightarrow> jsval \<Rightarrow> jsval" where
  "mysql_castToDatetime new_date v = (case v of
      JDate _ _ \<Rightarrow> v
    | JStr _ \<Rightarrow> read_date new_date v | JInt _ \<Rightarrow> read_date new_date v | JFrac _ \<Rightarrow> read_date new_date v
    | _ \<Rightarrow> JNull)"

definition mysql_castToBoolean :: "jsval \<Rightarrow> jsval" where
  "mysql_castToBoolean v = (case v of
      JBool b \<Rightarrow> v
    | JInt i \<Rightarrow> JBool (i \<noteq> 0) | JFrac _ \<Rightarrow> JBool True | JNonFin _ \<Rightarrow> JBool True
    | JStr s \<Rightarrow> (let l = map lower s in if l \<in> {''true'', ''1''} then JBool True
        else if l \<in> {''false'', ''0''} then JBool False else JNull)
    | _ \<Rightarrow> JNull)"

definition mysql_castToIntegerArray :: "jsval \<Rightarrow> jsval list" where
  "mysql_castToIntegerArray v = (case v of
      JArr vs \<Rightarrow> map (\<lambda>x. int_or_zero (js_string x)) vs
    | JStr s \<Rightarrow> (case parse_json s of Some (JArr vs) \<Rightarrow> map (\<lambda>x. int_or_zero (js_string x)) vs | _ \<Rightarrow> [])
    | _ \<Rightarrow> [])"

definition mysql_castToStringArray :: "jsval \<Rightarrow> jsval list" where
  "mysql_castToStringArray v = (case v of
      JArr vs \<Rightarrow> map (\<lambda>x. JStr (js_string x)) vs
    | JStr s \<Rightarrow> (case parse_json s of Some (JArr vs) \<Rightarrow> map (\<lambda>x. JStr (js_string x)) vs | _ \<Rightarrow> [])
    | _ \<Rightarrow> [])"

definition mysql_castToJson :: "jsval \<Rightarrow> jsval" where
  "mysql_castToJson v = (if nullish v then JNull else v)"

section \<open>The helper of SQLite\<close>

definition sqlite_castToDatetime :: "date_constructor \<Rightarrow> jsval \<Rightarrow> jsval" where
  "sqlite_castToDatetime new_date v = (case v of
      JDate _ _ \<Rightarrow> v
    | JStr _ \<Rightarrow> read_date new_date v | JInt _ \<Rightarrow> read_date new_date v | JFrac _ \<Rightarrow> read_date new_date v
    | _ \<Rightarrow> JNull)"

definition sqlite_castToBoolean :: "jsval \<Rightarrow> jsval" where
  "sqlite_castToBoolean v = (case v of
      JBool b \<Rightarrow> v
    | JInt i \<Rightarrow> JBool (i \<noteq> 0) | JFrac _ \<Rightarrow> JBool True | JNonFin _ \<Rightarrow> JBool True
    | JStr s \<Rightarrow> (let l = map lower s in if l \<in> {''true'', ''1''} then JBool True
        else if l \<in> {''false'', ''0''} then JBool False else JNull)
    | _ \<Rightarrow> JNull)"

definition sqlite_castToIntegerArray :: "jsval \<Rightarrow> jsval list" where
  "sqlite_castToIntegerArray v = (case v of
      JArr vs \<Rightarrow> map (\<lambda>x. int_or_zero (js_string x)) vs
    | JStr s \<Rightarrow> (case parse_json s of Some (JArr vs) \<Rightarrow> map (\<lambda>x. int_or_zero (js_string x)) vs | _ \<Rightarrow> [])
    | _ \<Rightarrow> [])"

definition sqlite_castToStringArray :: "jsval \<Rightarrow> jsval list" where
  "sqlite_castToStringArray v = (case v of
      JArr vs \<Rightarrow> map (\<lambda>x. JStr (js_string x)) vs
    | JStr s \<Rightarrow> (case parse_json s of Some (JArr vs) \<Rightarrow> map (\<lambda>x. JStr (js_string x)) vs | _ \<Rightarrow> [])
    | _ \<Rightarrow> [])"

text \<open>An object or number is kept, a text decoded, a boolean or \<open>bigint\<close> dropped.\<close>

definition sqlite_castToJson :: "jsval \<Rightarrow> jsval" where
  "sqlite_castToJson v = (case v of
      JUndef \<Rightarrow> JNull | JNull \<Rightarrow> JNull
    | JStr s \<Rightarrow> (case parse_json s of Some w \<Rightarrow> w | None \<Rightarrow> JNull)
    | JBool _ \<Rightarrow> JNull | JBig _ \<Rightarrow> JNull
    | _ \<Rightarrow> v)"

section \<open>The default\<close>

definition default_castToDatetime :: "date_constructor \<Rightarrow> jsval \<Rightarrow> jsval" where
  "default_castToDatetime new_date v = (case v of
      JDate _ _ \<Rightarrow> v
    | JStr _ \<Rightarrow> read_date new_date v | JInt _ \<Rightarrow> read_date new_date v | JFrac _ \<Rightarrow> read_date new_date v
    | _ \<Rightarrow> JNull)"

definition default_castToBoolean :: "jsval \<Rightarrow> jsval" where
  "default_castToBoolean v = (case v of
      JBool b \<Rightarrow> v
    | JInt i \<Rightarrow> JBool (i \<noteq> 0) | JFrac _ \<Rightarrow> JBool True | JNonFin _ \<Rightarrow> JBool True
    | JStr s \<Rightarrow> (let l = map lower s in if l \<in> {''true'', ''t'', ''1''} then JBool True
        else if l \<in> {''false'', ''f'', ''0''} then JBool False else JNull)
    | _ \<Rightarrow> JNull)"

text \<open>The text of an array: JSON first, the literal of PostgreSQL only when it is not JSON at all.\<close>

definition default_castToIntegerArray :: "jsval \<Rightarrow> jsval list" where
  "default_castToIntegerArray v = (case v of
      JArr vs \<Rightarrow> map (\<lambda>x. int_or_zero (js_string x)) vs
    | JStr s \<Rightarrow> (case parse_json s of
        Some (JArr vs) \<Rightarrow> map (\<lambda>x. int_or_zero (js_string x)) vs
      | Some _ \<Rightarrow> []
      | None \<Rightarrow> map int_or_zero (parsePostgresArray s))
    | _ \<Rightarrow> [])"

definition default_castToNumericArray :: "jsval \<Rightarrow> jsval list" where
  "default_castToNumericArray v = (case v of
      JArr vs \<Rightarrow> map (\<lambda>x. if nullish x then JNull else float_or_null (js_string x)) vs
    | JStr s \<Rightarrow> (case parse_json s of
        Some (JArr vs) \<Rightarrow> map (\<lambda>x. if x = JNull then JNull else float_or_null (js_string x)) vs
      | Some _ \<Rightarrow> []
      | None \<Rightarrow> map (\<lambda>x. if x = ''NULL'' \<or> x = [] then JNull else float_or_null x) (parsePostgresArray s))
    | _ \<Rightarrow> [])"

definition default_castToStringArray :: "jsval \<Rightarrow> jsval list" where
  "default_castToStringArray v = (case v of
      JArr vs \<Rightarrow> map (\<lambda>x. JStr (js_string x)) vs
    | JStr s \<Rightarrow> (case parse_json s of
        Some (JArr vs) \<Rightarrow> map (\<lambda>x. JStr (js_string x)) vs
      | Some _ \<Rightarrow> []
      | None \<Rightarrow> map JStr (parsePostgresArray s))
    | _ \<Rightarrow> [])"

definition default_castToBooleanArray :: "jsval \<Rightarrow> jsval list" where
  "default_castToBooleanArray v = (case v of
      JArr vs \<Rightarrow> map default_castToBoolean vs
    | JStr s \<Rightarrow> (case parse_json s of
        Some (JArr vs) \<Rightarrow> map default_castToBoolean vs
      | Some _ \<Rightarrow> []
      | None \<Rightarrow> map (\<lambda>x. default_castToBoolean (JStr x)) (parsePostgresArray s))
    | _ \<Rightarrow> [])"

definition default_castToDatetimeArray :: "date_constructor \<Rightarrow> jsval \<Rightarrow> jsval list" where
  "default_castToDatetimeArray new_date v = (case v of
      JArr vs \<Rightarrow> map (default_castToDatetime new_date) vs
    | JStr s \<Rightarrow> (case parse_json s of
        Some (JArr vs) \<Rightarrow> map (default_castToDatetime new_date) vs
      | Some _ \<Rightarrow> []
      | None \<Rightarrow> map (\<lambda>x. default_castToDatetime new_date (JStr x)) (parsePostgresArray s))
    | _ \<Rightarrow> [])"

definition default_castToJson :: "jsval \<Rightarrow> jsval" where
  "default_castToJson v = (case v of
      JUndef \<Rightarrow> JNull | JNull \<Rightarrow> JNull
    | JStr s \<Rightarrow> (case parse_json s of Some w \<Rightarrow> w | None \<Rightarrow> JNull)
    | _ \<Rightarrow> v)"

section \<open>The provider\<close>

record type_casts =
  tc_datetime :: "jsval \<Rightarrow> jsval"
  tc_boolean :: "jsval \<Rightarrow> jsval"
  tc_integers :: "jsval \<Rightarrow> jsval list"
  tc_numerics :: "jsval \<Rightarrow> jsval list"
  tc_strings :: "jsval \<Rightarrow> jsval list"
  tc_booleans :: "jsval \<Rightarrow> jsval list"
  tc_datetimes :: "jsval \<Rightarrow> jsval list"
  tc_json :: "jsval \<Rightarrow> jsval"

definition defaultTypeCast :: "date_constructor \<Rightarrow> type_casts" where
  "defaultTypeCast new_date = \<lparr>tc_datetime = default_castToDatetime new_date, tc_boolean = default_castToBoolean,
     tc_integers = default_castToIntegerArray, tc_numerics = default_castToNumericArray, tc_strings = default_castToStringArray,
     tc_booleans = default_castToBooleanArray, tc_datetimes = default_castToDatetimeArray new_date, tc_json = default_castToJson\<rparr>"

definition getTypeCastForDriver :: "date_constructor \<Rightarrow> dialect \<Rightarrow> type_casts" where
  "getTypeCastForDriver new_date d = (case d of
      Sqlite \<Rightarrow> \<lparr>tc_datetime = sqlite_castToDatetime new_date, tc_boolean = sqlite_castToBoolean,
        tc_integers = sqlite_castToIntegerArray, tc_numerics = sqlite_castToIntegerArray, tc_strings = sqlite_castToStringArray,
        tc_booleans = (\<lambda>v. map sqlite_castToBoolean (sqlite_castToStringArray v)),
        tc_datetimes = (\<lambda>v. map (sqlite_castToDatetime new_date) (sqlite_castToStringArray v)), tc_json = sqlite_castToJson\<rparr>
    | Mysql \<Rightarrow> \<lparr>tc_datetime = mysql_castToDatetime new_date, tc_boolean = mysql_castToBoolean,
        tc_integers = mysql_castToIntegerArray, tc_numerics = mysql_castToIntegerArray, tc_strings = mysql_castToStringArray,
        tc_booleans = (\<lambda>v. map mysql_castToBoolean (mysql_castToStringArray v)),
        tc_datetimes = (\<lambda>v. map (mysql_castToDatetime new_date) (mysql_castToStringArray v)), tc_json = mysql_castToJson\<rparr>
    | Postgres \<Rightarrow> \<lparr>tc_datetime = pg_castToDatetime new_date, tc_boolean = castToBoolean,
        tc_integers = castToIntegerArray, tc_numerics = pg_castToNumericArray, tc_strings = castToStringArray,
        tc_booleans = castToBooleanArray, tc_datetimes = pg_castToDatetimeArray new_date, tc_json = pg_castToJson\<rparr>)"

section \<open>Families that read through the provider\<close>

definition numericArray_family :: "type_casts \<Rightarrow> family" where
  "numericArray_family tc = \<lparr>fam_cast = Some (array_cell (tc_numerics tc)), fam_serialize = Some serializeArray, fam_sqlCast = ''numeric[]'', fam_base = None\<rparr>"

text \<open>The serializer of a datetime array does not look at the driver.\<close>

definition serializeDatetimeArray :: serializer where
  "serializeDatetimeArray v tc = (case v of
      JNull \<Rightarrow> Inr JNull
    | JUndef \<Rightarrow> Inr JNull
    | JArr vs \<Rightarrow> Inr (JStr (CHR ''{'' # join '','' (map (\<lambda>x. case x of
        JNull \<Rightarrow> ''NULL'' | JDate iso_text _ \<Rightarrow> iso_text | _ \<Rightarrow> js_string x) vs) @ ''}''))
    | _ \<Rightarrow> Inr v)"

definition datetimeArray_family :: "type_casts \<Rightarrow> family" where
  "datetimeArray_family tc = \<lparr>fam_cast = Some (\<lambda>v. if nullish v then Inr v else
       bind_r (map_r (\<lambda>d. if d = JNull then Inr JNull else materializeCell d MDate) (tc_datetimes tc v)) (\<lambda>ds. Inr (JArr ds))),
     fam_serialize = Some serializeDatetimeArray, fam_sqlCast = [], fam_base = None\<rparr>"

definition json_family :: "type_casts \<Rightarrow> family" where
  "json_family tc = \<lparr>fam_cast = Some (\<lambda>v. Inr (if nullish v then v else tc_json tc v)), fam_serialize = Some serializeJson,
     fam_sqlCast = ''jsonb'', fam_base = None\<rparr>"

section \<open>What was stored reads back\<close>

definition opt_bool :: "bool option \<Rightarrow> jsval" where
  "opt_bool b = (case b of None \<Rightarrow> JNull | Some x \<Rightarrow> JBool x)"

lemma plain_no_bigint: "json_plain v \<Longrightarrow> \<not> has_bigint v"
  by (induction v rule: json_plain.induct) auto

lemma stringify_plain: "json_plain v \<Longrightarrow> json_stringify v = Inr (JStr (json_text Postgres v))"
  by (simp add: json_stringify_def plain_no_bigint)

lemma int_or_zero_show: "int_or_zero (show_int i) = JInt i"
proof -
  have digits: "takeWhile is_digit (show_nat n) = show_nat n" for n
    using show_nat_all_digits [of n] by (simp add: list_all_iff)
  have h: "\<exists>c r. show_nat n = c # r \<and> c \<noteq> CHR ''-'' \<and> c \<noteq> CHR ''+'' \<and> \<not> is_space c" for n
    using show_nat_all_digits [of n] by (cases "show_nat n") (auto simp: is_digit_def is_space_def)
  have minus: "\<not> is_space (CHR ''-'')" by (simp add: is_space_def)
  show ?thesis
  proof (cases "i < 0")
    case True
    then have "js_parseInt (show_int i) = Some (- parse_nat (show_nat (nat (- i))))"
      using minus by (simp add: js_parseInt_def show_int_def Let_def digits)
    then show ?thesis using True by (simp add: int_or_zero_def parse_show_nat)
  next
    case False
    obtain c r where c: "show_nat (nat i) = c # r" "c \<noteq> CHR ''-''" "c \<noteq> CHR ''+''" "\<not> is_space c"
      using h [of "nat i"] by blast
    then have "js_parseInt (show_int i) = Some (parse_nat (show_nat (nat i)))"
      using digits [of "nat i"] False by (simp add: js_parseInt_def show_int_def Let_def)
    then show ?thesis using False by (simp add: int_or_zero_def parse_show_nat)
  qed
qed

lemma read_opt_bool:
  "mysql_castToBoolean (JStr (js_string (opt_bool b))) = opt_bool b"
  "sqlite_castToBoolean (JStr (js_string (opt_bool b))) = opt_bool b"
proof -
  have "map lower ''true'' = ''true''" "map lower ''false'' = ''false''" "map lower ''null'' = ''null''" by code_simp+
  then show "mysql_castToBoolean (JStr (js_string (opt_bool b))) = opt_bool b"
    and "sqlite_castToBoolean (JStr (js_string (opt_bool b))) = opt_bool b"
    by (cases b; simp add: opt_bool_def mysql_castToBoolean_def sqlite_castToBoolean_def)+
qed

lemmas driver_cast_defs = getTypeCastForDriver_def mysql_castToStringArray_def sqlite_castToStringArray_def
  mysql_castToIntegerArray_def sqlite_castToIntegerArray_def

lemma json_array_reads_back:
  assumes "json_plain (JArr vs)" "d \<noteq> Postgres"
  shows "tc_strings (getTypeCastForDriver nd d) (JStr (json_text Postgres (JArr vs))) = map (\<lambda>x. JStr (js_string x)) vs"
    and "tc_integers (getTypeCastForDriver nd d) (JStr (json_text Postgres (JArr vs))) = map (\<lambda>x. int_or_zero (js_string x)) vs"
    and "tc_booleans (getTypeCastForDriver nd d) (JStr (json_text Postgres (JArr vs)))
      = map (\<lambda>x. (if d = Mysql then mysql_castToBoolean else sqlite_castToBoolean) (JStr (js_string x))) vs"
  using parse_json_text [OF assms(1)] assms(2)
  by (cases d; simp add: driver_cast_defs comp_def del: json_text.simps)+

text \<open>
  C37. What was stored reads back.  On MySQL and SQLite, where an array is stored as the text of its JSON, the
  casts of the driver give back the strings, the integers and the booleans with their nulls that the
  serializers stored; on SQLite a JSON column gives back its value, whatever its nesting.
\<close>

theorem stored_values_read_back:
  assumes "d \<noteq> Postgres" "json_plain v" "v \<noteq> JNull"
  shows "\<exists>s i b j.
    serializeArray (JArr (map JStr ss)) (Some d) = Inr s \<and> tc_strings (getTypeCastForDriver nd d) s = map JStr ss
    \<and> serializeArray (JArr (map JInt ns)) (Some d) = Inr i \<and> tc_integers (getTypeCastForDriver nd d) i = map JInt ns
    \<and> serializeBooleanArray (JArr (map opt_bool bs)) (Some d) = Inr b
    \<and> tc_booleans (getTypeCastForDriver nd d) b = map opt_bool bs
    \<and> serializeJson v (Some Sqlite) = Inr j \<and> tc_json (getTypeCastForDriver nd Sqlite) j = v"
proof -
  have plain: "json_plain (JArr (map JStr ss))" "json_plain (JArr (map JInt ns))" "json_plain (JArr (map opt_bool bs))"
    by (auto simp: opt_bool_def split: option.splits)
  have array: "serializeArray (JArr vs) (Some d) = json_stringify (JArr vs)"
    and bools: "serializeBooleanArray (JArr vs) (Some d) = json_stringify (JArr vs)" for vs
    using assms(1) by (cases d; simp add: serializeArray_def serializeBooleanArray_def)+
  have json: "serializeJson v (Some Sqlite) = json_stringify v"
    using assms(2,3) by (cases v) (simp_all add: serializeJson_def)
  have read_json: "tc_json (getTypeCastForDriver nd Sqlite) (JStr (json_text Postgres v)) = v"
    using parse_json_text [OF assms(2)] by (simp add: getTypeCastForDriver_def sqlite_castToJson_def)
  have ss: "tc_strings (getTypeCastForDriver nd d) (JStr (json_text Postgres (JArr (map JStr ss)))) = map JStr ss"
    unfolding json_array_reads_back(1) [OF plain(1) assms(1)] by simp
  have ns: "tc_integers (getTypeCastForDriver nd d) (JStr (json_text Postgres (JArr (map JInt ns)))) = map JInt ns"
    unfolding json_array_reads_back(2) [OF plain(2) assms(1)] by (simp add: int_or_zero_show)
  have bs: "tc_booleans (getTypeCastForDriver nd d) (JStr (json_text Postgres (JArr (map opt_bool bs)))) = map opt_bool bs"
    unfolding json_array_reads_back(3) [OF plain(3) assms(1)] by (simp add: read_opt_bool)
  show ?thesis
    unfolding array bools json stringify_plain [OF plain(1)] stringify_plain [OF plain(2)] stringify_plain [OF plain(3)]
      stringify_plain [OF assms(2)]
    using ss ns bs read_json by blast
qed

lemma stored_values_read_back_witness:
  "json_text Postgres (JArr (map JStr [''a,b'', CHR 0x22 # ''c''])) = ''['' @ CHR 0x22 # ''a,b'' @ CHR 0x22 # '','' @ CHR 0x22 # CHR 0x5C # CHR 0x22 # ''c'' @ [CHR 0x22, CHR '']'']
    \<and> (\<exists>s. serializeArray (JArr (map JStr [''a,b'', CHR 0x22 # ''c''])) (Some Mysql) = Inr s
      \<and> tc_strings (getTypeCastForDriver (\<lambda>_. None) Mysql) s = map JStr [''a,b'', CHR 0x22 # ''c''])"
  using stored_values_read_back [of Mysql "JObj [(''a'', JArr [JInt (-1), JNull])]" "[''a,b'', CHR 0x22 # ''c'']" "\<lambda>_. None" "[1, -20]" "[Some True, None]"]
  by (simp add: json_string_def json_char_def, blast)

section \<open>What does not\<close>

text \<open>
  A numeric array keeps neither its fractions nor its nulls on MySQL and SQLite, whose casts read it as
  integers; PostgreSQL's and the default keep both.
\<close>

lemma numeric_arrays_are_truncated:
  "tc_numerics (getTypeCastForDriver nd Mysql) (JStr ''[1.5,null]'') = [JInt 1, JInt 0]"
  "tc_numerics (getTypeCastForDriver nd Sqlite) (JStr ''[1.5,null]'') = [JInt 1, JInt 0]"
  "tc_numerics (getTypeCastForDriver nd Postgres) (JStr ''{1.5,NULL}'') = [JFrac ''1.5'', JNull]"
  "tc_numerics (defaultTypeCast nd) (JStr ''[1.5,null]'') = [JFrac ''1.5'', JNull]"
proof -
  have "mysql_castToIntegerArray (JStr ''[1.5,null]'') = [JInt 1, JInt 0]"
    "sqlite_castToIntegerArray (JStr ''[1.5,null]'') = [JInt 1, JInt 0]"
    "pg_castToNumericArray (JStr ''{1.5,NULL}'') = [JFrac ''1.5'', JNull]"
    "default_castToNumericArray (JStr ''[1.5,null]'') = [JFrac ''1.5'', JNull]" by code_simp+
  then show "tc_numerics (getTypeCastForDriver nd Mysql) (JStr ''[1.5,null]'') = [JInt 1, JInt 0]"
    "tc_numerics (getTypeCastForDriver nd Sqlite) (JStr ''[1.5,null]'') = [JInt 1, JInt 0]"
    "tc_numerics (getTypeCastForDriver nd Postgres) (JStr ''{1.5,NULL}'') = [JFrac ''1.5'', JNull]"
    "tc_numerics (defaultTypeCast nd) (JStr ''[1.5,null]'') = [JFrac ''1.5'', JNull]"
    by (simp_all add: getTypeCastForDriver_def defaultTypeCast_def)
qed

text \<open>
  Whatever a datetime array holds, MySQL and SQLite read it back as the empty array: the serializer writes
  PostgreSQL's literal on every driver, which is never a JSON array.
\<close>

lemma datetime_arrays_are_lost:
  assumes "d \<noteq> Postgres"
  shows "\<exists>s. serializeDatetimeArray (JArr vs) tc = Inr s \<and> tc_datetimes (getTypeCastForDriver nd d) s = []"
proof -
  obtain t where s: "serializeDatetimeArray (JArr vs) tc = Inr (JStr (CHR ''{'' # t))"
    by (simp add: serializeDatetimeArray_def)
  have "tc_datetimes (getTypeCastForDriver nd d) (JStr (CHR ''{'' # t)) = []"
    using assms parse_json_brace [of t]
    by (cases d; simp add: driver_cast_defs split: option.splits jsval.splits)
  then show ?thesis using s by blast
qed

text \<open>A null in a string array is read as the text \<open>null\<close>.\<close>

lemma null_string_is_read_as_text:
  "mysql_castToStringArray (JStr ''[null]'') = [JStr ''null'']" "sqlite_castToStringArray (JStr ''[null]'') = [JStr ''null'']"
  by code_simp+

end
