(* ===== verification/DbHandler.thy ===== *)
theory DbHandler
  imports DriverCasts
begin

text \<open>
  \<open>src/DBHandler.ts\<close> and the provider of \<open>src/TypeCast.ts\<close>: a handler wraps one driver, goes to a pinned
  connection when it has one, and its constructor installs the casts of its driver for the whole process.
  A driver and a connection are numbers; a driver knows its dialect and whether a writer was configured.
\<close>

section \<open>State\<close>

record driver_object =
  drv_id :: nat
  drv_type :: dialect
  drv_writer :: bool

record db_handler =
  dbh_driver :: driver_object
  dbh_connection :: "nat option"
  dbh_type :: dialect

record handler_config =
  hc_driver :: "dialect option"

record handler_options =
  ho_writerConfig :: bool
  ho_connection :: "nat option"

text \<open>The casts in force, the global handler and its configuration, the drivers created so far and those closed.\<close>

record handler_world =
  currentTypeCast :: type_casts
  globalHandler :: "db_handler option"
  globalConfig :: "handler_config option"
  drivers_made :: nat
  drivers_closed :: "nat list"

text \<open>Where a statement goes: a pinned connection, the driver's retried path (of the writer pool or not), its write path.\<close>

datatype exec_route = OnConnection nat | DriverExecute nat bool | DriverExecuteWrite nat

section \<open>The constructor\<close>

definition config_dialect :: "handler_config \<Rightarrow> dialect" where
  "config_dialect c = (case hc_driver c of None \<Rightarrow> Postgres | Some d \<Rightarrow> d)"

text \<open>SQLite has no writer pool, whatever was configured.\<close>

definition createDriver :: "handler_config \<Rightarrow> handler_options \<Rightarrow> handler_world \<Rightarrow> driver_object \<times> handler_world" where
  "createDriver c opts w =
     (\<lparr>drv_id = drivers_made w, drv_type = config_dialect c, drv_writer = (config_dialect c \<noteq> Sqlite \<and> ho_writerConfig opts)\<rparr>,
      w\<lparr>drivers_made := Suc (drivers_made w)\<rparr>)"

definition setTypeCastImpl :: "type_casts \<Rightarrow> handler_world \<Rightarrow> handler_world" where
  "setTypeCastImpl tc w = w\<lparr>currentTypeCast := tc\<rparr>"

definition resetTypeCastImpl :: "date_constructor \<Rightarrow> handler_world \<Rightarrow> handler_world" where
  "resetTypeCastImpl nd w = w\<lparr>currentTypeCast := defaultTypeCast nd\<rparr>"

definition new_DBHandler :: "date_constructor \<Rightarrow> handler_config \<Rightarrow> handler_options \<Rightarrow> handler_world \<Rightarrow> db_handler \<times> handler_world" where
  "new_DBHandler nd c opts w = (let (drv, w1) = createDriver c opts w in
     (\<lparr>dbh_driver = drv, dbh_connection = ho_connection opts, dbh_type = config_dialect c\<rparr>,
      setTypeCastImpl (getTypeCastForDriver nd (config_dialect c)) w1))"

section \<open>Statements\<close>

definition dbh_execute :: "db_handler \<Rightarrow> exec_route" where
  "dbh_execute h = (case dbh_connection h of Some c \<Rightarrow> OnConnection c | None \<Rightarrow> DriverExecute (drv_id (dbh_driver h)) False)"

definition dbh_executeWrite :: "db_handler \<Rightarrow> exec_route" where
  "dbh_executeWrite h = (case dbh_connection h of Some c \<Rightarrow> OnConnection c | None \<Rightarrow> DriverExecuteWrite (drv_id (dbh_driver h)))"

definition dbh_executeOnWriter :: "db_handler \<Rightarrow> bool \<Rightarrow> exec_route" where
  "dbh_executeOnWriter h reading = (case dbh_connection h of
      Some c \<Rightarrow> OnConnection c
    | None \<Rightarrow> (if reading then DriverExecute (drv_id (dbh_driver h)) True else DriverExecuteWrite (drv_id (dbh_driver h))))"

definition hasWriterPool :: "db_handler \<Rightarrow> bool" where
  "hasWriterPool h = (drv_type (dbh_driver h) \<noteq> Sqlite \<and> drv_writer (dbh_driver h))"

definition withConnection :: "nat \<Rightarrow> db_handler \<Rightarrow> db_handler" where
  "withConnection c h = \<lparr>dbh_driver = dbh_driver h, dbh_connection = Some c, dbh_type = dbh_type h\<rparr>"

definition dbh_close :: "db_handler \<Rightarrow> handler_world \<Rightarrow> handler_world" where
  "dbh_close h w = w\<lparr>drivers_closed := drivers_closed w @ [drv_id (dbh_driver h)]\<rparr>"

definition getPool :: "db_handler \<Rightarrow> scp_error + nat" where
  "getPool h = (if dbh_type h \<noteq> Postgres \<and> dbh_type h \<noteq> Mysql
     then Inl (OtherError ''getPool() is only available for PostgreSQL and MySQL drivers'') else Inr (drv_id (dbh_driver h)))"

section \<open>The global handler\<close>

definition initDBHandler :: "date_constructor \<Rightarrow> handler_config \<Rightarrow> handler_options \<Rightarrow> handler_world \<Rightarrow> db_handler \<times> handler_world" where
  "initDBHandler nd c opts w = (let (h, w1) = new_DBHandler nd c opts (w\<lparr>globalConfig := Some c\<rparr>) in (h, w1\<lparr>globalHandler := Some h\<rparr>))"

definition getDBHandler :: "handler_world \<Rightarrow> scp_error + db_handler" where
  "getDBHandler w = (case globalHandler w of
      None \<Rightarrow> Inl (OtherError ''DBHandler not initialized. Call initDBHandler() first.'') | Some h \<Rightarrow> Inr h)"

definition getDBConfig :: "handler_world \<Rightarrow> handler_config option" where
  "getDBConfig w = globalConfig w"

definition createHandlerWithConnection :: "nat \<Rightarrow> handler_world \<Rightarrow> scp_error + db_handler" where
  "createHandlerWithConnection c w = (case globalHandler w of
      None \<Rightarrow> Inl (OtherError ''DBHandler not initialized. Call initDBHandler() first.'') | Some h \<Rightarrow> Inr (withConnection c h))"

text \<open>
  \<open>closeAllPools\<close> closes the driver of the global handler and forgets the handler; \<open>close_rest\<close> is what the
  registries of the drivers and of the routed pools close besides.
\<close>

definition closeAllPools :: "(handler_world \<Rightarrow> nat list) \<Rightarrow> handler_world \<Rightarrow> handler_world" where
  "closeAllPools close_rest w =
     (let w1 = (case globalHandler w of None \<Rightarrow> w | Some h \<Rightarrow> (dbh_close h w)\<lparr>globalHandler := None\<rparr>)
      in w1\<lparr>drivers_closed := drivers_closed w1 @ close_rest w1\<rparr>)"

section \<open>A process\<close>

text \<open>What a process does to the handlers, one operation after another.\<close>

datatype handler_op =
    NewHandler handler_config handler_options
  | InitHandler handler_config handler_options
  | PinHandler nat
  | ResetCasts
  | CloseAll

fun run_op :: "date_constructor \<Rightarrow> handler_op \<Rightarrow> handler_world \<Rightarrow> handler_world" where
  "run_op nd (NewHandler c opts) w = snd (new_DBHandler nd c opts w)"
| "run_op nd (InitHandler c opts) w = snd (initDBHandler nd c opts w)"
| "run_op nd (PinHandler c) w = (case createHandlerWithConnection c w of Inl _ \<Rightarrow> w | Inr _ \<Rightarrow> w)"
| "run_op nd ResetCasts w = resetTypeCastImpl nd w"
| "run_op nd CloseAll w = closeAllPools (\<lambda>_. []) w"

definition fresh_process :: "date_constructor \<Rightarrow> handler_world" where
  "fresh_process nd = \<lparr>currentTypeCast = defaultTypeCast nd, globalHandler = None, globalConfig = None, drivers_made = 0, drivers_closed = []\<rparr>"

definition run_ops :: "date_constructor \<Rightarrow> handler_op list \<Rightarrow> handler_world" where
  "run_ops nd ops = fold (run_op nd) ops (fresh_process nd)"

text \<open>The dialect an operation installs the casts of: \<open>Some None\<close> is the default.\<close>

fun installs :: "handler_op \<Rightarrow> dialect option option" where
  "installs (NewHandler c opts) = Some (Some (config_dialect c))"
| "installs (InitHandler c opts) = Some (Some (config_dialect c))"
| "installs ResetCasts = Some None"
| "installs (PinHandler c) = None"
| "installs CloseAll = None"

definition casts_of :: "date_constructor \<Rightarrow> dialect option \<Rightarrow> type_casts" where
  "casts_of nd k = (case k of None \<Rightarrow> defaultTypeCast nd | Some d \<Rightarrow> getTypeCastForDriver nd d)"

lemma handler_world_casts [simp]:
  "currentTypeCast (snd (new_DBHandler nd c opts w)) = getTypeCastForDriver nd (config_dialect c)"
  "currentTypeCast (snd (initDBHandler nd c opts w)) = getTypeCastForDriver nd (config_dialect c)"
  "currentTypeCast (resetTypeCastImpl nd w) = defaultTypeCast nd"
  "currentTypeCast (closeAllPools close_rest w) = currentTypeCast w"
  by (simp_all add: new_DBHandler_def initDBHandler_def createDriver_def setTypeCastImpl_def resetTypeCastImpl_def closeAllPools_def
      dbh_close_def Let_def split: option.splits)

lemma run_op_casts:
  "currentTypeCast (run_op nd oper w) = (case installs oper of None \<Rightarrow> currentTypeCast w | Some k \<Rightarrow> casts_of nd k)"
  by (cases oper) (simp_all add: casts_of_def split: sum.splits)

lemma run_ops_casts:
  "currentTypeCast (fold (run_op nd) ops w) = (case List.map_filter installs (rev ops) of [] \<Rightarrow> currentTypeCast w | k # _ \<Rightarrow> casts_of nd k)"
proof (induction ops rule: rev_induct)
  case Nil
  then show ?case by (simp add: List.map_filter_def)
next
  case (snoc oper ops)
  then show ?case by (simp add: run_op_casts List.map_filter_def split: option.splits)
qed


definition sqlite_config :: handler_config where "sqlite_config = \<lparr>hc_driver = Some Sqlite\<rparr>"
definition plain_options :: handler_options where "plain_options = \<lparr>ho_writerConfig = False, ho_connection = None\<rparr>"


text \<open>
  With a second handler of another dialect, the rows of the first are read with the casts of the second: a
  SQLite array becomes one text with brackets.
\<close>

lemma second_dialect_misreads:
  "tc_strings (currentTypeCast (run_ops nd [NewHandler sqlite_config plain_options, NewHandler \<lparr>hc_driver = None\<rparr> plain_options]))
     (JStr (json_text Postgres (JArr [JStr ''a'', JStr ''b'']))) = [JStr ''[a'', JStr ''b]'']"
proof -
  have "castToStringArray (JStr (json_text Postgres (JArr [JStr ''a'', JStr ''b'']))) = [JStr ''[a'', JStr ''b]'']" by code_simp
  then show ?thesis by (simp add: run_ops_def config_dialect_def getTypeCastForDriver_def)
qed

text \<open>A handler with a pinned connection sends every statement to it, and is otherwise the handler it was made from.\<close>

lemma pinned_handler_stays:
  assumes "createHandlerWithConnection c w = Inr h"
  shows "dbh_execute h = OnConnection c" "dbh_executeWrite h = OnConnection c" "dbh_executeOnWriter h reading = OnConnection c"
    and "\<exists>g. globalHandler w = Some g \<and> dbh_type h = dbh_type g \<and> dbh_driver h = dbh_driver g"
  using assms
  by (auto simp: createHandlerWithConnection_def withConnection_def dbh_execute_def dbh_executeWrite_def dbh_executeOnWriter_def split: option.splits)

text \<open>A write never takes the path that is retried.\<close>

lemma writes_are_not_retried:
  "dbh_executeWrite h \<noteq> DriverExecute n b" "dbh_executeOnWriter h False \<noteq> DriverExecute n b"
  by (simp_all add: dbh_executeWrite_def dbh_executeOnWriter_def split: option.splits)

end
