(* ===== verification/DriverLiterals.thy ===== *)
theory DriverLiterals
  imports JsonParse
begin

text \<open>
  The values that the helpers of the drivers write as SQL text (\<open>drivers/PostgresHelper.ts\<close>,
  \<open>drivers/MysqlHelper.ts\<close>, \<open>drivers/SqliteHelper.ts\<close>): the constants, the array and JSON literals and the
  times; the casts of a placeholder; the tables from SQL to TypeScript types.  A list literal of PostgreSQL is
  read back by the scanner of quoted SQL literals.
\<close>

section \<open>Constants and times\<close>

definition pg_Now :: token where "pg_Now = DBImmediateValue ''NOW()''"
definition pg_Null :: token where "pg_Null = DBImmediateValue ''NULL''"
definition pg_True :: token where "pg_True = DBImmediateValue ''TRUE''"
definition pg_False :: token where "pg_False = DBImmediateValue ''FALSE''"
definition mysql_Now :: token where "mysql_Now = DBImmediateValue ''NOW()''"
definition mysql_Null :: token where "mysql_Null = DBImmediateValue ''NULL''"
definition mysql_True :: token where "mysql_True = DBImmediateValue ''TRUE''"
definition mysql_False :: token where "mysql_False = DBImmediateValue ''FALSE''"
definition sqlite_Now :: token where "sqlite_Now = DBImmediateValue (''datetime('' @ squoted ''now'' @ '')'')"
definition sqlite_Null :: token where "sqlite_Null = DBImmediateValue ''NULL''"
definition sqlite_True :: token where "sqlite_True = DBImmediateValue ''1''"
definition sqlite_False :: token where "sqlite_False = DBImmediateValue ''0''"

definition pg_TimeAfter :: "jsval \<Rightarrow> string \<Rightarrow> token" where
  "pg_TimeAfter v interval = DBImmediateValue (''NOW() + INTERVAL '' @ squoted (js_string v @ '' '' @ interval))"

definition pg_DayAfter :: "jsval \<Rightarrow> string option \<Rightarrow> token" where
  "pg_DayAfter v interval = DBImmediateValue (''NOW() + INTERVAL '' @ squoted (js_string v @ '' '' @ (case interval of None \<Rightarrow> ''day'' | Some i \<Rightarrow> i)))"

definition mysql_TimeAfter :: "jsval \<Rightarrow> string \<Rightarrow> token" where
  "mysql_TimeAfter v interval = DBImmediateValue (''DATE_ADD(NOW(), INTERVAL '' @ js_string v @ '' '' @ interval @ '')'')"

definition mysql_DayAfter :: "jsval \<Rightarrow> token" where
  "mysql_DayAfter v = DBImmediateValue (''DATE_ADD(CURDATE(), INTERVAL '' @ js_string v @ '' DAY)'')"

definition sqlite_TimeAfter :: "jsval \<Rightarrow> string \<Rightarrow> token" where
  "sqlite_TimeAfter v interval = DBImmediateValue (''datetime('' @ squoted ''now'' @ '', '' @ squoted (''+'' @ js_string v @ '' '' @ interval) @ '')'')"

definition sqlite_DayAfter :: "jsval \<Rightarrow> token" where
  "sqlite_DayAfter v = DBImmediateValue (''date('' @ squoted ''now'' @ '', '' @ squoted (''+'' @ js_string v @ '' days'') @ '')'')"

definition pg_empty2null :: "jsval \<Rightarrow> jsval" where
  "pg_empty2null v = (if v = JStr [] \<or> v = JUndef then JTok (DBImmediateValue ''NULL'') else v)"

definition mysql_empty2null :: "jsval \<Rightarrow> jsval" where
  "mysql_empty2null v = (if v = JStr [] \<or> v = JUndef then JTok (DBImmediateValue ''NULL'') else v)"

definition sqlite_empty2null :: "jsval \<Rightarrow> jsval" where
  "sqlite_empty2null v = (if v = JStr [] \<or> v = JUndef then JTok (DBImmediateValue ''NULL'') else v)"

section \<open>Array and JSON literals\<close>

definition array_of :: "string list \<Rightarrow> string \<Rightarrow> string" where
  "array_of es type = ''ARRAY['' @ join '','' es @ '']::'' @ type @ ''[]''"

definition pgIntArray :: "jsval list \<Rightarrow> string \<Rightarrow> token" where
  "pgIntArray vs type = (if vs = [] then DBImmediateValue (''ARRAY[]::'' @ type @ ''[]'')
     else DBImmediateValue (''ARRAY['' @ js_string (JArr vs) @ '']::'' @ type @ ''[]''))"

definition pgNumericArray :: "jsval list \<Rightarrow> string \<Rightarrow> token" where
  "pgNumericArray vs type = (if vs = [] then DBImmediateValue (''ARRAY[]::'' @ type @ ''[]'')
     else DBImmediateValue (array_of (map (\<lambda>v. if v = JNull then ''NULL'' else js_string v) vs) type))"

definition defaultEscape :: "string \<Rightarrow> string" where
  "defaultEscape s = concat (map (\<lambda>c. if c = CHR 0x27 then [CHR 0x27, CHR 0x27] else [c]) s)"

definition pgStringArray :: "string list \<Rightarrow> (string \<Rightarrow> string) option \<Rightarrow> string \<Rightarrow> token" where
  "pgStringArray vs escape type = (if vs = [] then DBImmediateValue (''ARRAY[]::'' @ type @ ''[]'')
     else let escFn = (case escape of None \<Rightarrow> defaultEscape | Some f \<Rightarrow> f)
       in DBImmediateValue (array_of (map (\<lambda>v. squoted (escFn v)) vs) type))"

text \<open>\<open>toISOString\<close> is the first field of a date.\<close>

definition pgDateArray :: "(string \<times> string) list \<Rightarrow> token" where
  "pgDateArray ds = (if ds = [] then DBImmediateValue ''ARRAY[]::TIMESTAMP[]''
     else DBImmediateValue (array_of (map (\<lambda>(iso_text, _). squoted iso_text) ds) ''TIMESTAMP''))"

text \<open>\<open>JSON.stringify\<close> between quotes; the value has no \<open>bigint\<close>.\<close>

definition mysql_json_literal :: "jsval \<Rightarrow> token" where
  "mysql_json_literal v = DBImmediateValue (''CAST('' @ squoted (json_text Postgres v) @ '' AS JSON)'')"

definition mysql_jsonIntArray :: "jsval list \<Rightarrow> token" where "mysql_jsonIntArray vs = mysql_json_literal (JArr vs)"
definition mysql_jsonStringArray :: "string list \<Rightarrow> token" where "mysql_jsonStringArray ss = mysql_json_literal (JArr (map JStr ss))"
definition mysql_jsonObject :: "jsobj \<Rightarrow> token" where "mysql_jsonObject ob = mysql_json_literal (JObj ob)"

definition sqlite_json_literal :: "jsval \<Rightarrow> token" where
  "sqlite_json_literal v = DBImmediateValue (squoted (json_text Postgres v))"

definition sqlite_jsonIntArray :: "jsval list \<Rightarrow> token" where "sqlite_jsonIntArray vs = sqlite_json_literal (JArr vs)"
definition sqlite_jsonStringArray :: "string list \<Rightarrow> token" where "sqlite_jsonStringArray ss = sqlite_json_literal (JArr (map JStr ss))"
definition sqlite_jsonObject :: "jsobj \<Rightarrow> token" where "sqlite_jsonObject ob = sqlite_json_literal (JObj ob)"

section \<open>Casts of placeholders\<close>

definition formatSqlCast :: "dialect \<Rightarrow> string \<Rightarrow> string \<Rightarrow> string" where
  "formatSqlCast d placeholder castTo = (case d of Postgres \<Rightarrow> placeholder @ ''::'' @ castTo | _ \<Rightarrow> placeholder)"

definition needsSqlCast :: "dialect \<Rightarrow> string \<Rightarrow> bool" where
  "needsSqlCast d castTo = (case d of Postgres \<Rightarrow> castTo = ''uuid'' | _ \<Rightarrow> False)"

section \<open>Types\<close>

text \<open>A name that the table lacks is \<open>unknown\<close>, the members every object inherits aside.\<close>

definition PG_TYPE_TO_TS :: "(string \<times> string) list" where
  "PG_TYPE_TO_TS = [(''integer'', ''number''), (''bigint'', ''number''), (''smallint'', ''number''), (''serial'', ''number''),
     (''bigserial'', ''number''), (''numeric'', ''number''), (''decimal'', ''number''), (''real'', ''number''),
     (''double precision'', ''number''), (''text'', ''string''), (''varchar'', ''string''), (''character varying'', ''string''),
     (''char'', ''string''), (''boolean'', ''boolean''), (''timestamp'', ''Date''), (''timestamp with time zone'', ''Date''),
     (''timestamp without time zone'', ''Date''), (''timestamptz'', ''Date''), (''date'', ''Date''), (''time'', ''string''),
     (''uuid'', ''string''), (''jsonb'', ''Record<string, unknown>''), (''json'', ''Record<string, unknown>''),
     (''integer[]'', ''number[]''), (''text[]'', ''string[]''), (''boolean[]'', ''boolean[]'')]"

definition pgTypeToTsType :: "string \<Rightarrow> string" where
  "pgTypeToTsType s = (case map_of PG_TYPE_TO_TS (map lower s) of None \<Rightarrow> ''unknown'' | Some t \<Rightarrow> t)"

definition MYSQL_TYPE_TO_TS :: "(string \<times> string) list" where
  "MYSQL_TYPE_TO_TS = [(''tinyint'', ''number''), (''smallint'', ''number''), (''mediumint'', ''number''), (''int'', ''number''),
     (''integer'', ''number''), (''bigint'', ''number''), (''float'', ''number''), (''double'', ''number''), (''decimal'', ''number''),
     (''numeric'', ''number''), (''char'', ''string''), (''varchar'', ''string''), (''text'', ''string''), (''tinytext'', ''string''),
     (''mediumtext'', ''string''), (''longtext'', ''string''), (''blob'', ''Buffer''), (''tinyblob'', ''Buffer''),
     (''mediumblob'', ''Buffer''), (''longblob'', ''Buffer''), (''binary'', ''Buffer''), (''varbinary'', ''Buffer''),
     (''date'', ''Date''), (''datetime'', ''Date''), (''timestamp'', ''Date''), (''time'', ''string''), (''year'', ''number''),
     (''json'', ''Record<string, unknown>''), (''boolean'', ''boolean''), (''bool'', ''boolean''), (''bit'', ''boolean''),
     (''enum'', ''string''), (''set'', ''string'')]"

text \<open>\<open>s.toLowerCase().split('(')[0].trim()\<close>.\<close>

definition base_type_name :: "string \<Rightarrow> string" where
  "base_type_name s = trim (takeWhile (\<lambda>c. c \<noteq> CHR ''('') (map lower s))"

definition mysqlTypeToTsType :: "string \<Rightarrow> string" where
  "mysqlTypeToTsType s = (if starts_with ''tinyint(1)'' (map lower s) then ''boolean''
     else (case map_of MYSQL_TYPE_TO_TS (base_type_name s) of None \<Rightarrow> ''unknown'' | Some t \<Rightarrow> t))"

definition SQLITE_TYPE_TO_TS :: "(string \<times> string) list" where
  "SQLITE_TYPE_TO_TS = [(''integer'', ''number''), (''int'', ''number''), (''real'', ''number''), (''float'', ''number''), (''double'', ''number''),
     (''text'', ''string''), (''varchar'', ''string''), (''char'', ''string''), (''blob'', ''Buffer''), (''boolean'', ''boolean''),
     (''datetime'', ''Date''), (''date'', ''Date''), (''timestamp'', ''Date''), (''json'', ''Record<string, unknown>'')]"

definition sqliteTypeToTsType :: "string \<Rightarrow> string" where
  "sqliteTypeToTsType s = (case map_of SQLITE_TYPE_TO_TS (base_type_name s) of None \<Rightarrow> ''unknown'' | Some t \<Rightarrow> t)"

lemma type_names:
  "mysqlTypeToTsType ''VARCHAR(255)'' = ''string''" "mysqlTypeToTsType ''TINYINT(1)'' = ''boolean''" "mysqlTypeToTsType ''tinyint(4)'' = ''number''"
  "sqliteTypeToTsType ''VARCHAR (255)'' = ''string''"
  "pgTypeToTsType ''VARCHAR(255)'' = ''unknown''" "pgTypeToTsType ''numeric(10,2)'' = ''unknown''"
  by code_simp+

section \<open>Reading the literals\<close>

text \<open>
  The scanner of a quoted SQL literal, after its opening quote: the text it denotes and what follows the
  closing quote; a doubled quote is one quote of the text.
\<close>

fun read_literal :: "string \<Rightarrow> (string \<times> string) option" where
  "read_literal [] = None"
| "read_literal (c # t) =
     (if c = CHR 0x27 then (case t of
          [] \<Rightarrow> Some ([], [])
        | d # u \<Rightarrow> (if d = CHR 0x27 then map_option (\<lambda>(s, r). (CHR 0x27 # s, r)) (read_literal u) else Some ([], t)))
      else map_option (\<lambda>(s, r). (c # s, r)) (read_literal t))"

text \<open>The literals of a list up to its bracket; every literal consumes a character of the fuel.\<close>

fun read_list :: "nat \<Rightarrow> string \<Rightarrow> (string list \<times> string) option" where
  "read_list 0 s = None"
| "read_list (Suc n) s = (case s of
      q # t \<Rightarrow> (if q \<noteq> CHR 0x27 then None else (case read_literal t of
          Some (v, d # u) \<Rightarrow> (if d = CHR '','' then map_option (\<lambda>(vs, r). (v # vs, r)) (read_list n u)
            else if d = CHR '']'' then Some ([v], u) else None)
        | _ \<Rightarrow> None))
    | [] \<Rightarrow> None)"

lemma defaultEscape_simps [simp]:
  "defaultEscape [] = []" "defaultEscape (c # s) = (if c = CHR 0x27 then [CHR 0x27, CHR 0x27] else [c]) @ defaultEscape s"
  by (simp_all add: defaultEscape_def)

lemma read_escaped: "c \<noteq> CHR 0x27 \<Longrightarrow> read_literal (defaultEscape s @ CHR 0x27 # c # t) = Some (s, c # t)"
  by (induction s) simp_all

lemma read_escaped_list:
  "read_list (length (s # ss)) (join '','' (map (\<lambda>v. squoted (defaultEscape v)) (s # ss)) @ CHR '']'' # t) = Some (s # ss, t)"
proof (induction ss arbitrary: s)
  case Nil
  show ?case by (simp add: squoted_def read_escaped)
next
  case (Cons r ss)
  show ?case using Cons.IH [of r] by (simp add: squoted_def read_escaped)
qed

text \<open>
  Array literals of PostgreSQL are what they were made from.  The text of a non-empty array of strings is
  \<open>ARRAY[\<close>, quoted literals that SQL reads back as exactly the given strings, quotes included, and the type:
  no string ends its literal early.
\<close>

theorem string_array_literals_are_read_back:
  assumes "vs \<noteq> []"
  shows "\<exists>body. pgStringArray vs None type = DBImmediateValue (''ARRAY['' @ body)
    \<and> read_list (length vs) body = Some (vs, ''::'' @ type @ ''[]'')"
proof -
  obtain s ss where vs: "vs = s # ss" using assms by (cases vs) auto
  let ?body = "join '','' (map (\<lambda>v. squoted (defaultEscape v)) (s # ss)) @ CHR '']'' # ''::'' @ type @ ''[]''"
  have "pgStringArray vs None type = DBImmediateValue (''ARRAY['' @ ?body)"
    by (simp add: vs pgStringArray_def array_of_def)
  then show ?thesis using read_escaped_list [of s ss "''::'' @ type @ ''[]''"] vs by blast
qed

lemma string_array_literals_are_read_back_witness:
  "\<exists>body. pgStringArray [''it'' @ [CHR 0x27] @ ''s'', ''b''] None ''TEXT'' = DBImmediateValue (''ARRAY['' @ body)
    \<and> read_list 2 body = Some ([''it'' @ [CHR 0x27] @ ''s'', ''b''], ''::TEXT[]'')"
  using string_array_literals_are_read_back [of "[''it'' @ [CHR 0x27] @ ''s'', ''b'']" "''TEXT''"]
  by (simp add: numeral_2_eq_2 del: read_list.simps)

text \<open>
  The JSON literals of MySQL and SQLite do not double the quote: a string with a quote ends the literal, and
  what follows it is SQL.
\<close>

lemma json_literals_are_not_escaped:
  "\<exists>body. sqlite_jsonStringArray [''a'' @ [CHR 0x27] @ '' OR 1=1 --''] = DBImmediateValue (CHR 0x27 # body)
    \<and> read_literal body = Some (''['' @ CHR 0x22 # ''a'', '' OR 1=1 --'' @ [CHR 0x22, CHR '']'', CHR 0x27])"
  by (simp add: sqlite_jsonStringArray_def sqlite_json_literal_def squoted_def json_string_def json_char_def)

end
