(* ===== verification/Fragments.thy ===== *)
theory Fragments
  imports RelationLoads JsonParse
begin

text \<open>
  The fragment tree of \<open>src/scp/fragment/\<close>: a query is a list of fragments \<open>{ sql, params, skip }\<close> and WHERE
  groups (\<open>model.ts\<close>), assembled against a scope at run time (\<open>assemble.ts\<close>); the compilers of the base SELECT
  and of the relation loads (\<open>compile-pg.ts\<close>) write the text of the tuned builders.  The sum of two numbers that
  are not both integers is left unspecified.
\<close>

section \<open>The model\<close>

datatype value_op = CoalesceOp | AddOp

datatype value_spec =
    InputRef "string list"
  | WireRef "string list"
  | LiteralValue jsval
  | ValueExpr value_op "value_spec list"

text \<open>A fragment: its text, its parameters and the input path whose absence skips it.\<close>

datatype sql_fragment = Fragment string "frag_param list" "string list option"
and frag_param = ValueParam value_spec | NestedParam sql_fragment

datatype frag_node = FragmentNode sql_fragment | WhereGroup "sql_fragment list"

record bind_scope =
  sc_input :: jsobj
  sc_wire :: "(string \<times> jsobj) list option"

section \<open>Values\<close>

text \<open>\<open>v[seg]\<close>: a property, an element or the length; the inherited members are outside the model.\<close>

definition js_index :: "string \<Rightarrow> nat option" where
  "js_index seg = (case parse_int seg of Some i \<Rightarrow> if 0 \<le> i \<and> show_int i = seg then Some (nat i) else None | None \<Rightarrow> None)"

definition js_member :: "jsval \<Rightarrow> string \<Rightarrow> jsval" where
  "js_member v seg = (case v of
      JObj ob \<Rightarrow> js_get ob seg
    | JArr vs \<Rightarrow> (if seg = ''length'' then JInt (int (length vs))
        else (case js_index seg of Some i \<Rightarrow> if i < length vs then vs ! i else JUndef | None \<Rightarrow> JUndef))
    | JStr s \<Rightarrow> (if seg = ''length'' then JInt (int (length s))
        else (case js_index seg of Some i \<Rightarrow> if i < length s then JStr [s ! i] else JUndef | None \<Rightarrow> JUndef))
    | _ \<Rightarrow> JUndef)"

fun readPath :: "jsval \<Rightarrow> string list \<Rightarrow> jsval" where
  "readPath cur [] = cur"
| "readPath cur (seg # segs) = (if nullish cur then JUndef else readPath (js_member cur seg) segs)"

definition isSkipped :: "string list option \<Rightarrow> bind_scope \<Rightarrow> bool" where
  "isSkipped cond sc = (case cond of None \<Rightarrow> False | Some absent \<Rightarrow> nullish (readPath (JObj (sc_input sc)) absent))"

definition js_add :: "jsval \<Rightarrow> jsval \<Rightarrow> jsval" where
  "js_add a b = (case (a, b) of
      (JStr s, _) \<Rightarrow> JStr (s @ js_string b)
    | (_, JStr t) \<Rightarrow> JStr (js_string a @ t)
    | (JInt i, JInt j) \<Rightarrow> JInt (i + j)
    | (JInt i, JNull) \<Rightarrow> JInt i
    | (JInt i, JBool c) \<Rightarrow> JInt (i + (if c then 1 else 0))
    | (JInt i, JUndef) \<Rightarrow> JNonFin ''NaN''
    | (JNonFin s, JUndef) \<Rightarrow> JNonFin ''NaN''
    | _ \<Rightarrow> undefined)"

definition missing_wire :: "string \<Rightarrow> scp_error" where
  "missing_wire nd = OtherError (''scp assemble: wire-ref to node '' @ squoted nd @ '' has no produced result in scope'')"

fun evalValueSpec :: "value_spec \<Rightarrow> bind_scope \<Rightarrow> scp_error + jsval"
and first_value :: "value_spec list \<Rightarrow> bind_scope \<Rightarrow> scp_error + jsval"
and add_values :: "jsval \<Rightarrow> value_spec list \<Rightarrow> bind_scope \<Rightarrow> scp_error + jsval" where
  "evalValueSpec (InputRef path) sc = Inr (readPath (JObj (sc_input sc)) path)"
| "evalValueSpec (WireRef path) sc = (let (nd, rest) = (case path of n # r \<Rightarrow> (n, r) | [] \<Rightarrow> (''undefined'', [])) in
     case (case sc_wire sc of None \<Rightarrow> None | Some ws \<Rightarrow> map_of ws nd) of
       None \<Rightarrow> Inl (missing_wire nd)
     | Some row \<Rightarrow> Inr (readPath (JObj row) rest))"
| "evalValueSpec (LiteralValue v) sc = Inr v"
| "evalValueSpec (ValueExpr opr args) sc = (case opr of CoalesceOp \<Rightarrow> first_value args sc | AddOp \<Rightarrow> add_values (JInt 0) args sc)"
| "first_value [] sc = Inr JNull"
| "first_value (a # args) sc = bind_r (evalValueSpec a sc) (\<lambda>v. if \<not> nullish v then Inr v else first_value args sc)"
| "add_values acc [] sc = Inr acc"
| "add_values acc (a # args) sc = bind_r (evalValueSpec a sc) (\<lambda>v. add_values (js_add acc v) args sc)"

section \<open>Assembly\<close>

text \<open>
  The chunks between the placeholders and the rendered parameters in turn; a nested fragment is spliced in
  whatever its own skip says.
\<close>

function (sequential) assembleFragment :: "sql_fragment \<Rightarrow> bind_scope \<Rightarrow> scp_error + string \<times> jsval list"
and assembleParam :: "frag_param \<Rightarrow> bind_scope \<Rightarrow> scp_error + string \<times> jsval list"
and interleave :: "frag_param list \<Rightarrow> string list \<Rightarrow> bind_scope \<Rightarrow> scp_error + string \<times> jsval list" where
  "assembleFragment (Fragment s ps sk) sc =
     (let chunks = split_on (CHR ''?'') s in
      if length chunks - 1 \<noteq> length ps then Inl (OtherError (''fragment placeholder/param mismatch in '' @ s))
      else bind_r (interleave ps (tl chunks) sc) (\<lambda>(t, vs). Inr (hd chunks @ t, vs)))"
| "assembleParam (NestedParam f) sc = assembleFragment f sc"
| "assembleParam (ValueParam spec) sc = bind_r (evalValueSpec spec sc) (\<lambda>v. Inr (''?'', [v]))"
| "interleave (p # ps) (c # cs) sc = bind_r (assembleParam p sc) (\<lambda>(s, vs).
     bind_r (interleave ps cs sc) (\<lambda>(t, ws). Inr (s @ c @ t, vs @ ws)))"
| "interleave _ _ sc = Inr ([], [])"
  by pat_completeness auto

termination
  by (relation "measure (\<lambda>x. case x of Inl (f, _) \<Rightarrow> size f | Inr (Inl (p, _)) \<Rightarrow> size p | Inr (Inr (ps, _, _)) \<Rightarrow> size_list size ps)") auto

fun where_parts :: "sql_fragment list \<Rightarrow> bind_scope \<Rightarrow> scp_error + string list \<times> jsval list" where
  "where_parts [] sc = Inr ([], [])"
| "where_parts (Fragment s ps sk # ms) sc =
     (if isSkipped sk sc then where_parts ms sc
      else bind_r (assembleFragment (Fragment s ps sk) sc) (\<lambda>(t, vs).
        bind_r (where_parts ms sc) (\<lambda>(ts, ws). Inr (t # ts, vs @ ws))))"

definition assembleWhereGroup :: "sql_fragment list \<Rightarrow> bind_scope \<Rightarrow> scp_error + string \<times> jsval list" where
  "assembleWhereGroup ms sc = bind_r (where_parts ms sc) (\<lambda>(ts, vs).
     Inr (if ts = [] then ([], []) else ('' WHERE '' @ join '' AND '' ts, vs)))"

fun assembleNodes :: "frag_node list \<Rightarrow> bind_scope \<Rightarrow> scp_error + string \<times> jsval list" where
  "assembleNodes [] sc = Inr ([], [])"
| "assembleNodes (WhereGroup ms # nodes) sc = bind_r (assembleWhereGroup ms sc) (\<lambda>(s, vs).
     bind_r (assembleNodes nodes sc) (\<lambda>(t, ws). Inr (s @ t, vs @ ws)))"
| "assembleNodes (FragmentNode (Fragment s ps sk) # nodes) sc =
     (if isSkipped sk sc then assembleNodes nodes sc
      else bind_r (assembleFragment (Fragment s ps sk) sc) (\<lambda>(s', vs).
        bind_r (assembleNodes nodes sc) (\<lambda>(t, ws). Inr (s' @ t, vs @ ws))))"

fun numbered_from :: "nat \<Rightarrow> string \<Rightarrow> string" where
  "numbered_from i [] = []"
| "numbered_from i (c # s) = (if c = CHR ''?'' then CHR ''$'' # show_nat (Suc i) @ numbered_from (Suc i) s else c # numbered_from i s)"

definition toPostgres :: "string \<Rightarrow> string" where
  "toPostgres s = numbered_from 0 s"

section \<open>Compilation\<close>

definition inferPgArrayTypeForCompile :: "jsval list \<Rightarrow> string \<Rightarrow> string" where
  "inferPgArrayTypeForCompile vals castTo =
     (if castTo \<noteq> [] then castTo @ ''[]''
      else (case vals of
          [] \<Rightarrow> ''text[]''
        | sample # _ \<Rightarrow>
            (if is_number sample then (if list_all is_integer vals then ''int[]'' else ''numeric[]'')
             else (case sample of JBig _ \<Rightarrow> ''bigint[]'' | JBool _ \<Rightarrow> ''boolean[]'' | JDate _ _ \<Rightarrow> ''timestamp[]'' | _ \<Rightarrow> ''text[]''))))"

text \<open>A column with the path of its value.\<close>

type_synonym optional_eq = "string \<times> string list"

definition probe_core :: "string \<Rightarrow> string" where
  "probe_core col = fst (conds_compile (DBConditions [(col, JStr ''__probe__'')] And []) None [])"

definition compileOptionalEq :: "optional_eq \<Rightarrow> sql_fragment" where
  "compileOptionalEq c = Fragment ('' AND '' @ probe_core (fst c)) [ValueParam (InputRef (snd c))] (Some (snd c))"

record belongs_to_opts =
  bo_table :: string
  bo_select :: string
  bo_targetKey :: string
  bo_sampleKeys :: "jsval list"
  bo_keys :: value_spec
  bo_order :: string
  bo_limit :: int
  bo_sqlCast :: string
  bo_filters :: "optional_eq list"

definition any_array_head :: "belongs_to_opts \<Rightarrow> sql_fragment" where
  "any_array_head o1 = Fragment (''SELECT '' @ or_text (bo_select o1) ''*'' @ '' FROM '' @ bo_table o1 @ '' WHERE '' @ bo_table o1 @ ''.''
     @ bo_targetKey o1 @ '' = ANY(?::'' @ inferPgArrayTypeForCompile (bo_sampleKeys o1) (bo_sqlCast o1) @ '')'') [ValueParam (bo_keys o1)] None"

definition compileBelongsTo :: "belongs_to_opts \<Rightarrow> sql_fragment list" where
  "compileBelongsTo o1 = any_array_head o1 # map compileOptionalEq (bo_filters o1)"

definition compileHasManyLimited :: "belongs_to_opts \<Rightarrow> sql_fragment list" where
  "compileHasManyLimited o1 =
     Fragment (''SELECT '' @ bo_table o1 @ ''.* FROM unnest(?::'' @ inferPgArrayTypeForCompile (bo_sampleKeys o1) (bo_sqlCast o1)
        @ '') AS _keys(key) CROSS JOIN LATERAL (SELECT '' @ or_text (bo_select o1) ''*'' @ '' FROM '' @ bo_table o1 @ '' WHERE ''
        @ bo_table o1 @ ''.'' @ bo_targetKey o1 @ '' = _keys.key'') [ValueParam (bo_keys o1)] None
     # map compileOptionalEq (bo_filters o1)
     @ [Fragment ('' ORDER BY '' @ bo_order o1 @ '' LIMIT '' @ show_int (bo_limit o1) @ '') '' @ bo_table o1) [] None]"

definition compileHasManyAny :: "belongs_to_opts \<Rightarrow> sql_fragment list" where
  "compileHasManyAny o1 = any_array_head o1 # map compileOptionalEq (bo_filters o1)
     @ (if bo_order o1 = [] then [] else [Fragment ('' ORDER BY '' @ bo_order o1) [] None])"

definition compileBaseSelect :: "string \<Rightarrow> string \<Rightarrow> optional_eq list \<Rightarrow> frag_node list" where
  "compileBaseSelect table cols conditions =
     [FragmentNode (Fragment (''SELECT '' @ or_text cols ''*'' @ '' FROM '' @ table) [] None),
      WhereGroup (map (\<lambda>c. Fragment (probe_core (fst c)) [ValueParam (InputRef (snd c))] (Some (snd c))) conditions)]"

lemma inferPgArrayTypeForCompile_eq: "inferPgArrayTypeForCompile = inferPgArrayType"
  by (auto simp: fun_eq_iff inferPgArrayTypeForCompile_def inferPgArrayType_def inferPgElementType_def split: list.split jsval.split)

section \<open>Balance\<close>

lemma interleave_chunks:
  "assembleFragment f sc = Inr (t, vs) \<Longrightarrow> qcount t = length vs"
  "assembleParam p sc = Inr (t, vs) \<Longrightarrow> qcount t = length vs"
  "interleave ps cs sc = Inr (t, vs) \<Longrightarrow> \<forall>c \<in> set cs. qcount c = 0 \<Longrightarrow> qcount t = length vs"
proof (induction f sc and p sc and ps cs sc arbitrary: t vs and t vs and t vs rule: assembleFragment_assembleParam_interleave.induct)
  case (1 s ps sk sc)
  let ?chunks = "split_on (CHR ''?'') s"
  have ok: "\<not> length ?chunks - 1 \<noteq> length ps" using 1(2) by (auto simp: Let_def split: if_splits)
  then obtain u ws where u: "interleave ps (tl ?chunks) sc = Inr (u, ws)" and t: "t = hd ?chunks @ u" "vs = ws"
    using 1(2) by (auto simp: Let_def bind_r_def split: sum.splits if_splits)
  have "\<forall>c \<in> set (tl ?chunks). qcount c = 0" "qcount (hd ?chunks) = 0"
    by (metis list.set_sel(2) split_on_nonempty split_on_qfree, rule split_on_qfree [OF hd_in_set], simp)
  then show ?case using 1(1) [OF refl ok u] t by simp
next
  case (2 f sc)
  then show ?case by simp
next
  case (3 spec sc)
  then show ?case by (auto simp: bind_r_def split: sum.splits)
next
  case (4 p ps c cs sc)
  then obtain s us u ws where "assembleParam p sc = Inr (s, us)" "interleave ps cs sc = Inr (u, ws)" "t = s @ c @ u" "vs = us @ ws"
    by (auto simp: bind_r_def split: sum.splits)
  then show ?case using 4 by simp
qed auto


declare assembleFragment.simps [simp del]

lemma where_parts_arity: "where_parts ms sc = Inr (ts, vs) \<Longrightarrow> sum_list (map qcount ts) = length vs"
proof (induction ms sc arbitrary: ts vs rule: where_parts.induct)
  case (2 s ps sk ms sc)
  show ?case
  proof (cases "isSkipped sk sc")
    case False
    then obtain t us ts' ws where "assembleFragment (Fragment s ps sk) sc = Inr (t, us)" "where_parts ms sc = Inr (ts', ws)"
        "ts = t # ts'" "vs = us @ ws"
      using "2.prems" by (auto simp: bind_r_def split: sum.splits)
    then show ?thesis using "2.IH"(2) [OF False] interleave_chunks(1) by simp
  qed (use 2 in auto)
qed auto

text \<open>
  What is assembled binds what it writes.  Whatever the fragments, their nesting and the scope, the assembled
  text has one placeholder per value.
\<close>

theorem assembled_fragments_are_balanced:
  assumes "assembleNodes nodes sc = Inr (t, vs)"
  shows "qcount t = length vs"
  using assms
proof (induction nodes sc arbitrary: t vs rule: assembleNodes.induct)
  case (2 ms nodes sc)
  then obtain s us u ws where g: "assembleWhereGroup ms sc = Inr (s, us)" and n: "assembleNodes nodes sc = Inr (u, ws)" and t: "t = s @ u" "vs = us @ ws"
    by (auto simp: bind_r_def split: sum.splits)
  have "qcount s = length us"
    using g where_parts_arity [of ms sc] by (auto simp: assembleWhereGroup_def bind_r_def qcount_join split: sum.splits if_splits)
  then show ?case using "2.IH" [OF n] t by simp
next
  case (3 s ps sk nodes sc)
  show ?case
  proof (cases "isSkipped sk sc")
    case False
    then obtain s' us u ws where "assembleFragment (Fragment s ps sk) sc = Inr (s', us)" "assembleNodes nodes sc = Inr (u, ws)"
        "t = s' @ u" "vs = us @ ws"
      using "3.prems" by (auto simp: bind_r_def split: sum.splits)
    then show ?thesis using "3.IH"(2) [OF False] interleave_chunks(1) by simp
  qed (use 3 in auto)
qed auto

section \<open>The texts of the builders\<close>

definition filter_column :: "string \<Rightarrow> bool" where
  "filter_column col \<longleftrightarrow> \<not> starts_with ''__'' col \<and> (CHR ''?'' \<in> set col \<longrightarrow> qcount col = 1) \<and> col \<noteq> []"

definition bindable :: "jsval \<Rightarrow> bool" where
  "bindable v \<longleftrightarrow> (case v of JInt _ \<Rightarrow> True | JFrac _ \<Rightarrow> True | JNonFin _ \<Rightarrow> True | JBig _ \<Rightarrow> True | JStr _ \<Rightarrow> True | JDate _ _ \<Rightarrow> True
     | JObj _ \<Rightarrow> True | _ \<Rightarrow> False)"

text \<open>The conditions whose input is there, with their values.\<close>

definition present :: "bind_scope \<Rightarrow> optional_eq list \<Rightarrow> jsobj" where
  "present sc conditions = filter (\<lambda>kv. \<not> nullish (snd kv)) (map (\<lambda>c. (fst c, readPath (JObj (sc_input sc)) (snd c))) conditions)"

definition plain_filters :: "bind_scope \<Rightarrow> optional_eq list \<Rightarrow> bool" where
  "plain_filters sc conditions \<longleftrightarrow> (\<forall>c \<in> set conditions. filter_column (fst c)) \<and> (\<forall>kv \<in> set (present sc conditions). bindable (snd kv))"

lemma present_simps [simp]:
  "present sc [] = []"
  "present sc (c # cs) = (let v = readPath (JObj (sc_input sc)) (snd c) in if nullish v then present sc cs else (fst c, v) # present sc cs)"
  by (simp_all add: present_def Let_def)

lemma plain_condition:
  assumes "filter_column col" "bindable v"
  shows "compileCondition (col, v) fm ps = (if CHR ''?'' \<in> set col then col else col @ '' = ?'', ps @ [v])"
proof -
  have "col \<noteq> ''__or__'' \<and> col \<noteq> ''__exists__'' \<and> col \<noteq> ''__subquery__'' \<and> col \<noteq> ''__raw__'' \<and> \<not> starts_with ''__'' col"
    using assms(1) by (auto simp: filter_column_def)
  then show ?thesis
    using assms(2) by (cases v) (simp_all add: bindable_def compilePlain_def compileCustomOperator_def)
qed

lemma core_text: "filter_column col \<Longrightarrow> probe_core col = (if CHR ''?'' \<in> set col then col else col @ '' = ?'')"
  using plain_condition [of col "JStr ''__probe__''" None "[]"]
  by (simp add: probe_core_def bindable_def filter_column_def del: compileCondition.simps)

lemma core_arity: "filter_column col \<Longrightarrow> qcount (probe_core col) = 1 \<and> probe_core col \<noteq> []"
  by (auto simp: core_text qcount_0_iff [symmetric] filter_column_def)

lemma emit_filters:
  assumes "\<forall>kv \<in> set kvs. filter_column (fst kv) \<and> bindable (snd kv)"
  shows "emit_list (\<lambda>kv. compileCondition kv fm) kvs ps = (map (\<lambda>kv. probe_core (fst kv)) kvs, ps @ map snd kvs)"
  using assms
proof (induction kvs arbitrary: ps)
  case (Cons kv kvs)
  then show ?case
    using plain_condition [of "fst kv" "snd kv" fm ps] core_text [of "fst kv"] by (simp del: compileCondition.simps)
qed simp

lemma split_on_none: "qcount s = 0 \<Longrightarrow> split_on (CHR ''?'') s = [s]"
  by (induction s) (auto split: if_splits)

lemma split_on_one:
  assumes "qcount s = 1"
  shows "\<exists>a b. split_on (CHR ''?'') s = [a, b] \<and> s = a @ CHR ''?'' # b"
  using assms
proof (induction s)
  case (Cons c s)
  show ?case
  proof (cases "c = CHR ''?''")
    case True
    then have "split_on (CHR ''?'') (c # s) = [[], s]" using Cons.prems split_on_none [of s] by simp
    then show ?thesis using True by blast
  next
    case False
    then obtain a b where "split_on (CHR ''?'') s = [a, b]" "s = a @ CHR ''?'' # b" using Cons by auto
    then show ?thesis using False by (intro exI [of _ "c # a"] exI [of _ b]) simp
  qed
qed simp

lemma text_fragment: "qcount s = 0 \<Longrightarrow> assembleFragment (Fragment s [] sk) sc = Inr (s, [])"
  by (simp add: assembleFragment.simps split_on_none bind_r_def)

lemma value_fragment:
  assumes "qcount s = 1"
  shows "assembleFragment (Fragment s [ValueParam spec] sk) sc = bind_r (evalValueSpec spec sc) (\<lambda>v. Inr (s, [v]))"
  using split_on_one [OF assms] by (auto simp: assembleFragment.simps bind_r_def split: sum.splits)

lemma where_parts_filters:
  assumes "\<forall>c \<in> set conditions. filter_column (fst c)"
  shows "where_parts (map (\<lambda>c. Fragment (probe_core (fst c)) [ValueParam (InputRef (snd c))] (Some (snd c))) conditions) sc
    = Inr (map (\<lambda>kv. probe_core (fst kv)) (present sc conditions), map snd (present sc conditions))"
  using assms
proof (induction conditions)
  case (Cons c cs)
  then show ?case
    using core_arity [of "fst c"] value_fragment [of "probe_core (fst c)" "InputRef (snd c)" "Some (snd c)" sc]
    by (simp add: isSkipped_def Let_def bind_r_def)
qed simp

lemma filter_fragments:
  assumes "\<forall>c \<in> set conditions. filter_column (fst c)"
  shows "assembleNodes (map FragmentNode (map compileOptionalEq conditions @ rest)) sc
    = bind_r (assembleNodes (map FragmentNode rest) sc) (\<lambda>(t, ws).
        Inr (concat (map (\<lambda>kv. '' AND '' @ probe_core (fst kv)) (present sc conditions)) @ t, map snd (present sc conditions) @ ws))"
  using assms
proof (induction conditions)
  case Nil
  show ?case by (simp add: bind_r_def split: sum.split)
next
  case (Cons c cs)
  have "qcount ('' AND '' @ probe_core (fst c)) = 1" using Cons.prems core_arity by simp
  then show ?case
    using Cons value_fragment [of "'' AND '' @ probe_core (fst c)" "InputRef (snd c)" "Some (snd c)" sc]
    by (auto simp: compileOptionalEq_def isSkipped_def Let_def bind_r_def split: sum.splits)
qed

lemma join_and: "join sep (x # xs) = x @ concat (map (\<lambda>y. sep @ y) xs)"
  by (induction xs arbitrary: x) simp_all


lemma where_of_filters:
  assumes "plain_filters sc conditions"
  shows "conds_compile (DBConditions (present sc conditions) And []) fm []
    = (join '' AND '' (map (\<lambda>kv. probe_core (fst kv)) (present sc conditions)), map snd (present sc conditions))"
proof -
  have cols: "\<forall>kv \<in> set (present sc conditions). filter_column (fst kv) \<and> bindable (snd kv)"
    using assms by (auto simp: plain_filters_def present_def)
  have "filter (\<lambda>s. s \<noteq> []) (map (\<lambda>kv. probe_core (fst kv)) (present sc conditions)) = map (\<lambda>kv. probe_core (fst kv)) (present sc conditions)"
    using cols core_arity by (auto simp: filter_id_conv)
  then show ?thesis using emit_filters [OF cols] by (simp add: Let_def opname_def)
qed

text \<open>
  C36. The base SELECT is the builder's for every choice of inputs.  With the optional conditions whose input
  is there, a plain value each, the assembled SELECT has exactly the WHERE clause and the values that the
  condition compiler writes for the object of those conditions, and none when no input is there.
\<close>

theorem base_select_is_the_builders:
  assumes "plain_filters sc conditions" "qcount table = 0" "qcount cols = 0"
  shows "assembleNodes (compileBaseSelect table cols conditions) sc
    = (let (w, ps) = conds_compile (DBConditions (present sc conditions) And []) None [] in
       Inr (''SELECT '' @ or_text cols ''*'' @ '' FROM '' @ table @ opt_text '' WHERE '' w, ps))"
proof -
  let ?cores = "map (\<lambda>kv. probe_core (fst kv)) (present sc conditions)"
  have "\<forall>s \<in> set ?cores. s \<noteq> []" using assms(1) core_arity by (auto simp: plain_filters_def present_def)
  then have "join '' AND '' ?cores = [] \<longleftrightarrow> ?cores = []" by (cases ?cores) (auto simp: join_and)
  moreover have "qcount (''SELECT '' @ or_text cols ''*'' @ '' FROM '' @ table) = 0" using assms by (simp add: or_text_def)
  ultimately show ?thesis
    using where_of_filters [OF assms(1), of None] where_parts_filters [of conditions sc] assms(1)
    by (auto simp: compileBaseSelect_def text_fragment isSkipped_def assembleWhereGroup_def bind_r_def opt_text_def plain_filters_def
        simp del: conds_compile.simps)
qed

definition search_scope :: bind_scope where
  "search_scope = \<lparr>sc_input = [(''status'', JStr ''open''), (''owner'', JNull), (''min'', JInt 3)], sc_wire = None\<rparr>"

definition search_filters :: "optional_eq list" where
  "search_filters = [(''owner_id'', [''owner'']), (''status'', [''status'']), (''size >= ?'', [''min''])]"

lemma base_select_is_the_builders_witness:
  "assembleNodes (compileBaseSelect ''posts'' [] search_filters) search_scope
     = Inr (''SELECT * FROM posts WHERE status = ? AND size >= ?'', [JStr ''open'', JInt 3])"
proof -
  have ok: "plain_filters search_scope search_filters"
    by (simp add: plain_filters_def search_scope_def search_filters_def filter_column_def bindable_def nullish_def js_member_def js_get_def Let_def)
  have w: "conds_compile (DBConditions (present search_scope search_filters) And []) None []
      = (''status = ? AND size >= ?'', [JStr ''open'', JInt 3])" by code_simp
  show ?thesis using base_select_is_the_builders [OF ok, of "''posts''" "[]"] unfolding w by (simp add: or_text_def opt_text_def)
qed

text \<open>What a load and its options have in common with the lazy relation they were made for.\<close>

definition made_for :: "belongs_to_opts \<Rightarrow> model_class \<Rightarrow> string \<Rightarrow> jsval list \<Rightarrow> relation_config \<Rightarrow> bind_scope \<Rightarrow> bool" where
  "made_for o1 c key vs cfg sc \<longleftrightarrow>
     bo_table o1 = TABLE_NAME c \<and> bo_select o1 = [] \<and> bo_targetKey o1 = key
     \<and> inferPgArrayTypeForCompile (bo_sampleKeys o1) (bo_sqlCast o1) = array_cast vs (model_casts c key)
     \<and> evalValueSpec (bo_keys o1) sc = Inr (JArr vs)
     \<and> base_conditions cfg = present sc (bo_filters o1) \<and> plain_filters sc (bo_filters o1)
     \<and> distinct (map fst (present sc (bo_filters o1)))
     \<and> bo_order o1 = or_text (rel_order cfg) (orderToString (DEFAULT_ORDER c)) \<and> qcount (bo_order o1) = 0
     \<and> qcount (TABLE_NAME c) = 0 \<and> qcount key = 0 \<and> qcount (array_cast vs (model_casts c key)) = 0"

lemma raw_not_filter:
  assumes "plain_filters sc conditions"
  shows "''__raw__'' \<notin> fst ` set (present sc conditions)"
proof
  assume "''__raw__'' \<in> fst ` set (present sc conditions)"
  then obtain c where "c \<in> set conditions" "fst c = ''__raw__''" by (auto simp: present_def)
  then have "filter_column ''__raw__''" using assms unfolding plain_filters_def by metis
  then show False by (simp add: filter_column_def)
qed

lemma where_with_raw:
  assumes "plain_filters sc conditions" "distinct (map fst (present sc conditions))" "t \<noteq> []"
    and raw: "\<And>ps. compileRaw v ps = (t, ps @ us)"
  shows "conds_compile (normalizeConditions (Inr (obj_spread [(''__raw__'', v)] (present sc conditions)))) fm []
    = (t @ concat (map (\<lambda>kv. '' AND '' @ probe_core (fst kv)) (present sc conditions)), us @ map snd (present sc conditions))"
proof -
  have cols: "\<forall>kv \<in> set (present sc conditions). filter_column (fst kv) \<and> bindable (snd kv)"
    using assms(1) by (auto simp: plain_filters_def present_def)
  have ob: "obj_spread [(''__raw__'', v)] (present sc conditions) = (''__raw__'', v) # present sc conditions"
    using obj_spread_distinct [of "[(''__raw__'', v)]" "present sc conditions"] assms(2) raw_not_filter [OF assms(1)] by simp
  have ne: "filter (\<lambda>s. s \<noteq> []) (map (\<lambda>kv. probe_core (fst kv)) (present sc conditions)) = map (\<lambda>kv. probe_core (fst kv)) (present sc conditions)"
    using cols core_arity by (auto simp: filter_id_conv)
  have "compileCondition (''__raw__'', v) fm [] = (t, us)" using raw [of "[]"] by simp
  then show ?thesis
    using emit_filters [OF cols, of fm us] assms(3) ne
    by (simp add: ob normalizeConditions_def opname_def join_and comp_def del: compileCondition.simps)
qed


lemma any_array_load:
  assumes "made_for o1 c key vs cfg sc" "plain_class c"
  shows "load_statement c (batchLoadWithAnyArray c key vs cfg)
    = Inr (''SELECT * FROM '' @ TABLE_NAME c @ '' WHERE '' @ TABLE_NAME c @ ''.'' @ key @ '' = ANY(?::'' @ array_cast vs (model_casts c key) @ '')''
        @ concat (map (\<lambda>kv. '' AND '' @ probe_core (fst kv)) (present sc (bo_filters o1))) @ opt_text '' ORDER BY '' (bo_order o1),
      JArr vs # map snd (present sc (bo_filters o1)))"
proof -
  let ?t = "TABLE_NAME c @ ''.'' @ key @ '' = ANY(?::'' @ array_cast vs (model_casts c key) @ '')''"
  have w: "conds_compile (normalizeConditions (Inr (obj_spread [(''__raw__'', JArr [JStr ?t, JArr [JArr vs]])] (present sc (bo_filters o1))))) fm []
      = (?t @ concat (map (\<lambda>kv. '' AND '' @ probe_core (fst kv)) (present sc (bo_filters o1))), [JArr vs] @ map snd (present sc (bo_filters o1)))" for fm
    by (rule where_with_raw) (use assms in \<open>simp_all add: made_for_def compileRaw_def raw_sql_params_def\<close>)
  show ?thesis
    using assms w [of "model_formatter c"]
    by (simp add: load_statement_def batchLoadWithAnyArray_def build_select_def made_for_def plain_class_def raw_entry_def qual_col_def
        filtered_conditions_def ordered_def no_opts_def getQueryParams_def isQueryBased_def with_clause_def getQuerySQL_def or_empty_def
        lockTail_def number_text_def order_clause_def order_text_def or_text_def opt_text_def bind_r_def Let_def
        del: conds_compile.simps)
qed

lemma lateral_load_text:
  assumes "made_for o1 c key vs cfg sc" "plain_class c" "rel_order cfg \<noteq> []"
  shows "load_statement c (batchLoadWithLateral c key vs cfg lim)
    = Inr (''SELECT '' @ TABLE_NAME c @ ''.* FROM unnest(?::'' @ array_cast vs (model_casts c key) @ '') AS _keys(key) CROSS JOIN LATERAL (SELECT * FROM ''
        @ TABLE_NAME c @ '' WHERE '' @ TABLE_NAME c @ ''.'' @ key @ '' = _keys.key''
        @ concat (map (\<lambda>kv. '' AND '' @ probe_core (fst kv)) (present sc (bo_filters o1)))
        @ '' ORDER BY '' @ bo_order o1 @ '' LIMIT '' @ show_int lim @ '') '' @ TABLE_NAME c,
      JArr vs # map snd (present sc (bo_filters o1)))"
proof -
  let ?t = "TABLE_NAME c @ ''.'' @ key @ '' = _keys.key''"
  have w: "conds_compile (normalizeConditions (Inr (obj_spread [(''__raw__'', JStr ?t)] (present sc (bo_filters o1))))) fm []
      = (?t @ concat (map (\<lambda>kv. '' AND '' @ probe_core (fst kv)) (present sc (bo_filters o1))), [] @ map snd (present sc (bo_filters o1)))" for fm
    by (rule where_with_raw) (use assms in \<open>simp_all add: made_for_def compileRaw_def\<close>)
  show ?thesis
    using assms w [of "model_formatter c"]
    by (simp add: load_statement_def batchLoadWithLateral_def lateral_load_def buildSelectSQL_def made_for_def plain_class_def qual_col_def
        child_opts_def ordered_def no_opts_def number_text_def or_text_def opt_text_def Let_def
        del: conds_compile.simps)
qed



definition post_relation :: relation_config where
  "post_relation = example_relation\<lparr>rel_conditions := Some [(''status'', JStr ''open'')], rel_order := ''id''\<rparr>"

definition post_load :: belongs_to_opts where
  "post_load = \<lparr>bo_table = ''p'', bo_select = [], bo_targetKey = ''u'', bo_sampleKeys = [JInt 7], bo_keys = LiteralValue (JArr [JInt 1, JInt 2]),
     bo_order = ''id'', bo_limit = 5, bo_sqlCast = [], bo_filters = [(''owner_id'', [''owner'']), (''status'', [''status''])]\<rparr>"


section \<open>Where they part\<close>

text \<open>An array or a boolean input: the builder writes a list or a constant, the fragment one placeholder.\<close>

lemma array_inputs_part:
  "assembleNodes (compileBaseSelect ''t'' [] [(''s'', [''s''])]) \<lparr>sc_input = [(''s'', JArr [JInt 1, JInt 2])], sc_wire = None\<rparr>
     = Inr (''SELECT * FROM t WHERE s = ?'', [JArr [JInt 1, JInt 2]])"
  "conds_compile (DBConditions [(''s'', JArr [JInt 1, JInt 2])] And []) None [] = (''s IN (?, ?)'', [JInt 1, JInt 2])"
  "assembleNodes (compileBaseSelect ''t'' [] [(''s'', [''s''])]) \<lparr>sc_input = [(''s'', JBool True)], sc_wire = None\<rparr>
     = Inr (''SELECT * FROM t WHERE s = ?'', [JBool True])"
  "conds_compile (DBConditions [(''s'', JBool True)] And []) None [] = (''s = TRUE'', [])"
  by code_simp+

text \<open>The fragments of a belongsTo drop the default order of the class, which the batch load keeps.\<close>

lemma belongs_to_drops_the_order:
  "assembleNodes (map FragmentNode (compileBelongsTo (post_load\<lparr>bo_table := ''users'', bo_filters := []\<rparr>))) search_scope
     = Inr (''SELECT * FROM users WHERE users.u = ANY(?::int[])'', [JArr [JInt 1, JInt 2]])"
  "load_statement example_model (batchLoadWithAnyArray example_model ''u'' [JInt 1, JInt 2] example_relation)
     = Inr (''SELECT * FROM users WHERE users.u = ANY(?::int[]) ORDER BY id'', [JArr [JInt 1, JInt 2]])"
  by code_simp+

text \<open>The skip of a nested fragment is not looked at; a reference to a wire that produced nothing is an error.\<close>

lemma nested_skip_is_ignored:
  "assembleFragment (Fragment ''a IN (?)'' [NestedParam (Fragment ''SELECT 1'' [] (Some [''absent'']))] None) search_scope
    = Inr (''a IN (SELECT 1)'', [])"
  by code_simp

lemma missing_wire_is_an_error:
  "assembleFragment (Fragment ''a = ?'' [ValueParam (WireRef [''n'', ''id''])] sk) search_scope = Inl (missing_wire ''n'')"
  by (simp add: assembleFragment.simps search_scope_def bind_r_def)

lemma assembled_fragments_are_balanced_witness:
  "qcount ''SELECT * FROM t WHERE s = ?'' = length [JArr [JInt 1, JInt 2]]"
  by (rule assembled_fragments_are_balanced
      [of "compileBaseSelect ''t'' [] [(''s'', [''s''])]" "\<lparr>sc_input = [(''s'', JArr [JInt 1, JInt 2])], sc_wire = None\<rparr>"]) code_simp

end
