(* ===== verification/TransactionSync.thy ===== *)
theory TransactionSync
  imports Transaction
begin

text \<open>\<open>withTransactionSync\<close> of \<open>src/scp/exec-context.ts\<close>: the transaction of the in-process SQLite runtime.\<close>

lemma error_of_simps [simp]: "error_of (Inl e) = Some e" "error_of (Inr x) = None"
  by (simp_all add: error_of_def)

section \<open>The synchronous boundary\<close>

text \<open>
  The BEGIN statements stand before the \<open>try\<close>: when one fails, nothing is rolled back.  The body says
  whether to commit.
\<close>

definition withTransactionSync ::
  "('c \<Rightarrow> string \<Rightarrow> ('s, unit) io) \<Rightarrow> 'c basic_context \<Rightarrow> ('c basic_context \<Rightarrow> ('s, bool \<times> 'r) io)
     \<Rightarrow> dialect \<Rightarrow> isolation_level option \<Rightarrow> 's \<Rightarrow> (tx_failure + 'r) \<times> 'c tx_event list \<times> 's" where
  "withTransactionSync ctl outer fn d level s = (case basic_connectionFor outer \<lparr>int_write = True, int_db = None\<rparr> of
      Inl e \<Rightarrow> (Inl (Refused e), [], s)
    | Inr c \<Rightarrow> (case beginStatements d level of
        Inl e \<Rightarrow> (Inl (Refused e), [], s)
      | Inr begins \<Rightarrow> (case controls ctl c begins s of
          (Inl e, ev, s1) \<Rightarrow> (Inl (Thrown e), ev, s1)
        | (Inr _, ev, s1) \<Rightarrow>
            (let fail = (\<lambda>e ev s. case control ctl c ''ROLLBACK'' s of (_, ev', s') \<Rightarrow> (Inl (Thrown e), ev @ ev', s'))
             in (case fn (basic_withConnection outer c True) s1 of
                (Inl e, s2) \<Rightarrow> fail e (ev @ [BodyRan c (Some e)]) s2
              | (Inr (commit, v), s2) \<Rightarrow> (case control ctl c (if commit then ''COMMIT'' else ''ROLLBACK'') s2 of
                  (Inl e, ev', s3) \<Rightarrow> fail e (ev @ BodyRan c None # ev') s3
                | (Inr _, ev', s3) \<Rightarrow> (Inr v, ev @ BodyRan c None # ev', s3)))))))"

lemma sync_rollback_commits: "control ctl c ''ROLLBACK'' s = (r, ev, s') \<Longrightarrow> commits ev = 0"
  by (cases r) (auto dest!: control_events)

text \<open>
  The synchronous boundary is all or nothing too: it throws without having committed, or returns
  the body's value after at most one successful COMMIT, sent last; a body that asks not to commit
  still returns its value and commits nothing.
\<close>

theorem sync_all_or_nothing:
  "(case withTransactionSync ctl outer fn d level s of
      (Inl e, ev, _) \<Rightarrow> commits ev = 0
    | (Inr v, ev, _) \<Rightarrow> (\<exists>c s1 s2 commit. fn (basic_withConnection outer c True) s1 = (Inr (commit, v), s2)
        \<and> commits ev = (if commit then 1 else 0)
        \<and> last ev = Control c (if commit then ''COMMIT'' else ''ROLLBACK'') None))"
    (is "case ?w of (Inl e, ev, _) \<Rightarrow> commits ev = 0 | (Inr v, ev, _) \<Rightarrow> ?ok v ev")
proof (cases "basic_connectionFor outer \<lparr>int_write = True, int_db = None\<rparr>")
  case (Inr c)
  note c = Inr
  show ?thesis
  proof (cases "beginStatements d level")
    case (Inr begins)
    note b = Inr
    obtain r1 ev1 s1 where bs: "controls ctl c begins s = (r1, ev1, s1)" by (cases "controls ctl c begins s")
    have nb: "commits ev1 = 0"
      using controls_events [OF bs] begins_no_commit [OF b] commits_of_controls [of begins c ev1] by simp
    obtain r2 s2 where f: "fn (basic_withConnection outer c True) s1 = (r2, s2)" by fastforce
    obtain rr evr sr where rb: "control ctl c ''ROLLBACK'' s2 = (rr, evr, sr)" by (cases "control ctl c ''ROLLBACK'' s2")
    note nr = sync_rollback_commits [OF rb]
    show ?thesis
    proof (cases r1)
      case (Inl e)
      then show ?thesis using c b bs nb by (simp add: withTransactionSync_def)
    next
      case (Inr u)
      note r1 = Inr
      show ?thesis
      proof (cases r2)
        case (Inl e)
        then show ?thesis using c b bs nb r1 f rb nr by (simp add: withTransactionSync_def)
      next
        case (Inr cv)
        then obtain commit v where r2: "r2 = Inr (commit, v)" by (cases cv) simp
        let ?q = "if commit then ''COMMIT'' else ''ROLLBACK''"
        obtain r3 ev3 s3 where fin: "control ctl c ?q s2 = (r3, ev3, s3)" by (cases "control ctl c ?q s2")
        note ev3 = control_events [OF fin]
        show ?thesis
        proof (cases r3)
          case (Inl e)
          obtain rq evq sq where rb: "control ctl c ''ROLLBACK'' s3 = (rq, evq, sq)" by (cases "control ctl c ''ROLLBACK'' s3")
          show ?thesis
            using c b bs nb r1 f r2 fin ev3 Inl rb sync_rollback_commits [OF rb] by (simp add: withTransactionSync_def)
        next
          case (Inr u)
          then have w: "?w = (Inr v, ev1 @ BodyRan c None # ev3, s3)"
            using c b bs r1 f r2 fin by (simp add: withTransactionSync_def)
          have "commits (ev1 @ BodyRan c None # ev3) = (if commit then 1 else 0)" "last (ev1 @ BodyRan c None # ev3) = Control c ?q None"
            using nb ev3 Inr by simp_all
          then have "?ok v (ev1 @ BodyRan c None # ev3)" using f r2 by blast
          then show ?thesis unfolding w by simp
        qed
      qed
    qed
  qed (simp add: withTransactionSync_def c)
qed (simp add: withTransactionSync_def)

end
