(* ===== verification/MiddlewareChain.thy ===== *)
theory MiddlewareChain
  imports JsValue Routing
begin

text \<open>
  The middleware chain and the raw statement API: \<open>MiddlewareChain.wrap\<close> and the seams of
  \<open>src/scp/exec-context.ts\<close>, the registry, the method hooks and \<open>rawExecute\<close> of
  \<open>src/scp/middleware.ts\<close>.  A statement runs over a world \<open>'s\<close> and ends in a value or an error; a
  hook gets the statement and the rest of the chain.  A registered descriptor is an object with an
  identity; the state of a middleware is kept per registry.
\<close>

type_synonym ('s, 'e, 'v) stmt_run = "string \<Rightarrow> jsval list \<Rightarrow> 's \<Rightarrow> ('e + 'v) \<times> 's"
type_synonym ('s, 'e, 'v) sql_hook = "string \<Rightarrow> jsval list \<Rightarrow> ('s, 'e, 'v) stmt_run \<Rightarrow> 's \<Rightarrow> ('e + 'v) \<times> 's"

section \<open>The chain\<close>

definition wrap_with :: "('s, 'e, 'v) sql_hook \<Rightarrow> ('s, 'e, 'v) stmt_run \<Rightarrow> ('s, 'e, 'v) stmt_run" where
  "wrap_with mw inner = (\<lambda>s p. mw s p inner)"

definition wrap_chain :: "('s, 'e, 'v) sql_hook list \<Rightarrow> ('s, 'e, 'v) stmt_run \<Rightarrow> ('s, 'e, 'v) stmt_run" where
  "wrap_chain stack next txt ps =
     (if stack = [] then next txt ps else fold wrap_with (rev stack) next txt ps)"

text \<open>The seams \<open>execute\<close> and \<open>run\<close>: the chain around resolving the connection and running on it.\<close>

definition seam ::
  "('s, 'e, 'v) sql_hook list \<Rightarrow> (intent \<Rightarrow> 'e + 'c) \<Rightarrow> ('c \<Rightarrow> ('s, 'e, 'v) stmt_run) \<Rightarrow> intent \<Rightarrow> ('s, 'e, 'v) stmt_run" where
  "seam stack route op i txt ps = wrap_chain stack (\<lambda>q p s. case route i of Inl e \<Rightarrow> (Inl e, s) | Inr c \<Rightarrow> op c q p s) txt ps"

text \<open>\<open>runGuarded\<close>: the write guard comes before the chain.\<close>

definition runGuarded ::
  "tx_scope \<Rightarrow> (write_guard_error \<Rightarrow> 'e) \<Rightarrow> ('s, 'e, 'v) sql_hook list \<Rightarrow> (intent \<Rightarrow> 'e + 'c) \<Rightarrow> ('c \<Rightarrow> ('s, 'e, 'v) stmt_run)
     \<Rightarrow> string \<Rightarrow> string option \<Rightarrow> ('s, 'e, 'v) stmt_run" where
  "runGuarded sc err stack route op operation modelName txt ps s = (case checkWriteAllowed sc operation modelName of
      Inl e \<Rightarrow> (Inl (err e), s)
    | Inr _ \<Rightarrow> seam stack route op \<lparr>int_write = True, int_db = None\<rparr> txt ps s)"

lemma wrap_chain_simps [simp]:
  fixes nxt :: "('s, 'e, 'v) stmt_run"
  shows "wrap_chain [] nxt txt ps = nxt txt ps"
  "wrap_chain (mw # stack) nxt txt ps = mw txt ps (wrap_chain stack nxt)"
proof -
  have "wrap_chain stack nxt = fold wrap_with (rev stack) nxt" for stack :: "('s, 'e, 'v) sql_hook list"
    by (auto simp: wrap_chain_def fun_eq_iff)
  then show "wrap_chain (mw # stack) nxt txt ps = mw txt ps (wrap_chain stack nxt)"
    by (simp add: wrap_chain_def wrap_with_def)
qed (simp add: wrap_chain_def)

text \<open>Hooks that record when they are entered and left.\<close>

datatype mark = Enter nat | Leave nat

definition tracing :: "nat \<Rightarrow> ('s \<times> mark list, 'e, 'v) sql_hook" where
  "tracing k txt ps next = (\<lambda>(s, tr). case next txt ps (s, tr @ [Enter k]) of (r, (s', tr')) \<Rightarrow> (r, (s', tr' @ [Leave k])))"

definition lift_run :: "('s, 'e, 'v) stmt_run \<Rightarrow> ('s \<times> mark list, 'e, 'v) stmt_run" where
  "lift_run op txt ps = (\<lambda>(s, tr). case op txt ps s of (r, s') \<Rightarrow> (r, (s', tr)))"

lemma tracing_chain:
  "wrap_chain (map tracing ks) (lift_run op) txt ps (s, tr)
   = (fst (op txt ps s), (snd (op txt ps s), tr @ map Enter ks @ rev (map Leave ks)))"
  by (induction ks arbitrary: tr) (simp_all add: lift_run_def tracing_def split_beta)

text \<open>
  The middlewares nest like an onion: they are entered in the order of registration and left in the
  reverse order, the statement runs exactly once, in the middle, and its outcome, error or not, is the
  outcome of the whole.
\<close>

theorem chain_is_an_onion:
  "wrap_chain (map tracing ks) (lift_run (\<lambda>q p s. (route_r q, s @ [q]))) txt ps (log, [])
   = (route_r txt, (log @ [txt], map Enter ks @ map Leave (rev ks)))"
  by (simp add: tracing_chain rev_map)

section \<open>The registry\<close>

datatype method_kind = Mfind | MfindOne | MfindById | Mcount | Mcreate | McreateMany | Mupdate | MupdateMany | Mdelete | Mquery

type_synonym ('a, 'r) method_hook = "jsval \<Rightarrow> ('a \<Rightarrow> 'r) \<Rightarrow> 'a \<Rightarrow> 'r"

record ('s, 'e, 'v, 'a, 'r) descriptor =
  mw_id :: nat
  mw_sql :: "('s, 'e, 'v) sql_hook option"
  mw_methods :: "method_kind \<Rightarrow> ('a, 'r) method_hook option"

record ('d, 't) mw_registry =
  stack :: "'d list"
  states :: "nat \<Rightarrow> 't option"

definition registry_new :: "('d, 't) mw_registry" where
  "registry_new = \<lparr>stack = [], states = (\<lambda>_. None)\<rparr>"

definition stateFor :: "nat \<Rightarrow> 't \<Rightarrow> ('d, 't) mw_registry \<Rightarrow> 't \<times> ('d, 't) mw_registry" where
  "stateFor token fresh reg = (case states reg token of
      Some st \<Rightarrow> (st, reg)
    | None \<Rightarrow> (fresh, reg\<lparr>states := (states reg)(token \<mapsto> fresh)\<rparr>))"

definition resetStateFor :: "nat \<Rightarrow> 't \<Rightarrow> ('d, 't) mw_registry \<Rightarrow> ('d, 't) mw_registry" where
  "resetStateFor token fresh reg = reg\<lparr>states := (states reg)(token \<mapsto> fresh)\<rparr>"

text \<open>\<open>indexOf\<close> compares by identity; the unsubscriber of \<open>use\<close> and \<open>remove\<close> delete the first occurrence.\<close>

fun remove_first :: "('d \<Rightarrow> bool) \<Rightarrow> 'd list \<Rightarrow> 'd list" where
  "remove_first P [] = []"
| "remove_first P (d # ds) = (if P d then ds else d # remove_first P ds)"

definition registry_use :: "'d \<Rightarrow> ('d, 't) mw_registry \<Rightarrow> ('d, 't) mw_registry" where
  "registry_use d reg = reg\<lparr>stack := stack reg @ [d]\<rparr>"

definition registry_remove :: "('d \<Rightarrow> nat) \<Rightarrow> 'd \<Rightarrow> ('d, 't) mw_registry \<Rightarrow> bool \<times> ('d, 't) mw_registry" where
  "registry_remove ident d reg =
     (if list_ex (\<lambda>d'. ident d' = ident d) (stack reg)
      then (True, reg\<lparr>stack := remove_first (\<lambda>d'. ident d' = ident d) (stack reg)\<rparr>)
      else (False, reg))"

definition registry_clear :: "('d, 't) mw_registry \<Rightarrow> ('d, 't) mw_registry" where
  "registry_clear reg = reg\<lparr>stack := []\<rparr>"

definition registry_copy :: "('d, 't) mw_registry \<Rightarrow> ('d, 't) mw_registry" where
  "registry_copy reg = registry_new\<lparr>stack := stack reg\<rparr>"

definition sqlHooks :: "(('s, 'e, 'v, 'a, 'r) descriptor, 't) mw_registry \<Rightarrow> ('s, 'e, 'v) sql_hook list" where
  "sqlHooks reg = List.map_filter mw_sql (stack reg)"

definition methodHooks :: "method_kind \<Rightarrow> (('s, 'e, 'v, 'a, 'r) descriptor, 't) mw_registry \<Rightarrow> ('a, 'r) method_hook list" where
  "methodHooks kind reg = List.map_filter (\<lambda>d. mw_methods d kind) (stack reg)"

lemma remove_undoes_use:
  "list_all (\<lambda>d'. ident d' \<noteq> ident d) (stack reg) \<Longrightarrow> registry_remove ident d (registry_use d reg) = (True, reg)"
proof -
  have "list_all (\<lambda>d'. ident d' \<noteq> ident d) ds \<Longrightarrow> remove_first (\<lambda>d'. ident d' = ident d) (ds @ [d]) = ds" for ds
    by (induction ds) auto
  then show "list_all (\<lambda>d'. ident d' \<noteq> ident d) (stack reg) \<Longrightarrow> ?thesis"
    by (simp add: registry_remove_def registry_use_def)
qed

section \<open>Scopes\<close>

text \<open>
  \<open>registryScope\<close> is an \<open>AsyncLocalStorage\<close>: the registry of the running scope, or the global one.
\<close>

record ('d, 't) mw_world =
  globalRegistry :: "('d, 't) mw_registry"
  scopeRegistry :: "('d, 't) mw_registry option"

definition currentRegistry :: "('d, 't) mw_world \<Rightarrow> ('d, 't) mw_registry" where
  "currentRegistry w = (case scopeRegistry w of Some r \<Rightarrow> r | None \<Rightarrow> globalRegistry w)"

definition update_current :: "(('d, 't) mw_registry \<Rightarrow> ('d, 't) mw_registry) \<Rightarrow> ('d, 't) mw_world \<Rightarrow> ('d, 't) mw_world" where
  "update_current f w = (case scopeRegistry w of
      Some r \<Rightarrow> w\<lparr>scopeRegistry := Some (f r)\<rparr>
    | None \<Rightarrow> w\<lparr>globalRegistry := f (globalRegistry w)\<rparr>)"

definition withMiddlewareScope :: "bool \<Rightarrow> (('d, 't) mw_world \<Rightarrow> ('d, 't) mw_world) \<Rightarrow> ('d, 't) mw_world \<Rightarrow> ('d, 't) mw_world" where
  "withMiddlewareScope inherit fn w =
     (let seed = (if inherit then registry_copy (currentRegistry w) else registry_new);
          w' = fn (w\<lparr>scopeRegistry := Some seed\<rparr>)
      in w'\<lparr>scopeRegistry := scopeRegistry w\<rparr>)"

text \<open>What a program does with the current registry.\<close>

datatype ('d, 't) mw_op = Register 'd | Unregister 'd | ReadState nat 't | ResetState nat 't | Scope bool "('d, 't) mw_op list"

fun do_op :: "('d \<Rightarrow> nat) \<Rightarrow> ('d, 't) mw_op \<Rightarrow> ('d, 't) mw_world \<Rightarrow> ('d, 't) mw_world"
  and do_ops :: "('d \<Rightarrow> nat) \<Rightarrow> ('d, 't) mw_op list \<Rightarrow> ('d, 't) mw_world \<Rightarrow> ('d, 't) mw_world" where
  "do_op ident (Register d) w = update_current (registry_use d) w"
| "do_op ident (Unregister d) w = update_current (\<lambda>r. snd (registry_remove ident d r)) w"
| "do_op ident (ReadState t fresh) w = update_current (\<lambda>r. snd (stateFor t fresh r)) w"
| "do_op ident (ResetState t fresh) w = update_current (resetStateFor t fresh) w"
| "do_op ident (Scope inherit ops) w = withMiddlewareScope inherit (do_ops ident ops) w"
| "do_ops ident [] w = w"
| "do_ops ident (x # xs) w = do_ops ident xs (do_op ident x w)"

lemma scoped_ops_keep_global:
  "scopeRegistry w \<noteq> None \<Longrightarrow> globalRegistry (do_op ident x w) = globalRegistry w \<and> scopeRegistry (do_op ident x w) \<noteq> None"
  "scopeRegistry w \<noteq> None \<Longrightarrow> globalRegistry (do_ops ident xs w) = globalRegistry w \<and> scopeRegistry (do_ops ident xs w) \<noteq> None"
  by (induction ident x w and ident xs w rule: do_op_do_ops.induct)
    (auto simp: update_current_def withMiddlewareScope_def Let_def)

text \<open>
  What runs inside a middleware scope is isolated: whatever it registers, removes or writes into
  middleware state, nested scopes included, the registries outside are the same when it is over.
\<close>

theorem scopes_are_isolated:
  "do_op ident (Scope inherit ops) w = w"
proof -
  let ?w = "w\<lparr>scopeRegistry := Some (if inherit then registry_copy (currentRegistry w) else registry_new)\<rparr>"
  have "globalRegistry (do_ops ident ops ?w) = globalRegistry w"
    using scoped_ops_keep_global(2) [of ?w ident ops] by simp
  then show ?thesis by (simp add: withMiddlewareScope_def Let_def)
qed

section \<open>Method hooks\<close>

definition runMethod :: "('a, 'r) method_hook list \<Rightarrow> jsval \<Rightarrow> ('a \<Rightarrow> 'r) \<Rightarrow> 'a \<Rightarrow> 'r" where
  "runMethod hooks model core args =
     (if hooks = [] then core args else fold (\<lambda>hook inner a. hook model inner a) (rev hooks) core args)"

lemma runMethod_simps:
  "runMethod [] model core args = core args"
  "runMethod (h # hs) model core args = h model (runMethod hs model core) args"
proof -
  have "runMethod hs model core = fold (\<lambda>hook inner a. hook model inner a) (rev hs) core" for hs
    by (auto simp: runMethod_def fun_eq_iff)
  then show "runMethod (h # hs) model core args = h model (runMethod hs model core) args"
    by (simp add: runMethod_def)
qed (simp add: runMethod_def)

end
