(* ===== verification/RawStatement.thy ===== *)
theory RawStatement
  imports MiddlewareChain Lexical
begin

text \<open>
  Raw statements: \<open>returnsRows\<close>, \<open>isReadOnlyStatement\<close> and \<open>rawExecute\<close> of \<open>src/scp/middleware.ts\<close>.
  The regular expressions are those of the theory \<open>Lexical\<close>.
\<close>

section \<open>Classifying a statement\<close>

definition returnsRows :: "string \<Rightarrow> bool" where
  "returnsRows q \<longleftrightarrow>
     starts_with_keyword [''select'', ''with'', ''show'', ''pragma'', ''values'', ''explain'', ''table''] q
     \<or> contains_keyword [''returning''] q"

definition isReadOnlyStatement :: "string \<Rightarrow> bool" where
  "isReadOnlyStatement q =
     (if starts_with_keyword [''with'', ''explain''] q
      then \<not> contains_keyword [''insert'', ''update'', ''delete'', ''merge''] q
      else starts_with_keyword [''select'', ''show'', ''pragma'', ''values'', ''table''] q
           \<and> \<not> contains_keyword [''returning''] q)"

lemma keywords_plain:
  "list_all plain_word [''select'', ''with'', ''show'', ''pragma'', ''values'', ''explain'', ''table'', ''returning'',
     ''insert'', ''update'', ''delete'', ''merge'']"
  by code_simp

text \<open>
  Whether a raw statement counts as read-only is decided by its words alone, whatever their case and
  the white space: its first word is a reading keyword, and it holds neither \<open>returning\<close> nor, after
  \<open>with\<close> or \<open>explain\<close>, a data-changing keyword.
\<close>

theorem read_only_by_words:
  "isReadOnlyStatement q \<longleftrightarrow>
     (first_word q \<in> {Some ''with'', Some ''explain''} \<and> set (words q) \<inter> {''insert'', ''update'', ''delete'', ''merge''} = {})
     \<or> (first_word q \<in> {Some ''select'', Some ''show'', Some ''pragma'', Some ''values'', Some ''table''}
        \<and> ''returning'' \<notin> set (words q))"
  using keywords_plain
  by (auto simp: isReadOnlyStatement_def starts_is_first_word contains_is_word)

text \<open>Statements that change the database and pass for reads.\<close>

lemma writes_classified_read_only:
  "isReadOnlyStatement ''PRAGMA user_version = 5'' \<and> isReadOnlyStatement ''SELECT 1 INTO t''"
  by code_simp

section \<open>\<open>rawExecute\<close>\<close>

record 'row raw_result =
  rows :: "'row list"
  rowCount :: nat

definition rawExecute ::
  "(intent \<Rightarrow> ('s, 'e, 'row list) stmt_run) \<Rightarrow> (intent \<Rightarrow> ('s, 'e, nat) stmt_run) \<Rightarrow> bool option
     \<Rightarrow> string \<Rightarrow> jsval list \<Rightarrow> 's \<Rightarrow> ('e + 'row raw_result) \<times> 's" where
  "rawExecute execute run write q ps s =
     (if returnsRows q
      then (case execute \<lparr>int_write = or_default write (\<not> isReadOnlyStatement q), int_db = None\<rparr> q ps s of
          (Inl e, s') \<Rightarrow> (Inl e, s')
        | (Inr rs, s') \<Rightarrow> (Inr \<lparr>rows = rs, rowCount = length rs\<rparr>, s'))
      else (case run \<lparr>int_write = True, int_db = None\<rparr> q ps s of
          (Inl e, s') \<Rightarrow> (Inl e, s')
        | (Inr changes, s') \<Rightarrow> (Inr \<lparr>rows = [], rowCount = changes\<rparr>, s')))"

text \<open>The read seam is asked for a reader exactly for the statements judged read-only.\<close>

lemma read_only_returns_rows: "isReadOnlyStatement q \<Longrightarrow> returnsRows q"
  by (auto simp: isReadOnlyStatement_def returnsRows_def starts_with_keyword_def split: if_splits)

end
