(* ===== verification/Spec2Isabelle.thy ===== *)
theory Spec2Isabelle
  imports DialectStrategy DbRuntime RelationLoads LazyContext TypedObject RequestScope DbHandler DriverLiterals Fragments
    TransactionSync RawStatement
begin

text \<open>
  A development of litedbmodel's SQL layer, the part of \<open>src/\<close> that turns models, conditions, relations
  and writes into SQL and runs it on pooled connections.

  \<^bold>\<open>How the program is put together.\<close>  A value wrapper (\<open>DBValues.ts\<close>) or a condition object
  (\<open>DBConditions.ts\<close>) compiles itself to SQL text with \<open>?\<close> placeholders and appends the values it binds to a
  shared list.  The compilers of \<open>scp/makesql/\<close> (SELECT, INSERT, UPDATE, DELETE, relation loads, authored
  write nodes) assemble such texts into the one catalog leaf \<open>makeSQL\<close>, with the dialect's builder
  (\<open>drivers/*SqlBuilder.ts\<close>) for the batch forms.  The leaf \<open>executeSQL\<close> (\<open>scp/leaves.ts\<close>) renders the
  placeholders for the dialect, encodes the values for the driver, checks the hard limits
  (\<open>scp/limit-config.ts\<close>) and hands the statement to the execute or run seam of an execution context
  (\<open>scp/exec-context.ts\<close>), which passes it through the middleware chain (\<open>scp/middleware.ts\<close>) to a
  connection.  The routing (\<open>scp/connection-routing.ts\<close>) picks the pool; a transaction pins one
  connection, guards it against the queries its body leaves behind, and retries transient failures.

  \<^bold>\<open>Which theory models what.\<close>
  \<^item> \<^verbatim>\<open>Prelude\<close>, \<^verbatim>\<open>Lexical\<close>: decimal texts, the error type, the result monad, ordered objects, the count of
    placeholders, the locale \<open>sql_emitter\<close> of every producer that appends to the value list; characters,
    keywords and words as JavaScript's regular expressions see them.
  \<^item> \<^verbatim>\<open>JsValue\<close>, \<^verbatim>\<open>DBValues\<close>, \<^verbatim>\<open>DBConds\<close>: JavaScript values, the wrapper classes, the WHERE compiler.
  \<^item> \<^verbatim>\<open>MakeSQL\<close>, \<^verbatim>\<open>JsonArray\<close>, \<^verbatim>\<open>CompileSelect\<close>: \<open>makesql.ts\<close>, \<open>handler.ts\<close>, \<open>json-array.ts\<close>, \<open>compile.ts\<close>,
    \<open>compile-select.ts\<close>.
  \<^item> \<^verbatim>\<open>DialectStrategy\<close>, \<^verbatim>\<open>Builders\<close>, \<^verbatim>\<open>MysqlBuilder\<close>, \<^verbatim>\<open>PgBuilder\<close>, \<^verbatim>\<open>JsonBatch\<close>, \<^verbatim>\<open>CompileCrud\<close>: \<open>dialect.ts\<close>,
    the three builders (interpretations of the locale \<open>sql_builder\<close>), \<open>json-batch.ts\<close>, \<open>compile-crud.ts\<close>.
  \<^item> \<^verbatim>\<open>CompileRelation\<close>, \<^verbatim>\<open>Grouping\<close>, \<^verbatim>\<open>LimitConfig\<close>, \<^verbatim>\<open>RelationOp\<close>: \<open>compile-relation.ts\<close>, \<open>grouping.ts\<close>,
    \<open>limit-config.ts\<close>, \<open>relation.ts\<close>; the locale \<open>batch_source\<close> is the fetch by key set a load relies on.
  \<^item> \<^verbatim>\<open>ColType\<close>, \<^verbatim>\<open>Projection\<close>: \<open>coltype.ts\<close>, \<open>outtype.ts\<close>.
  \<^item> \<^verbatim>\<open>Leaves\<close>: \<open>leaves.ts\<close>, with the ports of \<open>leaf-transport.ts\<close>.
  \<^item> \<^verbatim>\<open>WriteNode\<close>, \<^verbatim>\<open>MysqlReturning\<close>: \<open>tx.ts\<close>, the compilation of authored write nodes; \<open>mysql-returning.ts\<close> and
    the connection that runs it, the re-read of written rows on MySQL, which has no RETURNING.
  \<^item> \<^verbatim>\<open>TxPlan\<close>, \<^verbatim>\<open>WriteBundle\<close>: the plans of \<open>tx.ts\<close> and their execution in a transaction, \<open>errors.ts\<close>;
    \<open>write-bundle.ts\<close> and \<open>writeouttype.ts\<close>.
  \<^item> \<^verbatim>\<open>DbRuntime\<close>: \<open>dbmodel-runtime.ts\<close> with the cache of contexts in the statics of the model classes; a
    builder of contexts is the locale \<open>context_provider\<close>, the life of the classes a relation.
  \<^item> \<^verbatim>\<open>Columns\<close>, \<^verbatim>\<open>ModelMeta\<close>, \<^verbatim>\<open>ModelSelect\<close>, \<^verbatim>\<open>Adapter\<close>, \<^verbatim>\<open>ModelWrite\<close>: \<open>Column.ts\<close> and \<open>SqlFragment.ts\<close>;
    \<open>decorators.ts\<close> with the array casts of \<open>TypeCast.ts\<close> and \<open>PostgresHelper.ts\<close>; the reads of \<open>DBModel.ts\<close>, an
    instance being the object of its fields; \<open>decorator-adapter.ts\<close>; the writes of \<open>DBModel.ts\<close> over both routes.
  \<^item> \<^verbatim>\<open>LazyRelation\<close>, \<^verbatim>\<open>LazyContext\<close>, \<^verbatim>\<open>RelationLoads\<close>: \<open>LazyRelation.ts\<close> with the relations of a record in
    \<open>DBModel.ts\<close> and their getter; the accesses in flight are a step relation over the loads of a context; the
    statements of the lazy loads and those of the relation compiler.
  \<^item> \<^verbatim>\<open>TypedObject\<close>, \<^verbatim>\<open>RequestScope\<close>: \<open>typed-object.ts\<close>; \<open>RequestScope.ts\<close> with the v1 middleware of \<open>Middleware.ts\<close>,
    its chain in \<open>DBModel.ts\<close> and \<open>statistics.ts\<close>, the requests being a step relation.
  \<^item> \<^verbatim>\<open>JsonParse\<close>, \<^verbatim>\<open>DriverCasts\<close>, \<^verbatim>\<open>DbHandler\<close>, \<^verbatim>\<open>DriverLiterals\<close>: \<open>JSON.parse\<close>; \<open>TypeCast.ts\<close> and the read
    casts of \<open>PostgresHelper.ts\<close>, \<open>MysqlHelper.ts\<close> and \<open>SqliteHelper.ts\<close>; \<open>DBHandler.ts\<close>; the SQL literals and
    type tables of the three helpers.
  \<^item> \<^verbatim>\<open>Fragments\<close>: \<open>scp/fragment/\<close>, the fragment tree, its assembly and its compilers against those of the active
    record.
  \<^item> \<^verbatim>\<open>ConnErrors\<close>, \<^verbatim>\<open>TxGuard\<close>, \<^verbatim>\<open>Pools\<close>, \<^verbatim>\<open>Routing\<close>, \<^verbatim>\<open>Transaction\<close>, \<^verbatim>\<open>TransactionSync\<close>,
    \<^verbatim>\<open>TxProperties\<close>: \<open>connection-errors.ts\<close>, \<open>tx-options.ts\<close>, \<open>connection-routing.ts\<close>, \<open>exec-context.ts\<close>,
    \<open>pool-executor.ts\<close>; the gate of a transaction body is a step relation, a pool is the locale \<open>lease_pool\<close>.
  \<^item> \<^verbatim>\<open>MiddlewareChain\<close>, \<^verbatim>\<open>RawStatement\<close>: \<open>middleware.ts\<close>.

  \<^bold>\<open>How code becomes definitions.\<close>  A class of values is a constructor, an options object a record whose
  optional text fields are empty when absent (the code tests them for truth), an object with ordered keys
  an association list, an \<open>undefined\<close> property \<open>JUndef\<close>.  Code that throws returns \<open>Inl\<close> of an error; code
  with effects takes and returns the state, and the driver, the pool and the clock it calls are
  arguments.  Asynchronous code is modelled by the order in which its effects happen; where several
  orders are possible (queries a transaction body does not await) the steps are a relation.

  \<^bold>\<open>What the lemmas show.\<close>  The spine is the arity invariant: every producer appends to the value list
  only, and writes one placeholder per value it appends (\<open>sql_emitter\<close>, \<open>balanced\<close>, \<open>op_fits\<close>), from a
  wrapper up to a relation load and a write node.  On it rest the functional properties of each compiler,
  the equivalence of a batch load with one query per parent and of the active record with the compilers, the
  fail-closed reading of ports, the caps,
  and the connection properties: every connection taken is returned once, a transaction commits once or
  not at all, a lost COMMIT is never repeated.

  \<^bold>\<open>Bounds and fuel.\<close>  Recursions are structural or carry a measure but for the JSON reader, whose
  fuel is the length of the text (every call consumes a character, and \<open>parse_json_text\<close> shows that it suffices
  for what the program writes); the
  retry loop counts down its remaining attempts, \<open>max 1 retryLimit\<close> of them, so every call returns.
  Numbers are exact: a JavaScript integer below \<open>2 ^ 53\<close> is an \<open>int\<close>, a cell of an integer column is
  compared with the signed 64-bit word.

  \<^bold>\<open>Not modelled.\<close>  Strings are sequences of characters up to U+00FF, and upper and lower case are those of
  the ASCII letters.  Objects with integer-like keys, which JavaScript reorders, and keys that name a
  property of \<open>Object.prototype\<close> are outside the model.  The drivers themselves, the promise machinery, the
  code generator of \<open>scp/emit/\<close>, the plumbing of the two decorator
  protocols and the type-level code are not modelled: they are input and output, reflection over classes,
  or text for another compiler.  The behaviour-contract runtime is a dependency, not source.
\<close>

end
